(* ===== verification/PyFloat.thy ===== *)
theory PyFloat
  imports Complex_Main
begin

text \<open>
  Python's \<^verbatim>\<open>float\<close> as the source uses it. A finite binary64 value is a rational number;
  every arithmetic operation is the exact rational result rounded to binary64 (round half to
  even, 53 significant bits, smallest exponent \<open>-1074\<close>, so gradual underflow is included).
  \<open>fl\<close> is that rounding, \<open>fadd\<close>, \<open>fsub\<close>, \<open>fmul\<close> and \<open>fdiv\<close> the four operators,
  \<open>lit\<close> the value of a decimal literal, and \<open>py_round\<close> the builtin \<^verbatim>\<open>round(x, n)\<close>.
  Comparisons of Python floats (and of floats with ints) are exact, so they are the order of
  the rationals. Outside the model: infinities, NaN and the sign of zero, i.e. values of
  magnitude \<open>2 ^ 1024\<close> and above.

  The lemmas: \<open>ilog2_bounds\<close> (the exponent is right), \<open>fl_exact\<close> (a number with at most 53
  bits is unchanged), \<open>fl_mono\<close>, \<open>fl_fl\<close>, and the bounds of the operators that the money
  computations of the other theories rest on.
\<close>

subsection \<open>The exponent of a positive number\<close>

text \<open>The number of binary digits.\<close>

fun blen :: "nat \<Rightarrow> nat" where
  "blen n = (if n = 0 then 0 else Suc (blen (n div 2)))"

declare blen.simps [simp del]

lemma blen_0 [simp]: "blen 0 = 0"
  by (simp add: blen.simps)

lemma blen_pos: "0 < n \<Longrightarrow> blen n = Suc (blen (n div 2))"
  by (simp add: blen.simps)

lemma blen_upper: "n < 2 ^ blen n"
proof (induction n rule: blen.induct)
  case (1 n)
  then show ?case by (cases "n = 0") (auto simp: blen_pos)
qed

lemma blen_lower: "0 < n \<Longrightarrow> 2 ^ (blen n - 1) \<le> n"
proof (induction n rule: blen.induct)
  case (1 n)
  show ?case
  proof (cases "n div 2 = 0")
    case True
    with 1 show ?thesis by (simp add: blen_pos)
  next
    case False
    with 1 have "2 ^ (blen (n div 2) - 1) \<le> n div 2" by simp
    moreover from False have "blen (n div 2) = Suc (blen (n div 2) - 1)"
      by (simp add: blen_pos)
    ultimately have "2 ^ blen (n div 2) \<le> 2 * (n div 2)"
      by (metis mult_le_mono2 power_Suc)
    with 1(2) show ?thesis by (simp add: blen_pos)
  qed
qed

text \<open>The floor of the binary logarithm of a positive rational.\<close>

definition ilog2 :: "rat \<Rightarrow> int" where
  "ilog2 x = (if 1 \<le> x then int (blen (nat \<lfloor>x\<rfloor>)) - 1
              else - int (blen (nat (\<lceil>1 / x\<rceil> - 1))))"

text \<open>Round half to even, to an integer.\<close>

definition rne :: "rat \<Rightarrow> int" where
  "rne y = (let f = \<lfloor>y\<rfloor>; r = y - of_int f in
     if r < 1 / 2 then f else if 1 / 2 < r then f + 1
     else if even f then f else f + 1)"

text \<open>Round half to even, to binary64.\<close>

definition fl :: "rat \<Rightarrow> rat" where
  "fl x = (if x = 0 then 0
     else let e = max (ilog2 \<bar>x\<bar> - 52) (-1074)
          in of_int (rne (x / 2 powi e)) * 2 powi e)"


subsection \<open>Correctness of the exponent\<close>

lemma ilog2_bounds:
  assumes "0 < x"
  shows "2 powi ilog2 x \<le> x" and "x < 2 powi (ilog2 x + 1)"
proof -
  have "2 powi ilog2 x \<le> x \<and> x < 2 powi (ilog2 x + 1)"
  proof (cases "1 \<le> x")
    case True
    define n where "n = nat \<lfloor>x\<rfloor>"
    from True have "1 \<le> \<lfloor>x\<rfloor>" by simp
    then have "of_int \<lfloor>x\<rfloor> = rat_of_nat n" by (simp add: n_def)
    with floor_correct [of x] \<open>1 \<le> \<lfloor>x\<rfloor>\<close>
    have n: "0 < n" "rat_of_nat n \<le> x" "x < rat_of_nat n + 1"
      by (auto simp: n_def)
    have il: "ilog2 x = int (blen n - 1)" "blen n = Suc (blen n - 1)"
      using True n(1) by (simp_all add: ilog2_def n_def [symmetric] blen_pos)
    from blen_lower [OF n(1)] have "(2 :: rat) ^ (blen n - 1) \<le> rat_of_nat n"
      by (metis of_nat_le_iff of_nat_numeral of_nat_power)
    moreover from blen_upper [of n] have "rat_of_nat n + 1 \<le> 2 ^ blen n"
      by (metis Suc_leI of_nat_Suc of_nat_le_iff of_nat_numeral of_nat_power add.commute)
    moreover have "ilog2 x + 1 = int (blen n)" using il by simp
    then have "(2::rat) powi (ilog2 x + 1) = 2 ^ blen n" by (metis power_int_of_nat)
    moreover have "(2::rat) powi ilog2 x = 2 ^ (blen n - 1)" by (simp only: il(1) power_int_of_nat)
    ultimately show ?thesis using n by linarith
  next
    case False
    define c where "c = \<lceil>1 / x\<rceil>"
    define m where "m = nat (c - 1)"
    have c: "1 < 1 / x" "1 / x \<le> of_int c" "of_int c - 1 < 1 / x"
      using False assms ceiling_correct [of "1 / x"] by (simp_all add: c_def)
    then have "1 < c" by linarith
    then have m: "0 < m" "c = int m + 1" by (auto simp: m_def)
    from False have il: "ilog2 x = - int (blen m)"
      by (simp add: ilog2_def m_def c_def)
    from blen_upper [of m] have "1 / x \<le> 2 ^ blen m"
      using c(2) m(2)
      by (smt (verit, best) Suc_leI add.commute of_int_1 of_int_add of_int_of_nat_eq of_nat_Suc of_nat_le_iff of_nat_numeral of_nat_power order_trans)
    then have lo: "2 powi (- int (blen m)) \<le> x"
      using assms by (simp add: power_int_minus field_simps)
    from blen_lower [OF m(1)] have "(2 :: rat) ^ (blen m - 1) \<le> rat_of_nat m"
      by (metis of_nat_le_iff of_nat_numeral of_nat_power)
    moreover have "of_int c - (1::rat) = rat_of_nat m" by (simp add: m(2))
    ultimately have "2 ^ (blen m - 1) < 1 / x" using c(3) by linarith
    then have "x < 1 / 2 ^ (blen m - 1)"
      using assms by (simp add: field_simps)
    moreover have "- int (blen m) + 1 = - int (blen m - 1)"
      using m(1) by (simp add: blen_pos)
    then have "(2::rat) powi (- int (blen m) + 1) = 1 / 2 ^ (blen m - 1)"
      by (simp only: power_int_minus_divide power_int_of_nat)
    ultimately have "x < 2 powi (- int (blen m) + 1)" by (simp only:)
    with lo show ?thesis by (simp add: il)
  qed
  then show "2 powi ilog2 x \<le> x" "x < 2 powi (ilog2 x + 1)" by auto
qed

lemma powi_less_iff [simp]: "(2::rat) powi a < 2 powi b \<longleftrightarrow> a < b"
  by (metis linorder_not_less numeral_le_one_iff one_less_numeral_iff order_le_less_trans
      power_int_increasing power_int_strict_increasing semiring_norm(69,76) one_le_numeral)

lemma powi_le_iff [simp]: "(2::rat) powi a \<le> 2 powi b \<longleftrightarrow> a \<le> b"
  using powi_less_iff [of b a] by linarith

lemma powi_pos [simp]: "0 < (2::rat) powi a"
  by (simp add: zero_less_power_int)

lemma ilog2_mono: "0 < x \<Longrightarrow> x \<le> y \<Longrightarrow> ilog2 x \<le> ilog2 y"
proof -
  assume "0 < x" "x \<le> y"
  then have "(2::rat) powi ilog2 x < 2 powi (ilog2 y + 1)"
    using ilog2_bounds(1) [of x] ilog2_bounds(2) [of y] by linarith
  then show ?thesis by simp
qed

lemma ilog2_ge: "0 < x \<Longrightarrow> 2 powi k \<le> x \<Longrightarrow> k \<le> ilog2 x"
proof -
  assume "0 < x" "2 powi k \<le> x"
  then have "(2::rat) powi k < 2 powi (ilog2 x + 1)"
    using ilog2_bounds(2) [of x] by linarith
  then show ?thesis by simp
qed

subsection \<open>Rounding to an integer\<close>

lemma rne_bounds: "\<bar>of_int (rne y) - y\<bar> \<le> 1 / 2"
  unfolding rne_def Let_def by (auto simp: abs_if) linarith+

lemma rne_of_int [simp]: "rne (of_int k) = k"
  by (simp add: rne_def)

lemma rne_0 [simp]: "rne 0 = 0"
  by (simp add: rne_def)

lemma rne_mono: "x \<le> y \<Longrightarrow> rne x \<le> rne y"
proof -
  assume "x \<le> y"
  then have le: "\<lfloor>x\<rfloor> \<le> \<lfloor>y\<rfloor>" by (rule floor_mono)
  show ?thesis
  proof (cases "\<lfloor>x\<rfloor> = \<lfloor>y\<rfloor>")
    case True
    with \<open>x \<le> y\<close> show ?thesis by (auto simp: rne_def Let_def)
  next
    case False
    with le have "\<lfloor>x\<rfloor> + 1 \<le> \<lfloor>y\<rfloor>" by simp
    then show ?thesis by (auto simp: rne_def Let_def)
  qed
qed

lemma rne_uminus: "rne (- y) = - rne y"
proof (cases "y = of_int \<lfloor>y\<rfloor>")
  case True
  then show ?thesis by (metis of_int_minus rne_of_int)
next
  case False
  with floor_correct [of y] have "of_int \<lfloor>y\<rfloor> < y" "y < of_int \<lfloor>y\<rfloor> + 1"
    by linarith+
  then have "\<lfloor>- y\<rfloor> = - \<lfloor>y\<rfloor> - 1"
    by (intro floor_unique) auto
  then show ?thesis by (auto simp: rne_def Let_def)
qed

subsection \<open>Rounding to binary64\<close>

definition expo :: "rat \<Rightarrow> int" where
  "expo x = max (ilog2 \<bar>x\<bar> - 52) (-1074)"

lemma fl_0 [simp]: "fl 0 = 0"
  by (simp add: fl_def)

lemma fl_expo: "fl x = of_int (rne (x / 2 powi expo x)) * 2 powi expo x"
  by (simp add: fl_def expo_def Let_def)

lemma fl_uminus: "fl (- x) = - fl x"
  by (simp add: fl_expo expo_def rne_uminus flip: minus_divide_left)

lemma expo_abs: "expo (- x) = expo x"
  by (simp add: expo_def)

text \<open>Rounding does not cross a multiple of the unit in the last place.\<close>

lemma fl_le_multiple:
  assumes "x \<le> of_int k * 2 powi expo x"
  shows "fl x \<le> of_int k * 2 powi expo x"
proof -
  from assms have "x / 2 powi expo x \<le> of_int k" by (simp add: field_simps)
  then have "rne (x / 2 powi expo x) \<le> k" by (metis rne_mono rne_of_int)
  then show ?thesis by (simp add: fl_expo)
qed

lemma fl_ge_multiple:
  assumes "of_int k * 2 powi expo x \<le> x"
  shows "of_int k * 2 powi expo x \<le> fl x"
proof -
  from assms have "of_int k \<le> x / 2 powi expo x" by (simp add: field_simps)
  then have "k \<le> rne (x / 2 powi expo x)" by (metis rne_mono rne_of_int)
  then show ?thesis by (simp add: fl_expo)
qed

lemma fl_nonneg: "0 \<le> x \<Longrightarrow> 0 \<le> fl x"
  using fl_ge_multiple [of 0 x] by simp

lemma powi_split:
  assumes "a \<le> b" shows "(2::rat) powi b = of_int (2 ^ nat (b - a)) * 2 powi a"
proof -
  have "(2::rat) powi b = 2 powi (b - a) * 2 powi a"
    by (subst power_int_add [symmetric]) auto
  with assms show ?thesis by (simp add: power_int_nonneg_exp)
qed

text \<open>Numbers with at most 53 significant bits and a fitting exponent are unchanged.\<close>

definition binary64 :: "rat \<Rightarrow> bool" where
  "binary64 x \<longleftrightarrow> (\<exists>m e. x = of_int m * 2 powi e \<and> \<bar>m\<bar> \<le> 2 ^ 53 \<and> -1074 \<le> e)"

lemma rat_div_eqI: "x = a * p \<Longrightarrow> 0 < p \<Longrightarrow> x / p = (a :: rat)"
  by simp

lemma fl_exact:
  assumes "x = of_int m * 2 powi e" and "\<bar>m\<bar> \<le> 2 ^ 53" and "-1074 \<le> e"
  shows "fl x = x"
proof -
  have "\<exists>k. x = of_int k * 2 powi expo x"
  proof (cases "x = 0 \<or> expo x \<le> e")
    case True
    then show ?thesis
    proof
      assume "x = 0"
      then show ?thesis by (intro exI [of _ 0]) simp
    next
      assume "expo x \<le> e"
      then have "x = of_int (m * 2 ^ nat (e - expo x)) * 2 powi expo x"
        using powi_split [of "expo x" e] by (subst assms(1)) (simp del: powi_pos)
      then show ?thesis by blast
    qed
  next
    case False
    then have x: "0 < \<bar>x\<bar>" and e: "expo x = ilog2 \<bar>x\<bar> - 52" "e < expo x"
      using assms(3) by (auto simp: expo_def max_def split: if_splits)
    have ax: "\<bar>x\<bar> = of_int \<bar>m\<bar> * 2 powi e" by (simp add: assms(1) abs_mult)
    have "(2::rat) powi (e + 53) \<le> 2 powi ilog2 \<bar>x\<bar>" using e by simp
    also have "\<dots> \<le> \<bar>x\<bar>" by (rule ilog2_bounds) (fact x)
    finally have "(2::rat) ^ 53 \<le> of_int \<bar>m\<bar>"
      by (simp add: ax power_int_add)
    then have "\<bar>m\<bar> = 2 ^ 53" using assms(2)
      by (metis antisym of_int_le_iff of_int_numeral of_int_power)
    then have ax2: "\<bar>x\<bar> = 2 powi (e + 53)" by (simp add: ax power_int_add)
    then have "(2::rat) powi ilog2 \<bar>x\<bar> \<le> 2 powi (e + 53)"
      by (metis ilog2_bounds(1) x)
    then have "expo x \<le> e + 53" using e by simp
    then have "\<bar>x\<bar> = of_int (2 ^ nat (e + 53 - expo x)) * 2 powi expo x"
      using ax2 powi_split by simp
    then obtain k where "\<bar>x\<bar> = of_int k * 2 powi expo x" by blast
    then have "x = of_int k * 2 powi expo x \<or> x = of_int (- k) * 2 powi expo x"
      by (cases "0 \<le> x") simp_all
    then show ?thesis by blast
  qed
  then obtain k where k: "x = of_int k * 2 powi expo x" ..
  have "x / 2 powi expo x = of_int k"
    using k powi_pos by (rule rat_div_eqI)
  then have "fl x = of_int k * 2 powi expo x" by (simp only: fl_expo rne_of_int)
  then show ?thesis by (rule trans [OF _ k [symmetric]])
qed

lemma fl_mono_pos:
  assumes "0 < x" and "x \<le> y" shows "fl x \<le> fl y"
proof (cases "expo x = expo y")
  case True
  with assms show ?thesis
    by (simp add: fl_expo rne_mono divide_right_mono)
next
  case False
  let ?e = "expo x" and ?B = "(2::rat) powi (ilog2 y)"
  from assms have il: "ilog2 x \<le> ilog2 y" by (simp add: ilog2_mono)
  with False assms have e: "expo y = ilog2 y - 52" "ilog2 x < ilog2 y" "?e < expo y"
    by (auto simp: expo_def max_def split: if_splits)
  have "x < 2 powi (ilog2 x + 1)" using assms(1) by (rule ilog2_bounds)
  also have "\<dots> \<le> ?B" using e by simp
  finally have "x \<le> ?B" by simp
  moreover have "?B = of_int (2 ^ nat (ilog2 y - ?e)) * 2 powi ?e"
    using e by (intro powi_split) simp
  ultimately have "fl x \<le> ?B" by (metis fl_le_multiple)
  moreover have "?B = of_int (2 ^ 52) * 2 powi expo y"
    using powi_split [of "expo y" "ilog2 y"] e by simp
  then have "?B \<le> fl y"
    using assms ilog2_bounds(1) [of y] by (metis fl_ge_multiple order_less_le_trans)
  ultimately show ?thesis by simp
qed

lemma fl_mono: "x \<le> y \<Longrightarrow> fl x \<le> fl y"
proof -
  assume xy: "x \<le> y"
  consider "0 < x" | "x \<le> 0" "0 \<le> y" | "y < 0" using xy by linarith
  then show ?thesis
  proof cases
    case 1 with xy show ?thesis by (simp add: fl_mono_pos)
  next
    case 2 then show ?thesis
      using fl_nonneg [of y] fl_nonneg [of "- x"] by (simp add: fl_uminus)
  next
    case 3 with xy show ?thesis
      using fl_mono_pos [of "- y" "- x"] by (simp add: fl_uminus)
  qed
qed

lemma fl_of_int: "\<bar>m\<bar> \<le> 2 ^ 53 \<Longrightarrow> fl (of_int m) = of_int m"
  using fl_exact [of "of_int m" m 0] by simp

lemma fl_1 [simp]: "fl 1 = 1"
  using fl_of_int [of 1] by simp

lemma fl_numeral: "numeral k \<le> (2::int) ^ 53 \<Longrightarrow> fl (numeral k) = numeral k"
  using fl_of_int [of "numeral k"] by simp

lemma fl_bounds_rne: "\<bar>rne (x / 2 powi expo x)\<bar> \<le> 2 ^ 53"
proof (cases "x = 0")
  case False
  then have "\<bar>x\<bar> < 2 powi (ilog2 \<bar>x\<bar> + 1)" by (simp add: ilog2_bounds)
  also have "\<dots> \<le> 2 powi (expo x + 53)" by (simp add: expo_def)
  finally have "\<bar>x\<bar> \<le> 2 ^ 53 * 2 powi expo x" by (simp add: power_int_add)
  then have "x / 2 powi expo x \<le> of_int (2 ^ 53)" "of_int (- (2 ^ 53)) \<le> x / 2 powi expo x"
    by (auto simp: field_simps abs_le_iff)
  then show ?thesis by (metis abs_le_iff minus_le_iff rne_mono rne_of_int)
qed simp

lemma fl_fl [simp]: "fl (fl x) = fl x"
  by (rule fl_exact [OF fl_expo fl_bounds_rne]) (simp add: expo_def)

lemma binary64_iff: "binary64 x \<longleftrightarrow> fl x = x"
proof
  assume "fl x = x"
  then show "binary64 x"
    unfolding binary64_def using fl_expo [of x] fl_bounds_rne [of x]
    by (metis expo_def max.cobounded2)
qed (auto simp: binary64_def intro: fl_exact)

lemma binary64_fl [simp]: "binary64 (fl x)"
  by (simp add: binary64_iff)

lemma fl_le: "x \<le> y \<Longrightarrow> binary64 y \<Longrightarrow> fl x \<le> y"
  by (metis fl_mono binary64_iff)

lemma fl_ge: "y \<le> x \<Longrightarrow> binary64 y \<Longrightarrow> y \<le> fl x"
  by (metis fl_mono binary64_iff)


subsection \<open>Operators\<close>

definition fadd :: "rat \<Rightarrow> rat \<Rightarrow> rat" where "fadd a b = fl (a + b)"
definition fsub :: "rat \<Rightarrow> rat \<Rightarrow> rat" where "fsub a b = fl (a - b)"
definition fmul :: "rat \<Rightarrow> rat \<Rightarrow> rat" where "fmul a b = fl (a * b)"

text \<open>Division is applied to a divisor the caller has shown to be non-zero.\<close>

definition fdiv :: "rat \<Rightarrow> rat \<Rightarrow> rat" where "fdiv a b = fl (a / b)"

text \<open>A decimal literal of the source.\<close>

definition lit :: "rat \<Rightarrow> rat" where "lit q = fl q"

text \<open>
  \<^verbatim>\<open>round(x, n)\<close>: CPython formats the exact value of \<open>x\<close> with \<open>n\<close> decimals (half to even)
  and reads the decimal back.
\<close>

definition py_round :: "nat \<Rightarrow> rat \<Rightarrow> rat" where
  "py_round n x = fl (of_int (rne (x * 10 ^ n)) / 10 ^ n)"

text \<open>\<^verbatim>\<open>int(x)\<close> truncates towards zero.\<close>

definition py_int :: "rat \<Rightarrow> int" where
  "py_int x = (if 0 \<le> x then \<lfloor>x\<rfloor> else \<lceil>x\<rceil>)"

lemmas fops = fadd_def fsub_def fmul_def fdiv_def

lemma py_round_mono: "x \<le> y \<Longrightarrow> py_round n x \<le> py_round n y"
  by (simp add: py_round_def fl_mono rne_mono divide_right_mono)

lemma py_round_0 [simp]: "py_round n 0 = 0"
  by (simp add: py_round_def)

lemma py_round_nonneg: "0 \<le> x \<Longrightarrow> 0 \<le> py_round n x"
  using py_round_mono [of 0 x n] by simp

lemma py_round_nonpos: "x \<le> 0 \<Longrightarrow> py_round n x \<le> 0"
  using py_round_mono [of x 0 n] by simp

lemma py_round_uminus: "py_round n (- x) = - py_round n x"
  by (simp add: py_round_def rne_uminus fl_uminus flip: minus_divide_left)

lemma binary64_ops [simp]:
  "binary64 (fadd a b)" "binary64 (fsub a b)" "binary64 (fmul a b)" "binary64 (fdiv a b)"
  "binary64 (lit q)" "binary64 (py_round n a)"
  by (simp_all add: fops lit_def py_round_def)

lemma binary64_0 [simp]: "binary64 0" and binary64_1 [simp]: "binary64 1"
  by (simp_all add: binary64_iff)

lemma fmul_nonneg: "0 \<le> a \<Longrightarrow> 0 \<le> b \<Longrightarrow> 0 \<le> fmul a b"
  by (simp add: fmul_def fl_nonneg)

lemma fdiv_nonneg: "0 \<le> a \<Longrightarrow> 0 \<le> b \<Longrightarrow> 0 \<le> fdiv a b"
  by (simp add: fdiv_def fl_nonneg)

lemma fadd_nonneg: "0 \<le> a \<Longrightarrow> 0 \<le> b \<Longrightarrow> 0 \<le> fadd a b"
  by (simp add: fadd_def fl_nonneg)

text \<open>A factor of at most one does not increase a binary64 value.\<close>

lemma fmul_le_left: "binary64 a \<Longrightarrow> 0 \<le> a \<Longrightarrow> b \<le> 1 \<Longrightarrow> fmul a b \<le> a"
  by (simp add: fmul_def fl_le mult_left_le)

lemma fsub_nonneg: "b \<le> a \<Longrightarrow> 0 \<le> fsub a b"
  by (simp add: fsub_def fl_nonneg)

lemma fsub_nonpos: "a \<le> b \<Longrightarrow> fsub a b \<le> 0"
  by (simp add: fsub_def fl_le)

lemma fsub_le: "binary64 a \<Longrightarrow> 0 \<le> b \<Longrightarrow> fsub a b \<le> a"
  by (simp add: fsub_def fl_le)

lemma fsub_self [simp]: "fsub a a = 0"
  by (simp add: fsub_def)

lemma fmul_0 [simp]: "fmul 0 a = 0" "fmul a 0 = 0"
  by (simp_all add: fmul_def)

lemma fmul_1: "binary64 a \<Longrightarrow> fmul a 1 = a"
  by (simp add: fmul_def binary64_iff)

lemma fmul_mono: "0 \<le> a \<Longrightarrow> b \<le> c \<Longrightarrow> fmul a b \<le> fmul a c"
  by (simp add: fmul_def fl_mono mult_left_mono)

lemma fadd_mono: "a \<le> b \<Longrightarrow> fadd a c \<le> fadd b c"
  by (simp add: fadd_def fl_mono)

lemma fdiv_mono: "0 < c \<Longrightarrow> a \<le> b \<Longrightarrow> fdiv a c \<le> fdiv b c"
  by (simp add: fdiv_def fl_mono divide_right_mono)

lemma fsub_mono: "a \<le> b \<Longrightarrow> fsub a c \<le> fsub b c"
  by (simp add: fsub_def fl_mono)

text \<open>The relative error of one rounding, for results in the normal range.\<close>

lemma fl_error:
  assumes "2 powi (-1022) \<le> \<bar>x\<bar>"
  shows "\<bar>fl x - x\<bar> \<le> \<bar>x\<bar> / 2 ^ 53"
proof -
  let ?p = "(2::rat) powi expo x"
  have x: "0 < \<bar>x\<bar>" using assms powi_pos [of "-1022"] by linarith
  then have "-1022 \<le> ilog2 \<bar>x\<bar>" using assms by (rule ilog2_ge)
  then have "ilog2 \<bar>x\<bar> = expo x + 52" by (simp add: expo_def)
  with ilog2_bounds(1) [OF x] have p: "?p * 2 ^ 52 \<le> \<bar>x\<bar>" by (simp add: power_int_add)
  have "fl x - x = (of_int (rne (x / ?p)) - x / ?p) * ?p"
    by (simp add: fl_expo left_diff_distrib)
  then have "\<bar>fl x - x\<bar> \<le> 1 / 2 * ?p"
    using rne_bounds [of "x / ?p"] by (simp add: abs_mult mult_right_mono del: times_divide_eq_left)
  with p show ?thesis by (simp add: field_simps)
qed

subsection \<open>Faster evaluation\<close>

text \<open>
  Rounding on the numerator and the denominator, and powers of two as integers: the same
  functions with code equations that avoid rational normalisation.
\<close>

lemma rne_code [code]:
  "rne y = (case quotient_of y of (n, d) \<Rightarrow> (let q = n div d; r = n mod d
     in if 2 * r < d then q else if d < 2 * r then q + 1 else if even q then q else q + 1))"
proof -
  obtain n d where q: "quotient_of y = (n, d)" by fastforce
  have d: "0 < d" and y: "y = of_int n / of_int d"
    using quotient_of_denom_pos [OF q] quotient_of_div [OF q] by simp_all
  have f: "\<lfloor>y\<rfloor> = n div d" by (simp add: y floor_divide_of_int_eq)
  have "rat_of_int n = of_int d * of_int (n div d) + of_int (n mod d)"
    by (metis mult_div_mod_eq of_int_add of_int_mult)
  then have r: "y - of_int (n div d) = of_int (n mod d) / of_int d"
    using d by (simp add: y field_simps)
  have a: "y - of_int (n div d) < 1 / 2 \<longleftrightarrow> 2 * (n mod d) < d"
  proof -
    have "y - of_int (n div d) < 1 / 2 \<longleftrightarrow> (of_int (2 * (n mod d)) :: rat) < of_int d"
      unfolding r using d by (simp add: field_simps)
    then show ?thesis by (simp only: of_int_less_iff)
  qed
  have b: "1 / 2 < y - of_int (n div d) \<longleftrightarrow> d < 2 * (n mod d)"
  proof -
    have "1 / 2 < y - of_int (n div d) \<longleftrightarrow> (of_int d :: rat) < of_int (2 * (n mod d))"
      unfolding r using d by (simp add: field_simps)
    then show ?thesis by (simp only: of_int_less_iff)
  qed
  show ?thesis by (simp only: rne_def Let_def q f a b prod.case)
qed

lemma powi_as_inverse: "e < 0 \<Longrightarrow> (2::rat) powi e = 1 / of_int (2 ^ nat (- e))"
  by (simp add: power_int_def power_one_over field_simps)

lemma powi_as_power: "0 \<le> e \<Longrightarrow> (2::rat) powi e = of_int (2 ^ nat e)"
  by (simp add: power_int_def)

lemma fl_code [code]:
  "fl x = (if x = 0 then 0
     else let e = max (ilog2 \<bar>x\<bar> - 52) (-1074)
          in if 0 \<le> e then of_int (rne (x / of_int (2 ^ nat e)) * 2 ^ nat e)
             else of_int (rne (x * of_int (2 ^ nat (- e)))) / of_int (2 ^ nat (- e)))"
proof -
  have "of_int (rne (x / 2 powi e)) * 2 powi e =
      (if 0 \<le> e then rat_of_int (rne (x / of_int (2 ^ nat e)) * 2 ^ nat e)
       else of_int (rne (x * of_int (2 ^ nat (- e)))) / of_int (2 ^ nat (- e)))" for e
  proof (cases "0 \<le> e")
    case True
    then show ?thesis by (simp only: if_True powi_as_power of_int_mult of_int_power of_int_numeral)
  next
    case False
    then have n: "e < 0" by simp
    show ?thesis unfolding if_not_P [OF False] powi_as_inverse [OF n]
      by (simp only: divide_divide_eq_right div_by_1 times_divide_eq_right mult_1_right)
  qed
  then show ?thesis unfolding fl_def Let_def by (simp only:)
qed

end
