(* ===== verification/Prelude.thy ===== *)
theory Prelude
  imports Main "HOL-Library.AList" PyFloat
begin

text \<open>
  What every component of the model shares: the exceptions the source raises, the result of
  an operation that may raise after it has changed its object (\<open>ebind\<close> sequences two of
  them), Python's insertion-ordered dictionaries as association lists, the ASCII string
  methods, the time stamp at the end of an event slug, and the 300-second slot grid.
\<close>

section \<open>Collections of facts\<close>

named_theorems dict_simps
  \<open>lookup, update and deletion on dictionaries\<close>
named_theorems trans_simps
  \<open>allowed transitions of the two life cycles\<close>

section \<open>Values\<close>

text \<open>
  Floats are binary64 values held as rationals (\<open>PyFloat\<close>). A \<^verbatim>\<open>datetime\<close> is its number of
  microseconds since the epoch; \<open>total_seconds\<close> is the float division Python performs.
  \<^verbatim>\<open>time.time()\<close> is a float number of seconds.
\<close>

type_synonym num = rat
type_synonym usec = int

definition total_seconds :: "usec \<Rightarrow> num" where
  "total_seconds d = fl (of_int d / 1000000)"

section \<open>Exceptions\<close>

datatype exc = KeyError | IndexError | AttributeError | ZeroDivisionError | TypeError | ValueError | RuntimeError
  | InvalidPositionTransition | InvalidTransitionError | DuplicateSessionError

text \<open>
  An operation returns the state it leaves behind together with its result or the exception
  it raised: a Python method that raises keeps the assignments made before.
\<close>

type_synonym ('s, 'a) outcome = "'s \<times> (exc + 'a)"

definition ebind :: "('s, 'a) outcome \<Rightarrow> ('s \<Rightarrow> 'a \<Rightarrow> ('s, 'b) outcome) \<Rightarrow> ('s, 'b) outcome" where
  "ebind r f = (case r of (s, Inl e) \<Rightarrow> (s, Inl e) | (s, Inr x) \<Rightarrow> f s x)"

lemma ebind_simps [simp]:
  "ebind (s, Inl e) f = (s, Inl e)"
  "ebind (s, Inr x) f = f s x"
  by (simp_all add: ebind_def)

lemma ebind_Inr_iff:
  "ebind r f = (s', Inr y) \<longleftrightarrow> (\<exists>s x. r = (s, Inr x) \<and> f s x = (s', Inr y))"
  by (auto simp: ebind_def split: prod.splits sum.splits)

section \<open>Dictionaries\<close>

text \<open>
  A \<^verbatim>\<open>dict\<close> is an association list in insertion order: an assignment replaces the value of
  an existing key in place and appends a new key, as \<open>AList.update\<close> does. Iteration order is
  the list's.
\<close>

type_synonym ('k, 'v) dict = "('k \<times> 'v) list"

abbreviation dget :: "('k, 'v) dict \<Rightarrow> 'k \<Rightarrow> 'v option" where
  "dget d k \<equiv> map_of d k"

abbreviation dset :: "'k \<Rightarrow> 'v \<Rightarrow> ('k, 'v) dict \<Rightarrow> ('k, 'v) dict" where
  "dset k v d \<equiv> AList.update k v d"

abbreviation dpop :: "'k \<Rightarrow> ('k, 'v) dict \<Rightarrow> ('k, 'v) dict" where
  "dpop k d \<equiv> AList.delete k d"

abbreviation dkeys :: "('k, 'v) dict \<Rightarrow> 'k list" where
  "dkeys d \<equiv> map fst d"

abbreviation dvals :: "('k, 'v) dict \<Rightarrow> 'v list" where
  "dvals d \<equiv> map snd d"

text \<open>\<^verbatim>\<open>d.get(k, default)\<close>\<close>

definition dget_or :: "('k, 'v) dict \<Rightarrow> 'k \<Rightarrow> 'v \<Rightarrow> 'v" where
  "dget_or d k v = (case dget d k of None \<Rightarrow> v | Some x \<Rightarrow> x)"

definition wf_dict :: "('k, 'v) dict \<Rightarrow> bool" where
  "wf_dict d \<longleftrightarrow> distinct (dkeys d)"

lemma dget_dset [simp, dict_simps]: "dget (dset k v d) k' = (if k' = k then Some v else dget d k')"
  by (simp add: update_conv')

lemma dget_dpop [simp, dict_simps]: "dget (dpop k d) k' = (if k' = k then None else dget d k')"
  by (simp add: delete_conv')

lemma dget_or_Nil [simp]: "dget_or [] k v = v"
  by (simp add: dget_or_def)

lemma dget_or_dset [simp, dict_simps]:
  "dget_or (dset k v d) k' x = (if k' = k then v else dget_or d k' x)"
  by (simp add: dget_or_def)

lemma wf_dict_Nil [simp]: "wf_dict []"
  by (simp add: wf_dict_def)

lemma wf_dict_dset [simp]: "wf_dict d \<Longrightarrow> wf_dict (dset k v d)"
  by (simp add: wf_dict_def distinct_update)

lemma wf_dict_dpop [simp]: "wf_dict d \<Longrightarrow> wf_dict (dpop k d)"
  by (simp add: wf_dict_def distinct_delete)

lemma dkeys_dset: "set (dkeys (dset k v d)) = insert k (set (dkeys d))"
  by (simp add: dom_update)

lemma dkeys_dset_present: "k \<in> set (dkeys d) \<Longrightarrow> dkeys (dset k v d) = dkeys d"
  by (induction d) auto

lemma dset_new: "k \<notin> set (dkeys d) \<Longrightarrow> dset k v d = d @ [(k, v)]"
  by (induction d) auto

lemma dget_Some_dkeys: "dget d k = Some v \<Longrightarrow> k \<in> set (dkeys d)"
  by (metis domI dom_map_of_conv_image_fst image_set)

lemma wf_dget_iff: "wf_dict d \<Longrightarrow> dget d k = Some v \<longleftrightarrow> (k, v) \<in> set d"
  by (simp add: wf_dict_def)

lemma dvals_iff: "wf_dict d \<Longrightarrow> v \<in> set (dvals d) \<longleftrightarrow> (\<exists>k. dget d k = Some v)"
  by (force simp: wf_dget_iff)

lemma find_SomeD: "find P xs = Some x \<Longrightarrow> x \<in> set xs \<and> P x"
  by (induction xs) (auto split: if_splits)

text \<open>Counting the values with a property, before and after an assignment.\<close>

definition dcount :: "('v \<Rightarrow> bool) \<Rightarrow> ('k, 'v) dict \<Rightarrow> nat" where
  "dcount P d = length (filter P (dvals d))"

lemma dcount_dset_new: "k \<notin> set (dkeys d) \<Longrightarrow> dcount P (dset k v d) = dcount P d + (if P v then 1 else 0)"
  by (simp add: dcount_def dset_new)

lemma dcount_dset_old:
  "wf_dict d \<Longrightarrow> dget d k = Some v \<Longrightarrow>
     dcount P (dset k v' d) + (if P v then 1 else 0) = dcount P d + (if P v' then 1 else 0)"
proof (induction d)
  case (Cons kv d)
  show ?case
  proof (cases "fst kv = k")
    case True
    with Cons.prems have "snd kv = v" by (cases kv) auto
    with True show ?thesis by (cases kv) (simp add: dcount_def)
  next
    case False
    with Cons show ?thesis by (cases kv) (auto simp: dcount_def wf_dict_def)
  qed
qed simp

section \<open>Strings\<close>

text \<open>ASCII \<^verbatim>\<open>str.upper()\<close> and \<^verbatim>\<open>str.lower()\<close>.\<close>

definition char_upper :: "char \<Rightarrow> char" where
  "char_upper c = (let n = of_char c :: nat in if 97 \<le> n \<and> n \<le> 122 then char_of (n - 32) else c)"

definition char_lower :: "char \<Rightarrow> char" where
  "char_lower c = (let n = of_char c :: nat in if 65 \<le> n \<and> n \<le> 90 then char_of (n + 32) else c)"

definition str_upper :: "string \<Rightarrow> string" where "str_upper s = map char_upper s"
definition str_lower :: "string \<Rightarrow> string" where "str_lower s = map char_lower s"

lemma char_upper_idem [simp]: "char_upper (char_upper c) = char_upper c"
proof (cases "97 \<le> (of_char c :: nat) \<and> (of_char c :: nat) \<le> 122")
  case True
  then have "(of_char c - 32 :: nat) < 256" by linarith
  then have "(of_char (char_of (of_char c - 32 :: nat) :: char) :: nat) = of_char c - 32"
    by (simp only: of_char_of mod_less take_bit_eq_mod)
  with True show ?thesis by (auto simp: char_upper_def Let_def)
qed (auto simp: char_upper_def Let_def)

lemma str_upper_idem [simp]: "str_upper (str_upper s) = str_upper s"
  by (simp add: str_upper_def)

text \<open>\<^verbatim>\<open>s.startswith(p)\<close> and \<^verbatim>\<open>p in s\<close>.\<close>

fun starts_with :: "string \<Rightarrow> string \<Rightarrow> bool" where
  "starts_with [] s = True"
| "starts_with (p # ps) [] = False"
| "starts_with (p # ps) (c # cs) = (p = c \<and> starts_with ps cs)"

fun contains :: "string \<Rightarrow> string \<Rightarrow> bool" where
  "contains p [] = (p = [])"
| "contains p (c # cs) = (starts_with p (c # cs) \<or> contains p cs)"

subsection \<open>The time stamp of an event slug\<close>

text \<open>
  \<^verbatim>\<open>re.search(r'-(\d{10,})$', slug)\<close>: a hyphen followed by at least ten digits up to the end
  of the string (or up to one final newline, which \<^verbatim>\<open>$\<close> also accepts). The group is then read
  with \<^verbatim>\<open>int\<close>. The digits hold no hyphen, so the only candidate is the maximal run of digits at
  the end.
\<close>

definition is_digit :: "char \<Rightarrow> bool" where
  "is_digit c \<longleftrightarrow> 48 \<le> (of_char c :: nat) \<and> (of_char c :: nat) \<le> 57"

definition digits_val :: "string \<Rightarrow> int" where
  "digits_val ds = foldl (\<lambda>a c. a * 10 + (int (of_char c) - 48)) 0 ds"

definition slug_ts :: "string \<Rightarrow> int option" where
  "slug_ts s = (let r = rev s; r' = (case r of c # cs \<Rightarrow> if c = CHR 0x0A then cs else r | [] \<Rightarrow> []);
       ds = takeWhile is_digit r'
     in case dropWhile is_digit r' of
          c # _ \<Rightarrow> if c = CHR ''-'' \<and> 10 \<le> length ds then Some (digits_val (rev ds)) else None
        | [] \<Rightarrow> None)"

section \<open>Slots\<close>

text \<open>Every event lasts one slot of 300 seconds, aligned to the epoch.\<close>

definition SLOT_SECONDS :: int where "SLOT_SECONDS = 300"

text \<open>\<^verbatim>\<open>(int(now) // 300) * 300\<close>\<close>

definition slot_start_of :: "num \<Rightarrow> int" where
  "slot_start_of now = (py_int now div SLOT_SECONDS) * SLOT_SECONDS"

lemma slot_start_bounds:
  assumes "0 \<le> now"
  shows "of_int (slot_start_of now) \<le> now" and "now < of_int (slot_start_of now + SLOT_SECONDS)"
proof -
  have m: "slot_start_of now = \<lfloor>now\<rfloor> - \<lfloor>now\<rfloor> mod 300"
    using assms by (simp add: slot_start_of_def SLOT_SECONDS_def py_int_def minus_mod_eq_div_mult)
  have "0 \<le> \<lfloor>now\<rfloor> mod 300" "\<lfloor>now\<rfloor> mod 300 \<le> 299" by (simp_all add: pos_mod_bound [of 300, simplified])
  then have "slot_start_of now \<le> \<lfloor>now\<rfloor>" "\<lfloor>now\<rfloor> + 1 \<le> slot_start_of now + SLOT_SECONDS"
    unfolding m SLOT_SECONDS_def by linarith+
  then show "of_int (slot_start_of now) \<le> now" "now < of_int (slot_start_of now + SLOT_SECONDS)"
    by linarith+
qed

lemma slot_start_mono: "0 \<le> s \<Longrightarrow> s \<le> t \<Longrightarrow> slot_start_of s \<le> slot_start_of t"
  by (simp add: slot_start_of_def SLOT_SECONDS_def py_int_def floor_mono zdiv_mono1)

section \<open>Shared interface: life cycles\<close>

text \<open>
  The position and the registry event each carry a state that only moves along a table of
  allowed transitions and ends in a terminal state. Clients of either life cycle rely on
  these laws only.
\<close>

locale lifecycle =
  fixes allowed :: "'s \<Rightarrow> 's list"
    and terminal :: 's
  assumes terminal_stuck: "allowed terminal = []"
    and no_self: "s \<notin> set (allowed s)"
begin

text \<open>\<open>path s ts\<close>: the states \<open>ts\<close> can be visited one after the other from \<open>s\<close>.\<close>

fun path :: "'s \<Rightarrow> 's list \<Rightarrow> bool" where
  "path s [] = True"
| "path s (t # ts) = (t \<in> set (allowed s) \<and> path t ts)"

lemma terminal_no_path: "path terminal ts \<longleftrightarrow> ts = []"
  by (cases ts) (simp_all add: terminal_stuck)

lemma path_append: "path s (ts @ us) \<longleftrightarrow> path s ts \<and> path (last (s # ts)) us"
  by (induction ts arbitrary: s) auto

lemma terminal_only_last:
  assumes "path s (ts @ terminal # us)" shows "us = []"
  using assms by (simp add: path_append terminal_no_path)

end

section \<open>Shared interface: retry schedules\<close>

text \<open>
  Discovery, the PTB fetcher and settlement all wait between attempts by a list of delays
  followed by a steady delay: \<^verbatim>\<open>schedule[attempt] if attempt < len(schedule) else steady\<close>.
\<close>

definition retry_wait :: "int list \<Rightarrow> int \<Rightarrow> nat \<Rightarrow> int" where
  "retry_wait sched steady attempt =
     (if attempt < length sched then sched ! attempt else steady)"

lemma retry_wait_steady: "length sched \<le> n \<Longrightarrow> retry_wait sched steady n = steady"
  by (simp add: retry_wait_def)

lemma retry_wait_pos:
  "list_all (\<lambda>w. 0 < w) sched \<Longrightarrow> 0 < steady \<Longrightarrow> 0 < retry_wait sched steady n"
  by (simp add: retry_wait_def list_all_length)

text \<open>
  What a client of such a schedule relies on: every delay is positive and the delays are
  constant from some attempt on. The locale gives the time the first \<open>n\<close> delays take and
  bounds the number of attempts that fit into a time span.
\<close>

locale retry_policy =
  fixes delay :: "nat \<Rightarrow> int" and warmup :: nat and steady :: int
  assumes delay_pos: "0 < delay n"
    and delay_steady: "warmup \<le> n \<Longrightarrow> delay n = steady"
begin

definition elapsed :: "nat \<Rightarrow> int" where
  "elapsed n = (\<Sum>k<n. delay k)"

lemma elapsed_Suc: "elapsed (Suc n) = elapsed n + delay n"
  by (simp add: elapsed_def)

lemma elapsed_ge: "int n \<le> elapsed n"
proof (induction n)
  case (Suc n)
  with delay_pos [of n] show ?case by (simp add: elapsed_Suc)
qed (simp add: elapsed_def)

lemma elapsed_less: "m < n \<Longrightarrow> elapsed m < elapsed n"
  by (rule lift_Suc_mono_less) (simp_all add: elapsed_Suc delay_pos)

lemma elapsed_steady: "elapsed (warmup + m) = elapsed warmup + int m * steady"
  by (induction m) (simp_all add: elapsed_Suc delay_steady algebra_simps)

lemma attempts_in_span:
  assumes "elapsed n \<le> limit" shows "int n \<le> limit"
  using elapsed_ge [of n] assms by linarith

end

end
