(* ===== verification/Config.thy ===== *)
theory Config
  imports Prelude
begin

text \<open>
  \<^verbatim>\<open>backend/config_loader/schema.py\<close>: a record per class with its default values and the bounds pydantic
  checks when the configuration is loaded. A class of the schema validates the fields it is built
  from and the classes of its own fields do the same, so a loaded configuration is valid in every
  part. A pattern is the list of the texts it matches. Assignments to a field are not checked.
\<close>

record TimeRuleConfig =
  tm_enabled :: bool
  tm_min_seconds :: int
  tm_max_seconds :: int

definition default_time_rule_config :: TimeRuleConfig where
  "default_time_rule_config = \<lparr>tm_enabled = True,
     tm_min_seconds = 30,
     tm_max_seconds = 270\<rparr>"

definition valid_time_rule_config :: "TimeRuleConfig \<Rightarrow> bool" where
  "valid_time_rule_config c \<longleftrightarrow> 1 \<le> tm_min_seconds c \<and> tm_min_seconds c \<le> 299 \<and>
     1 \<le> tm_max_seconds c \<and> tm_max_seconds c \<le> 299 \<and>
     tm_min_seconds c < tm_max_seconds c"

record PriceRuleConfig =
  pr_enabled :: bool
  pr_min_price :: int
  pr_max_price :: int

definition default_price_rule_config :: PriceRuleConfig where
  "default_price_rule_config = \<lparr>pr_enabled = True,
     pr_min_price = 51,
     pr_max_price = 85\<rparr>"

definition valid_price_rule_config :: "PriceRuleConfig \<Rightarrow> bool" where
  "valid_price_rule_config c \<longleftrightarrow> 51 \<le> pr_min_price c \<and> pr_min_price c \<le> 99 \<and>
     51 \<le> pr_max_price c \<and> pr_max_price c \<le> 99 \<and>
     pr_min_price c < pr_max_price c"

record DeltaRuleConfig =
  dr_enabled :: bool
  dr_threshold :: num

definition default_delta_rule_config :: DeltaRuleConfig where
  "default_delta_rule_config = \<lparr>dr_enabled = True,
     dr_threshold = 50\<rparr>"

definition valid_delta_rule_config :: "DeltaRuleConfig \<Rightarrow> bool" where
  "valid_delta_rule_config c \<longleftrightarrow> lit (1 / 100000) \<le> dr_threshold c \<and> dr_threshold c \<le> 100000"

record SpreadRuleConfig =
  sr_enabled :: bool
  sr_max_spread :: num

definition default_spread_rule_config :: SpreadRuleConfig where
  "default_spread_rule_config = \<lparr>sr_enabled = True,
     sr_max_spread = 3\<rparr>"

definition valid_spread_rule_config :: "SpreadRuleConfig \<Rightarrow> bool" where
  "valid_spread_rule_config c \<longleftrightarrow> lit (1 / 10) \<le> sr_max_spread c \<and> sr_max_spread c \<le> 50"

record EventMaxConfig =
  em_enabled :: bool
  em_max_positions :: int

definition default_event_max_config :: EventMaxConfig where
  "default_event_max_config = \<lparr>em_enabled = True,
     em_max_positions = 1\<rparr>"

definition valid_event_max_config :: "EventMaxConfig \<Rightarrow> bool" where
  "valid_event_max_config c \<longleftrightarrow> 1 \<le> em_max_positions c \<and> em_max_positions c \<le> 10"

record BotMaxConfig =
  bm_enabled :: bool
  bm_max_positions :: int

definition default_bot_max_config :: BotMaxConfig where
  "default_bot_max_config = \<lparr>bm_enabled = True,
     bm_max_positions = 3\<rparr>"

definition valid_bot_max_config :: "BotMaxConfig \<Rightarrow> bool" where
  "valid_bot_max_config c \<longleftrightarrow> 1 \<le> bm_max_positions c \<and> bm_max_positions c \<le> 50"

record EntryRulesConfig =
  en_time :: TimeRuleConfig
  en_price :: PriceRuleConfig
  en_delta :: DeltaRuleConfig
  en_spread :: SpreadRuleConfig
  en_event_max :: EventMaxConfig
  en_bot_max :: BotMaxConfig

definition default_entry_rules_config :: EntryRulesConfig where
  "default_entry_rules_config = \<lparr>en_time = default_time_rule_config,
     en_price = default_price_rule_config,
     en_delta = default_delta_rule_config,
     en_spread = default_spread_rule_config,
     en_event_max = default_event_max_config,
     en_bot_max = default_bot_max_config\<rparr>"

definition valid_entry_rules_config :: "EntryRulesConfig \<Rightarrow> bool" where
  "valid_entry_rules_config c \<longleftrightarrow> valid_time_rule_config (en_time c) \<and>
     valid_price_rule_config (en_price c) \<and>
     valid_delta_rule_config (en_delta c) \<and>
     valid_spread_rule_config (en_spread c) \<and>
     valid_event_max_config (en_event_max c) \<and>
     valid_bot_max_config (en_bot_max c)"

record TakeProfitConfig =
  tp_enabled :: bool
  tp_percentage :: num
  tp_retry_interval_ms :: int
  tp_reevaluate_on_retry :: bool

definition default_take_profit_config :: TakeProfitConfig where
  "default_take_profit_config = \<lparr>tp_enabled = True,
     tp_percentage = 5,
     tp_retry_interval_ms = 400,
     tp_reevaluate_on_retry = True\<rparr>"

definition valid_take_profit_config :: "TakeProfitConfig \<Rightarrow> bool" where
  "valid_take_profit_config c \<longleftrightarrow> lit (1 / 10) \<le> tp_percentage c \<and> tp_percentage c \<le> 100 \<and>
     100 \<le> tp_retry_interval_ms c \<and> tp_retry_interval_ms c \<le> 10000"

record StopLossConfig =
  sl_enabled :: bool
  sl_percentage :: num
  sl_retry_interval_ms :: int
  sl_retry_max :: int
  sl_jump_threshold :: num

definition default_stop_loss_config :: StopLossConfig where
  "default_stop_loss_config = \<lparr>sl_enabled = True,
     sl_percentage = 3,
     sl_retry_interval_ms = 500,
     sl_retry_max = 3,
     sl_jump_threshold = lit (15 / 100)\<rparr>"

definition valid_stop_loss_config :: "StopLossConfig \<Rightarrow> bool" where
  "valid_stop_loss_config c \<longleftrightarrow> lit (1 / 10) \<le> sl_percentage c \<and> sl_percentage c \<le> 100 \<and>
     100 \<le> sl_retry_interval_ms c \<and> sl_retry_interval_ms c \<le> 10000 \<and>
     1 \<le> sl_retry_max c \<and> sl_retry_max c \<le> 20 \<and>
     lit (1 / 100) \<le> sl_jump_threshold c \<and> sl_jump_threshold c \<le> 1"

record ForceSellTimeCondition =
  ft_enabled :: bool
  ft_remaining_seconds :: int

definition default_force_sell_time_condition :: ForceSellTimeCondition where
  "default_force_sell_time_condition = \<lparr>ft_enabled = True,
     ft_remaining_seconds = 30\<rparr>"

definition valid_force_sell_time_condition :: "ForceSellTimeCondition \<Rightarrow> bool" where
  "valid_force_sell_time_condition c \<longleftrightarrow> 1 \<le> ft_remaining_seconds c \<and> ft_remaining_seconds c \<le> 299"

record ForceSellPnlCondition =
  fp_enabled :: bool
  fp_loss_percentage :: num

definition default_force_sell_pnl_condition :: ForceSellPnlCondition where
  "default_force_sell_pnl_condition = \<lparr>fp_enabled = False,
     fp_loss_percentage = 5\<rparr>"

definition valid_force_sell_pnl_condition :: "ForceSellPnlCondition \<Rightarrow> bool" where
  "valid_force_sell_pnl_condition c \<longleftrightarrow> lit (1 / 10) \<le> fp_loss_percentage c \<and> fp_loss_percentage c \<le> 100"

record ForceSellConfig =
  fs_time :: ForceSellTimeCondition
  fs_pnl_loss :: ForceSellPnlCondition
  fs_retry_interval_ms :: int
  fs_retry_max :: int

definition default_force_sell_config :: ForceSellConfig where
  "default_force_sell_config = \<lparr>fs_time = default_force_sell_time_condition,
     fs_pnl_loss = default_force_sell_pnl_condition,
     fs_retry_interval_ms = 500,
     fs_retry_max = 3\<rparr>"

definition valid_force_sell_config :: "ForceSellConfig \<Rightarrow> bool" where
  "valid_force_sell_config c \<longleftrightarrow> valid_force_sell_time_condition (fs_time c) \<and>
     valid_force_sell_pnl_condition (fs_pnl_loss c) \<and>
     100 \<le> fs_retry_interval_ms c \<and> fs_retry_interval_ms c \<le> 10000 \<and>
     1 \<le> fs_retry_max c \<and> fs_retry_max c \<le> 20"

record ExitRulesConfig =
  ex_take_profit :: TakeProfitConfig
  ex_stop_loss :: StopLossConfig
  ex_force_sell :: ForceSellConfig
  ex_manual_close_retry_interval_ms :: int
  ex_expiry_retry_interval_ms :: int
  ex_shutdown_retry_interval_ms :: int
  ex_max_close_retries :: int
  ex_exit_order_timeout_sec :: num

definition default_exit_rules_config :: ExitRulesConfig where
  "default_exit_rules_config = \<lparr>ex_take_profit = default_take_profit_config,
     ex_stop_loss = default_stop_loss_config,
     ex_force_sell = default_force_sell_config,
     ex_manual_close_retry_interval_ms = 400,
     ex_expiry_retry_interval_ms = 200,
     ex_shutdown_retry_interval_ms = 100,
     ex_max_close_retries = 10,
     ex_exit_order_timeout_sec = 5\<rparr>"

definition valid_exit_rules_config :: "ExitRulesConfig \<Rightarrow> bool" where
  "valid_exit_rules_config c \<longleftrightarrow> valid_take_profit_config (ex_take_profit c) \<and>
     valid_stop_loss_config (ex_stop_loss c) \<and>
     valid_force_sell_config (ex_force_sell c) \<and>
     100 \<le> ex_manual_close_retry_interval_ms c \<and> ex_manual_close_retry_interval_ms c \<le> 10000 \<and>
     50 \<le> ex_expiry_retry_interval_ms c \<and> ex_expiry_retry_interval_ms c \<le> 10000 \<and>
     50 \<le> ex_shutdown_retry_interval_ms c \<and> ex_shutdown_retry_interval_ms c \<le> 5000 \<and>
     1 \<le> ex_max_close_retries c \<and> ex_max_close_retries c \<le> 30 \<and>
     1 \<le> ex_exit_order_timeout_sec c \<and> ex_exit_order_timeout_sec c \<le> 30"

record ClaimRedeemConfig =
  cl_wait_for_claim_before_new_trade :: bool
  cl_retry_initial_seconds :: int
  cl_retry_second_seconds :: int
  cl_retry_steady_seconds :: int
  cl_max_retry_attempts :: int

definition default_claim_redeem_config :: ClaimRedeemConfig where
  "default_claim_redeem_config = \<lparr>cl_wait_for_claim_before_new_trade = True,
     cl_retry_initial_seconds = 5,
     cl_retry_second_seconds = 10,
     cl_retry_steady_seconds = 20,
     cl_max_retry_attempts = 20\<rparr>"

definition valid_claim_redeem_config :: "ClaimRedeemConfig \<Rightarrow> bool" where
  "valid_claim_redeem_config c \<longleftrightarrow> 1 \<le> cl_retry_initial_seconds c \<and> cl_retry_initial_seconds c \<le> 60 \<and>
     1 \<le> cl_retry_second_seconds c \<and> cl_retry_second_seconds c \<le> 60 \<and>
     5 \<le> cl_retry_steady_seconds c \<and> cl_retry_steady_seconds c \<le> 120 \<and>
     1 \<le> cl_max_retry_attempts c \<and> cl_max_retry_attempts c \<le> 50"

record TradingConfig =
  tr_min_amount_usd :: num
  tr_auto_start_bot_on_startup :: bool
  tr_paper_mode :: bool
  tr_signature_type :: int
  tr_entry_order_timeout_sec :: num
  tr_order_reject_cooldown_sec :: num
  tr_entry_rules :: EntryRulesConfig
  tr_exit_rules :: ExitRulesConfig
  tr_claim :: ClaimRedeemConfig

definition default_trading_config :: TradingConfig where
  "default_trading_config = \<lparr>tr_min_amount_usd = 1,
     tr_auto_start_bot_on_startup = False,
     tr_paper_mode = True,
     tr_signature_type = 2,
     tr_entry_order_timeout_sec = 5,
     tr_order_reject_cooldown_sec = 1,
     tr_entry_rules = default_entry_rules_config,
     tr_exit_rules = default_exit_rules_config,
     tr_claim = default_claim_redeem_config\<rparr>"

definition valid_trading_config :: "TradingConfig \<Rightarrow> bool" where
  "valid_trading_config c \<longleftrightarrow> lit (1 / 10) \<le> tr_min_amount_usd c \<and> tr_min_amount_usd c \<le> 10000 \<and>
     0 \<le> tr_signature_type c \<and> tr_signature_type c \<le> 2 \<and>
     1 \<le> tr_entry_order_timeout_sec c \<and> tr_entry_order_timeout_sec c \<le> 30 \<and>
     1 / 2 \<le> tr_order_reject_cooldown_sec c \<and> tr_order_reject_cooldown_sec c \<le> 30 \<and>
     valid_entry_rules_config (tr_entry_rules c) \<and>
     valid_exit_rules_config (tr_exit_rules c) \<and>
     valid_claim_redeem_config (tr_claim c)"

record ServerConfig =
  se_host :: string
  se_port :: int

definition default_server_config :: ServerConfig where
  "default_server_config = \<lparr>se_host = ''127.0.0.1'',
     se_port = 8000\<rparr>"

definition valid_server_config :: "ServerConfig \<Rightarrow> bool" where
  "valid_server_config c \<longleftrightarrow> 1 \<le> se_port c \<and> se_port c \<le> 65535"

record DiscoveryConfig =
  di_interval_seconds :: int
  di_timeout_seconds :: int
  di_category :: string
  di_subcategory :: string
  di_duration :: string
  di_retry_initial_seconds :: int
  di_retry_schedule_2 :: int
  di_retry_schedule_3 :: int
  di_retry_schedule_4 :: int
  di_retry_steady_seconds :: int
  di_delist_threshold :: int

definition default_discovery_config :: DiscoveryConfig where
  "default_discovery_config = \<lparr>di_interval_seconds = 10,
     di_timeout_seconds = 15,
     di_category = ''crypto'',
     di_subcategory = ''up_down'',
     di_duration = ''5m'',
     di_retry_initial_seconds = 2,
     di_retry_schedule_2 = 4,
     di_retry_schedule_3 = 8,
     di_retry_schedule_4 = 16,
     di_retry_steady_seconds = 10,
     di_delist_threshold = 3\<rparr>"

definition valid_discovery_config :: "DiscoveryConfig \<Rightarrow> bool" where
  "valid_discovery_config c \<longleftrightarrow> 1 \<le> di_interval_seconds c \<and> di_interval_seconds c \<le> 300 \<and>
     1 \<le> di_timeout_seconds c \<and> di_timeout_seconds c \<le> 60 \<and>
     1 \<le> di_retry_initial_seconds c \<and> di_retry_initial_seconds c \<le> 30 \<and>
     1 \<le> di_retry_schedule_2 c \<and> di_retry_schedule_2 c \<le> 30 \<and>
     1 \<le> di_retry_schedule_3 c \<and> di_retry_schedule_3 c \<le> 60 \<and>
     1 \<le> di_retry_schedule_4 c \<and> di_retry_schedule_4 c \<le> 60 \<and>
     1 \<le> di_retry_steady_seconds c \<and> di_retry_steady_seconds c \<le> 60 \<and>
     1 \<le> di_delist_threshold c \<and> di_delist_threshold c \<le> 10"

record NetworkConfig =
  ne_default_timeout_seconds :: num
  ne_default_retry_max :: int
  ne_default_backoff_base :: num
  ne_relayer_timeout_seconds :: num
  ne_clob_api_timeout_seconds :: num
  ne_fee_rate_timeout_seconds :: num

definition default_network_config :: NetworkConfig where
  "default_network_config = \<lparr>ne_default_timeout_seconds = 15,
     ne_default_retry_max = 3,
     ne_default_backoff_base = 1,
     ne_relayer_timeout_seconds = 30,
     ne_clob_api_timeout_seconds = 5,
     ne_fee_rate_timeout_seconds = 5\<rparr>"

definition valid_network_config :: "NetworkConfig \<Rightarrow> bool" where
  "valid_network_config c \<longleftrightarrow> 1 \<le> ne_default_timeout_seconds c \<and> ne_default_timeout_seconds c \<le> 60 \<and>
     1 \<le> ne_default_retry_max c \<and> ne_default_retry_max c \<le> 10 \<and>
     1 / 2 \<le> ne_default_backoff_base c \<and> ne_default_backoff_base c \<le> 5 \<and>
     10 \<le> ne_relayer_timeout_seconds c \<and> ne_relayer_timeout_seconds c \<le> 120 \<and>
     1 \<le> ne_clob_api_timeout_seconds c \<and> ne_clob_api_timeout_seconds c \<le> 30 \<and>
     1 \<le> ne_fee_rate_timeout_seconds c \<and> ne_fee_rate_timeout_seconds c \<le> 30"

record InfraConfig =
  nf_supervisor_interval_sec :: num
  nf_verify_retry_interval_sec :: num
  nf_sdk_transient_retry_sleep_sec :: num

definition default_infra_config :: InfraConfig where
  "default_infra_config = \<lparr>nf_supervisor_interval_sec = 10,
     nf_verify_retry_interval_sec = 30,
     nf_sdk_transient_retry_sleep_sec = 3\<rparr>"

definition valid_infra_config :: "InfraConfig \<Rightarrow> bool" where
  "valid_infra_config c \<longleftrightarrow> 5 \<le> nf_supervisor_interval_sec c \<and> nf_supervisor_interval_sec c \<le> 60 \<and>
     10 \<le> nf_verify_retry_interval_sec c \<and> nf_verify_retry_interval_sec c \<le> 120 \<and>
     1 \<le> nf_sdk_transient_retry_sleep_sec c \<and> nf_sdk_transient_retry_sleep_sec c \<le> 15"

record MarketDataConfig =
  md_ptb_source :: string
  md_stale_threshold_seconds :: int
  md_coin_price_stale_threshold_seconds :: int
  md_balance_stale_threshold_seconds :: int
  md_coin_price_resub_interval_ms :: int
  md_balance_refresh_interval_seconds :: int
  md_exit_cycle_interval_ms :: int
  md_evaluation_interval_ms :: int
  md_ws_reconnect_backoff_base :: num
  md_ws_reconnect_backoff_max :: num
  md_ws_close_timeout_seconds :: num
  md_ws_receive_timeout_seconds :: num
  md_ws_resub_message_timeout_seconds :: num
  md_ptb_retry_initial_seconds :: int
  md_ptb_retry_schedule_2 :: int
  md_ptb_retry_schedule_3 :: int
  md_ptb_retry_schedule_4 :: int
  md_ptb_retry_steady_seconds :: int

definition default_market_data_config :: MarketDataConfig where
  "default_market_data_config = \<lparr>md_ptb_source = ''next_data'',
     md_stale_threshold_seconds = 30,
     md_coin_price_stale_threshold_seconds = 15,
     md_balance_stale_threshold_seconds = 90,
     md_coin_price_resub_interval_ms = 150,
     md_balance_refresh_interval_seconds = 20,
     md_exit_cycle_interval_ms = 50,
     md_evaluation_interval_ms = 200,
     md_ws_reconnect_backoff_base = 2,
     md_ws_reconnect_backoff_max = 30,
     md_ws_close_timeout_seconds = 3,
     md_ws_receive_timeout_seconds = 1,
     md_ws_resub_message_timeout_seconds = lit (5 / 100),
     md_ptb_retry_initial_seconds = 2,
     md_ptb_retry_schedule_2 = 4,
     md_ptb_retry_schedule_3 = 8,
     md_ptb_retry_schedule_4 = 16,
     md_ptb_retry_steady_seconds = 10\<rparr>"

definition valid_market_data_config :: "MarketDataConfig \<Rightarrow> bool" where
  "valid_market_data_config c \<longleftrightarrow> md_ptb_source c \<in> set [''next_data'', ''api''] \<and>
     5 \<le> md_stale_threshold_seconds c \<and> md_stale_threshold_seconds c \<le> 300 \<and>
     5 \<le> md_coin_price_stale_threshold_seconds c \<and> md_coin_price_stale_threshold_seconds c \<le> 120 \<and>
     30 \<le> md_balance_stale_threshold_seconds c \<and> md_balance_stale_threshold_seconds c \<le> 300 \<and>
     50 \<le> md_coin_price_resub_interval_ms c \<and> md_coin_price_resub_interval_ms c \<le> 5000 \<and>
     5 \<le> md_balance_refresh_interval_seconds c \<and> md_balance_refresh_interval_seconds c \<le> 60 \<and>
     10 \<le> md_exit_cycle_interval_ms c \<and> md_exit_cycle_interval_ms c \<le> 2000 \<and>
     50 \<le> md_evaluation_interval_ms c \<and> md_evaluation_interval_ms c \<le> 2000 \<and>
     1 \<le> md_ws_reconnect_backoff_base c \<and> md_ws_reconnect_backoff_base c \<le> 10 \<and>
     5 \<le> md_ws_reconnect_backoff_max c \<and> md_ws_reconnect_backoff_max c \<le> 120 \<and>
     1 \<le> md_ws_close_timeout_seconds c \<and> md_ws_close_timeout_seconds c \<le> 10 \<and>
     lit (1 / 10) \<le> md_ws_receive_timeout_seconds c \<and> md_ws_receive_timeout_seconds c \<le> 10 \<and>
     lit (1 / 100) \<le> md_ws_resub_message_timeout_seconds c \<and> md_ws_resub_message_timeout_seconds c \<le> 1 \<and>
     1 \<le> md_ptb_retry_initial_seconds c \<and> md_ptb_retry_initial_seconds c \<le> 30 \<and>
     1 \<le> md_ptb_retry_schedule_2 c \<and> md_ptb_retry_schedule_2 c \<le> 30 \<and>
     1 \<le> md_ptb_retry_schedule_3 c \<and> md_ptb_retry_schedule_3 c \<le> 60 \<and>
     1 \<le> md_ptb_retry_schedule_4 c \<and> md_ptb_retry_schedule_4 c \<le> 60 \<and>
     1 \<le> md_ptb_retry_steady_seconds c \<and> md_ptb_retry_steady_seconds c \<le> 60"

record PersistenceConfig =
  pe_db_path :: string

definition default_persistence_config :: PersistenceConfig where
  "default_persistence_config = \<lparr>pe_db_path = ''data/polyfast.db''\<rparr>"

record LoggingConfig =
  lo_level :: string
  lo_format :: string
  lo_file_path :: string
  lo_mask_credentials :: bool

definition default_logging_config :: LoggingConfig where
  "default_logging_config = \<lparr>lo_level = ''INFO'',
     lo_format = ''json'',
     lo_file_path = ''logs/polyfast.log'',
     lo_mask_credentials = True\<rparr>"

definition valid_logging_config :: "LoggingConfig \<Rightarrow> bool" where
  "valid_logging_config c \<longleftrightarrow> lo_level c \<in> set [''DEBUG'', ''INFO'', ''WARNING'', ''ERROR'', ''CRITICAL''] \<and>
     lo_format c \<in> set [''json'', ''human'']"

record AppConfig =
  ap_server :: ServerConfig
  ap_trading :: TradingConfig
  ap_discovery :: DiscoveryConfig
  ap_market_data :: MarketDataConfig
  ap_network :: NetworkConfig
  ap_infra :: InfraConfig
  ap_persistence :: PersistenceConfig
  ap_logging :: LoggingConfig

definition default_app_config :: AppConfig where
  "default_app_config = \<lparr>ap_server = default_server_config,
     ap_trading = default_trading_config,
     ap_discovery = default_discovery_config,
     ap_market_data = default_market_data_config,
     ap_network = default_network_config,
     ap_infra = default_infra_config,
     ap_persistence = default_persistence_config,
     ap_logging = default_logging_config\<rparr>"

definition valid_app_config :: "AppConfig \<Rightarrow> bool" where
  "valid_app_config c \<longleftrightarrow> valid_server_config (ap_server c) \<and>
     valid_trading_config (ap_trading c) \<and>
     valid_discovery_config (ap_discovery c) \<and>
     valid_market_data_config (ap_market_data c) \<and>
     valid_network_config (ap_network c) \<and>
     valid_infra_config (ap_infra c) \<and>
     valid_logging_config (ap_logging c)"

lemmas config_defaults = default_time_rule_config_def default_price_rule_config_def default_delta_rule_config_def
  default_spread_rule_config_def default_event_max_config_def default_bot_max_config_def default_entry_rules_config_def
  default_take_profit_config_def default_stop_loss_config_def default_force_sell_time_condition_def
  default_force_sell_pnl_condition_def default_force_sell_config_def default_exit_rules_config_def
  default_claim_redeem_config_def default_trading_config_def default_server_config_def default_discovery_config_def
  default_network_config_def default_infra_config_def default_market_data_config_def default_persistence_config_def
  default_logging_config_def default_app_config_def

text \<open>The defaults are valid: the classes can be built without a file.\<close>

lemma decimal_bounds:
  "lit (1 / 100000) \<le> 50" "lit (1 / 10) \<le> 1" "lit (1 / 10) \<le> 3" "lit (1 / 10) \<le> 5" "lit (1 / 100) \<le> lit (3 / 20)"
  "lit (3 / 20) \<le> 1" "lit (1 / 100) \<le> lit (1 / 20)" "lit (1 / 20) \<le> 1"
  using fl_mono [of "1 / 100000" 50] fl_mono [of "1 / 10" 1] fl_mono [of "1 / 10" 3] fl_mono [of "1 / 10" 5]
    fl_mono [of "1 / 100" "3 / 20"] fl_mono [of "3 / 20" 1] fl_mono [of "1 / 100" "1 / 20"] fl_mono [of "1 / 20" 1]
  by (simp_all add: lit_def fl_numeral fl_1)

lemma default_entry_valid: "valid_entry_rules_config default_entry_rules_config"
  by (simp add: valid_entry_rules_config_def valid_time_rule_config_def valid_price_rule_config_def valid_delta_rule_config_def
      valid_spread_rule_config_def valid_event_max_config_def valid_bot_max_config_def config_defaults decimal_bounds)

lemma default_exit_valid: "valid_exit_rules_config default_exit_rules_config"
  by (simp add: valid_exit_rules_config_def valid_take_profit_config_def valid_stop_loss_config_def valid_force_sell_config_def
      valid_force_sell_time_condition_def valid_force_sell_pnl_condition_def config_defaults decimal_bounds)

lemma default_trading_valid: "valid_trading_config default_trading_config"
  using default_entry_valid default_exit_valid
  by (simp add: valid_trading_config_def valid_claim_redeem_config_def default_trading_config_def
      default_claim_redeem_config_def decimal_bounds)

lemma default_valid: "valid_app_config default_app_config"
  using default_trading_valid
  by (simp add: valid_app_config_def valid_server_config_def valid_discovery_config_def valid_market_data_config_def
      valid_network_config_def valid_infra_config_def valid_logging_config_def default_app_config_def default_server_config_def
      default_discovery_config_def default_market_data_config_def default_network_config_def default_infra_config_def
      default_logging_config_def decimal_bounds)

end
