(* ===== verification/Fees.thy ===== *)
theory Fees
  imports Prelude
begin

text \<open>
  \<^verbatim>\<open>backend/execution/fee_calculator.py\<close>: the Polymarket taker fee
  \<open>shares * rate * p * (1 - p)\<close> and the fee-aware entry, exit and estimate computations, with
  the binary64 rounding of every operation and the final \<^verbatim>\<open>round(_, 8)\<close>.
  The lemmas bound fee and net amounts by the gross amounts.
\<close>

definition DEFAULT_CRYPTO_FEE_RATE :: num where
  "DEFAULT_CRYPTO_FEE_RATE = lit (1 / 10)"

record FeeCalculator =
  fc_fee_rate :: num

definition set_fee_rate :: "num \<Rightarrow> FeeCalculator \<Rightarrow> FeeCalculator" where
  "set_fee_rate r c = c\<lparr>fc_fee_rate := r\<rparr>"

definition calculate_buy_fee_shares :: "FeeCalculator \<Rightarrow> num \<Rightarrow> num \<Rightarrow> num" where
  "calculate_buy_fee_shares c shares price =
     fmul (fmul (fmul shares (fc_fee_rate c)) price) (fsub 1 price)"

definition calculate_sell_fee_usdc :: "FeeCalculator \<Rightarrow> num \<Rightarrow> num \<Rightarrow> num" where
  "calculate_sell_fee_usdc c shares price =
     fmul (fmul (fmul shares (fc_fee_rate c)) price) (fsub 1 price)"

record EntryCalc =
  ec_gross_fill_shares :: num
  ec_entry_fee_shares :: num
  ec_net_position_shares :: num
  ec_fee_rate :: num

text \<open>A zero fill price raises \<^verbatim>\<open>ZeroDivisionError\<close>.\<close>

definition calculate_entry :: "FeeCalculator \<Rightarrow> num \<Rightarrow> num \<Rightarrow> exc + EntryCalc" where
  "calculate_entry c requested_usd fill_price =
     (if fill_price = 0 then Inl ZeroDivisionError
      else let gross_shares = fdiv requested_usd fill_price;
               fee_shares = calculate_buy_fee_shares c gross_shares fill_price;
               net_shares = fsub gross_shares fee_shares
           in Inr \<lparr>ec_gross_fill_shares = py_round 8 gross_shares,
                   ec_entry_fee_shares = py_round 8 fee_shares,
                   ec_net_position_shares = py_round 8 net_shares,
                   ec_fee_rate = fc_fee_rate c\<rparr>)"

record ExitCalc =
  xc_exit_gross_usdc :: num
  xc_actual_exit_fee_usdc :: num
  xc_net_exit_usdc :: num

definition calculate_exit :: "FeeCalculator \<Rightarrow> num \<Rightarrow> num \<Rightarrow> ExitCalc" where
  "calculate_exit c net_shares exit_price =
     (let gross_usdc = fmul net_shares exit_price;
          fee_usdc = calculate_sell_fee_usdc c net_shares exit_price;
          net_usdc = fsub gross_usdc fee_usdc
      in \<lparr>xc_exit_gross_usdc = py_round 8 gross_usdc,
          xc_actual_exit_fee_usdc = py_round 8 fee_usdc,
          xc_net_exit_usdc = py_round 8 net_usdc\<rparr>)"

record EstimateCalc =
  est_gross_position_value :: num
  est_estimated_exit_fee_usdc :: num
  est_net_exit_value_estimate :: num

definition estimate_exit :: "FeeCalculator \<Rightarrow> num \<Rightarrow> num \<Rightarrow> EstimateCalc" where
  "estimate_exit c net_shares current_price =
     (let gross_value = fmul net_shares current_price;
          est_fee = calculate_sell_fee_usdc c net_shares current_price;
          net_value = fsub gross_value est_fee
      in \<lparr>est_gross_position_value = py_round 8 gross_value,
          est_estimated_exit_fee_usdc = py_round 8 est_fee,
          est_net_exit_value_estimate = py_round 8 net_value\<rparr>)"

section \<open>Bounds of the fee\<close>

lemma buy_eq_sell_fee: "calculate_buy_fee_shares = calculate_sell_fee_usdc"
  by (simp add: fun_eq_iff calculate_buy_fee_shares_def calculate_sell_fee_usdc_def)

lemma one_minus_price:
  assumes "0 \<le> p" "p \<le> 1"
  shows "0 \<le> fsub 1 p" "fsub 1 p \<le> 1"
  using assms by (simp_all add: fsub_nonneg fsub_le)

text \<open>Each factor is at most one, so no rounding takes the product above the shares.\<close>

lemma sell_fee_bounds:
  assumes s: "0 \<le> s" "binary64 s" and p: "0 \<le> p" "p \<le> 1"
    and r: "0 \<le> fc_fee_rate c" "fc_fee_rate c \<le> 1"
  shows "0 \<le> calculate_sell_fee_usdc c s p"
    and "calculate_sell_fee_usdc c s p \<le> fmul s p"
    and "calculate_sell_fee_usdc c s p \<le> s"
proof -
  let ?sr = "fmul s (fc_fee_rate c)"
  have sr: "0 \<le> ?sr" "?sr \<le> s" using s r by (simp_all add: fmul_nonneg fmul_le_left)
  have srp: "0 \<le> fmul ?sr p" "fmul ?sr p \<le> fmul s p" "fmul s p \<le> s"
    using sr p s by (simp_all add: fmul_nonneg fmul_le_left)
      (simp add: fmul_def fl_mono mult_right_mono)
  show "0 \<le> calculate_sell_fee_usdc c s p"
    unfolding calculate_sell_fee_usdc_def using srp one_minus_price [OF p] by (simp add: fmul_nonneg)
  have "calculate_sell_fee_usdc c s p \<le> fmul ?sr p"
    unfolding calculate_sell_fee_usdc_def
    using srp one_minus_price [OF p] by (simp add: fmul_le_left)
  with srp show "calculate_sell_fee_usdc c s p \<le> fmul s p" "calculate_sell_fee_usdc c s p \<le> s"
    by simp_all
qed

lemma sell_fee_at_one [simp]: "calculate_sell_fee_usdc c s 1 = 0"
  by (simp add: calculate_sell_fee_usdc_def)

lemma calculate_entry_zero [simp]: "calculate_entry c u 0 = Inl ZeroDivisionError"
  by (simp add: calculate_entry_def)

lemma calculate_entry_ok:
  assumes "calculate_entry c u p = Inr e"
  shows "p \<noteq> 0" and "ec_fee_rate e = fc_fee_rate c"
  using assms by (auto simp: calculate_entry_def Let_def split: if_splits)

lemma calculate_entry_bounds:
  assumes "calculate_entry c u p = Inr e" and "0 \<le> u" and p: "0 \<le> p" "p \<le> 1"
    and r: "0 \<le> fc_fee_rate c" "fc_fee_rate c \<le> 1"
  shows "0 \<le> ec_entry_fee_shares e" and "ec_entry_fee_shares e \<le> ec_gross_fill_shares e"
    and "0 \<le> ec_net_position_shares e" and "ec_net_position_shares e \<le> ec_gross_fill_shares e"
proof -
  let ?g = "fdiv u p" and ?f = "calculate_sell_fee_usdc c (fdiv u p) p"
  have g: "0 \<le> ?g" "binary64 ?g" using \<open>0 \<le> u\<close> p by (simp_all add: fdiv_nonneg)
  have f: "0 \<le> ?f" "?f \<le> ?g" using sell_fee_bounds [OF g p r] by simp_all
  have n: "0 \<le> fsub ?g ?f" "fsub ?g ?f \<le> ?g"
    using f g by (simp_all add: fsub_nonneg fsub_le)
  have e: "e = \<lparr>ec_gross_fill_shares = py_round 8 ?g, ec_entry_fee_shares = py_round 8 ?f,
      ec_net_position_shares = py_round 8 (fsub ?g ?f), ec_fee_rate = fc_fee_rate c\<rparr>"
    using assms(1)
    by (auto simp: calculate_entry_def Let_def buy_eq_sell_fee split: if_splits)
  show "0 \<le> ec_entry_fee_shares e" "ec_entry_fee_shares e \<le> ec_gross_fill_shares e"
    "0 \<le> ec_net_position_shares e" "ec_net_position_shares e \<le> ec_gross_fill_shares e"
    unfolding e using f n by (simp_all add: py_round_mono py_round_nonneg)
qed

lemma calculate_exit_bounds:
  assumes s: "0 \<le> s" "binary64 s" and p: "0 \<le> p" "p \<le> 1"
    and r: "0 \<le> fc_fee_rate c" "fc_fee_rate c \<le> 1"
  shows "0 \<le> xc_actual_exit_fee_usdc (calculate_exit c s p)"
    and "xc_actual_exit_fee_usdc (calculate_exit c s p) \<le> xc_exit_gross_usdc (calculate_exit c s p)"
    and "0 \<le> xc_net_exit_usdc (calculate_exit c s p)"
    and "xc_net_exit_usdc (calculate_exit c s p) \<le> xc_exit_gross_usdc (calculate_exit c s p)"
proof -
  note f = sell_fee_bounds [OF s p r]
  then have "0 \<le> fsub (fmul s p) (calculate_sell_fee_usdc c s p)"
    "fsub (fmul s p) (calculate_sell_fee_usdc c s p) \<le> fmul s p"
    by (simp_all add: fsub_nonneg fsub_le)
  with f show "0 \<le> xc_actual_exit_fee_usdc (calculate_exit c s p)"
    "xc_actual_exit_fee_usdc (calculate_exit c s p) \<le> xc_exit_gross_usdc (calculate_exit c s p)"
    "0 \<le> xc_net_exit_usdc (calculate_exit c s p)"
    "xc_net_exit_usdc (calculate_exit c s p) \<le> xc_exit_gross_usdc (calculate_exit c s p)"
    by (simp_all add: calculate_exit_def Let_def py_round_mono py_round_nonneg)
qed

lemma calculate_exit_at_zero:
  "calculate_exit c s 0 = \<lparr>xc_exit_gross_usdc = 0, xc_actual_exit_fee_usdc = 0, xc_net_exit_usdc = 0\<rparr>"
  by (simp add: calculate_exit_def calculate_sell_fee_usdc_def Let_def)

section \<open>Properties\<close>

text \<open>C40. Entry accounting is conservative: for a non-negative stake at a price in (0, 1] and a fee
  rate in [0, 1], \<open>calculate_entry\<close> never raises, both the fee and the net position lie between
  0 and the gross shares after every binary64 rounding and the final round to 8 decimals, and
  the recorded rate is the calculator's.\<close>

theorem entry_fee_bounds:
  assumes "0 \<le> u" and "0 < p" "p \<le> 1" and "0 \<le> fc_fee_rate c" "fc_fee_rate c \<le> 1"
  shows "\<exists>e. calculate_entry c u p = Inr e \<and>
     0 \<le> ec_entry_fee_shares e \<and> ec_entry_fee_shares e \<le> ec_gross_fill_shares e \<and>
     0 \<le> ec_net_position_shares e \<and> ec_net_position_shares e \<le> ec_gross_fill_shares e \<and>
     ec_fee_rate e = fc_fee_rate c"
proof -
  have p: "p \<noteq> 0" "0 \<le> p" using assms by simp_all
  then obtain e where e: "calculate_entry c u p = Inr e" by (simp add: calculate_entry_def Let_def)
  with calculate_entry_bounds [OF e \<open>0 \<le> u\<close> p(2) assms(3-5)] calculate_entry_ok [OF e]
  show ?thesis by simp
qed

theorem entry_fee_bounds_witness:
  "\<exists>e. calculate_entry \<lparr>fc_fee_rate = DEFAULT_CRYPTO_FEE_RATE\<rparr> 5 (lit (51 / 100)) = Inr e \<and>
     0 \<le> ec_entry_fee_shares e \<and> ec_entry_fee_shares e \<le> ec_gross_fill_shares e \<and>
     0 \<le> ec_net_position_shares e \<and> ec_net_position_shares e \<le> ec_gross_fill_shares e \<and>
     ec_fee_rate e = fc_fee_rate \<lparr>fc_fee_rate = DEFAULT_CRYPTO_FEE_RATE\<rparr>"
  by (rule entry_fee_bounds) code_simp+

text \<open>Exit accounting is conservative: selling non-negative shares at a price in [0, 1] with a
  fee rate in [0, 1] yields a fee and net proceeds between 0 and the gross proceeds.\<close>

theorem exit_fee_bounds:
  assumes "0 \<le> s" "binary64 s" and "0 \<le> p" "p \<le> 1" and "0 \<le> fc_fee_rate c" "fc_fee_rate c \<le> 1"
  shows "0 \<le> xc_actual_exit_fee_usdc (calculate_exit c s p) \<and>
     xc_actual_exit_fee_usdc (calculate_exit c s p) \<le> xc_exit_gross_usdc (calculate_exit c s p) \<and>
     0 \<le> xc_net_exit_usdc (calculate_exit c s p) \<and>
     xc_net_exit_usdc (calculate_exit c s p) \<le> xc_exit_gross_usdc (calculate_exit c s p)"
  using calculate_exit_bounds [OF assms] by simp

theorem exit_fee_bounds_witness:
  "0 \<le> xc_actual_exit_fee_usdc (calculate_exit \<lparr>fc_fee_rate = 1 / 8\<rparr> 8 (3 / 4)) \<and>
     xc_actual_exit_fee_usdc (calculate_exit \<lparr>fc_fee_rate = 1 / 8\<rparr> 8 (3 / 4))
       \<le> xc_exit_gross_usdc (calculate_exit \<lparr>fc_fee_rate = 1 / 8\<rparr> 8 (3 / 4)) \<and>
     0 \<le> xc_net_exit_usdc (calculate_exit \<lparr>fc_fee_rate = 1 / 8\<rparr> 8 (3 / 4)) \<and>
     xc_net_exit_usdc (calculate_exit \<lparr>fc_fee_rate = 1 / 8\<rparr> 8 (3 / 4))
       \<le> xc_exit_gross_usdc (calculate_exit \<lparr>fc_fee_rate = 1 / 8\<rparr> 8 (3 / 4))"
  by (rule exit_fee_bounds) (simp_all add: binary64_iff fl_numeral)

end
