(* ===== verification/Position.thy ===== *)
theory Position
  imports Fees
begin

text \<open>
  \<^verbatim>\<open>backend/execution/close_reason.py\<close> and \<^verbatim>\<open>position_record.py\<close>: the position record, its
  life cycle and the live profit-and-loss estimate. The table of allowed transitions
  interprets the shared \<open>lifecycle\<close> interface with the terminal state \<open>PS_CLOSED\<close>.
\<close>

datatype CloseReason = TAKE_PROFIT | STOP_LOSS | FORCE_SELL | MANUAL_CLOSE | EXPIRY | CLAIM
  | SYSTEM_SHUTDOWN | ERROR_RECOVERY

datatype ForceSellTrigger = FS_TIME | FS_PNL

datatype PositionState = PS_PENDING_OPEN | PS_OPEN_CONFIRMED | PS_CLOSING_REQUESTED
  | PS_CLOSE_PENDING | PS_CLOSED | PS_CLOSE_FAILED

fun ALLOWED_TRANSITIONS :: "PositionState \<Rightarrow> PositionState list" where
  "ALLOWED_TRANSITIONS PS_PENDING_OPEN = [PS_OPEN_CONFIRMED, PS_CLOSED]"
| "ALLOWED_TRANSITIONS PS_OPEN_CONFIRMED = [PS_CLOSING_REQUESTED]"
| "ALLOWED_TRANSITIONS PS_CLOSING_REQUESTED = [PS_CLOSE_PENDING, PS_OPEN_CONFIRMED]"
| "ALLOWED_TRANSITIONS PS_CLOSE_PENDING = [PS_CLOSED, PS_CLOSE_FAILED]"
| "ALLOWED_TRANSITIONS PS_CLOSE_FAILED = [PS_CLOSING_REQUESTED, PS_CLOSED]"
| "ALLOWED_TRANSITIONS PS_CLOSED = []"

interpretation position_cycle: lifecycle ALLOWED_TRANSITIONS PS_CLOSED
proof
  show "ALLOWED_TRANSITIONS PS_CLOSED = []" by simp
  show "s \<notin> set (ALLOWED_TRANSITIONS s)" for s by (cases s) simp_all
qed

record PositionRecord =
  p_position_id :: string
  p_asset :: string
  p_side :: string
  p_condition_id :: string
  p_token_id :: string
  p_state :: PositionState
  p_created_at :: usec
  p_requested_amount_usd :: num
  p_fill_price :: num
  p_gross_fill_shares :: num
  p_entry_fee_shares :: num
  p_net_position_shares :: num
  p_fee_rate :: num
  p_opened_at :: "usec option"
  p_exit_fill_price :: num
  p_exit_gross_usdc :: num
  p_actual_exit_fee_usdc :: num
  p_net_exit_usdc :: num
  p_net_realized_pnl :: num
  p_close_reason :: "CloseReason option"
  p_close_trigger_set :: "ForceSellTrigger list"
  p_close_triggered_at :: "usec option"
  p_close_requested_price :: num
  p_closed_at :: "usec option"

text \<open>The dataclass constructor with its defaults, as \<^verbatim>\<open>create_pending\<close> calls it.\<close>

definition new_position ::
  "string \<Rightarrow> string \<Rightarrow> string \<Rightarrow> string \<Rightarrow> string \<Rightarrow> num \<Rightarrow> usec \<Rightarrow> PositionRecord" where
  "new_position pid asset side cid token amount now =
     \<lparr>p_position_id = pid, p_asset = asset, p_side = side, p_condition_id = cid,
      p_token_id = token, p_state = PS_PENDING_OPEN, p_created_at = now,
      p_requested_amount_usd = amount, p_fill_price = 0, p_gross_fill_shares = 0,
      p_entry_fee_shares = 0, p_net_position_shares = 0, p_fee_rate = 0, p_opened_at = None,
      p_exit_fill_price = 0, p_exit_gross_usdc = 0, p_actual_exit_fee_usdc = 0,
      p_net_exit_usdc = 0, p_net_realized_pnl = 0, p_close_reason = None,
      p_close_trigger_set = [], p_close_triggered_at = None, p_close_requested_price = 0,
      p_closed_at = None\<rparr>"

definition transition_to :: "PositionState \<Rightarrow> PositionRecord \<Rightarrow> (PositionRecord, unit) outcome" where
  "transition_to target r =
     (if target \<notin> set (ALLOWED_TRANSITIONS (p_state r)) then (r, Inl InvalidPositionTransition)
      else (r\<lparr>p_state := target\<rparr>, Inr ()))"

definition is_open :: "PositionRecord \<Rightarrow> bool" where
  "is_open r \<longleftrightarrow> p_state r = PS_OPEN_CONFIRMED"

definition is_closed :: "PositionRecord \<Rightarrow> bool" where
  "is_closed r \<longleftrightarrow> p_state r = PS_CLOSED"

definition is_pending :: "PositionRecord \<Rightarrow> bool" where
  "is_pending r \<longleftrightarrow> p_state r = PS_PENDING_OPEN"

definition sold_reasons :: "CloseReason list" where
  "sold_reasons = [TAKE_PROFIT, STOP_LOSS, FORCE_SELL, MANUAL_CLOSE, SYSTEM_SHUTDOWN, ERROR_RECOVERY]"

definition was_sold :: "PositionRecord \<Rightarrow> bool" where
  "was_sold r = (if \<not> is_closed r then False
     else case p_close_reason r of None \<Rightarrow> False | Some c \<Rightarrow> c \<in> set sold_reasons)"

definition needs_redeem :: "PositionRecord \<Rightarrow> bool" where
  "needs_redeem r = (if \<not> is_closed r then False else \<not> was_sold r)"

record UnrealizedPnl =
  u_current_price :: num
  u_gross_position_value :: num
  u_estimated_exit_fee_usdc :: num
  u_net_exit_value_estimate :: num
  u_net_unrealized_pnl_estimate :: num
  u_net_unrealized_pnl_pct :: num

text \<open>\<^verbatim>\<open>fee_rate or self.fee_rate\<close>: a missing rate and a zero rate both fall back.\<close>

definition calculate_unrealized_pnl :: "PositionRecord \<Rightarrow> num \<Rightarrow> num option \<Rightarrow> UnrealizedPnl" where
  "calculate_unrealized_pnl r current_price fee_rate =
     (let rate = (case fee_rate of None \<Rightarrow> p_fee_rate r
                  | Some x \<Rightarrow> if x = 0 then p_fee_rate r else x);
          gross_value = fmul (p_net_position_shares r) current_price;
          est_fee = fmul (fmul (fmul (p_net_position_shares r) rate) current_price) (fsub 1 current_price);
          net_value = fsub gross_value est_fee;
          net_pnl = fsub net_value (p_requested_amount_usd r)
      in \<lparr>u_current_price = py_round 4 current_price,
          u_gross_position_value = py_round 4 gross_value,
          u_estimated_exit_fee_usdc = py_round 4 est_fee,
          u_net_exit_value_estimate = py_round 4 net_value,
          u_net_unrealized_pnl_estimate = py_round 4 net_pnl,
          u_net_unrealized_pnl_pct =
            (if 0 < p_requested_amount_usd r
             then py_round 2 (fmul (fdiv net_pnl (p_requested_amount_usd r)) 100) else 0)\<rparr>)"

definition pnl_pct :: "PositionRecord \<Rightarrow> num \<Rightarrow> num" where
  "pnl_pct r price = u_net_unrealized_pnl_pct (calculate_unrealized_pnl r price None)"

section \<open>Life cycle\<close>

lemma transition_ok_iff [trans_simps]:
  "transition_to target r = (r', Inr ()) \<longleftrightarrow>
     target \<in> set (ALLOWED_TRANSITIONS (p_state r)) \<and> r' = r\<lparr>p_state := target\<rparr>"
  by (auto simp: transition_to_def)

lemma transition_Inr_iff [trans_simps]:
  "snd (transition_to target r) = Inr u \<longleftrightarrow> target \<in> set (ALLOWED_TRANSITIONS (p_state r))"
  by (auto simp: transition_to_def)

lemma transition_fail [trans_simps]:
  "target \<notin> set (ALLOWED_TRANSITIONS (p_state r)) \<Longrightarrow>
     transition_to target r = (r, Inl InvalidPositionTransition)"
  by (simp add: transition_to_def)

lemma transition_ok [trans_simps]:
  "target \<in> set (ALLOWED_TRANSITIONS (p_state r)) \<Longrightarrow>
     transition_to target r = (r\<lparr>p_state := target\<rparr>, Inr ())"
  by (simp add: transition_to_def)

text \<open>A transition changes the state field only.\<close>

lemma transition_fields:
  "\<exists>s. fst (transition_to target r) = r\<lparr>p_state := s\<rparr>"
  by (cases r) (auto simp: transition_to_def)

lemma allowed_to_open: "PS_OPEN_CONFIRMED \<in> set (ALLOWED_TRANSITIONS s) \<longleftrightarrow>
    s = PS_PENDING_OPEN \<or> s = PS_CLOSING_REQUESTED"
  by (cases s) simp_all

lemma allowed_to_closed: "PS_CLOSED \<in> set (ALLOWED_TRANSITIONS s) \<longleftrightarrow>
    s = PS_PENDING_OPEN \<or> s = PS_CLOSE_PENDING \<or> s = PS_CLOSE_FAILED"
  by (cases s) simp_all

lemma allowed_to_closing: "PS_CLOSING_REQUESTED \<in> set (ALLOWED_TRANSITIONS s) \<longleftrightarrow>
    s = PS_OPEN_CONFIRMED \<or> s = PS_CLOSE_FAILED"
  by (cases s) simp_all

lemma allowed_to_close_pending: "PS_CLOSE_PENDING \<in> set (ALLOWED_TRANSITIONS s) \<longleftrightarrow>
    s = PS_CLOSING_REQUESTED"
  by (cases s) simp_all

lemma allowed_to_close_failed: "PS_CLOSE_FAILED \<in> set (ALLOWED_TRANSITIONS s) \<longleftrightarrow>
    s = PS_CLOSE_PENDING"
  by (cases s) simp_all

lemma nothing_to_pending: "PS_PENDING_OPEN \<notin> set (ALLOWED_TRANSITIONS s)"
  by (cases s) simp_all

lemmas allowed_iffs = allowed_to_open allowed_to_closed allowed_to_closing
  allowed_to_close_pending allowed_to_close_failed nothing_to_pending

text \<open>A position is never both sold and redeemable; a closed one is exactly one of the two.\<close>

lemma sold_xor_redeem: "is_closed r \<Longrightarrow> was_sold r \<noteq> needs_redeem r"
  by (simp add: needs_redeem_def)

lemma needs_redeem_iff:
  "needs_redeem r \<longleftrightarrow> p_state r = PS_CLOSED \<and>
     (p_close_reason r = None \<or> p_close_reason r = Some EXPIRY \<or> p_close_reason r = Some CLAIM)"
proof (cases "p_close_reason r")
  case (Some c)
  then show ?thesis
    by (cases c) (auto simp: needs_redeem_def was_sold_def is_closed_def sold_reasons_def)
qed (auto simp: needs_redeem_def was_sold_def is_closed_def)

section \<open>Profit and loss\<close>

lemma pnl_pct_at_zero:
  assumes "0 < p_requested_amount_usd r" "binary64 (p_requested_amount_usd r)"
  shows "pnl_pct r 0 = - 100"
proof -
  let ?u = "p_requested_amount_usd r"
  have "fsub 0 ?u = - ?u" using assms by (simp add: fsub_def fl_uminus binary64_iff)
  moreover have "fdiv (- ?u) ?u = - 1"
    using assms by (simp add: fdiv_def fl_uminus)
  moreover have "fmul (- 1) 100 = - 100"
    by (simp add: fmul_def fl_uminus fl_numeral)
  moreover have "py_round 2 100 = 100"
  proof -
    have "rne (100 * 10 ^ 2) = 10000" using rne_of_int [of 10000] by simp
    then show ?thesis by (simp add: py_round_def fl_numeral)
  qed
  ultimately show ?thesis
    using assms by (simp add: pnl_pct_def calculate_unrealized_pnl_def Let_def py_round_uminus)
qed

end
