(* ===== verification/Tracker.thy ===== *)
theory Tracker
  imports Position
begin

text \<open>
  \<^verbatim>\<open>backend/execution/position_tracker.py\<close>: the tracker owns every position and the two
  authoritative counters. \<open>t_outbox\<close> lists the ids of the records handed to the position
  store (\<^verbatim>\<open>loop.create_task(store.save(record))\<close>), oldest first; \<open>t_store\<close> says whether a store
  and a running event loop exist. \<^verbatim>\<open>uuid4()\<close> and \<^verbatim>\<open>datetime.now\<close> are the arguments \<open>pid\<close> and
  \<open>now\<close> of the operations. Log calls are left out.

  An operation that raises leaves the assignments made before the \<^verbatim>\<open>raise\<close> in place.
\<close>

record PositionTracker =
  t_positions :: "(string, PositionRecord) dict"
  t_fee_calc :: FeeCalculator
  t_store :: bool
  t_event_fills :: "(string, int) dict"
  t_session_trade_count :: int
  t_outbox :: "string list"

definition new_tracker :: "FeeCalculator \<Rightarrow> bool \<Rightarrow> PositionTracker" where
  "new_tracker c store = \<lparr>t_positions = [], t_fee_calc = c, t_store = store,
     t_event_fills = [], t_session_trade_count = 0, t_outbox = []\<rparr>"

definition reset :: "PositionTracker \<Rightarrow> PositionTracker" where
  "reset t = t\<lparr>t_positions := [], t_event_fills := [], t_session_trade_count := 0\<rparr>"

definition persist :: "string \<Rightarrow> PositionTracker \<Rightarrow> PositionTracker" where
  "persist pid t = (if t_store t then t\<lparr>t_outbox := t_outbox t @ [pid]\<rparr> else t)"

text \<open>Mutating the record object that the dictionary holds.\<close>

definition put_record :: "string \<Rightarrow> PositionRecord \<Rightarrow> PositionTracker \<Rightarrow> PositionTracker" where
  "put_record pid r t = t\<lparr>t_positions := dset pid r (t_positions t)\<rparr>"

definition get_position :: "PositionTracker \<Rightarrow> string \<Rightarrow> PositionRecord option" where
  "get_position t pid = dget (t_positions t) pid"

definition get_event_fill_count :: "PositionTracker \<Rightarrow> string \<Rightarrow> int" where
  "get_event_fill_count t cid = dget_or (t_event_fills t) cid 0"

definition bump_event_fills :: "string \<Rightarrow> int \<Rightarrow> PositionTracker \<Rightarrow> PositionTracker" where
  "bump_event_fills cid n t =
     t\<lparr>t_event_fills := dset cid (get_event_fill_count t cid + n) (t_event_fills t)\<rparr>"

definition restore_position :: "PositionRecord \<Rightarrow> PositionTracker \<Rightarrow> PositionTracker" where
  "restore_position r t =
     (let t1 = put_record (p_position_id r) r t;
          t2 = bump_event_fills (p_condition_id r) 1 t1
      in if p_state r = PS_PENDING_OPEN then t2
         else t2\<lparr>t_session_trade_count := t_session_trade_count t2 + 1\<rparr>)"

definition create_pending ::
  "string \<Rightarrow> string \<Rightarrow> string \<Rightarrow> string \<Rightarrow> num \<Rightarrow> string \<Rightarrow> usec \<Rightarrow> PositionTracker
    \<Rightarrow> PositionTracker \<times> PositionRecord" where
  "create_pending asset side cid token amount pid now t =
     (let r = new_position pid asset side cid token amount now;
          t1 = put_record pid r t;
          t2 = bump_event_fills cid 1 t1
      in (persist pid t2, r))"

definition confirm_fill ::
  "string \<Rightarrow> num \<Rightarrow> num option \<Rightarrow> usec \<Rightarrow> PositionTracker \<Rightarrow> (PositionTracker, PositionRecord) outcome" where
  "confirm_fill pid fill_price fee_rate now t =
     (case get_position t pid of
        None \<Rightarrow> (t, Inl KeyError)
      | Some r \<Rightarrow>
         (let calc = (case fee_rate of None \<Rightarrow> t_fee_calc t | Some x \<Rightarrow> \<lparr>fc_fee_rate = x\<rparr>)
          in case calculate_entry calc (p_requested_amount_usd r) fill_price of
               Inl e \<Rightarrow> (t, Inl e)
             | Inr entry \<Rightarrow>
                (let r1 = r\<lparr>p_fill_price := fill_price,
                            p_gross_fill_shares := ec_gross_fill_shares entry,
                            p_entry_fee_shares := ec_entry_fee_shares entry,
                            p_net_position_shares := ec_net_position_shares entry,
                            p_fee_rate := ec_fee_rate entry,
                            p_opened_at := Some now\<rparr>
                 in case transition_to PS_OPEN_CONFIRMED r1 of
                      (r2, Inl e) \<Rightarrow> (put_record pid r2 t, Inl e)
                    | (r2, Inr _) \<Rightarrow>
                       (let t1 = put_record pid r2 t;
                            t2 = t1\<lparr>t_session_trade_count := t_session_trade_count t1 + 1\<rparr>
                        in (persist pid t2, Inr r2)))))"

text \<open>The fill counter is taken back before the transition is checked; nothing is persisted.\<close>

definition reject_fill ::
  "string \<Rightarrow> usec \<Rightarrow> PositionTracker \<Rightarrow> (PositionTracker, PositionRecord) outcome" where
  "reject_fill pid now t =
     (case get_position t pid of
        None \<Rightarrow> (t, Inl KeyError)
      | Some r \<Rightarrow>
         (let cid = p_condition_id r;
              t1 = (if 0 < get_event_fill_count t cid then bump_event_fills cid (- 1) t else t)
          in case transition_to PS_CLOSED r of
               (r1, Inl e) \<Rightarrow> (put_record pid r1 t1, Inl e)
             | (r1, Inr _) \<Rightarrow>
                (let r2 = r1\<lparr>p_closed_at := Some now\<rparr> in (put_record pid r2 t1, Inr r2))))"

definition request_close ::
  "string \<Rightarrow> CloseReason \<Rightarrow> ForceSellTrigger list \<Rightarrow> num \<Rightarrow> usec \<Rightarrow> PositionTracker
    \<Rightarrow> (PositionTracker, PositionRecord) outcome" where
  "request_close pid reason triggers requested_price now t =
     (case get_position t pid of
        None \<Rightarrow> (t, Inl KeyError)
      | Some r \<Rightarrow>
         (case transition_to PS_CLOSING_REQUESTED r of
            (r1, Inl e) \<Rightarrow> (put_record pid r1 t, Inl e)
          | (r1, Inr _) \<Rightarrow>
             (let r2 = r1\<lparr>p_close_reason := Some reason, p_close_trigger_set := triggers,
                          p_close_triggered_at := Some now,
                          p_close_requested_price := requested_price\<rparr>
              in (persist pid (put_record pid r2 t), Inr r2))))"

definition confirm_close ::
  "string \<Rightarrow> num \<Rightarrow> num option \<Rightarrow> usec \<Rightarrow> PositionTracker \<Rightarrow> (PositionTracker, PositionRecord) outcome" where
  "confirm_close pid exit_fill_price fee_rate now t =
     (case get_position t pid of
        None \<Rightarrow> (t, Inl KeyError)
      | Some r \<Rightarrow>
         (let r0 = (if p_state r = PS_CLOSING_REQUESTED
                    then fst (transition_to PS_CLOSE_PENDING r) else r)
          in case transition_to PS_CLOSED r0 of
               (r1, Inl e) \<Rightarrow> (put_record pid r1 t, Inl e)
             | (r1, Inr _) \<Rightarrow>
                (let calc = (case fee_rate of None \<Rightarrow> t_fee_calc t | Some x \<Rightarrow> \<lparr>fc_fee_rate = x\<rparr>);
                     exit_data = calculate_exit calc (p_net_position_shares r1) exit_fill_price;
                     r2 = r1\<lparr>p_exit_fill_price := exit_fill_price,
                             p_exit_gross_usdc := xc_exit_gross_usdc exit_data,
                             p_actual_exit_fee_usdc := xc_actual_exit_fee_usdc exit_data,
                             p_net_exit_usdc := xc_net_exit_usdc exit_data,
                             p_net_realized_pnl :=
                               py_round 4 (fsub (xc_net_exit_usdc exit_data) (p_requested_amount_usd r1)),
                             p_closed_at := Some now\<rparr>
                 in (persist pid (put_record pid r2 t), Inr r2))))"

definition open_position_count :: "PositionTracker \<Rightarrow> int" where
  "open_position_count t = int (dcount is_open (t_positions t))"

definition get_open_positions :: "PositionTracker \<Rightarrow> PositionRecord list" where
  "get_open_positions t = filter is_open (dvals (t_positions t))"

definition get_all_positions :: "PositionTracker \<Rightarrow> PositionRecord list" where
  "get_all_positions t = dvals (t_positions t)"

definition get_positions_by_condition :: "PositionTracker \<Rightarrow> string \<Rightarrow> PositionRecord list" where
  "get_positions_by_condition t cid = filter (\<lambda>p. p_condition_id p = cid) (dvals (t_positions t))"

section \<open>Lookup after each operation\<close>

lemma get_put [simp]: "get_position (put_record pid r t) k = (if k = pid then Some r else get_position t k)"
  by (simp add: get_position_def put_record_def)

lemma tracker_frame [simp]:
  "t_event_fills (put_record pid r t) = t_event_fills t"
  "t_session_trade_count (put_record pid r t) = t_session_trade_count t"
  "t_fee_calc (put_record pid r t) = t_fee_calc t"
  "t_store (put_record pid r t) = t_store t"
  "t_outbox (put_record pid r t) = t_outbox t"
  "t_positions (put_record pid r t) = dset pid r (t_positions t)"
  "t_positions (persist pid t) = t_positions t"
  "t_event_fills (persist pid t) = t_event_fills t"
  "t_session_trade_count (persist pid t) = t_session_trade_count t"
  "t_positions (bump_event_fills c n t) = t_positions t"
  "t_session_trade_count (bump_event_fills c n t) = t_session_trade_count t"
  "t_store (bump_event_fills c n t) = t_store t"
  "t_outbox (bump_event_fills c n t) = t_outbox t"
  by (simp_all add: put_record_def persist_def bump_event_fills_def)

lemma get_frame [simp]:
  "get_position (persist pid t) k = get_position t k"
  "get_position (bump_event_fills c n t) k = get_position t k"
  "get_position (t\<lparr>t_session_trade_count := m\<rparr>) k = get_position t k"
  by (simp_all add: get_position_def)

lemma fills_frame [simp]:
  "get_event_fill_count (put_record pid r t) c = get_event_fill_count t c"
  "get_event_fill_count (persist pid t) c = get_event_fill_count t c"
  "get_event_fill_count (t\<lparr>t_session_trade_count := m\<rparr>) c = get_event_fill_count t c"
  "get_event_fill_count (bump_event_fills c' n t) c =
     get_event_fill_count t c + (if c = c' then n else 0)"
  by (simp_all add: get_event_fill_count_def persist_def bump_event_fills_def)

section \<open>The operations as branches\<close>

lemma confirm_fill_ok:
  assumes "confirm_fill pid price fee now t = (t', Inr r')"
  obtains r e where "get_position t pid = Some r" and "price \<noteq> 0"
    and "p_state r = PS_PENDING_OPEN \<or> p_state r = PS_CLOSING_REQUESTED"
    and "calculate_entry (case fee of None \<Rightarrow> t_fee_calc t | Some x \<Rightarrow> \<lparr>fc_fee_rate = x\<rparr>)
           (p_requested_amount_usd r) price = Inr e"
    and "r' = r\<lparr>p_fill_price := price, p_gross_fill_shares := ec_gross_fill_shares e,
           p_entry_fee_shares := ec_entry_fee_shares e,
           p_net_position_shares := ec_net_position_shares e, p_fee_rate := ec_fee_rate e,
           p_opened_at := Some now, p_state := PS_OPEN_CONFIRMED\<rparr>"
    and "t' = persist pid (put_record pid r' t\<lparr>t_session_trade_count := t_session_trade_count t + 1\<rparr>)"
  using assms
  by (auto simp: confirm_fill_def transition_to_def Let_def allowed_to_open
      dest: calculate_entry_ok split: option.splits sum.splits if_splits)

text \<open>
  Confirming a position that is neither pending nor closing raises, but only after the
  \<open>authoritative\<close> entry fields have been overwritten.
\<close>

lemma confirm_fill_bad_state:
  assumes "get_position t pid = Some r" and "price \<noteq> 0"
    and "p_state r \<noteq> PS_PENDING_OPEN" and "p_state r \<noteq> PS_CLOSING_REQUESTED"
  shows "\<exists>r'. confirm_fill pid price fee now t =
           (put_record pid r' t, Inl InvalidPositionTransition) \<and>
           p_fill_price r' = price \<and> p_opened_at r' = Some now \<and> p_state r' = p_state r"
  using assms
  by (auto simp: confirm_fill_def calculate_entry_def transition_to_def Let_def allowed_to_open)

lemma reject_fill_ok:
  assumes "reject_fill pid now t = (t', Inr r')"
  obtains r where "get_position t pid = Some r"
    and "PS_CLOSED \<in> set (ALLOWED_TRANSITIONS (p_state r))"
    and "r' = r\<lparr>p_state := PS_CLOSED, p_closed_at := Some now\<rparr>"
    and "t' = put_record pid r' (if 0 < get_event_fill_count t (p_condition_id r)
                then bump_event_fills (p_condition_id r) (- 1) t else t)"
  using assms
  by (auto simp: reject_fill_def transition_to_def Let_def split: option.splits if_splits)

lemma request_close_ok:
  assumes "request_close pid reason trig rp now t = (t', Inr r')"
  obtains r where "get_position t pid = Some r"
    and "p_state r = PS_OPEN_CONFIRMED \<or> p_state r = PS_CLOSE_FAILED"
    and "r' = r\<lparr>p_state := PS_CLOSING_REQUESTED, p_close_reason := Some reason,
           p_close_trigger_set := trig, p_close_triggered_at := Some now,
           p_close_requested_price := rp\<rparr>"
    and "t' = persist pid (put_record pid r' t)"
  using assms
  by (auto simp: request_close_def transition_to_def Let_def allowed_to_closing
      split: option.splits if_splits)

text \<open>The states from which a close can be confirmed: pending ones are closed unfilled.\<close>

lemma confirm_close_ok:
  assumes "confirm_close pid price fee now t = (t', Inr r')"
  obtains r x where "get_position t pid = Some r"
    and "p_state r \<in> {PS_PENDING_OPEN, PS_CLOSING_REQUESTED, PS_CLOSE_PENDING, PS_CLOSE_FAILED}"
    and "x = calculate_exit (case fee of None \<Rightarrow> t_fee_calc t | Some f \<Rightarrow> \<lparr>fc_fee_rate = f\<rparr>)
           (p_net_position_shares r) price"
    and "r' = r\<lparr>p_state := PS_CLOSED, p_exit_fill_price := price,
           p_exit_gross_usdc := xc_exit_gross_usdc x,
           p_actual_exit_fee_usdc := xc_actual_exit_fee_usdc x,
           p_net_exit_usdc := xc_net_exit_usdc x,
           p_net_realized_pnl := py_round 4 (fsub (xc_net_exit_usdc x) (p_requested_amount_usd r)),
           p_closed_at := Some now\<rparr>"
    and "t' = persist pid (put_record pid r' t)"
proof -
  from assms obtain r where r: "get_position t pid = Some r"
    by (auto simp: confirm_close_def split: option.splits)
  let ?x = "calculate_exit (case fee of None \<Rightarrow> t_fee_calc t | Some f \<Rightarrow> \<lparr>fc_fee_rate = f\<rparr>)
           (p_net_position_shares r) price"
  show thesis
    by (rule that [OF r, of ?x])
      (use assms r in \<open>auto simp: confirm_close_def transition_to_def Let_def allowed_iffs
        split: if_splits\<close>)
qed

text \<open>An exception of any of the four operations leaves the counters as they were, except
  that \<open>reject_fill\<close> has already taken the fill counter back.\<close>

lemma confirm_close_error:
  "confirm_close pid price fee now t = (t', Inl e) \<Longrightarrow>
     t_event_fills t' = t_event_fills t \<and> t_session_trade_count t' = t_session_trade_count t"
  by (auto simp: confirm_close_def transition_to_def Let_def split: option.splits if_splits)

lemma reject_fill_closed:
  assumes "get_position t pid = Some r" and "p_state r = PS_CLOSED"
    and "0 < get_event_fill_count t (p_condition_id r)"
  shows "\<exists>t'. reject_fill pid now t = (t', Inl InvalidPositionTransition) \<and>
     get_event_fill_count t' (p_condition_id r) = get_event_fill_count t (p_condition_id r) - 1"
  using assms by (auto simp: reject_fill_def transition_to_def Let_def)


section \<open>Example states\<close>

text \<open>One four-dollar position bought at 0.5, open, and the same with a requested close.\<close>

definition example_pending :: PositionTracker where
  "example_pending = fst (create_pending ''BTC'' ''UP'' ''c1'' ''tok'' 4 ''p1'' 5
     (new_tracker \<lparr>fc_fee_rate = 1 / 8\<rparr> True))"

definition example_open :: PositionTracker where
  "example_open = fst (confirm_fill ''p1'' (1 / 2) None 10 example_pending)"

definition example_closing :: "CloseReason \<Rightarrow> PositionTracker" where
  "example_closing reason = fst (request_close ''p1'' reason [FS_TIME] 0 20 example_open)"

end
