(* ===== verification/TrackerInv.thy ===== *)
theory TrackerInv
  imports Tracker
begin

text \<open>
  The tracker as a transition system: \<open>trk_step\<close> lists the ways in which the rest of the bot
  changes it, \<open>trk_inv\<close> is what all of them keep. The invariant makes the two counters
  authoritative: the fill counter of an event is the number of its positions that are not
  rejected fills, and the session counter is the number of positions that were ever open.

  The per-event limit is proved through the interface \<open>fill_ledger\<close>: a client that only enters
  an event below its limit never takes the counter above it. The tracker provides the laws.
\<close>

section \<open>The invariant\<close>

text \<open>A position that still counts against its event: everything but a rejected fill.\<close>

definition counted :: "PositionRecord \<Rightarrow> bool" where
  "counted p \<longleftrightarrow> \<not> (p_state p = PS_CLOSED \<and> p_opened_at p = None)"

definition was_opened :: "PositionRecord \<Rightarrow> bool" where
  "was_opened p \<longleftrightarrow> p_opened_at p \<noteq> None"

definition wf_record :: "PositionRecord \<Rightarrow> bool" where
  "wf_record p \<longleftrightarrow> (p_state p = PS_PENDING_OPEN \<longrightarrow> p_opened_at p = None) \<and>
     (p_opened_at p = None \<longrightarrow> p_state p = PS_PENDING_OPEN \<or> p_state p = PS_CLOSED)"

definition counted_in :: "string \<Rightarrow> PositionRecord \<Rightarrow> bool" where
  "counted_in c p \<longleftrightarrow> p_condition_id p = c \<and> counted p"

definition trk_inv :: "PositionTracker \<Rightarrow> bool" where
  "trk_inv t \<longleftrightarrow> wf_dict (t_positions t) \<and>
     (\<forall>k r. get_position t k = Some r \<longrightarrow> p_position_id r = k \<and> wf_record r) \<and>
     (\<forall>c. get_event_fill_count t c = int (dcount (counted_in c) (t_positions t))) \<and>
     t_session_trade_count t = int (dcount was_opened (t_positions t))"

lemma trk_inv_wf: "trk_inv t \<Longrightarrow> get_position t k = Some r \<Longrightarrow> p_position_id r = k \<and> wf_record r"
  by (simp add: trk_inv_def)

lemma trk_inv_fills:
  "trk_inv t \<Longrightarrow> get_event_fill_count t c = int (dcount (counted_in c) (t_positions t))"
  by (simp add: trk_inv_def)

lemma trk_inv_new: "trk_inv (new_tracker c st)" and trk_inv_reset: "trk_inv (reset t)"
  by (simp_all add: trk_inv_def new_tracker_def reset_def get_position_def
      get_event_fill_count_def dcount_def)

lemma reset_new: "reset (new_tracker c st) = new_tracker c st"
  by (simp add: reset_def new_tracker_def)

definition one :: "bool \<Rightarrow> int" where "one b = (if b then 1 else 0)"

lemma one_simps [simp]: "one True = 1" "one False = 0"
  by (simp_all add: one_def)

text \<open>A new record: the counters grow by what it contributes.\<close>

lemma trk_inv_insert:
  assumes inv: "trk_inv t" and new: "get_position t pid = None"
    and pos: "t_positions t' = dset pid r (t_positions t)"
    and r: "p_position_id r = pid" "wf_record r"
    and fills: "\<And>c. get_event_fill_count t' c = get_event_fill_count t c + one (counted_in c r)"
    and sess: "t_session_trade_count t' = t_session_trade_count t + one (was_opened r)"
  shows "trk_inv t'"
proof -
  have k: "pid \<notin> set (dkeys (t_positions t))"
    using new by (simp add: get_position_def map_of_eq_None_iff)
  show ?thesis
    using inv r pos fills sess
    by (auto simp: trk_inv_def dcount_dset_new [OF k] get_position_def one_def)
qed

text \<open>A replaced record: the counters move by the difference.\<close>

lemma trk_inv_replace:
  assumes inv: "trk_inv t" and old: "get_position t pid = Some r"
    and pos: "t_positions t' = dset pid r' (t_positions t)"
    and r: "p_position_id r' = pid" "wf_record r'"
    and fills: "\<And>c. get_event_fill_count t' c =
       get_event_fill_count t c + one (counted_in c r') - one (counted_in c r)"
    and sess: "t_session_trade_count t' = t_session_trade_count t + one (was_opened r') - one (was_opened r)"
  shows "trk_inv t'"
proof -
  have wf: "wf_dict (t_positions t)" and d: "dget (t_positions t) pid = Some r"
    using inv old by (simp_all add: trk_inv_def get_position_def)
  have "int (dcount P (dset pid r' (t_positions t))) =
      int (dcount P (t_positions t)) + one (P r') - one (P r)" for P
    using dcount_dset_old [OF wf d, of P r'] by (auto simp: one_def split: if_splits)
  with inv pos r fills sess wf show ?thesis
    by (auto simp: trk_inv_def get_position_def)
qed

section \<open>The operations keep the invariant\<close>

lemma create_pending_inv:
  assumes "create_pending asset side cid tok amt pid now t = (t', p)"
    and "trk_inv t" and "get_position t pid = None"
  shows "trk_inv t'"
proof (rule trk_inv_insert [OF assms(2,3)])
  show "t_positions t' = dset pid p (t_positions t)"
    using assms(1) by (auto simp: create_pending_def Let_def)
qed (use assms(1) in \<open>auto simp: create_pending_def new_position_def wf_record_def counted_in_def
    counted_def was_opened_def one_def Let_def\<close>)

lemma confirm_fill_inv:
  assumes "confirm_fill pid price fee now t = (t', Inr r')"
    and "trk_inv t" and pend: "get_position t pid = Some r" "p_state r = PS_PENDING_OPEN"
  shows "trk_inv t'"
  using assms(1)
proof (rule confirm_fill_ok)
  fix r0 e
  assume r0: "get_position t pid = Some r0"
    and r': "r' = r0\<lparr>p_fill_price := price, p_gross_fill_shares := ec_gross_fill_shares e,
           p_entry_fee_shares := ec_entry_fee_shares e,
           p_net_position_shares := ec_net_position_shares e, p_fee_rate := ec_fee_rate e,
           p_opened_at := Some now, p_state := PS_OPEN_CONFIRMED\<rparr>"
    and t': "t' = persist pid (put_record pid r' t\<lparr>t_session_trade_count := t_session_trade_count t + 1\<rparr>)"
  from r0 pend have [simp]: "r0 = r" by simp
  have w: "wf_record r" "p_position_id r = pid" using trk_inv_wf [OF assms(2) pend(1)] by auto
  show "trk_inv t'"
    by (rule trk_inv_replace [OF assms(2) pend(1), where r' = r'])
      (use w pend(2) in \<open>auto simp: r' t' wf_record_def counted_in_def counted_def was_opened_def one_def\<close>)
qed

lemma reject_fill_inv:
  assumes "reject_fill pid now t = (t', Inr r')"
    and "trk_inv t" and pend: "get_position t pid = Some r" "p_state r = PS_PENDING_OPEN"
  shows "trk_inv t'"
  using assms(1)
proof (rule reject_fill_ok)
  fix r0
  assume r0: "get_position t pid = Some r0"
    and r': "r' = r0\<lparr>p_state := PS_CLOSED, p_closed_at := Some now\<rparr>"
    and t': "t' = put_record pid r' (if 0 < get_event_fill_count t (p_condition_id r0)
                then bump_event_fills (p_condition_id r0) (- 1) t else t)"
  from r0 pend have [simp]: "r0 = r" by simp
  have w: "wf_record r" "p_position_id r = pid" using trk_inv_wf [OF assms(2) pend(1)] by auto
  have "counted_in (p_condition_id r) r" using pend(2) by (simp add: counted_in_def counted_def)
  moreover have "r \<in> set (dvals (t_positions t))"
    using pend(1) by (force simp: get_position_def dest: map_of_SomeD)
  ultimately have "0 < dcount (counted_in (p_condition_id r)) (t_positions t)"
    unfolding dcount_def by (meson filter_empty_conv length_greater_0_conv)
  then have pos: "0 < get_event_fill_count t (p_condition_id r)"
    using trk_inv_fills [OF assms(2)] by simp
  show "trk_inv t'"
    by (rule trk_inv_replace [OF assms(2) pend(1), where r' = r'])
      (use w pend(2) pos in \<open>auto simp: r' t' wf_record_def counted_in_def counted_def was_opened_def one_def\<close>)
qed

text \<open>
  Any change of a position that has been open, which keeps its identity, its event and its
  opening time and does not make it pending: the closing side of the life cycle.
\<close>

definition held_edit :: "PositionRecord \<Rightarrow> PositionRecord \<Rightarrow> bool" where
  "held_edit r r' \<longleftrightarrow> p_state r \<noteq> PS_PENDING_OPEN \<and> p_state r \<noteq> PS_CLOSED \<and>
     p_state r' \<noteq> PS_PENDING_OPEN \<and>
     (p_state r' = p_state r \<or> PS_CLOSED = p_state r' \<or> p_state r' \<in> set (ALLOWED_TRANSITIONS (p_state r))) \<and>
     p_position_id r' = p_position_id r \<and> p_condition_id r' = p_condition_id r \<and>
     p_opened_at r' = p_opened_at r"

lemma held_edit_inv:
  assumes inv: "trk_inv t" and old: "get_position t pid = Some r" and ed: "held_edit r r'"
    and same: "t_positions t' = dset pid r' (t_positions t)" "t_event_fills t' = t_event_fills t"
      "t_session_trade_count t' = t_session_trade_count t"
  shows "trk_inv t'"
proof (rule trk_inv_replace [OF inv old same(1)])
  have w: "wf_record r" "p_position_id r = pid" using trk_inv_wf [OF inv old] by auto
  then have op: "p_opened_at r \<noteq> None" using ed by (auto simp: held_edit_def wf_record_def)
  show "p_position_id r' = pid" "wf_record r'"
    using w ed op by (auto simp: held_edit_def wf_record_def)
  show "get_event_fill_count t' c = get_event_fill_count t c + one (counted_in c r') - one (counted_in c r)" for c
    using ed op by (auto simp: get_event_fill_count_def same held_edit_def counted_in_def counted_def one_def)
  show "t_session_trade_count t' = t_session_trade_count t + one (was_opened r') - one (was_opened r)"
    using ed by (simp add: same held_edit_def was_opened_def one_def)
qed

text \<open>A restored position comes with its counters: it counts for its event, and for the
  session unless it is pending.\<close>

lemma restore_position_inv:
  assumes "trk_inv t" and "get_position t (p_position_id r) = None" and "wf_record r" and "p_state r \<noteq> PS_CLOSED"
  shows "trk_inv (restore_position r t)"
proof (rule trk_inv_insert [OF assms(1,2)])
  show "t_positions (restore_position r t) = dset (p_position_id r) r (t_positions t)"
    by (simp add: restore_position_def Let_def)
qed (use assms in \<open>auto simp: restore_position_def Let_def wf_record_def counted_in_def counted_def
    was_opened_def one_def\<close>)

section \<open>The step relation\<close>

text \<open>
  \<open>ts_create\<close>, \<open>ts_fill\<close> and \<open>ts_reject\<close> are the entry calls of the order executor (fresh ids;
  a fill or a rejection of the pending position just created), \<open>ts_restore\<close> is the start-up
  restore, and \<open>ts_held\<close> is every change of the closing side. \<open>reset\<close> is not
  a step: every start of the bot begins with it, and a run is what follows.
\<close>

inductive trk_step :: "PositionTracker \<Rightarrow> PositionTracker \<Rightarrow> bool" where
  ts_create: "get_position t pid = None \<Longrightarrow>
     create_pending asset side cid tok amt pid now t = (t', p) \<Longrightarrow> trk_step t t'"
| ts_fill: "get_position t pid = Some r \<Longrightarrow> p_state r = PS_PENDING_OPEN \<Longrightarrow>
     confirm_fill pid price fee now t = (t', Inr r') \<Longrightarrow> trk_step t t'"
| ts_reject: "get_position t pid = Some r \<Longrightarrow> p_state r = PS_PENDING_OPEN \<Longrightarrow>
     reject_fill pid now t = (t', Inr r') \<Longrightarrow> trk_step t t'"
| ts_held: "get_position t pid = Some r \<Longrightarrow> held_edit r r' \<Longrightarrow>
     t_positions t' = dset pid r' (t_positions t) \<Longrightarrow> t_event_fills t' = t_event_fills t \<Longrightarrow>
     t_session_trade_count t' = t_session_trade_count t \<Longrightarrow> trk_step t t'"
| ts_restore: "get_position t (p_position_id r) = None \<Longrightarrow> wf_record r \<Longrightarrow> p_state r \<noteq> PS_CLOSED \<Longrightarrow>
     trk_step t (restore_position r t)"

lemma trk_step_inv: "trk_step t t' \<Longrightarrow> trk_inv t \<Longrightarrow> trk_inv t'"
  by (induction rule: trk_step.induct)
    (auto intro: create_pending_inv confirm_fill_inv reject_fill_inv held_edit_inv
      restore_position_inv)

text \<open>A closed position is never written again.\<close>

lemma trk_step_closed:
  assumes "trk_step t t'" "get_position t k = Some p" "p_state p = PS_CLOSED"
  shows "get_position t' k = Some p"
  using assms
proof (induction rule: trk_step.induct)
  case (ts_create t pid asset side cid tok amt now t' q)
  then show ?case by (auto simp: create_pending_def Let_def)
next
  case (ts_fill t pid r price fee now t' r')
  then have "pid \<noteq> k" by auto
  with ts_fill show ?case by (auto elim!: confirm_fill_ok)
next
  case (ts_reject t pid r now t' r')
  then have "pid \<noteq> k" by auto
  with ts_reject show ?case by (auto elim!: reject_fill_ok)
next
  case (ts_held t pid r r' t')
  then have "pid \<noteq> k" by (auto simp: held_edit_def)
  with ts_held show ?case by (simp add: get_position_def)
next
  case (ts_restore t r)
  then have "p_position_id r \<noteq> k" by auto
  with ts_restore show ?case by (simp add: restore_position_def Let_def)
qed

abbreviation trk_steps :: "PositionTracker \<Rightarrow> PositionTracker \<Rightarrow> bool" where
  "trk_steps \<equiv> trk_step\<^sup>*\<^sup>*"

lemma trk_steps_inv: "trk_steps t t' \<Longrightarrow> trk_inv t \<Longrightarrow> trk_inv t'"
  by (induction rule: rtranclp_induct) (auto intro: trk_step_inv)

lemma held_step:
  assumes "get_position t pid = Some r" and "held_edit r r'"
  shows "trk_steps t (put_record pid r' t)" and "trk_steps t (persist pid (put_record pid r' t))"
  by (rule r_into_rtranclp, rule ts_held [OF assms], simp_all)+

text \<open>The two tracker operations of the closing side are such steps.\<close>

lemma request_close_step:
  assumes "request_close pid reason trig rp now t = (t', Inr r')" and "trk_inv t"
  shows "trk_steps t t'"
  using assms(1)
proof (rule request_close_ok)
  fix r
  assume g: "get_position t pid = Some r" and st: "p_state r = PS_OPEN_CONFIRMED \<or> p_state r = PS_CLOSE_FAILED"
    and r': "r' = r\<lparr>p_state := PS_CLOSING_REQUESTED, p_close_reason := Some reason,
           p_close_trigger_set := trig, p_close_triggered_at := Some now, p_close_requested_price := rp\<rparr>"
    and t': "t' = persist pid (put_record pid r' t)"
  have "held_edit r r'" using st by (auto simp: held_edit_def r' allowed_iffs)
  then show ?thesis using held_step(2) [OF g] t' by simp
qed

lemma confirm_close_step:
  assumes "confirm_close pid price fee now t = (t', Inr r')" and "trk_inv t"
    and "get_position t pid = Some r" "p_state r \<noteq> PS_PENDING_OPEN"
  shows "trk_steps t t'"
  using assms(1)
proof (rule confirm_close_ok)
  fix r0 x
  assume g: "get_position t pid = Some r0"
    and st: "p_state r0 \<in> {PS_PENDING_OPEN, PS_CLOSING_REQUESTED, PS_CLOSE_PENDING, PS_CLOSE_FAILED}"
    and r': "r' = r0\<lparr>p_state := PS_CLOSED, p_exit_fill_price := price,
           p_exit_gross_usdc := xc_exit_gross_usdc x,
           p_actual_exit_fee_usdc := xc_actual_exit_fee_usdc x,
           p_net_exit_usdc := xc_net_exit_usdc x,
           p_net_realized_pnl := py_round 4 (fsub (xc_net_exit_usdc x) (p_requested_amount_usd r0)),
           p_closed_at := Some now\<rparr>"
    and t': "t' = persist pid (put_record pid r' t)"
  have "held_edit r0 r'" using st g assms(3,4) by (auto simp: held_edit_def r')
  then show ?thesis using held_step(2) [OF g] t' by simp
qed

section \<open>The limit per event\<close>

text \<open>
  What a client of the counters relies on: entering an event adds at most one to its own
  counter, and nothing else adds to any counter. A run in which every entry is guarded by
  \<open>count < cap\<close> keeps every event within its limit.
\<close>

locale fill_ledger =
  fixes count :: "'s \<Rightarrow> string \<Rightarrow> int"
    and enter :: "string \<Rightarrow> 's \<Rightarrow> 's \<Rightarrow> bool"
    and other :: "'s \<Rightarrow> 's \<Rightarrow> bool"
    and valid :: "'s \<Rightarrow> bool"
  assumes enter_count: "valid s \<Longrightarrow> enter c s s' \<Longrightarrow> count s' d \<le> count s d + one (d = c)"
    and other_count: "valid s \<Longrightarrow> other s s' \<Longrightarrow> count s' d \<le> count s d"
    and enter_valid: "valid s \<Longrightarrow> enter c s s' \<Longrightarrow> valid s'"
    and other_valid: "valid s \<Longrightarrow> other s s' \<Longrightarrow> valid s'"
begin

inductive guarded_run :: "(string \<Rightarrow> int) \<Rightarrow> 's \<Rightarrow> 's \<Rightarrow> bool" for cap where
  gr_start: "guarded_run cap s s"
| gr_enter: "guarded_run cap s s' \<Longrightarrow> count s' c < cap c \<Longrightarrow> enter c s' s'' \<Longrightarrow> guarded_run cap s s''"
| gr_other: "guarded_run cap s s' \<Longrightarrow> other s' s'' \<Longrightarrow> guarded_run cap s s''"

lemma guarded_run_cap:
  assumes "guarded_run cap s s'" and "valid s" and "\<forall>c. count s c \<le> cap c"
  shows "valid s' \<and> (\<forall>c. count s' c \<le> cap c)"
  using assms
proof (induction rule: guarded_run.induct)
  case (gr_enter s s' c s'')
  have v: "valid s'" and le: "\<forall>c. count s' c \<le> cap c" using gr_enter.IH gr_enter.prems by auto
  have "count s'' d \<le> cap d" for d
  proof (cases "d = c")
    case True
    then show ?thesis using enter_count [OF v gr_enter.hyps(3), of d] gr_enter.hyps(2) by simp
  next
    case False
    then show ?thesis using enter_count [OF v gr_enter.hyps(3), of d] le [rule_format, of d] by simp
  qed
  with enter_valid [OF v gr_enter.hyps(3)] show ?case by blast
next
  case (gr_other s s' s'')
  then show ?case by (metis order_trans other_count other_valid)
qed simp

end

definition trk_enter :: "string \<Rightarrow> PositionTracker \<Rightarrow> PositionTracker \<Rightarrow> bool" where
  "trk_enter cid t t' \<longleftrightarrow> (\<exists>asset side tok amt pid now p. get_position t pid = None \<and>
     create_pending asset side cid tok amt pid now t = (t', p))"

text \<open>Every other step of a running bot: a start-up restore is not one.\<close>

definition trk_other :: "PositionTracker \<Rightarrow> PositionTracker \<Rightarrow> bool" where
  "trk_other t t' \<longleftrightarrow> (\<exists>pid r r'. get_position t pid = Some r \<and>
     (p_state r = PS_PENDING_OPEN \<and> (\<exists>price fee now. confirm_fill pid price fee now t = (t', Inr r')) \<or>
      p_state r = PS_PENDING_OPEN \<and> (\<exists>now. reject_fill pid now t = (t', Inr r')) \<or>
      held_edit r r' \<and> t_positions t' = dset pid r' (t_positions t) \<and>
        t_event_fills t' = t_event_fills t \<and> t_session_trade_count t' = t_session_trade_count t))"

lemma trk_enter_step: "trk_enter cid t t' \<Longrightarrow> trk_step t t'"
  by (auto simp: trk_enter_def intro: ts_create)

lemma trk_other_step: "trk_other t t' \<Longrightarrow> trk_step t t'"
  by (auto simp: trk_other_def intro: ts_fill ts_reject ts_held)

lemma trk_other_count:
  assumes "trk_inv t" and "trk_other t t'"
  shows "get_event_fill_count t' d \<le> get_event_fill_count t d"
proof -
  have nn: "0 \<le> get_event_fill_count t d" using trk_inv_fills [OF assms(1)] by simp
  show ?thesis
    using assms(2) unfolding trk_other_def
  proof (elim disjE exE conjE)
    fix pid r r' now assume "reject_fill pid now t = (t', Inr r')"
    then show ?thesis by (rule reject_fill_ok) (use nn in auto)
  next
    fix pid r r' price fee now assume "confirm_fill pid price fee now t = (t', Inr r')"
    then show ?thesis by (rule confirm_fill_ok) auto
  next
    assume "t_event_fills t' = t_event_fills t"
    then show ?thesis by (simp add: get_event_fill_count_def)
  qed
qed

interpretation trk_ledger: fill_ledger get_event_fill_count trk_enter trk_other trk_inv
proof
  fix s c s' d
  show "trk_inv s \<Longrightarrow> trk_enter c s s' \<Longrightarrow> get_event_fill_count s' d \<le> get_event_fill_count s d + one (d = c)"
    by (auto simp: trk_enter_def create_pending_def Let_def)
  show "trk_inv s \<Longrightarrow> trk_other s s' \<Longrightarrow> get_event_fill_count s' d \<le> get_event_fill_count s d"
    by (rule trk_other_count)
  show "trk_inv s \<Longrightarrow> trk_enter c s s' \<Longrightarrow> trk_inv s'" "trk_inv s \<Longrightarrow> trk_other s s' \<Longrightarrow> trk_inv s'"
    by (blast intro: trk_step_inv trk_enter_step trk_other_step)+
qed

section \<open>Properties\<close>


lemma example_open_steps: "trk_steps (new_tracker \<lparr>fc_fee_rate = 1 / 8\<rparr> True) example_open"
proof -
  have a: "trk_step (new_tracker \<lparr>fc_fee_rate = 1 / 8\<rparr> True) example_pending"
    unfolding example_pending_def
    by (rule ts_create [where pid = "''p1''"], code_simp) (rule prod.collapse [symmetric])
  obtain r where r: "get_position example_pending ''p1'' = Some r" "p_state r = PS_PENDING_OPEN"
    by (simp add: example_pending_def create_pending_def new_position_def Let_def)
  obtain t' r' where f: "confirm_fill ''p1'' (1 / 2) None 10 example_pending = (t', Inr r')"
    using r by (auto simp: confirm_fill_def calculate_entry_def transition_to_def Let_def)
  have "trk_step example_pending example_open"
    using ts_fill [OF r f] f by (simp add: example_open_def)
  with a show ?thesis by simp
qed


text \<open>The per-event limit holds: if every entry of an event happens while its fill counter is
  below the event's limit, then no interleaving of entries, fills, rejections and closes takes
  the counter above the limit.\<close>

theorem event_limit_kept:
  assumes "trk_ledger.guarded_run cap (reset t0) t" and "\<forall>e. 0 \<le> cap e"
  shows "\<forall>e. get_event_fill_count t e \<le> cap e"
proof -
  have "\<forall>e. get_event_fill_count (reset t0) e \<le> cap e"
    using assms(2) by (simp add: get_event_fill_count_def reset_def)
  from trk_ledger.guarded_run_cap [OF assms(1) trk_inv_reset this] show ?thesis by blast
qed

theorem event_limit_kept_witness: "\<forall>e. get_event_fill_count example_pending e \<le> 1"
proof (rule event_limit_kept [where cap = "\<lambda>_. 1"])
  let ?t = "new_tracker \<lparr>fc_fee_rate = 1 / 8\<rparr> True"
  have "trk_enter ''c1'' ?t example_pending"
    unfolding trk_enter_def example_pending_def
  proof (intro exI conjI)
    show "get_position ?t ''p1'' = None" by code_simp
    show "create_pending ''BTC'' ''UP'' ''c1'' ''tok'' 4 ''p1'' 5 ?t =
      (fst (create_pending ''BTC'' ''UP'' ''c1'' ''tok'' 4 ''p1'' 5 ?t),
       snd (create_pending ''BTC'' ''UP'' ''c1'' ''tok'' 4 ''p1'' 5 ?t))" by simp
  qed
  then show "trk_ledger.guarded_run (\<lambda>_. 1) (reset ?t) example_pending"
    unfolding reset_new by (rule trk_ledger.gr_enter [OF trk_ledger.gr_start, rotated]) code_simp
qed simp

text \<open>A closed position is final: no step of the bot
  changes or removes a closed position, its exit data and its realised profit included.\<close>


theorem closed_is_final:
  assumes "trk_steps t t'" and "get_position t k = Some p" and "p_state p = PS_CLOSED"
  shows "get_position t' k = Some p"
  using assms(1,2)
proof (induction rule: rtranclp_induct)
  case (step t1 t2)
  show ?case using trk_step_closed [OF step.hyps(2) _ assms(3)] step.IH [OF step.prems] .
qed simp

theorem closed_is_final_witness:
  "get_position (fst (create_pending ''ETH'' ''UP'' ''c2'' ''tok'' 4 ''p2'' 30
       (fst (reject_fill ''p1'' 20 example_pending)))) ''p1'' =
   get_position (fst (reject_fill ''p1'' 20 example_pending)) ''p1''"
proof -
  let ?t = "fst (reject_fill ''p1'' 20 example_pending)"
  let ?p = "the (get_position ?t ''p1'')"
  have p: "get_position ?t ''p1'' \<noteq> None" "p_state ?p = PS_CLOSED" "get_position ?t ''p2'' = None"
    by code_simp+
  then have g: "get_position ?t ''p1'' = Some ?p" by simp
  have "trk_step ?t (fst (create_pending ''ETH'' ''UP'' ''c2'' ''tok'' 4 ''p2'' 30 ?t))"
    using p(3) by (rule ts_create) (rule prod.collapse [symmetric])
  then show ?thesis using closed_is_final [OF r_into_rtranclp g p(2)] g by simp
qed

end
