(* ===== verification/Balance.thy ===== *)
theory Balance
  imports Prelude
begin

text \<open>
  \<^verbatim>\<open>backend/execution/balance_manager.py\<close>: the cached balance, its staleness guard, the fetch
  through an injected function and the paper-mode updates.

  The fetch function is not code of this component: its answer is the argument \<open>reply\<close> of
  \<open>fetch\<close>. A dictionary answer carries, for each of the two keys, nothing (the key is missing),
  a number, or a value on which \<^verbatim>\<open>float(...)\<close> raises.
\<close>

datatype FetchReply = FR_None | FR_Dict "(exc + num) option" "(exc + num) option"
  | FR_Number num | FR_Other | FR_Raise

datatype TaskState = NoTask | TaskAlive | TaskDone

definition BALANCE_STALE_THRESHOLD_SEC :: num where "BALANCE_STALE_THRESHOLD_SEC = 90"

record BalanceManager =
  b_available :: num
  b_total :: num
  b_updated_at :: "usec option"
  b_stale_threshold :: num
  b_fetch_count :: int
  b_has_fetch_fn :: bool
  b_running :: bool
  b_task :: TaskState

definition new_balance :: "num \<Rightarrow> BalanceManager" where
  "new_balance threshold = \<lparr>b_available = 0, b_total = 0, b_updated_at = None,
     b_stale_threshold = threshold, b_fetch_count = 0, b_has_fetch_fn = False,
     b_running = False, b_task = NoTask\<rparr>"

definition set_fetch_function :: "BalanceManager \<Rightarrow> BalanceManager" where
  "set_fetch_function b = b\<lparr>b_has_fetch_fn := True\<rparr>"

definition balance_age_seconds :: "usec \<Rightarrow> BalanceManager \<Rightarrow> num option" where
  "balance_age_seconds now b = map_option (\<lambda>u. total_seconds (now - u)) (b_updated_at b)"

definition balance_is_stale :: "usec \<Rightarrow> BalanceManager \<Rightarrow> bool" where
  "balance_is_stale now b = (case b_updated_at b of None \<Rightarrow> True
     | Some u \<Rightarrow> b_stale_threshold b < total_seconds (now - u))"

definition float_field :: "(exc + num) option \<Rightarrow> exc + num" where
  "float_field f = (case f of None \<Rightarrow> Inr 0 | Some v \<Rightarrow> v)"

text \<open>An exception is caught, but an \<open>_available\<close> assigned before it stays assigned.\<close>

definition fetch :: "usec \<Rightarrow> FetchReply \<Rightarrow> BalanceManager \<Rightarrow> BalanceManager \<times> bool" where
  "fetch now reply b =
     (if \<not> b_has_fetch_fn b then (b, False)
      else let finish = (\<lambda>b'. (b'\<lparr>b_updated_at := Some now, b_fetch_count := b_fetch_count b' + 1\<rparr>, True))
       in case reply of
            FR_Raise \<Rightarrow> (b, False)
          | FR_None \<Rightarrow> (b, False)
          | FR_Other \<Rightarrow> finish b
          | FR_Number x \<Rightarrow> finish (b\<lparr>b_available := x, b_total := x\<rparr>)
          | FR_Dict av tot \<Rightarrow>
              (case float_field av of Inl _ \<Rightarrow> (b, False)
               | Inr a \<Rightarrow>
                  (case float_field tot of
                     Inl _ \<Rightarrow> (b\<lparr>b_available := a\<rparr>, False)
                   | Inr t \<Rightarrow> finish (b\<lparr>b_available := a, b_total := t\<rparr>))))"

definition balance_update :: "usec \<Rightarrow> num \<Rightarrow> num option \<Rightarrow> BalanceManager \<Rightarrow> BalanceManager" where
  "balance_update now available tot b =
     b\<lparr>b_available := available, b_total := (case tot of None \<Rightarrow> available | Some t \<Rightarrow> t),
       b_updated_at := Some now\<rparr>"

definition deduct :: "usec \<Rightarrow> num \<Rightarrow> BalanceManager \<Rightarrow> BalanceManager" where
  "deduct now amount b =
     b\<lparr>b_available := max 0 (fsub (b_available b) amount), b_updated_at := Some now\<rparr>"

definition balance_add :: "usec \<Rightarrow> num \<Rightarrow> BalanceManager \<Rightarrow> BalanceManager" where
  "balance_add now amount b =
     b\<lparr>b_available := fadd (b_available b) amount, b_updated_at := Some now\<rparr>"

text \<open>The background task: the flag, the task, and one turn of the loop after its sleep.\<close>

definition start_passive_refresh :: "BalanceManager \<Rightarrow> BalanceManager" where
  "start_passive_refresh b = (if b_running b \<and> b_task b = TaskAlive then b
     else b\<lparr>b_running := True, b_task := TaskAlive\<rparr>)"

definition stop_passive_refresh :: "BalanceManager \<Rightarrow> BalanceManager" where
  "stop_passive_refresh b = b\<lparr>b_running := False, b_task := NoTask\<rparr>"

definition passive_turn :: "usec \<Rightarrow> FetchReply \<Rightarrow> BalanceManager \<Rightarrow> BalanceManager" where
  "passive_turn now reply b = (if b_running b then fst (fetch now reply b) else b)"

text \<open>One warning while the balance is stale.\<close>

definition balance_incidents :: "usec \<Rightarrow> BalanceManager \<Rightarrow> num option list" where
  "balance_incidents now b = (if balance_is_stale now b then [balance_age_seconds now b] else [])"

section \<open>Lemmas\<close>

lemma new_balance_stale [simp]: "balance_is_stale now (new_balance th)"
  by (simp add: balance_is_stale_def new_balance_def)

lemma total_seconds_0 [simp]: "total_seconds 0 = 0"
  by (simp add: total_seconds_def)

lemma total_seconds_mono: "d \<le> e \<Longrightarrow> total_seconds d \<le> total_seconds e"
  by (simp add: total_seconds_def fl_mono divide_right_mono)

lemma fetch_success_fresh:
  assumes "fetch now reply b = (b', True)" and "0 \<le> b_stale_threshold b"
  shows "\<not> balance_is_stale now b'"
  using assms
  by (auto simp: fetch_def balance_is_stale_def Let_def split: if_splits FetchReply.splits sum.splits)

lemma fetch_failure_time:
  assumes "fetch now reply b = (b', False)"
  shows "b_updated_at b' = b_updated_at b" and "b_total b' = b_total b"
    and "b_fetch_count b' = b_fetch_count b"
  using assms
  by (auto simp: fetch_def Let_def split: if_splits FetchReply.splits sum.splits)

text \<open>A failed fetch never turns a stale balance fresh.\<close>

lemma fetch_failure_stale:
  assumes "fetch now reply b = (b', False)" and "balance_is_stale t b"
  shows "balance_is_stale t b'"
  using assms
  by (auto simp: fetch_def balance_is_stale_def Let_def
      split: if_splits FetchReply.splits sum.splits option.splits)

text \<open>Once stale, a balance that nothing writes stays stale.\<close>

lemma stale_mono: "balance_is_stale t b \<Longrightarrow> t \<le> u \<Longrightarrow> balance_is_stale u b"
  by (auto simp: balance_is_stale_def split: option.splits)
    (meson diff_right_mono order_less_le_trans total_seconds_mono)

lemma deduct_nonneg: "0 \<le> b_available (deduct now a b)"
  by (simp add: deduct_def)

lemma deduct_exact:
  "a \<le> b_available b \<Longrightarrow> b_available (deduct now a b) = fsub (b_available b) a"
  by (simp add: deduct_def fsub_nonneg max_def)

lemma balance_frame [simp]:
  "b_total (deduct now a b) = b_total b" "b_total (balance_add now a b) = b_total b"
  "b_stale_threshold (deduct now a b) = b_stale_threshold b"
  "b_stale_threshold (balance_add now a b) = b_stale_threshold b"
  by (simp_all add: deduct_def balance_add_def)

section \<open>Properties\<close>

definition example_balance :: BalanceManager where
  "example_balance = (new_balance 90)\<lparr>b_has_fetch_fn := True\<rparr>"

text \<open>The staleness guard follows the fetches: a successful fetch makes the balance fresh until
  the threshold has passed on the clock, and a failed one (no function, no answer, an exception,
  an unreadable field) leaves the time, the total and the fetch count alone, so it never turns
  a stale balance fresh.\<close>

theorem fetch_and_staleness:
  assumes "fetch now reply b = (b', ok)"
  shows "(ok \<longrightarrow> (\<forall>t. balance_is_stale t b' \<longleftrightarrow> b_stale_threshold b < total_seconds (t - now))) \<and>
     (\<not> ok \<longrightarrow> b_updated_at b' = b_updated_at b \<and> b_total b' = b_total b \<and>
        b_fetch_count b' = b_fetch_count b \<and> (\<forall>t. balance_is_stale t b' = balance_is_stale t b))"
  using assms
  by (auto simp: fetch_def balance_is_stale_def Let_def
      split: if_splits FetchReply.splits sum.splits option.splits)

theorem fetch_and_staleness_witness:
  "\<forall>t. balance_is_stale t (fst (fetch 5 (FR_Number 20) example_balance)) \<longleftrightarrow>
     b_stale_threshold example_balance < total_seconds (t - 5)"
proof -
  have "fetch 5 (FR_Number 20) example_balance = (fst (fetch 5 (FR_Number 20) example_balance), True)"
    by (simp add: fetch_def example_balance_def)
  from fetch_and_staleness [OF this] show ?thesis by blast
qed

end
