(* ===== verification/Claims.thy ===== *)
theory Claims
  imports Balance
begin

text \<open>
  \<^verbatim>\<open>backend/execution/claim_manager.py\<close>: claim records and their redemption.

  The manager shares the balance manager with the executors, so \<open>execute_redeem\<close> takes the
  balance and returns it. \<open>cm_outbox\<close> lists the ids handed to the claim store. Fresh ids and
  clock readings are arguments.
\<close>

definition CLAIM_REDEEM_RETRY_SCHEDULE :: "int list" where "CLAIM_REDEEM_RETRY_SCHEDULE = [5, 10]"
definition CLAIM_REDEEM_RETRY_STEADY :: int where "CLAIM_REDEEM_RETRY_STEADY = 20"
definition CLAIM_REDEEM_MAX_RETRIES :: nat where "CLAIM_REDEEM_MAX_RETRIES = 20"

datatype ClaimStatus = CS_PENDING | CS_SUCCESS | CS_FAILED

datatype ClaimOutcome = REDEEMED_WON | REDEEMED_LOST | CO_PENDING | CO_FAILED

record ClaimRecord =
  c_claim_id :: string
  c_condition_id :: string
  c_position_id :: string
  c_asset :: string
  c_side :: string
  c_claim_status :: ClaimStatus
  c_outcome :: ClaimOutcome
  c_claimed_amount_usdc :: num
  c_claimed_at :: "usec option"
  c_retry_count :: int
  c_last_error :: string
  c_created_at :: usec

definition claim_is_pending :: "ClaimRecord \<Rightarrow> bool" where
  "claim_is_pending c \<longleftrightarrow> c_claim_status c = CS_PENDING"

definition claim_is_success :: "ClaimRecord \<Rightarrow> bool" where
  "claim_is_success c \<longleftrightarrow> c_claim_status c = CS_SUCCESS"

definition claim_is_failed :: "ClaimRecord \<Rightarrow> bool" where
  "claim_is_failed c \<longleftrightarrow> c_claim_status c = CS_FAILED"

record ClaimManager =
  cm_paper_mode :: bool
  cm_claims :: "(string, ClaimRecord) dict"
  cm_claim_count :: int
  cm_store :: bool
  cm_retry_schedule :: "int list"
  cm_retry_steady :: int
  cm_max_retries :: nat
  cm_outbox :: "string list"

definition new_claim_manager :: "bool \<Rightarrow> int \<Rightarrow> int \<Rightarrow> int \<Rightarrow> nat \<Rightarrow> bool \<Rightarrow> ClaimManager" where
  "new_claim_manager paper initial second steady maxr store =
     \<lparr>cm_paper_mode = paper, cm_claims = [], cm_claim_count = 0, cm_store = store,
      cm_retry_schedule = [initial, second], cm_retry_steady = steady,
      cm_max_retries = maxr, cm_outbox = []\<rparr>"

definition claim_persist :: "string \<Rightarrow> ClaimManager \<Rightarrow> ClaimManager" where
  "claim_persist cid m = (if cm_store m then m\<lparr>cm_outbox := cm_outbox m @ [cid]\<rparr> else m)"

definition put_claim :: "string \<Rightarrow> ClaimRecord \<Rightarrow> ClaimManager \<Rightarrow> ClaimManager" where
  "put_claim cid c m = m\<lparr>cm_claims := dset cid c (cm_claims m)\<rparr>"

definition get_claim :: "ClaimManager \<Rightarrow> string \<Rightarrow> ClaimRecord option" where
  "get_claim m cid = dget (cm_claims m) cid"

definition restore_claim :: "ClaimRecord \<Rightarrow> ClaimManager \<Rightarrow> ClaimManager" where
  "restore_claim c m = (let m1 = put_claim (c_claim_id c) c m
     in if claim_is_success c then m1\<lparr>cm_claim_count := cm_claim_count m1 + 1\<rparr> else m1)"

definition create_claim ::
  "string \<Rightarrow> string \<Rightarrow> string \<Rightarrow> string \<Rightarrow> string \<Rightarrow> usec \<Rightarrow> ClaimManager \<Rightarrow> ClaimManager \<times> ClaimRecord" where
  "create_claim condition_id position_id asset side claim_id now m =
     (let c = \<lparr>c_claim_id = claim_id, c_condition_id = condition_id, c_position_id = position_id,
               c_asset = asset, c_side = side, c_claim_status = CS_PENDING, c_outcome = CO_PENDING,
               c_claimed_amount_usdc = 0, c_claimed_at = None, c_retry_count = 0,
               c_last_error = [], c_created_at = now\<rparr>
      in (claim_persist claim_id (put_claim claim_id c m), c))"

definition execute_redeem ::
  "string \<Rightarrow> bool \<Rightarrow> num \<Rightarrow> usec \<Rightarrow> usec \<Rightarrow> ClaimManager \<times> BalanceManager
    \<Rightarrow> (ClaimManager \<times> BalanceManager) \<times> bool" where
  "execute_redeem claim_id won payout now balance_now mb =
     (let (m, b) = mb in
      case get_claim m claim_id of
        None \<Rightarrow> ((m, b), False)
      | Some c \<Rightarrow>
          if claim_is_success c then ((m, b), True)
          else (let c1 = c\<lparr>c_retry_count := c_retry_count c + 1\<rparr>
            in if cm_paper_mode m then
                 (let c2 = c1\<lparr>c_claim_status := CS_SUCCESS, c_claimed_at := Some now\<rparr>;
                      (c3, b') = (if won
                         then (c2\<lparr>c_outcome := REDEEMED_WON, c_claimed_amount_usdc := payout\<rparr>,
                               balance_add balance_now payout b)
                         else (c2\<lparr>c_outcome := REDEEMED_LOST, c_claimed_amount_usdc := 0\<rparr>, b));
                      m' = (put_claim claim_id c3 m)\<lparr>cm_claim_count := cm_claim_count m + 1\<rparr>
                  in ((claim_persist claim_id m', b'), True))
               else
                 ((put_claim claim_id (c1\<lparr>c_claim_status := CS_FAILED,
                     c_last_error := ''Relayer redeem not implemented''\<rparr>) m, b), False)))"

definition execute_claim ::
  "string \<Rightarrow> usec \<Rightarrow> usec \<Rightarrow> ClaimManager \<times> BalanceManager \<Rightarrow> (ClaimManager \<times> BalanceManager) \<times> bool" where
  "execute_claim claim_id now balance_now mb = execute_redeem claim_id True 1 now balance_now mb"

definition get_pending_claims :: "ClaimManager \<Rightarrow> ClaimRecord list" where
  "get_pending_claims m = filter claim_is_pending (dvals (cm_claims m))"

definition has_pending_claims :: "ClaimManager \<Rightarrow> bool" where
  "has_pending_claims m = list_ex claim_is_pending (dvals (cm_claims m))"

definition get_claims_by_position :: "ClaimManager \<Rightarrow> string \<Rightarrow> ClaimRecord list" where
  "get_claims_by_position m pid = filter (\<lambda>c. c_position_id c = pid) (dvals (cm_claims m))"

definition claims_pending_count :: "ClaimManager \<Rightarrow> int" where
  "claims_pending_count m = int (dcount claim_is_pending (cm_claims m))"

definition mark_externally_settled :: "string \<Rightarrow> usec \<Rightarrow> ClaimManager \<Rightarrow> ClaimManager \<times> bool" where
  "mark_externally_settled claim_id now m =
     (case get_claim m claim_id of
        None \<Rightarrow> (m, False)
      | Some c \<Rightarrow>
          if claim_is_success c then (m, True)
          else (let c1 = c\<lparr>c_claim_status := CS_SUCCESS, c_outcome := REDEEMED_WON,
                          c_claimed_at := Some now, c_last_error := ''external_settlement_detected''\<rparr>;
                    m' = (put_claim claim_id c1 m)\<lparr>cm_claim_count := cm_claim_count m + 1\<rparr>
                in (claim_persist claim_id m', True)))"

text \<open>One warning per failed claim that used up its retries: its retry count and its asset.\<close>

definition claim_incidents :: "ClaimManager \<Rightarrow> (int \<times> string) list" where
  "claim_incidents m = map (\<lambda>c. (c_retry_count c, c_asset c))
     (filter (\<lambda>c. claim_is_failed c \<and> int (cm_max_retries m) \<le> c_retry_count c) (dvals (cm_claims m)))"

section \<open>The claim counter\<close>

text \<open>The counter is the number of successful claims, and a claim is stored under its own id.\<close>

definition claims_inv :: "ClaimManager \<Rightarrow> bool" where
  "claims_inv m \<longleftrightarrow> wf_dict (cm_claims m) \<and>
     (\<forall>k c. get_claim m k = Some c \<longrightarrow> c_claim_id c = k) \<and>
     cm_claim_count m = int (dcount claim_is_success (cm_claims m))"

lemma claim_frame [simp]:
  "cm_claims (claim_persist k m) = cm_claims m"
  "cm_claim_count (claim_persist k m) = cm_claim_count m"
  "cm_paper_mode (claim_persist k m) = cm_paper_mode m"
  "cm_max_retries (claim_persist k m) = cm_max_retries m"
  "cm_claims (put_claim k c m) = dset k c (cm_claims m)"
  "cm_claim_count (put_claim k c m) = cm_claim_count m"
  "cm_paper_mode (put_claim k c m) = cm_paper_mode m"
  by (simp_all add: claim_persist_def put_claim_def)

lemma get_claim_simps [simp]:
  "get_claim (claim_persist j m) k = get_claim m k"
  "get_claim (put_claim j c m) k = (if k = j then Some c else get_claim m k)"
  "get_claim (m\<lparr>cm_claim_count := n\<rparr>) k = get_claim m k"
  by (simp_all add: get_claim_def)

lemma claims_inv_new: "claims_inv (new_claim_manager p i s st n b)"
  by (simp add: claims_inv_def new_claim_manager_def get_claim_def dcount_def)

lemma claims_inv_insert:
  assumes "claims_inv m" "get_claim m k = None" "c_claim_id c = k"
    and "cm_claims m' = dset k c (cm_claims m)"
    and "cm_claim_count m' = cm_claim_count m + (if claim_is_success c then 1 else 0)"
  shows "claims_inv m'"
proof -
  have "k \<notin> set (dkeys (cm_claims m))"
    using assms(2) by (simp add: get_claim_def map_of_eq_None_iff)
  with assms show ?thesis by (auto simp: claims_inv_def get_claim_def dcount_dset_new)
qed

lemma claims_inv_replace:
  assumes "claims_inv m" "get_claim m k = Some c" "c_claim_id c' = k"
    and "cm_claims m' = dset k c' (cm_claims m)"
    and "cm_claim_count m' + (if claim_is_success c then 1 else 0) =
         cm_claim_count m + (if claim_is_success c' then 1 else 0)"
  shows "claims_inv m'"
proof -
  have "wf_dict (cm_claims m)" "dget (cm_claims m) k = Some c"
    using assms by (simp_all add: claims_inv_def get_claim_def)
  from dcount_dset_old [OF this, of claim_is_success c'] assms show ?thesis
    by (auto simp: claims_inv_def get_claim_def split: if_splits)
qed

lemma create_claim_inv:
  "create_claim cond pid a s k now m = (m', c) \<Longrightarrow> claims_inv m \<Longrightarrow> get_claim m k = None \<Longrightarrow> claims_inv m'"
  by (rule claims_inv_insert [of m k c]) (auto simp: create_claim_def claim_is_success_def Let_def)

lemma restore_claim_inv:
  "claims_inv m \<Longrightarrow> get_claim m (c_claim_id c) = None \<Longrightarrow> claims_inv (restore_claim c m)"
  by (rule claims_inv_insert [of m "c_claim_id c" c]) (auto simp: restore_claim_def Let_def)

lemma execute_redeem_inv:
  assumes "execute_redeem k won pay now bn (m, b) = ((m', b'), ok)" and "claims_inv m"
  shows "claims_inv m'"
proof (cases "get_claim m k")
  case None
  with assms show ?thesis by (simp add: execute_redeem_def)
next
  case (Some c)
  then have "c_claim_id c = k" using assms(2) by (simp add: claims_inv_def)
  show ?thesis
  proof (cases "claim_is_success c")
    case True
    with Some assms show ?thesis by (simp add: execute_redeem_def)
  next
    case False
    show ?thesis
      by (rule claims_inv_replace [OF assms(2) Some, where c' = "the (get_claim m' k)"])
        (use Some assms(1) False \<open>c_claim_id c = k\<close> in
          \<open>auto simp: execute_redeem_def claim_is_success_def Let_def split: if_splits\<close>)
  qed
qed

lemma mark_settled_inv:
  assumes "mark_externally_settled k now m = (m', ok)" and "claims_inv m"
  shows "claims_inv m'"
proof (cases "get_claim m k")
  case None
  with assms show ?thesis by (simp add: mark_externally_settled_def)
next
  case (Some c)
  then have "c_claim_id c = k" using assms(2) by (simp add: claims_inv_def)
  show ?thesis
  proof (cases "claim_is_success c")
    case True
    with Some assms show ?thesis by (simp add: mark_externally_settled_def)
  next
    case False
    show ?thesis
      by (rule claims_inv_replace [OF assms(2) Some, where c' = "the (get_claim m' k)"])
        (use Some assms(1) False \<open>c_claim_id c = k\<close> in
          \<open>auto simp: mark_externally_settled_def claim_is_success_def Let_def\<close>)
  qed
qed

section \<open>Paper redemption pays once\<close>

lemma redeem_paper:
  assumes "get_claim m k = Some c" "\<not> claim_is_success c" "cm_paper_mode m"
  obtains m' b' c' where "execute_redeem k won pay now bn (m, b) = ((m', b'), True)"
    and "get_claim m' k = Some c'" "claim_is_success c'" "c_position_id c' = c_position_id c"
    and "b_available b' = (if won then fadd (b_available b) pay else b_available b)"
    and "cm_paper_mode m'"
  using assms
  by (cases won) (auto simp: execute_redeem_def balance_add_def claim_is_success_def Let_def)

lemma redeem_other:
  assumes "execute_redeem k won pay now bn (m, b) = ((m', b'), ok)" and "j \<noteq> k"
  shows "get_claim m' j = get_claim m j"
proof (cases "get_claim m k")
  case None
  with assms show ?thesis by (simp add: execute_redeem_def)
next
  case (Some c)
  show ?thesis
  proof (cases "claim_is_success c")
    case True
    with Some assms(1) show ?thesis by (simp add: execute_redeem_def)
  next
    case False
    with Some assms show ?thesis
      by (cases won; cases "cm_paper_mode m") (auto simp: execute_redeem_def Let_def)
  qed
qed

lemma redeem_again:
  assumes "get_claim m k = Some c" "claim_is_success c"
  shows "execute_redeem k won pay now bn (m, b) = ((m, b), True)"
  using assms by (simp add: execute_redeem_def)

lemma redeem_live_fails:
  assumes "get_claim m k = Some c" "\<not> claim_is_success c" "\<not> cm_paper_mode m"
  shows "\<exists>m'. execute_redeem k won pay now bn (m, b) = ((m', b), False) \<and>
     (\<exists>c'. get_claim m' k = Some c' \<and> claim_is_failed c')"
  using assms by (auto simp: execute_redeem_def claim_is_failed_def Let_def)

lemma pending_iff: "has_pending_claims m \<longleftrightarrow> get_pending_claims m \<noteq> []"
  by (auto simp: has_pending_claims_def get_pending_claims_def list_ex_iff filter_empty_conv)

section \<open>Properties\<close>

text \<open>A paper redemption pays exactly once: the first call on an unsettled claim succeeds, marks
  it and adds the payout to the balance if the position won; a second call, with any arguments,
  reports success and changes neither the claims nor the balance.\<close>

theorem paper_redeem_pays_once:
  assumes "get_claim m k = Some c" "\<not> claim_is_success c" "cm_paper_mode m"
  shows "\<exists>m' b'. execute_redeem k won pay now bn (m, b) = ((m', b'), True) \<and>
     b_available b' = (if won then fadd (b_available b) pay else b_available b) \<and>
     (\<forall>won2 pay2 now2 bn2. execute_redeem k won2 pay2 now2 bn2 (m', b') = ((m', b'), True))"
  by (rule redeem_paper [OF assms, where won = won and pay = pay and now = now and bn = bn and b = b])
    (use redeem_again in blast)

definition example_claims :: "bool \<Rightarrow> ClaimManager" where
  "example_claims paper = fst (create_claim ''c1'' ''p1'' ''BTC'' ''UP'' ''k1'' 50
     (new_claim_manager paper 5 10 20 20 True))"

theorem paper_redeem_pays_once_witness:
  "\<exists>m' b'. execute_redeem ''k1'' True 8 60 61 (example_claims True, new_balance 90) = ((m', b'), True) \<and>
     b_available b' = (if True then fadd (b_available (new_balance 90)) 8 else b_available (new_balance 90)) \<and>
     (\<forall>won2 pay2 now2 bn2. execute_redeem ''k1'' won2 pay2 now2 bn2 (m', b') = ((m', b'), True))"
proof -
  let ?m = "example_claims True" let ?c = "the (get_claim ?m ''k1'')"
  have f: "get_claim ?m ''k1'' \<noteq> None" "\<not> claim_is_success ?c" "cm_paper_mode ?m" by code_simp+
  then have g: "get_claim ?m ''k1'' = Some ?c" by simp
  show ?thesis by (rule paper_redeem_pays_once [OF g f(2,3)])
qed

end
