(* ===== verification/Settings.thy ===== *)
theory Settings
  imports Prelude
begin

text \<open>
  \<^verbatim>\<open>backend/settings/coin_settings.py\<close>, \<^verbatim>\<open>settings_store.py\<close> and
  \<^verbatim>\<open>backend/orchestrator/eligibility_gate.py\<close>: the settings of a coin, their store, and the gate
  that decides which discovered events may be traded.

  \<open>st_outbox\<close> lists the settings handed to the database store, oldest first; \<open>st_db\<close> says whether
  a store and a running event loop exist.
\<close>

section \<open>Coin settings\<close>

datatype SideMode = DOMINANT_ONLY | UP_ONLY | DOWN_ONLY

record CoinSettings =
  cs_coin :: string
  cs_coin_enabled :: bool
  cs_side_mode :: SideMode
  cs_delta_threshold :: num
  cs_price_min :: int
  cs_price_max :: int
  cs_spread_max :: num
  cs_time_min :: int
  cs_time_max :: int
  cs_event_max :: int
  cs_order_amount :: num
  cs_reactivate_on_return :: bool

definition new_coin_settings :: "string \<Rightarrow> CoinSettings" where
  "new_coin_settings coin = \<lparr>cs_coin = coin, cs_coin_enabled = False, cs_side_mode = DOMINANT_ONLY,
     cs_delta_threshold = 0, cs_price_min = 0, cs_price_max = 0, cs_spread_max = 0, cs_time_min = 0,
     cs_time_max = 0, cs_event_max = 1, cs_order_amount = 0, cs_reactivate_on_return = True\<rparr>"

definition is_configured :: "CoinSettings \<Rightarrow> bool" where
  "is_configured s \<longleftrightarrow> 0 < cs_delta_threshold s \<and> 0 < cs_price_min s \<and> 0 < cs_price_max s \<and>
     cs_price_min s < cs_price_max s \<and> 0 < cs_time_min s \<and> 0 < cs_time_max s \<and>
     cs_time_min s < cs_time_max s \<and> 0 < cs_order_amount s"

definition price_min_valid_range :: "CoinSettings \<Rightarrow> int \<times> int" where
  "price_min_valid_range s = (if cs_side_mode s = DOMINANT_ONLY then (51, 99) else (1, 99))"

definition is_trade_eligible :: "CoinSettings \<Rightarrow> bool" where
  "is_trade_eligible s \<longleftrightarrow> cs_coin_enabled s \<and> is_configured s"

section \<open>The store\<close>

record SettingsStore =
  st_settings :: "(string, CoinSettings) dict"
  st_db :: bool
  st_outbox :: "CoinSettings list"

definition settings_get :: "SettingsStore \<Rightarrow> string \<Rightarrow> CoinSettings option" where
  "settings_get st coin = dget (st_settings st) (str_upper coin)"

definition settings_persist :: "CoinSettings \<Rightarrow> SettingsStore \<Rightarrow> SettingsStore" where
  "settings_persist s st = (if st_db st then st\<lparr>st_outbox := st_outbox st @ [s]\<rparr> else st)"

definition settings_set :: "CoinSettings \<Rightarrow> SettingsStore \<Rightarrow> SettingsStore" where
  "settings_set s st =
     settings_persist s (st\<lparr>st_settings := dset (str_upper (cs_coin s)) s (st_settings st)\<rparr>)"

definition settings_delete :: "string \<Rightarrow> SettingsStore \<Rightarrow> SettingsStore" where
  "settings_delete coin st = st\<lparr>st_settings := dpop (str_upper coin) (st_settings st)\<rparr>"

definition settings_get_all :: "SettingsStore \<Rightarrow> CoinSettings list" where
  "settings_get_all st = dvals (st_settings st)"

definition get_eligible_coins :: "SettingsStore \<Rightarrow> CoinSettings list" where
  "get_eligible_coins st = filter is_trade_eligible (dvals (st_settings st))"

definition get_configured_coins :: "SettingsStore \<Rightarrow> string list" where
  "get_configured_coins st = map cs_coin (filter is_configured (dvals (st_settings st)))"

definition get_enabled_coins :: "SettingsStore \<Rightarrow> string list" where
  "get_enabled_coins st = map cs_coin (filter cs_coin_enabled (dvals (st_settings st)))"

definition toggle_coin :: "string \<Rightarrow> SettingsStore \<Rightarrow> SettingsStore \<times> CoinSettings option" where
  "toggle_coin symbol st = (case settings_get st symbol of
       None \<Rightarrow> (st, None)
     | Some s \<Rightarrow> (let s' = s\<lparr>cs_coin_enabled := \<not> cs_coin_enabled s\<rparr>
         in (settings_set s' st, Some s')))"

text \<open>
  The keyword arguments of a partial update. \<open>F_coin_enabled\<close> and \<open>F_coin\<close> are dropped, and so is
  a name the class does not have.
\<close>

datatype SettingField = F_coin string | F_coin_enabled bool | F_side_mode SideMode
  | F_delta_threshold num | F_price_min int | F_price_max int | F_spread_max num | F_time_min int
  | F_time_max int | F_event_max int | F_order_amount num | F_reactivate_on_return bool | F_unknown

fun set_field :: "CoinSettings \<Rightarrow> SettingField \<Rightarrow> CoinSettings" where
  "set_field s (F_coin c) = s"
| "set_field s (F_coin_enabled b) = s"
| "set_field s F_unknown = s"
| "set_field s (F_side_mode m) = s\<lparr>cs_side_mode := m\<rparr>"
| "set_field s (F_delta_threshold x) = s\<lparr>cs_delta_threshold := x\<rparr>"
| "set_field s (F_price_min n) = s\<lparr>cs_price_min := n\<rparr>"
| "set_field s (F_price_max n) = s\<lparr>cs_price_max := n\<rparr>"
| "set_field s (F_spread_max x) = s\<lparr>cs_spread_max := x\<rparr>"
| "set_field s (F_time_min n) = s\<lparr>cs_time_min := n\<rparr>"
| "set_field s (F_time_max n) = s\<lparr>cs_time_max := n\<rparr>"
| "set_field s (F_event_max n) = s\<lparr>cs_event_max := n\<rparr>"
| "set_field s (F_order_amount x) = s\<lparr>cs_order_amount := x\<rparr>"
| "set_field s (F_reactivate_on_return b) = s\<lparr>cs_reactivate_on_return := b\<rparr>"

definition update_settings ::
  "string \<Rightarrow> SettingField list \<Rightarrow> SettingsStore \<Rightarrow> SettingsStore \<times> CoinSettings" where
  "update_settings symbol upd st =
     (let ckey = str_upper symbol;
          existing = (case settings_get st ckey of None \<Rightarrow> new_coin_settings ckey | Some s \<Rightarrow> s);
          s' = foldl set_field existing upd
      in (settings_set s' st, s'))"

text \<open>A store keeps every setting under the upper-case name of its own coin.\<close>

definition settings_inv :: "SettingsStore \<Rightarrow> bool" where
  "settings_inv st \<longleftrightarrow> wf_dict (st_settings st) \<and>
     (\<forall>k s. dget (st_settings st) k = Some s \<longrightarrow> str_upper (cs_coin s) = k)"

lemma settings_simps [simp]:
  "st_settings (settings_persist s st) = st_settings st"
  "st_settings (settings_set s st) = dset (str_upper (cs_coin s)) s (st_settings st)"
  by (simp_all add: settings_persist_def settings_set_def)

lemma settings_get_set:
  "settings_get (settings_set s st) c =
     (if str_upper c = str_upper (cs_coin s) then Some s else settings_get st c)"
  by (simp add: settings_get_def)

lemma settings_set_inv: "settings_inv st \<Longrightarrow> settings_inv (settings_set s st)"
  by (auto simp: settings_inv_def)

lemma settings_delete_inv: "settings_inv st \<Longrightarrow> settings_inv (settings_delete c st)"
  by (auto simp: settings_inv_def settings_delete_def)

lemma settings_get_coin: "settings_inv st \<Longrightarrow> settings_get st c = Some s \<Longrightarrow> str_upper (cs_coin s) = str_upper c"
  by (simp add: settings_inv_def settings_get_def)

lemma set_fields_frame:
  "cs_coin (foldl set_field s fs) = cs_coin s \<and> cs_coin_enabled (foldl set_field s fs) = cs_coin_enabled s"
proof (induction fs arbitrary: s)
  case (Cons f fs)
  have "cs_coin (set_field s f) = cs_coin s \<and> cs_coin_enabled (set_field s f) = cs_coin_enabled s"
    by (cases f) simp_all
  with Cons show ?case by simp
qed simp

section \<open>The eligibility gate\<close>

text \<open>
  An event is any value with an asset and a textual representation: the gate reads nothing else.
  \<open>creds\<close> is the credential store, if any, seen through \<^verbatim>\<open>has_trading_credentials()\<close>.
\<close>

datatype Ineligible = NO_CREDENTIALS | ASSET_UNKNOWN | NO_SETTINGS | COIN_DISABLED
  | CONFIG_INCOMPLETE | NOT_ELIGIBLE

record 'e EligibilityResult =
  el_eligible :: "'e list"
  el_ineligible :: "'e list"
  el_reasons :: "(string, Ineligible) dict"

definition check_event :: "SettingsStore \<Rightarrow> ('e \<Rightarrow> string) \<Rightarrow> ('e \<Rightarrow> string) \<Rightarrow> 'e \<Rightarrow> (string \<times> Ineligible) option" where
  "check_event st asset_of str_of e =
     (let asset = asset_of e
      in if asset = [] then Some (str_of e, ASSET_UNKNOWN)
         else case settings_get st asset of
           None \<Rightarrow> Some (asset, NO_SETTINGS)
         | Some s \<Rightarrow>
             if \<not> cs_coin_enabled s then Some (asset, COIN_DISABLED)
             else if \<not> is_configured s then Some (asset, CONFIG_INCOMPLETE)
             else if \<not> is_trade_eligible s then Some (asset, NOT_ELIGIBLE)
             else None)"

fun gate_loop ::
  "SettingsStore \<Rightarrow> ('e \<Rightarrow> string) \<Rightarrow> ('e \<Rightarrow> string) \<Rightarrow> 'e list \<Rightarrow> 'e EligibilityResult \<Rightarrow> 'e EligibilityResult" where
  "gate_loop st asset_of str_of [] r = r"
| "gate_loop st asset_of str_of (e # es) r =
     gate_loop st asset_of str_of es
       (case check_event st asset_of str_of e of
          None \<Rightarrow> r\<lparr>el_eligible := el_eligible r @ [e]\<rparr>
        | Some (k, why) \<Rightarrow>
            r\<lparr>el_ineligible := el_ineligible r @ [e], el_reasons := dset k why (el_reasons r)\<rparr>)"

definition eligibility_filter ::
  "bool option \<Rightarrow> bool \<Rightarrow> SettingsStore \<Rightarrow> ('e \<Rightarrow> string) \<Rightarrow> ('e \<Rightarrow> string) \<Rightarrow> 'e list \<Rightarrow> 'e EligibilityResult" where
  "eligibility_filter creds paper_mode st asset_of str_of events =
     (if creds = Some False \<and> \<not> paper_mode then
        \<lparr>el_eligible = [], el_ineligible = events,
         el_reasons = foldl (\<lambda>d e. dset (if asset_of e \<noteq> [] then asset_of e else str_of e) NO_CREDENTIALS d) [] events\<rparr>
      else gate_loop st asset_of str_of events \<lparr>el_eligible = [], el_ineligible = [], el_reasons = []\<rparr>)"

lemma gate_loop_lists:
  "el_eligible (gate_loop st a f es r) = el_eligible r @ filter (\<lambda>e. check_event st a f e = None) es"
  "el_ineligible (gate_loop st a f es r) = el_ineligible r @ filter (\<lambda>e. check_event st a f e \<noteq> None) es"
  by (induction es arbitrary: r) (auto split: option.splits)

lemma check_event_None:
  "check_event st a f e = None \<longleftrightarrow> a e \<noteq> [] \<and>
     (case settings_get st (a e) of None \<Rightarrow> False | Some s \<Rightarrow> is_trade_eligible s)"
  by (auto simp: check_event_def is_trade_eligible_def Let_def split: option.splits)

section \<open>Properties\<close>

text \<open>The gate lets through exactly what may be traded: with trading credentials (or without a
  credential store, or in paper mode) an event is eligible iff its asset is known and the coin's
  settings are enabled and fully configured; without them, in live mode, none is. The two lists
  keep the order of discovery and split the events.\<close>

theorem eligibility_exact:
  "el_eligible (eligibility_filter creds paper st a f events) =
     (if creds = Some False \<and> \<not> paper then []
      else filter (\<lambda>e. a e \<noteq> [] \<and> (case settings_get st (a e) of None \<Rightarrow> False
             | Some s \<Rightarrow> cs_coin_enabled s \<and> is_configured s)) events) \<and>
   el_ineligible (eligibility_filter creds paper st a f events) =
     filter (\<lambda>e. e \<notin> set (el_eligible (eligibility_filter creds paper st a f events))) events"
proof (cases "creds = Some False \<and> \<not> paper")
  case False

  have el: "el_eligible (eligibility_filter creds paper st a f events) =
      filter (\<lambda>e. check_event st a f e = None) events"
    using False by (auto simp: eligibility_filter_def gate_loop_lists)
  have "el_ineligible (eligibility_filter creds paper st a f events) =
      filter (\<lambda>e. check_event st a f e \<noteq> None) events"
    using False by (auto simp: eligibility_filter_def gate_loop_lists)
  also have "\<dots> = filter (\<lambda>e. e \<notin> set (el_eligible (eligibility_filter creds paper st a f events))) events"
    unfolding el by (rule filter_cong) auto
  finally have inel: "el_ineligible (eligibility_filter creds paper st a f events) = \<dots>" .
  have "(\<lambda>e. check_event st a f e = None) = (\<lambda>e. a e \<noteq> [] \<and> (case settings_get st (a e) of None \<Rightarrow> False
             | Some s \<Rightarrow> cs_coin_enabled s \<and> is_configured s))"
    unfolding check_event_None is_trade_eligible_def ..
  then show ?thesis using False by (intro conjI inel) (simp only: el if_False)
qed (simp add: eligibility_filter_def)

text \<open>A partial update never switches a coin on or off: the coin flag and the name are the ones
  stored before (off for a new coin), other coins are untouched, and the store keeps every
  setting under the upper-case name of its coin.\<close>

theorem update_keeps_switch:
  assumes "settings_inv st"
  shows "settings_inv (fst (update_settings ckey fs st)) \<and>
     settings_get (fst (update_settings ckey fs st)) ckey = Some (snd (update_settings ckey fs st)) \<and>
     cs_coin_enabled (snd (update_settings ckey fs st)) =
       (case settings_get st ckey of None \<Rightarrow> False | Some s \<Rightarrow> cs_coin_enabled s) \<and>
     (\<forall>c. str_upper c \<noteq> str_upper ckey \<longrightarrow>
        settings_get (fst (update_settings ckey fs st)) c = settings_get st c)"
proof -
  let ?old = "case settings_get st (str_upper ckey) of None \<Rightarrow> new_coin_settings (str_upper ckey) | Some s \<Rightarrow> s"
  have old: "settings_get st (str_upper ckey) = settings_get st ckey" by (simp add: settings_get_def)
  have coin: "str_upper (cs_coin ?old) = str_upper ckey"
    using settings_get_coin [OF assms, of ckey] unfolding old
    by (cases "settings_get st ckey") (simp_all add: new_coin_settings_def)
  let ?new = "foldl set_field ?old fs"
  have new: "str_upper (cs_coin ?new) = str_upper ckey" "cs_coin_enabled ?new = cs_coin_enabled ?old"
    using set_fields_frame [of ?old fs] coin by simp_all
  have u: "update_settings ckey fs st = (settings_set ?new st, ?new)"
    by (simp add: update_settings_def Let_def)
  show ?thesis
    unfolding u using settings_set_inv [OF assms] new old
    by (auto simp: settings_get_set new_coin_settings_def split: option.splits)
qed

theorem update_keeps_switch_witness:
  "settings_get (fst (update_settings ''btc'' [F_coin_enabled True, F_price_min 60]
      \<lparr>st_settings = [], st_db = True, st_outbox = []\<rparr>)) ''btc'' =
   Some (snd (update_settings ''btc'' [F_coin_enabled True, F_price_min 60]
      \<lparr>st_settings = [], st_db = True, st_outbox = []\<rparr>))"
  by (rule update_keeps_switch [THEN conjunct2, THEN conjunct1]) (simp add: settings_inv_def)

end
