(* ===== verification/Registry.thy ===== *)
theory Registry
  imports Prelude
begin

text \<open>
  \<^verbatim>\<open>backend/registry/models.py\<close>, \<^verbatim>\<open>service.py\<close> and \<^verbatim>\<open>safe_sync.py\<close>: the registry of events, its
  life cycle and the reconciliation with a discovery scan.

  The registry is the dictionary of its records, keyed by condition id. A record that the code
  mutates is written back under its key. \<open>clk\<close> gives the clock readings of one call, by the
  condition id of the record that is written. The life-cycle table interprets the shared
  \<open>lifecycle\<close> interface with the terminal state \<open>EV_CLOSED\<close>.
\<close>

section \<open>Records\<close>

text \<open>The event as discovery hands it over (\<^verbatim>\<open>backend/discovery/models.py\<close>).\<close>

record DiscoveredEvent =
  de_condition_id :: string
  de_question :: string
  de_slug :: string
  de_asset :: string
  de_duration :: string
  de_category :: string
  de_end_date :: usec
  de_discovered_at :: usec
  de_clob_token_ids :: "string list"
  de_outcomes :: "string list"
  de_outcome_prices :: string

datatype EventStatus = EV_DISCOVERED | EV_VALIDATING | EV_ACTIVE | EV_INACTIVE | EV_EXPIRED
  | EV_SUSPENDED | EV_CLOSED

fun EVENT_TRANSITIONS :: "EventStatus \<Rightarrow> EventStatus list" where
  "EVENT_TRANSITIONS EV_DISCOVERED = [EV_VALIDATING, EV_INACTIVE, EV_CLOSED]"
| "EVENT_TRANSITIONS EV_VALIDATING = [EV_ACTIVE, EV_INACTIVE, EV_CLOSED]"
| "EVENT_TRANSITIONS EV_ACTIVE = [EV_INACTIVE, EV_EXPIRED, EV_SUSPENDED, EV_CLOSED]"
| "EVENT_TRANSITIONS EV_INACTIVE = [EV_ACTIVE, EV_EXPIRED, EV_CLOSED]"
| "EVENT_TRANSITIONS EV_EXPIRED = [EV_CLOSED]"
| "EVENT_TRANSITIONS EV_SUSPENDED = [EV_ACTIVE, EV_CLOSED]"
| "EVENT_TRANSITIONS EV_CLOSED = []"

interpretation event_cycle: lifecycle EVENT_TRANSITIONS EV_CLOSED
proof
  show "EVENT_TRANSITIONS EV_CLOSED = []" by simp
  show "s \<notin> set (EVENT_TRANSITIONS s)" for s by (cases s) simp_all
qed

record RegistryRecord =
  g_event_id :: string
  g_condition_id :: string
  g_asset :: string
  g_question :: string
  g_slug :: string
  g_status :: EventStatus
  g_first_seen_at :: usec
  g_last_seen_at :: usec
  g_status_changed_at :: usec
  g_end_date :: usec
  g_has_open_position :: bool

definition can_transition_to :: "EventStatus \<Rightarrow> RegistryRecord \<Rightarrow> bool" where
  "can_transition_to target r \<longleftrightarrow> target \<in> set (EVENT_TRANSITIONS (g_status r))"

definition event_transition_to ::
  "EventStatus \<Rightarrow> usec \<Rightarrow> RegistryRecord \<Rightarrow> (RegistryRecord, unit) outcome" where
  "event_transition_to target now r =
     (if \<not> can_transition_to target r then (r, Inl InvalidTransitionError)
      else (r\<lparr>g_status := target, g_status_changed_at := now\<rparr>, Inr ()))"

definition update_last_seen :: "usec \<Rightarrow> RegistryRecord \<Rightarrow> RegistryRecord" where
  "update_last_seen now r = r\<lparr>g_last_seen_at := now\<rparr>"

section \<open>The registry\<close>

type_synonym EventRegistry = "(string, RegistryRecord) dict"

definition new_record :: "string \<Rightarrow> DiscoveredEvent \<Rightarrow> RegistryRecord" where
  "new_record event_id c = \<lparr>g_event_id = event_id, g_condition_id = de_condition_id c,
     g_asset = de_asset c, g_question = de_question c, g_slug = de_slug c, g_status = EV_DISCOVERED,
     g_first_seen_at = de_discovered_at c, g_last_seen_at = de_discovered_at c,
     g_status_changed_at = de_discovered_at c, g_end_date = de_end_date c,
     g_has_open_position = False\<rparr>"

definition register_candidate ::
  "DiscoveredEvent \<Rightarrow> string \<Rightarrow> usec \<Rightarrow> EventRegistry \<Rightarrow> EventRegistry \<times> RegistryRecord" where
  "register_candidate c event_id now reg =
     (let cid = de_condition_id c
      in case dget reg cid of
           Some r \<Rightarrow> (let r' = update_last_seen now r in (dset cid r' reg, r'))
         | None \<Rightarrow> (let r = new_record event_id c in (dset cid r reg, r)))"

definition transition_event ::
  "string \<Rightarrow> EventStatus \<Rightarrow> usec \<Rightarrow> EventRegistry \<Rightarrow> (EventRegistry, RegistryRecord) outcome" where
  "transition_event cid target now reg =
     (case dget reg cid of
        None \<Rightarrow> (reg, Inl KeyError)
      | Some r \<Rightarrow> (case event_transition_to target now r of
           (r', Inl e) \<Rightarrow> (dset cid r' reg, Inl e)
         | (r', Inr _) \<Rightarrow> (dset cid r' reg, Inr r')))"

definition get_by_condition_id :: "EventRegistry \<Rightarrow> string \<Rightarrow> RegistryRecord option" where
  "get_by_condition_id reg cid = dget reg cid"

definition get_by_status :: "EventRegistry \<Rightarrow> EventStatus \<Rightarrow> RegistryRecord list" where
  "get_by_status reg s = filter (\<lambda>r. g_status r = s) (dvals reg)"

definition registry_count :: "EventRegistry \<Rightarrow> int" where
  "registry_count reg = int (length reg)"

definition active_count :: "EventRegistry \<Rightarrow> int" where
  "active_count reg = int (dcount (\<lambda>r. g_status r = EV_ACTIVE) reg)"

text \<open>One record of \<^verbatim>\<open>expire_events\<close>: the invalid transition is caught and the record kept.\<close>

definition expire_record :: "usec \<Rightarrow> usec \<Rightarrow> RegistryRecord \<Rightarrow> RegistryRecord \<times> bool" where
  "expire_record now clock r =
     (if g_status r = EV_EXPIRED \<or> g_status r = EV_CLOSED then (r, False)
      else if g_end_date r \<le> now then
        (case event_transition_to EV_EXPIRED clock r of
           (r', Inl _) \<Rightarrow> (r', False)
         | (r', Inr _) \<Rightarrow> (r', True))
      else (r, False))"

fun expire_loop :: "usec \<Rightarrow> (string \<Rightarrow> usec) \<Rightarrow> EventRegistry \<Rightarrow> EventRegistry \<times> string list" where
  "expire_loop now clk [] = ([], [])"
| "expire_loop now clk ((cid, r) # rest) =
     (let (r', hit) = expire_record now (clk cid) r; (rest', ids) = expire_loop now clk rest
      in ((cid, r') # rest', if hit then cid # ids else ids))"

definition expire_events :: "usec \<Rightarrow> (string \<Rightarrow> usec) \<Rightarrow> EventRegistry \<Rightarrow> EventRegistry \<times> string list" where
  "expire_events now clk reg = expire_loop now clk reg"

section \<open>Safe sync\<close>

record SafeSync =
  sy_registry :: EventRegistry
  sy_delist_threshold :: int
  sy_miss_counts :: "(string, int) dict"

definition DEFAULT_DELIST_THRESHOLD :: int where "DEFAULT_DELIST_THRESHOLD = 3"

record SyncResult =
  sr_new_registered :: int
  sr_updated_last_seen :: int
  sr_soft_removed :: int
  sr_protected_by_position :: int
  sr_restored :: int
  sr_total_in_registry :: int

definition new_sync_result :: SyncResult where
  "new_sync_result = \<lparr>sr_new_registered = 0, sr_updated_last_seen = 0, sr_soft_removed = 0,
     sr_protected_by_position = 0, sr_restored = 0, sr_total_in_registry = 0\<rparr>"

text \<open>A candidate of phase 1; ids and clock readings by condition id.\<close>

definition sync_candidate ::
  "(string \<Rightarrow> string) \<Rightarrow> (string \<Rightarrow> usec) \<Rightarrow> DiscoveredEvent \<Rightarrow> SafeSync \<times> SyncResult \<Rightarrow> SafeSync \<times> SyncResult" where
  "sync_candidate ids clk c sr =
     (let (s, res) = sr; cid = de_condition_id c; reg = sy_registry s
      in case get_by_condition_id reg cid of
           None \<Rightarrow>
             (s\<lparr>sy_registry := fst (register_candidate c (ids cid) (clk cid) reg),
                sy_miss_counts := dpop cid (sy_miss_counts s)\<rparr>,
              res\<lparr>sr_new_registered := sr_new_registered res + 1\<rparr>)
         | Some r \<Rightarrow>
             (let r1 = update_last_seen (clk cid) r;
                  restore = (g_status r1 = EV_INACTIVE \<and> can_transition_to EV_ACTIVE r1);
                  r2 = (if restore then fst (event_transition_to EV_ACTIVE (clk cid) r1) else r1);
                  res1 = res\<lparr>sr_updated_last_seen := sr_updated_last_seen res + 1\<rparr>
              in (s\<lparr>sy_registry := dset cid r2 reg, sy_miss_counts := dpop cid (sy_miss_counts s)\<rparr>,
                  if restore then res1\<lparr>sr_restored := sr_restored res1 + 1\<rparr> else res1)))"

text \<open>A record of phase 2, which the scan did not show unless \<open>seen\<close>.\<close>

definition sync_missing ::
  "string list \<Rightarrow> (string \<Rightarrow> usec) \<Rightarrow> RegistryRecord \<Rightarrow> SafeSync \<times> SyncResult \<Rightarrow> SafeSync \<times> SyncResult" where
  "sync_missing seen clk r sr =
     (let (s, res) = sr; cid = g_condition_id r
      in if cid \<in> set seen then (s, res)
         else if g_status r = EV_CLOSED \<or> g_status r = EV_EXPIRED then (s, res)
         else if g_has_open_position r then
           (s, res\<lparr>sr_protected_by_position := sr_protected_by_position res + 1\<rparr>)
         else
           (let n = dget_or (sy_miss_counts s) cid 0 + 1;
                s1 = s\<lparr>sy_miss_counts := dset cid n (sy_miss_counts s)\<rparr>
            in if sy_delist_threshold s \<le> n \<and> can_transition_to EV_INACTIVE r then
                 (s1\<lparr>sy_registry := dset cid (fst (event_transition_to EV_INACTIVE (clk cid) r)) (sy_registry s1)\<rparr>,
                  res\<lparr>sr_soft_removed := sr_soft_removed res + 1\<rparr>)
               else (s1, res)))"

definition sync ::
  "(string \<Rightarrow> string) \<Rightarrow> (string \<Rightarrow> usec) \<Rightarrow> DiscoveredEvent list \<Rightarrow> SafeSync \<Rightarrow> SafeSync \<times> SyncResult" where
  "sync ids clk events s =
     (let seen = map de_condition_id events;
          (s1, r1) = foldl (\<lambda>sr c. sync_candidate ids clk c sr) (s, new_sync_result) events;
          (s2, r2) = foldl (\<lambda>sr r. sync_missing seen clk r sr) (s1, r1) (dvals (sy_registry s1))
      in (s2, r2\<lparr>sr_total_in_registry := registry_count (sy_registry s2)\<rparr>))"

section \<open>Life cycle\<close>

lemma event_transition_iff:
  "event_transition_to target now r = (r', Inr ()) \<longleftrightarrow>
     target \<in> set (EVENT_TRANSITIONS (g_status r)) \<and>
     r' = r\<lparr>g_status := target, g_status_changed_at := now\<rparr>"
  by (auto simp: event_transition_to_def can_transition_to_def)

lemma to_expired_iff: "EV_EXPIRED \<in> set (EVENT_TRANSITIONS s) \<longleftrightarrow> s = EV_ACTIVE \<or> s = EV_INACTIVE"
  by (cases s) simp_all

lemma to_active_iff: "EV_ACTIVE \<in> set (EVENT_TRANSITIONS s) \<longleftrightarrow>
    s = EV_VALIDATING \<or> s = EV_INACTIVE \<or> s = EV_SUSPENDED"
  by (cases s) simp_all

lemma to_inactive_iff: "EV_INACTIVE \<in> set (EVENT_TRANSITIONS s) \<longleftrightarrow>
    s = EV_DISCOVERED \<or> s = EV_VALIDATING \<or> s = EV_ACTIVE"
  by (cases s) simp_all

lemma expire_record_spec:
  "expire_record now clock r =
     (if g_end_date r \<le> now \<and> (g_status r = EV_ACTIVE \<or> g_status r = EV_INACTIVE)
      then (r\<lparr>g_status := EV_EXPIRED, g_status_changed_at := clock\<rparr>, True) else (r, False))"
  by (cases "g_status r")
    (auto simp: expire_record_def event_transition_to_def can_transition_to_def)

lemma expire_loop_spec:
  "expire_loop now clk reg =
     (map (\<lambda>(cid, r). (cid, fst (expire_record now (clk cid) r))) reg,
      map fst (filter (\<lambda>(cid, r). snd (expire_record now (clk cid) r)) reg))"
  by (induction reg) (auto simp: Let_def split: prod.splits)


section \<open>What a sync does to one event\<close>

definition registry_inv :: "EventRegistry \<Rightarrow> bool" where
  "registry_inv reg \<longleftrightarrow> wf_dict reg \<and> (\<forall>k r. dget reg k = Some r \<longrightarrow> g_condition_id r = k)"

lemma registry_invD: "registry_inv reg \<Longrightarrow> dget reg k = Some r \<Longrightarrow> g_condition_id r = k"
  by (simp add: registry_inv_def)

lemma registry_inv_dset: "registry_inv reg \<Longrightarrow> g_condition_id r = k \<Longrightarrow> registry_inv (dset k r reg)"
  by (simp add: registry_inv_def)

definition seen_update :: "usec \<Rightarrow> RegistryRecord \<Rightarrow> RegistryRecord" where
  "seen_update now r = (let r1 = update_last_seen now r
     in if g_status r = EV_INACTIVE then r1\<lparr>g_status := EV_ACTIVE, g_status_changed_at := now\<rparr> else r1)"

lemma seen_update_simps [simp]:
  "g_condition_id (seen_update n r) = g_condition_id r"
  "g_has_open_position (seen_update n r) = g_has_open_position r"
  "g_status (seen_update n r) = (if g_status r = EV_INACTIVE then EV_ACTIVE else g_status r)"
  by (simp_all add: seen_update_def update_last_seen_def Let_def)

lemma seen_update_idem: "seen_update n (seen_update n r) = seen_update n r"
  by (simp add: seen_update_def update_last_seen_def Let_def)

lemma sync_candidate_spec:
  assumes "sync_candidate ids clk c (s, res) = (s', res')"
  shows "sy_registry s' = dset (de_condition_id c)
       (case dget (sy_registry s) (de_condition_id c) of
          None \<Rightarrow> new_record (ids (de_condition_id c)) c
        | Some r \<Rightarrow> seen_update (clk (de_condition_id c)) r) (sy_registry s)"
    and "sy_miss_counts s' = dpop (de_condition_id c) (sy_miss_counts s)"
    and "sy_delist_threshold s' = sy_delist_threshold s"
  using assms
  by (auto simp: sync_candidate_def get_by_condition_id_def register_candidate_def seen_update_def
      event_transition_to_def can_transition_to_def update_last_seen_def Let_def
      split: option.splits if_splits)

abbreviation phase1 where
  "phase1 ids clk events sr \<equiv> foldl (\<lambda>sr c. sync_candidate ids clk c sr) sr events"

lemma phase1_spec:
  assumes "phase1 ids clk events (s, res) = (s', res')" "registry_inv (sy_registry s)"
  shows "registry_inv (sy_registry s') \<and> sy_delist_threshold s' = sy_delist_threshold s \<and>
     (\<forall>k. dget (sy_miss_counts s') k =
        (if k \<in> de_condition_id ` set events then None else dget (sy_miss_counts s) k)) \<and>
     (\<forall>k r. dget (sy_registry s) k = Some r \<longrightarrow> dget (sy_registry s') k =
        Some (if k \<in> de_condition_id ` set events then seen_update (clk k) r else r)) \<and>
     (\<forall>k. dget (sy_registry s) k = None \<longrightarrow> (dget (sy_registry s') k \<noteq> None) = (k \<in> de_condition_id ` set events))"
  using assms
proof (induction events arbitrary: s res)
  case Nil
  then show ?case by simp
next
  case (Cons c events)
  obtain s1 res1 where c: "sync_candidate ids clk c (s, res) = (s1, res1)" by fastforce
  note sp = sync_candidate_spec [OF c]
  let ?k = "de_condition_id c"
  have run: "phase1 ids clk events (s1, res1) = (s', res')" using Cons.prems(1) c by simp
  have inv1: "registry_inv (sy_registry s1)"
    unfolding sp using Cons.prems(2)
    by (intro registry_inv_dset) (auto simp: new_record_def registry_inv_def split: option.splits)
  note ih = Cons.IH [OF run inv1]
  have "dget (sy_registry s') k = Some (if k \<in> de_condition_id ` set (c # events) then seen_update (clk k) r else r)"
    if r: "dget (sy_registry s) k = Some r" for k r
  proof (cases "k = ?k")
    case True
    with r have "dget (sy_registry s1) k = Some (seen_update (clk k) r)" by (simp add: sp)
    with ih have "dget (sy_registry s') k =
        Some (if k \<in> de_condition_id ` set events then seen_update (clk k) (seen_update (clk k) r) else seen_update (clk k) r)"
      by blast
    with True show ?thesis by (simp add: seen_update_idem)
  next
    case False
    with r have "dget (sy_registry s1) k = Some r" by (simp add: sp)
    with ih False show ?thesis by simp
  qed
  moreover have "(dget (sy_registry s') k \<noteq> None) = (k \<in> de_condition_id ` set (c # events))"
    if n: "dget (sy_registry s) k = None" for k
  proof (cases "k = ?k")
    case True
    with n obtain r where "dget (sy_registry s1) k = Some r" by (simp add: sp)
    with ih True show ?thesis by auto
  next
    case False
    with n have "dget (sy_registry s1) k = None" by (simp add: sp)
    with ih False show ?thesis by simp
  qed
  ultimately show ?case using ih by (auto simp: sp)
qed

text \<open>The new state of a record that the scan did not show.\<close>

definition protected :: "RegistryRecord \<Rightarrow> bool" where
  "protected r \<longleftrightarrow> g_status r = EV_CLOSED \<or> g_status r = EV_EXPIRED \<or> g_has_open_position r"

definition miss_update :: "usec \<Rightarrow> int \<Rightarrow> int \<Rightarrow> RegistryRecord \<Rightarrow> RegistryRecord" where
  "miss_update now threshold misses r =
     (if threshold \<le> misses \<and> can_transition_to EV_INACTIVE r
      then r\<lparr>g_status := EV_INACTIVE, g_status_changed_at := now\<rparr> else r)"

lemma sync_missing_spec:
  assumes "sync_missing seen clk r (s, res) = (s', res')" "dget (sy_registry s) (g_condition_id r) = Some r"
  shows "sy_delist_threshold s' = sy_delist_threshold s"
    and "dget (sy_registry s') k =
       (if k = g_condition_id r \<and> k \<notin> set seen \<and> \<not> protected r
        then Some (miss_update (clk k) (sy_delist_threshold s) (dget_or (sy_miss_counts s) k 0 + 1) r)
        else dget (sy_registry s) k)"
    and "dget_or (sy_miss_counts s') k 0 =
       (if k = g_condition_id r \<and> k \<notin> set seen \<and> \<not> protected r
        then dget_or (sy_miss_counts s) k 0 + 1 else dget_or (sy_miss_counts s) k 0)"
  using assms
  by (auto simp: sync_missing_def protected_def miss_update_def event_transition_to_def Let_def
      split: if_splits)

abbreviation phase2 where
  "phase2 seen clk rs sr \<equiv> foldl (\<lambda>sr r. sync_missing seen clk r sr) sr rs"

lemma phase2_spec:
  assumes "phase2 seen clk rs (s, res) = (s', res')" "distinct (map g_condition_id rs)"
    and "\<forall>r \<in> set rs. dget (sy_registry s) (g_condition_id r) = Some r"
  shows "sy_delist_threshold s' = sy_delist_threshold s \<and>
     (\<forall>k. k \<notin> g_condition_id ` set rs \<longrightarrow> dget (sy_registry s') k = dget (sy_registry s) k \<and>
        dget_or (sy_miss_counts s') k 0 = dget_or (sy_miss_counts s) k 0) \<and>
     (\<forall>r \<in> set rs. let k = g_condition_id r; out = (k \<notin> set seen \<and> \<not> protected r);
          n = dget_or (sy_miss_counts s) k 0 + 1
        in dget (sy_registry s') k = Some (if out then miss_update (clk k) (sy_delist_threshold s) n r else r) \<and>
           dget_or (sy_miss_counts s') k 0 = (if out then n else n - 1))"
  using assms
proof (induction rs arbitrary: s res)
  case Nil
  then show ?case by simp
next
  case (Cons r rs)
  obtain s1 res1 where c: "sync_missing seen clk r (s, res) = (s1, res1)" by fastforce
  have g: "dget (sy_registry s) (g_condition_id r) = Some r" using Cons.prems(3) by simp
  note sp = sync_missing_spec [OF c g]
  have run: "phase2 seen clk rs (s1, res1) = (s', res')" using Cons.prems(1) c by simp
  have d: "distinct (map g_condition_id rs)" "g_condition_id r \<notin> g_condition_id ` set rs"
    using Cons.prems(2) by simp_all
  have ne: "g_condition_id q \<noteq> g_condition_id r" if "q \<in> set rs" for q
    using d(2) that by (metis imageI)
  have "\<forall>q \<in> set rs. dget (sy_registry s1) (g_condition_id q) = Some q"
    using Cons.prems(3) ne by (simp add: sp)
  note ih = Cons.IH [OF run d(1) this]
  have keep: "dget_or (sy_miss_counts s1) (g_condition_id q) 0 = dget_or (sy_miss_counts s) (g_condition_id q) 0"
    if "q \<in> set rs" for q using ne [OF that] by (simp add: sp)
  show ?case
  proof (intro conjI allI impI ballI)
    show "sy_delist_threshold s' = sy_delist_threshold s" using ih sp(1) by simp
    fix k assume "k \<notin> g_condition_id ` set (r # rs)"
    then have "k \<noteq> g_condition_id r" "k \<notin> g_condition_id ` set rs" by auto
    with ih show "dget (sy_registry s') k = dget (sy_registry s) k"
      "dget_or (sy_miss_counts s') k 0 = dget_or (sy_miss_counts s) k 0" by (simp_all add: sp)
  next
    fix q assume "q \<in> set (r # rs)"
    then consider "q = r" | "q \<in> set rs" by auto
    then show "let k = g_condition_id q; out = (k \<notin> set seen \<and> \<not> protected q);
          n = dget_or (sy_miss_counts s) k 0 + 1
        in dget (sy_registry s') k = Some (if out then miss_update (clk k) (sy_delist_threshold s) n q else q) \<and>
           dget_or (sy_miss_counts s') k 0 = (if out then n else n - 1)"
    proof cases
      case 1
      have "dget (sy_registry s') (g_condition_id r) = dget (sy_registry s1) (g_condition_id r)"
        "dget_or (sy_miss_counts s') (g_condition_id r) 0 = dget_or (sy_miss_counts s1) (g_condition_id r) 0"
        using ih d(2) by blast+
      with 1 g show ?thesis by (simp add: sp Let_def)
    next
      case 2
      with ih keep [OF 2] sp(1) show ?thesis by (simp add: Let_def)
    qed
  qed
qed

lemma registry_snapshot:
  assumes "registry_inv reg"
  shows "distinct (map g_condition_id (dvals reg))"
    and "r \<in> set (dvals reg) \<Longrightarrow> dget reg (g_condition_id r) = Some r"
proof -
  have wf: "wf_dict reg" using assms by (simp add: registry_inv_def)
  have key: "g_condition_id r = k" if "(k, r) \<in> set reg" for k r
    using registry_invD [OF assms, of k r] that wf by (simp add: wf_dget_iff)
  have e: "map (g_condition_id \<circ> snd) reg = map fst reg"
    by (rule map_cong) (auto simp: key)
  show "distinct (map g_condition_id (dvals reg))" using wf by (simp add: wf_dict_def e)
  show "dget reg (g_condition_id r) = Some r" if r: "r \<in> set (dvals reg)"
  proof -
    from r obtain k where "(k, r) \<in> set reg" by auto
    with key [OF this] wf show ?thesis by (simp add: wf_dget_iff)
  qed
qed

section \<open>Properties\<close>

text \<open>Safe sync, event by event. No event is ever dropped from the registry. An event in the scan
  is marked seen, has its miss count cleared and, if it was inactive, becomes active again. An
  event missing from the scan is left alone when it is terminal or has an open position;
  otherwise its miss count grows by one and, once the count reaches the threshold, it becomes
  inactive if its status allows it.\<close>

theorem safe_sync_effect:
  assumes "sync ids clk events s = (s', res)" and "registry_inv (sy_registry s)"
    and "dget (sy_registry s) k = Some r"
  shows "let seen = (k \<in> de_condition_id ` set events); n = dget_or (sy_miss_counts s) k 0 in
     dget (sy_registry s') k = Some
       (if seen then seen_update (clk k) r
        else if protected r then r else miss_update (clk k) (sy_delist_threshold s) (n + 1) r) \<and>
     dget_or (sy_miss_counts s') k 0 = (if seen then 0 else if protected r then n else n + 1)"
proof -
  let ?seen = "map de_condition_id events"
  obtain s1 r1 where p1: "phase1 ids clk events (s, new_sync_result) = (s1, r1)" by fastforce
  note a = phase1_spec [OF p1 assms(2)]
  obtain s2 r2 where p2: "phase2 ?seen clk (dvals (sy_registry s1)) (s1, r1) = (s2, r2)" by fastforce
  have inv1: "registry_inv (sy_registry s1)" using a by blast
  have s': "s' = s2" using assms(1) p1 p2 by (simp add: sync_def Let_def)
  have snap: "\<forall>r \<in> set (dvals (sy_registry s1)). dget (sy_registry s1) (g_condition_id r) = Some r"
    using registry_snapshot(2) [OF inv1] by blast
  note b = phase2_spec [OF p2 registry_snapshot(1) [OF inv1] snap]
  let ?in = "k \<in> de_condition_id ` set events"
  let ?r1 = "if ?in then seen_update (clk k) r else r"
  have g1: "dget (sy_registry s1) k = Some ?r1" using a assms(3) by blast
  have k: "g_condition_id ?r1 = k" using registry_invD [OF inv1 g1] .
  have mem: "?r1 \<in> set (dvals (sy_registry s1))" using g1 by (force dest: map_of_SomeD)
  have miss: "dget_or (sy_miss_counts s1) k 0 = (if ?in then 0 else dget_or (sy_miss_counts s) k 0)"
    using a by (simp add: dget_or_def)
  have thr: "sy_delist_threshold s1 = sy_delist_threshold s" using a by blast
  show ?thesis
    using b [THEN conjunct2, THEN conjunct2, rule_format, OF mem]
    unfolding s' Let_def k miss thr by auto
qed

definition example_registry :: EventRegistry where
  "example_registry = [(''c1'', (new_record ''e1'' \<lparr>de_condition_id = ''c1'', de_question = ''q'', de_slug = ''btc'',
     de_asset = ''BTC'', de_duration = ''5m'', de_category = ''crypto'', de_end_date = 300,
     de_discovered_at = 0, de_clob_token_ids = [], de_outcomes = [], de_outcome_prices = []\<rparr>)
     \<lparr>g_status := EV_ACTIVE\<rparr>)]"

theorem safe_sync_effect_witness:
  "let seen = False; n = 2 :: int; r = the (dget example_registry ''c1'') in
     dget (sy_registry (fst (sync (\<lambda>_. ''e2'') (\<lambda>_. 50) []
       \<lparr>sy_registry = example_registry, sy_delist_threshold = 3, sy_miss_counts = [(''c1'', 2)]\<rparr>))) ''c1'' =
     Some (r\<lparr>g_status := EV_INACTIVE, g_status_changed_at := 50\<rparr>)"
proof -
  let ?s = "\<lparr>sy_registry = example_registry, sy_delist_threshold = 3, sy_miss_counts = [(''c1'', 2)]\<rparr>"
  let ?r = "the (dget example_registry ''c1'')"
  have "registry_inv (sy_registry ?s)"
    by (simp add: registry_inv_def example_registry_def new_record_def wf_dict_def)
  moreover have "dget (sy_registry ?s) ''c1'' = Some ?r" by (simp add: example_registry_def)
  ultimately have "dget (sy_registry (fst (sync (\<lambda>_. ''e2'') (\<lambda>_. 50) [] ?s))) ''c1'' =
      Some (if protected ?r then ?r else miss_update 50 3 (2 + 1) ?r)"
    using safe_sync_effect [of "\<lambda>_. ''e2''" "\<lambda>_. 50" "[]" ?s, OF prod.collapse [symmetric]]
    by (auto simp: Let_def dget_or_def)
  moreover have "\<not> protected ?r" "can_transition_to EV_INACTIVE ?r"
    by (simp_all add: protected_def can_transition_to_def example_registry_def new_record_def)
  ultimately show ?thesis by (simp add: miss_update_def)
qed

text \<open>Which events expire: exactly the active and the inactive ones whose end has come. A record in
  any other state is kept as it is, so an event that is still discovered or validating, or that
  is suspended, never expires however long ago it ended.\<close>

theorem expire_exact:
  "expire_events now clk reg =
     (map (\<lambda>(cid, r). (cid, if g_end_date r \<le> now \<and> (g_status r = EV_ACTIVE \<or> g_status r = EV_INACTIVE)
        then r\<lparr>g_status := EV_EXPIRED, g_status_changed_at := clk cid\<rparr> else r)) reg,
      map fst (filter (\<lambda>(cid, r). g_end_date r \<le> now \<and> (g_status r = EV_ACTIVE \<or> g_status r = EV_INACTIVE)) reg))"
  unfolding expire_events_def expire_loop_spec expire_record_spec
  by (auto intro!: arg_cong [where f = "map fst"] filter_cong)

text \<open>The event life cycle ends: a sequence of allowed transitions that reaches CLOSED stops there,
  an expired event can only be closed, and no allowed sequence makes an event discovered again.\<close>

theorem event_lifecycle:
  "(event_cycle.path EV_CLOSED ts \<longleftrightarrow> ts = []) \<and>
   (event_cycle.path EV_EXPIRED ts \<longleftrightarrow> ts = [] \<or> ts = [EV_CLOSED]) \<and>
   (event_cycle.path s ts \<longrightarrow> EV_DISCOVERED \<notin> set ts)"
proof (intro conjI impI)
  show "event_cycle.path EV_CLOSED ts \<longleftrightarrow> ts = []" by (rule event_cycle.terminal_no_path)
  show "event_cycle.path EV_EXPIRED ts \<longleftrightarrow> ts = [] \<or> ts = [EV_CLOSED]"
    by (cases ts) (auto simp: event_cycle.terminal_no_path)
  assume "event_cycle.path s ts"
  then show "EV_DISCOVERED \<notin> set ts"
  proof (induction ts arbitrary: s)
    case (Cons t ts)
    have "EV_DISCOVERED \<notin> set (EVENT_TRANSITIONS s)" by (cases s) simp_all
    with Cons show ?case by auto
  qed simp
qed

theorem event_lifecycle_witness: "EV_DISCOVERED \<notin> set [EV_VALIDATING, EV_ACTIVE, EV_EXPIRED]"
  using event_lifecycle [of "[EV_VALIDATING, EV_ACTIVE, EV_EXPIRED]" EV_DISCOVERED] by simp

end
