(* ===== verification/Json.thy ===== *)
theory Json
  imports Prelude
begin

text \<open>
  The JSON values the bot receives, as Python objects, and the conversions it applies to them:
  truth, \<^verbatim>\<open>float(x)\<close> and \<^verbatim>\<open>str.strip\<close>. A dictionary keeps the last value of a repeated key.

  A float read from a string may be nan or an infinity (\<open>flt\<close>); the numbers of a JSON text are
  taken to be finite.
\<close>

datatype json = JNull | JBool bool | JNum num | JStr string | JList "json list"
  | JObj "(string \<times> json) list"

datatype flt = Fin num | PInf | NInf | NaN

text \<open>\<^verbatim>\<open>a < b\<close> on floats\<close>

fun flt_less :: "flt \<Rightarrow> flt \<Rightarrow> bool" where
  "flt_less (Fin a) (Fin b) = (a < b)"
| "flt_less (Fin a) PInf = True"
| "flt_less NInf (Fin b) = True"
| "flt_less NInf PInf = True"
| "flt_less a b = False"

text \<open>\<^verbatim>\<open>lo < x <= hi\<close> and \<^verbatim>\<open>lo <= x <= hi\<close> for finite bounds\<close>

definition flt_in_oc :: "num \<Rightarrow> num \<Rightarrow> flt \<Rightarrow> bool" where
  "flt_in_oc lo hi x = (case x of Fin a \<Rightarrow> lo < a \<and> a \<le> hi | _ \<Rightarrow> False)"

definition flt_in_cc :: "num \<Rightarrow> num \<Rightarrow> flt \<Rightarrow> bool" where
  "flt_in_cc lo hi x = (case x of Fin a \<Rightarrow> lo \<le> a \<and> a \<le> hi | _ \<Rightarrow> False)"

fun the_num :: "flt \<Rightarrow> num" where
  "the_num (Fin a) = a"
| "the_num x = 0"

lemma flt_in_oc_iff: "flt_in_oc lo hi x \<longleftrightarrow> (\<exists>a. x = Fin a \<and> lo < a \<and> a \<le> hi)"
  by (cases x) (simp_all add: flt_in_oc_def)

lemma flt_in_cc_iff: "flt_in_cc lo hi x \<longleftrightarrow> (\<exists>a. x = Fin a \<and> lo \<le> a \<and> a \<le> hi)"
  by (cases x) (simp_all add: flt_in_cc_def)

text \<open>\<^verbatim>\<open>bool(x)\<close>\<close>

fun truthy :: "json \<Rightarrow> bool" where
  "truthy JNull = False"
| "truthy (JBool b) = b"
| "truthy (JNum x) = (x \<noteq> 0)"
| "truthy (JStr s) = (s \<noteq> [])"
| "truthy (JList xs) = (xs \<noteq> [])"
| "truthy (JObj kvs) = (kvs \<noteq> [])"

fun is_obj :: "json \<Rightarrow> bool" where
  "is_obj (JObj kvs) = True"
| "is_obj j = False"

text \<open>\<^verbatim>\<open>obj.get(k, default)\<close>; only a dictionary has the method.\<close>

fun jget :: "json \<Rightarrow> string \<Rightarrow> json \<Rightarrow> exc + json" where
  "jget (JObj kvs) k d = Inr (dget_or kvs k d)"
| "jget j k d = Inl AttributeError"

section \<open>Float literals\<close>

definition is_space :: "char \<Rightarrow> bool" where
  "is_space c \<longleftrightarrow> (let n = of_char c :: nat in n = 32 \<or> (9 \<le> n \<and> n \<le> 13) \<or> (28 \<le> n \<and> n \<le> 31))"

definition str_strip :: "string \<Rightarrow> string" where
  "str_strip s = rev (dropWhile is_space (rev (dropWhile is_space s)))"

text \<open>A run of digits, in which single underscores may separate digits.\<close>

fun digit_run :: "string \<Rightarrow> string \<times> string" where
  "digit_run (c # u # d # cs) =
     (if is_digit c then
        (if u = CHR ''_'' \<and> is_digit d then (let (ds, rest) = digit_run (d # cs) in (c # ds, rest))
         else (let (ds, rest) = digit_run (u # d # cs) in (c # ds, rest)))
      else ([], c # u # d # cs))"
| "digit_run [c, d] =
     (if is_digit c then (if is_digit d then ([c, d], []) else ([c], [d])) else ([], [c, d]))"
| "digit_run [c] = (if is_digit c then ([c], []) else ([], [c]))"
| "digit_run [] = ([], [])"

fun take_sign :: "string \<Rightarrow> bool \<times> string" where
  "take_sign (c # cs) = (if c = CHR ''-'' then (True, cs) else if c = CHR ''+'' then (False, cs) else (False, c # cs))"
| "take_sign [] = (False, [])"

text \<open>The fraction digits after an optional point, and the decimal exponent after an optional e.\<close>

definition frac_part :: "string \<Rightarrow> string \<times> string" where
  "frac_part s = (case s of c # cs \<Rightarrow> if c = CHR ''.'' then digit_run cs else ([], s) | [] \<Rightarrow> ([], []))"

definition exp_part :: "string \<Rightarrow> (int \<times> string) option" where
  "exp_part s = (case s of
       c # cs \<Rightarrow> if c = CHR ''e'' \<or> c = CHR ''E''
         then (let (neg, r) = take_sign cs; (ds, rest) = digit_run r
               in if ds = [] then None else Some (if neg then - digits_val ds else digits_val ds, rest))
         else Some (0, s)
     | [] \<Rightarrow> Some (0, []))"

definition unsigned_float :: "string \<Rightarrow> num option" where
  "unsigned_float s =
     (let (ip, r1) = digit_run s; (fp, r2) = frac_part r1
      in if ip = [] \<and> fp = [] then None
         else case exp_part r2 of
           None \<Rightarrow> None
         | Some (e, r3) \<Rightarrow> if r3 \<noteq> [] then None
             else Some (of_int (digits_val (ip @ fp)) * 10 powi (e - int (length fp))))"

text \<open>\<^verbatim>\<open>float(s)\<close> for a string\<close>

definition py_float_str :: "string \<Rightarrow> exc + flt" where
  "py_float_str s =
     (let (neg, r) = take_sign (str_strip s)
      in if str_lower r = ''nan'' then Inr NaN
         else if str_lower r = ''inf'' \<or> str_lower r = ''infinity'' then Inr (if neg then NInf else PInf)
         else case unsigned_float r of
           None \<Rightarrow> Inl ValueError
         | Some x \<Rightarrow> Inr (Fin (fl (if neg then - x else x))))"

text \<open>\<^verbatim>\<open>float(x)\<close>\<close>

fun py_float :: "json \<Rightarrow> exc + flt" where
  "py_float (JNum x) = Inr (Fin (fl x))"
| "py_float (JBool b) = Inr (Fin (if b then 1 else 0))"
| "py_float (JStr s) = py_float_str s"
| "py_float j = Inl TypeError"

lemma py_float_raises: "py_float j = Inl e \<Longrightarrow> e = ValueError \<or> e = TypeError"
  by (cases j) (auto simp: py_float_str_def Let_def split: prod.splits option.splits if_splits)

lemma py_float_examples:
  "py_float_str ''0.5'' = Inr (Fin (1/2))"
  "py_float_str ''  -2.5e1'' = Inr (Fin (- 25))"
  "py_float_str ''--'' = Inl ValueError"
  "py_float_str '''' = Inl ValueError"
  "py_float_str ''1_000.25'' = Inr (Fin (4001/4))"
  "py_float_str ''1__0'' = Inl ValueError"
  "py_float_str ''NaN'' = Inr NaN"
  by code_simp+

end
