(* ===== verification/Ptb.thy ===== *)
theory Ptb
  imports Json
begin

text \<open>
  \<^verbatim>\<open>backend/ptb/\<close>: the price to beat of an event, its source and the fetcher that acquires and
  locks it.

  A fetch awaits its source between two changes of the record; \<open>ptb_begin\<close> and \<open>ptb_finish\<close> are
  these two halves, so that two fetches of the same event can be interleaved. \<open>fetch_ptb\<close> is a
  fetch that nothing interrupts. The record a coroutine holds is the one stored under its event.
\<close>

section \<open>The source\<close>

record PTBFetchResult =
  pr_success :: bool
  pr_value :: "num option"
  pr_error :: string

text \<open>What the HTTP request gives.\<close>

datatype page_response = Page_timeout | Page_error string | Page_status int | Page_text string

definition PTB_PREFIX :: string where "PTB_PREFIX = ''\"openPrice\":''"
definition PTB_SUFFIX :: string where "PTB_SUFFIX = '',\"closePrice\":null''"

definition is_price_char :: "char \<Rightarrow> bool" where
  "is_price_char c \<longleftrightarrow> is_digit c \<or> c = CHR ''.''"

text \<open>
  \<^verbatim>\<open>re.search(r'"openPrice":([0-9.]+),"closePrice":null', html)\<close>: the group ends where the characters
  of a price end, since the suffix starts with a comma.
\<close>

definition match_ptb_here :: "string \<Rightarrow> string option" where
  "match_ptb_here s =
     (if starts_with PTB_PREFIX s then
        (let r = drop (length PTB_PREFIX) s; g = takeWhile is_price_char r
         in if g \<noteq> [] \<and> starts_with PTB_SUFFIX (dropWhile is_price_char r) then Some g else None)
      else None)"

fun search_ptb :: "string \<Rightarrow> string option" where
  "search_ptb [] = None"
| "search_ptb (c # cs) = (case match_ptb_here (c # cs) of Some g \<Rightarrow> Some g | None \<Rightarrow> search_ptb cs)"

definition ptb_failure :: "string \<Rightarrow> PTBFetchResult" where
  "ptb_failure e = \<lparr>pr_success = False, pr_value = None, pr_error = e\<rparr>"

definition parse_ptb :: "string \<Rightarrow> exc + PTBFetchResult" where
  "parse_ptb html = (case search_ptb html of
       None \<Rightarrow> Inr (ptb_failure ''not found'')
     | Some g \<Rightarrow> (case py_float_str g of
         Inl e \<Rightarrow> Inl e
       | Inr x \<Rightarrow> Inr \<lparr>pr_success = True, pr_value = Some (the_num x), pr_error = []\<rparr>))"

text \<open>\<^verbatim>\<open>SSRPTBAdapter.fetch_ptb\<close>: every error becomes an unsuccessful result.\<close>

definition source_fetch :: "page_response \<Rightarrow> PTBFetchResult" where
  "source_fetch resp = (case resp of
       Page_timeout \<Rightarrow> ptb_failure ''Timeout''
     | Page_error e \<Rightarrow> ptb_failure e
     | Page_status n \<Rightarrow> ptb_failure ''HTTP status''
     | Page_text html \<Rightarrow> (case parse_ptb html of Inl e \<Rightarrow> ptb_failure ''parse error'' | Inr r \<Rightarrow> r))"

section \<open>Records\<close>

datatype PTBStatus = PTB_WAITING | PTB_ACQUIRED | PTB_FAILED

record PTBRecord =
  q_condition_id :: string
  q_asset :: string
  q_ptb_value :: "num option"
  q_status :: PTBStatus
  q_source_name :: string
  q_acquired_at :: "usec option"
  q_retry_count :: int
  q_last_error :: string

definition new_ptb :: "string \<Rightarrow> string \<Rightarrow> PTBRecord" where
  "new_ptb cid asset = \<lparr>q_condition_id = cid, q_asset = asset, q_ptb_value = None, q_status = PTB_WAITING,
     q_source_name = [], q_acquired_at = None, q_retry_count = 0, q_last_error = []\<rparr>"

definition is_locked :: "PTBRecord \<Rightarrow> bool" where
  "is_locked r \<longleftrightarrow> q_status r = PTB_ACQUIRED \<and> q_ptb_value r \<noteq> None"

definition ptb_lock :: "usec \<Rightarrow> num \<Rightarrow> string \<Rightarrow> PTBRecord \<Rightarrow> (PTBRecord, unit) outcome" where
  "ptb_lock now v source r =
     (if is_locked r then (r, Inl RuntimeError)
      else (r\<lparr>q_ptb_value := Some v, q_status := PTB_ACQUIRED, q_source_name := source, q_acquired_at := Some now\<rparr>, Inr ()))"

definition record_failure :: "string \<Rightarrow> PTBRecord \<Rightarrow> PTBRecord" where
  "record_failure e r = r\<lparr>q_retry_count := q_retry_count r + 1, q_last_error := e, q_status := PTB_FAILED\<rparr>"

definition record_retry :: "PTBRecord \<Rightarrow> PTBRecord" where
  "record_retry r = r\<lparr>q_retry_count := q_retry_count r + 1, q_status := PTB_WAITING\<rparr>"

section \<open>The fetcher\<close>

type_synonym ptb_records = "(string, PTBRecord) dict"

record PTBFetcher =
  pf_records :: ptb_records
  pf_retry_schedule :: "int list"
  pf_retry_steady :: int

definition DEFAULT_PTB_RETRY_SCHEDULE :: "int list" where "DEFAULT_PTB_RETRY_SCHEDULE = [2, 4, 8, 16]"
definition DEFAULT_PTB_RETRY_STEADY :: int where "DEFAULT_PTB_RETRY_STEADY = 10"

text \<open>\<^verbatim>\<open>retry_schedule or list(DEFAULT)\<close>\<close>

definition new_fetcher :: "int list option \<Rightarrow> int \<Rightarrow> PTBFetcher" where
  "new_fetcher sched steady = \<lparr>pf_records = [],
     pf_retry_schedule = (case sched of None \<Rightarrow> DEFAULT_PTB_RETRY_SCHEDULE
       | Some s \<Rightarrow> if s = [] then DEFAULT_PTB_RETRY_SCHEDULE else s),
     pf_retry_steady = steady\<rparr>"

definition ptb_get_or_create :: "string \<Rightarrow> string \<Rightarrow> PTBFetcher \<Rightarrow> PTBFetcher \<times> PTBRecord" where
  "ptb_get_or_create cid asset f = (case dget (pf_records f) cid of
       Some r \<Rightarrow> (f, r)
     | None \<Rightarrow> (f\<lparr>pf_records := dset cid (new_ptb cid asset) (pf_records f)\<rparr>, new_ptb cid asset))"

definition put_ptb :: "string \<Rightarrow> PTBRecord \<Rightarrow> PTBFetcher \<Rightarrow> PTBFetcher" where
  "put_ptb cid r f = f\<lparr>pf_records := dset cid r (pf_records f)\<rparr>"

text \<open>Up to the await: \<open>False\<close> when the record is locked and the fetch returns at once.\<close>

definition ptb_begin :: "string \<Rightarrow> string \<Rightarrow> PTBFetcher \<Rightarrow> PTBFetcher \<times> bool" where
  "ptb_begin cid asset f0 = (let (f, r) = ptb_get_or_create cid asset f0
     in if is_locked r then (f, False) else (put_ptb cid (record_retry r) f, True))"

text \<open>After the await, on the record the fetch holds.\<close>

definition ptb_finish :: "usec \<Rightarrow> string \<Rightarrow> PTBFetchResult \<Rightarrow> PTBFetcher \<Rightarrow> (PTBFetcher, unit) outcome" where
  "ptb_finish now cid res f = (case dget (pf_records f) cid of
       None \<Rightarrow> (f, Inr ())
     | Some r \<Rightarrow>
        (case (if pr_success res then pr_value res else None) of
           Some v \<Rightarrow> (case ptb_lock now v ''ssr_open_price'' r of (r', x) \<Rightarrow> (put_ptb cid r' f, x))
         | None \<Rightarrow> (put_ptb cid (record_failure (pr_error res) r) f, Inr ())))"

definition fetch_ptb :: "usec \<Rightarrow> string \<Rightarrow> string \<Rightarrow> PTBFetchResult \<Rightarrow> PTBFetcher \<Rightarrow> (PTBFetcher, unit) outcome" where
  "fetch_ptb now cid asset res f = (case ptb_begin cid asset f of
       (f', go) \<Rightarrow> if go then ptb_finish now cid res f' else (f', Inr ()))"

definition ptb_get_record :: "string \<Rightarrow> PTBFetcher \<Rightarrow> PTBRecord option" where
  "ptb_get_record cid f = dget (pf_records f) cid"

text \<open>The first locked record of the asset, else its last record.\<close>

fun best_by_asset :: "string \<Rightarrow> PTBRecord option \<Rightarrow> PTBRecord list \<Rightarrow> PTBRecord option" where
  "best_by_asset upper best [] = best"
| "best_by_asset upper best (r # rs) =
     (if str_upper (q_asset r) = upper then if is_locked r then Some r else best_by_asset upper (Some r) rs
      else best_by_asset upper best rs)"

definition ptb_get_by_asset :: "string \<Rightarrow> PTBFetcher \<Rightarrow> PTBRecord option" where
  "ptb_get_by_asset asset f = best_by_asset (str_upper asset) None (dvals (pf_records f))"

definition ptb_clear_event :: "string \<Rightarrow> PTBFetcher \<Rightarrow> PTBFetcher" where
  "ptb_clear_event cid f = f\<lparr>pf_records := dpop cid (pf_records f)\<rparr>"

definition ptb_count :: "PTBStatus \<Rightarrow> PTBFetcher \<Rightarrow> nat" where
  "ptb_count s f = dcount (\<lambda>r. q_status r = s) (pf_records f)"

definition locked_count :: "PTBFetcher \<Rightarrow> nat" where
  "locked_count f = dcount is_locked (pf_records f)"

definition ptb_incidents :: "PTBFetcher \<Rightarrow> (string \<times> string) list" where
  "ptb_incidents f = map (\<lambda>r. (q_asset r, q_last_error r)) (filter (\<lambda>r. q_status r = PTB_FAILED) (dvals (pf_records f)))"

subsection \<open>The retry loop\<close>

text \<open>
  \<open>fetch_ptb_with_retry\<close>: one round per pass of the loop, with the two clock readings of the pass
  (before and after the wait), the time stamp of a lock and what the source answers. The loop
  is run over the rounds that happen; \<open>None\<close> means that they ran out before it returned.
  \<open>locked_now\<close> is the test on the record the loop holds.
\<close>

record ptb_round =
  pd_before :: num
  pd_after :: num
  pd_now :: usec
  pd_result :: PTBFetchResult

definition ptb_wait :: "PTBFetcher \<Rightarrow> nat \<Rightarrow> int" where
  "ptb_wait f attempt = retry_wait (pf_retry_schedule f) (pf_retry_steady f) attempt"

definition locked_now :: "string \<Rightarrow> PTBFetcher \<Rightarrow> bool" where
  "locked_now cid f = (case dget (pf_records f) cid of None \<Rightarrow> False | Some r \<Rightarrow> is_locked r)"

definition give_up :: "string \<Rightarrow> PTBFetcher \<Rightarrow> PTBFetcher" where
  "give_up cid f = (case dget (pf_records f) cid of None \<Rightarrow> f
     | Some r \<Rightarrow> if is_locked r then f else put_ptb cid (record_failure ''Event expired before PTB acquired'' r) f)"

fun ptb_retry_loop :: "string \<Rightarrow> string \<Rightarrow> num \<Rightarrow> ptb_round list \<Rightarrow> PTBFetcher \<Rightarrow> PTBFetcher option" where
  "ptb_retry_loop cid asset end_ts [] f = None"
| "ptb_retry_loop cid asset end_ts (d # ds) f =
     (if \<not> pd_before d < end_ts then Some (give_up cid f)
      else if end_ts \<le> pd_after d then Some (give_up cid f)
      else (let f' = fst (fetch_ptb (pd_now d) cid asset (pd_result d) f)
            in if locked_now cid f' then Some f' else ptb_retry_loop cid asset end_ts ds f'))"

definition fetch_ptb_with_retry :: "string \<Rightarrow> string \<Rightarrow> num \<Rightarrow> ptb_round list \<Rightarrow> PTBFetcher \<Rightarrow> PTBFetcher option" where
  "fetch_ptb_with_retry cid asset end_ts ds f0 = (let (f, r) = ptb_get_or_create cid asset f0
     in if is_locked r then Some f else ptb_retry_loop cid asset end_ts ds f)"

text \<open>The clock readings of the rounds: time passes, and a wait takes at least its delay.\<close>

fun timed :: "(nat \<Rightarrow> int) \<Rightarrow> nat \<Rightarrow> num \<Rightarrow> ptb_round list \<Rightarrow> bool" where
  "timed wait n t [] = True"
| "timed wait n t (d # ds) = (t \<le> pd_before d \<and> pd_before d + of_int (wait n) \<le> pd_after d \<and> timed wait (Suc n) (pd_after d) ds)"

section \<open>Effects on the records\<close>

lemma put_ptb_dget [simp]: "dget (pf_records (put_ptb cid r f)) c = (if c = cid then Some r else dget (pf_records f) c)"
  by (simp add: put_ptb_def)

lemma put_ptb_schedule [simp]:
  "pf_retry_schedule (put_ptb cid r f) = pf_retry_schedule f" "pf_retry_steady (put_ptb cid r f) = pf_retry_steady f"
  by (simp_all add: put_ptb_def)

lemma get_or_create_dget:
  "dget (pf_records (fst (ptb_get_or_create cid asset f))) c =
     (if c = cid then Some (snd (ptb_get_or_create cid asset f)) else dget (pf_records f) c)"
  by (simp add: ptb_get_or_create_def split: option.splits)

lemma get_or_create_stored: "dget (pf_records f) cid = Some r \<Longrightarrow> ptb_get_or_create cid asset f = (f, r)"
  by (simp add: ptb_get_or_create_def)

lemma ptb_begin_dget:
  "dget (pf_records (fst (ptb_begin cid asset f))) c =
     (if c = cid then Some (let r = snd (ptb_get_or_create cid asset f) in if is_locked r then r else record_retry r)
      else dget (pf_records f) c)"
  using get_or_create_dget [of cid asset f c]
  by (cases "ptb_get_or_create cid asset f") (auto simp: ptb_begin_def Let_def)

lemma ptb_begin_locked:
  "dget (pf_records f) cid = Some r \<Longrightarrow> is_locked r \<Longrightarrow> ptb_begin cid asset f = (f, False)"
  by (simp add: ptb_begin_def get_or_create_stored)

lemma ptb_finish_other: "c \<noteq> cid \<Longrightarrow> dget (pf_records (fst (ptb_finish now cid res f))) c = dget (pf_records f) c"
  by (simp add: ptb_finish_def split: option.splits prod.splits)

definition ptb_success :: "num \<Rightarrow> PTBFetchResult" where
  "ptb_success v = \<lparr>pr_success = True, pr_value = Some v, pr_error = []\<rparr>"

lemma ptb_finish_success:
  "dget (pf_records f) cid = Some r \<Longrightarrow> \<not> is_locked r \<Longrightarrow>
     dget (pf_records (fst (ptb_finish t cid (ptb_success v) f))) cid =
       Some (r\<lparr>q_ptb_value := Some v, q_status := PTB_ACQUIRED, q_source_name := ''ssr_open_price'', q_acquired_at := Some t\<rparr>)"
  by (simp add: ptb_finish_def ptb_lock_def ptb_success_def)

lemma ptb_finish_failure:
  "dget (pf_records f) cid = Some r \<Longrightarrow> \<not> pr_success res \<Longrightarrow>
     dget (pf_records (fst (ptb_finish t cid res f))) cid = Some (record_failure (pr_error res) r)"
  by (simp add: ptb_finish_def)

lemma fetch_ptb_success:
  assumes "dget (pf_records f) cid = Some r" "\<not> is_locked r"
  shows "map_option q_ptb_value (dget (pf_records (fst (fetch_ptb t cid asset (ptb_success v) f))) cid) = Some (Some v)"
proof -
  have "\<not> is_locked (record_retry r)" by (simp add: is_locked_def record_retry_def)
  then show ?thesis
    by (simp add: fetch_ptb_def ptb_begin_def get_or_create_stored [OF assms(1)] assms(2) ptb_finish_success Let_def)
qed

lemma fetch_ptb_other: "c \<noteq> cid \<Longrightarrow> dget (pf_records (fst (fetch_ptb now cid asset res f))) c = dget (pf_records f) c"
  using ptb_begin_dget [of cid asset f c]
  by (cases "ptb_begin cid asset f") (simp add: fetch_ptb_def ptb_finish_other)

lemma fetch_ptb_locked:
  "dget (pf_records f) cid = Some r \<Longrightarrow> is_locked r \<Longrightarrow> fetch_ptb now cid asset res f = (f, Inr ())"
  by (simp add: fetch_ptb_def ptb_begin_locked)

lemma fetch_ptb_present: "dget (pf_records (fst (fetch_ptb now cid asset res f))) cid \<noteq> None"
proof -
  obtain f1 go where b: "ptb_begin cid asset f = (f1, go)" by fastforce
  have "dget (pf_records f1) cid \<noteq> None" using ptb_begin_dget [of cid asset f cid] b by simp
  then show ?thesis
    by (auto simp: fetch_ptb_def b ptb_finish_def split: option.splits prod.splits)
qed

lemma give_up_other: "c \<noteq> cid \<Longrightarrow> dget (pf_records (give_up cid f)) c = dget (pf_records f) c"
  by (simp add: give_up_def split: option.splits)

text \<open>A whole fetch or retry loop leaves a locked record as it is.\<close>

lemma fetch_ptb_keeps_lock:
  assumes "dget (pf_records f) c = Some r" "is_locked r"
  shows "dget (pf_records (fst (fetch_ptb now cid asset res f))) c = Some r"
  using assms by (cases "c = cid") (simp_all add: fetch_ptb_locked fetch_ptb_other)

lemma retry_loop_keeps_lock:
  "ptb_retry_loop cid asset end_ts ds f = Some f' \<Longrightarrow> dget (pf_records f) c = Some r \<Longrightarrow> is_locked r \<Longrightarrow>
     dget (pf_records f') c = Some r"
proof (induction ds arbitrary: f)
  case (Cons d ds)
  have g: "dget (pf_records (give_up cid f)) c = Some r"
    using Cons.prems(2,3) by (cases "c = cid") (simp_all add: give_up_other, simp add: give_up_def)
  have k: "dget (pf_records (fst (fetch_ptb (pd_now d) cid asset (pd_result d) f))) c = Some r"
    using Cons.prems(2,3) by (rule fetch_ptb_keeps_lock)
  show ?case
    using Cons.prems(1) g k Cons.IH [OF _ k Cons.prems(3)]
    by (auto simp: Let_def split: if_splits)
qed simp

section \<open>The retry schedule\<close>

interpretation ptb_retry: retry_policy "retry_wait DEFAULT_PTB_RETRY_SCHEDULE DEFAULT_PTB_RETRY_STEADY" 4 10
proof
  fix n
  show "0 < retry_wait DEFAULT_PTB_RETRY_SCHEDULE DEFAULT_PTB_RETRY_STEADY n"
    by (rule retry_wait_pos) (simp_all add: DEFAULT_PTB_RETRY_SCHEDULE_def DEFAULT_PTB_RETRY_STEADY_def)
  show "4 \<le> n \<Longrightarrow> retry_wait DEFAULT_PTB_RETRY_SCHEDULE DEFAULT_PTB_RETRY_STEADY n = 10"
    by (simp add: retry_wait_steady DEFAULT_PTB_RETRY_SCHEDULE_def DEFAULT_PTB_RETRY_STEADY_def)
qed

lemma ptb_elapsed_31: "ptb_retry.elapsed 31 = 300"
proof -
  have "ptb_retry.elapsed 4 = 30"
    unfolding ptb_retry.elapsed_def by (simp add: retry_wait_def DEFAULT_PTB_RETRY_SCHEDULE_def numeral_eq_Suc)
  then show ?thesis using ptb_retry.elapsed_steady [of 27] by simp
qed

text \<open>A loop that has not returned after its rounds has waited all their delays before the end.\<close>

lemma retry_loop_unfinished:
  assumes "ptb_retry_loop cid asset end_ts ds f = None" and "timed wait n t ds" and "ds \<noteq> []"
  shows "t + of_int (\<Sum>i<length ds. wait (n + i)) < end_ts"
  using assms
proof (induction ds arbitrary: f n t)
  case (Cons d ds)
  let ?f' = "fst (fetch_ptb (pd_now d) cid asset (pd_result d) f)"
  have now: "pd_after d < end_ts" and rest: "ptb_retry_loop cid asset end_ts ds ?f' = None"
    using Cons.prems(1) by (auto simp: Let_def split: if_splits)
  have step: "t + of_int (wait n) \<le> pd_after d" and timed: "timed wait (Suc n) (pd_after d) ds"
    using Cons.prems(2) by auto
  have sum: "(\<Sum>i<length (d # ds). wait (n + i)) = wait n + (\<Sum>i<length ds. wait (Suc n + i))"
    by (simp add: sum.lessThan_Suc_shift del: sum.lessThan_Suc)
  show ?case
  proof (cases "ds = []")
    case False
    from Cons.IH [OF rest timed False] step show ?thesis unfolding sum by simp
  qed (use now step in simp)
qed simp

text \<open>What a finished loop leaves behind.\<close>

definition settled :: "string \<Rightarrow> PTBFetcher \<Rightarrow> bool" where
  "settled cid f = (case dget (pf_records f) cid of None \<Rightarrow> False
     | Some r \<Rightarrow> is_locked r \<or> q_status r = PTB_FAILED)"

lemma give_up_settled: "dget (pf_records f) cid \<noteq> None \<Longrightarrow> settled cid (give_up cid f)"
  by (auto simp: settled_def give_up_def record_failure_def)

lemma retry_loop_settled:
  "ptb_retry_loop cid asset end_ts ds f = Some f' \<Longrightarrow> dget (pf_records f) cid \<noteq> None \<Longrightarrow> settled cid f'"
proof (induction ds arbitrary: f)
  case (Cons d ds)
  let ?f' = "fst (fetch_ptb (pd_now d) cid asset (pd_result d) f)"
  have l: "locked_now cid g \<Longrightarrow> settled cid g" for g
    by (auto simp: locked_now_def settled_def split: option.splits)
  show ?case
    using Cons.prems(1) Cons.IH [OF _ fetch_ptb_present] l [of ?f'] give_up_settled [OF Cons.prems(2)]
    by (auto simp: Let_def split: if_splits)
qed simp

section \<open>Properties\<close>

text \<open>Operations on the fetcher that are not interleaved with each other.\<close>

datatype ptb_op = Op_fetch usec string string PTBFetchResult | Op_retry string string num "ptb_round list"
  | Op_clear string

definition ptb_op_event :: "ptb_op \<Rightarrow> string option" where
  "ptb_op_event x = (case x of Op_clear cid \<Rightarrow> Some cid | _ \<Rightarrow> None)"

fun ptb_run :: "ptb_op list \<Rightarrow> PTBFetcher \<Rightarrow> PTBFetcher" where
  "ptb_run [] f = f"
| "ptb_run (Op_fetch now cid asset res # xs) f = ptb_run xs (fst (fetch_ptb now cid asset res f))"
| "ptb_run (Op_retry cid asset end_ts ds # xs) f =
     ptb_run xs (case fetch_ptb_with_retry cid asset end_ts ds f of None \<Rightarrow> f | Some f' \<Rightarrow> f')"
| "ptb_run (Op_clear cid # xs) f = ptb_run xs (ptb_clear_event cid f)"

text \<open>C17. A locked price to beat is final: no sequence of whole fetches and retry loops, for this event
  or others, changes its record in any field; only clearing the event removes it.\<close>

theorem locked_ptb_constant:
  assumes "dget (pf_records f) cid = Some r" and "is_locked r" and "Some cid \<notin> ptb_op_event ` set ops"
  shows "dget (pf_records (ptb_run ops f)) cid = Some r"
  using assms(1,3)
proof (induction ops arbitrary: f)
  case (Cons x xs)
  have rest: "Some cid \<notin> ptb_op_event ` set xs" using Cons.prems(2) by simp
  show ?case
  proof (cases x)
    case (Op_fetch now c a res)
    with Cons.IH [OF fetch_ptb_keeps_lock [OF Cons.prems(1) assms(2)] rest] show ?thesis by simp
  next
    case (Op_retry c a e ds)
    let ?g = "fst (ptb_get_or_create c a f)"
    have g: "dget (pf_records ?g) cid = Some r"
      using Cons.prems(1) get_or_create_stored [OF Cons.prems(1), of a]
      by (cases "c = cid") (simp_all add: get_or_create_dget)
    have "dget (pf_records (case fetch_ptb_with_retry c a e ds f of None \<Rightarrow> f | Some f' \<Rightarrow> f')) cid = Some r"
      using Cons.prems(1) g retry_loop_keeps_lock [OF _ g assms(2)]
      by (auto simp: fetch_ptb_with_retry_def Let_def split: option.splits prod.splits if_splits)
    with Cons.IH [OF _ rest] Op_retry show ?thesis by simp
  next
    case (Op_clear c)
    with Cons.prems(2) have "c \<noteq> cid" by (auto simp: ptb_op_event_def)
    then have "dget (pf_records (ptb_clear_event c f)) cid = Some r"
      using Cons.prems(1) by (simp add: ptb_clear_event_def)
    with Cons.IH [OF _ rest] Op_clear show ?thesis by simp
  qed
qed simp

definition example_fetcher :: PTBFetcher where
  "example_fetcher = new_fetcher None DEFAULT_PTB_RETRY_STEADY"

theorem locked_ptb_constant_witness:
  "dget (pf_records (ptb_run [Op_fetch 5 ''c1'' ''BTC'' (ptb_success 128), Op_clear ''c2'']
     (fst (fetch_ptb 4 ''c1'' ''BTC'' (ptb_success 64) example_fetcher)))) ''c1'' =
   Some ((new_ptb ''c1'' ''BTC'')\<lparr>q_ptb_value := Some 64, q_status := PTB_ACQUIRED, q_source_name := ''ssr_open_price'',
     q_acquired_at := Some 4, q_retry_count := 1\<rparr>)"
  by (rule locked_ptb_constant)
    (simp_all add: example_fetcher_def new_fetcher_def fetch_ptb_def ptb_begin_def ptb_finish_def ptb_get_or_create_def
      new_ptb_def ptb_success_def ptb_lock_def is_locked_def record_retry_def put_ptb_def ptb_op_event_def)

text \<open>Two fetches of one event that overlap break the lock: when the first succeeds and the second
  then fails, the acquired price is no longer locked, and the next fetch replaces it.\<close>

theorem overlapping_fetch_breaks_lock:
  assumes "\<not> locked_now cid f" and "\<not> pr_success bad"
  shows "let f2 = fst (ptb_begin cid asset (fst (ptb_begin cid asset f)));
             f3 = fst (ptb_finish t1 cid (ptb_success v) f2);
             f4 = fst (ptb_finish t2 cid bad f3);
             f5 = fst (fetch_ptb t3 cid asset (ptb_success w) f4)
         in locked_now cid f3 \<and> \<not> locked_now cid f4 \<and>
            map_option q_ptb_value (dget (pf_records f3) cid) = Some (Some v) \<and>
            map_option q_ptb_value (dget (pf_records f5) cid) = Some (Some w)"
proof -
  define r where "r = snd (ptb_get_or_create cid asset f)"
  have r: "\<not> is_locked r"
    using assms(1) by (auto simp: r_def ptb_get_or_create_def locked_now_def is_locked_def new_ptb_def split: option.splits)
  let ?f1 = "fst (ptb_begin cid asset f)" and ?f2 = "fst (ptb_begin cid asset (fst (ptb_begin cid asset f)))"
  have n: "\<not> is_locked (record_retry q)" for q by (simp add: is_locked_def record_retry_def)
  have f1: "dget (pf_records ?f1) cid = Some (record_retry r)"
    using r by (simp add: ptb_begin_dget r_def Let_def)
  have f2: "dget (pf_records ?f2) cid = Some (record_retry (record_retry r))"
    by (simp add: ptb_begin_dget get_or_create_stored [OF f1] n Let_def)
  let ?f3 = "fst (ptb_finish t1 cid (ptb_success v) ?f2)"
  define q where "q = (record_retry (record_retry r))\<lparr>q_ptb_value := Some v, q_status := PTB_ACQUIRED,
    q_source_name := ''ssr_open_price'', q_acquired_at := Some t1\<rparr>"
  have f3: "dget (pf_records ?f3) cid = Some q"
    unfolding q_def by (rule ptb_finish_success [OF f2 n])
  let ?f4 = "fst (ptb_finish t2 cid bad ?f3)"
  have f4: "dget (pf_records ?f4) cid = Some (record_failure (pr_error bad) q)"
    by (rule ptb_finish_failure [OF f3 assms(2)])
  have nf: "\<not> is_locked (record_failure e q)" for e by (simp add: is_locked_def record_failure_def)
  have "map_option q_ptb_value (dget (pf_records (fst (fetch_ptb t3 cid asset (ptb_success w) ?f4))) cid) = Some (Some w)"
    by (rule fetch_ptb_success [OF f4 nf])
  moreover have "locked_now cid ?f3" "\<not> locked_now cid ?f4"
    by (simp_all add: locked_now_def f3 f4 nf) (simp add: is_locked_def q_def)
  ultimately show ?thesis by (simp add: Let_def f3) (simp add: q_def)
qed

theorem overlapping_fetch_breaks_lock_witness:
  "let f2 = fst (ptb_begin ''c1'' ''BTC'' (fst (ptb_begin ''c1'' ''BTC'' example_fetcher)));
       f3 = fst (ptb_finish 1 ''c1'' (ptb_success 64) f2);
       f4 = fst (ptb_finish 2 ''c1'' (ptb_failure ''Timeout'') f3)
   in locked_now ''c1'' f3 \<and> \<not> locked_now ''c1'' f4"
proof -
  have "\<not> locked_now ''c1'' example_fetcher" by (simp add: locked_now_def example_fetcher_def new_fetcher_def)
  from overlapping_fetch_breaks_lock [OF this, where bad = "ptb_failure ''Timeout''" and asset = "''BTC''"
      and ?t1.0 = 1 and ?t2.0 = 2 and v = 64]
  show ?thesis by (simp add: ptb_failure_def Let_def)
qed

text \<open>The retry loop of the default schedule comes to an end within the event: with at most 300
  seconds left and a clock that advances at least by each wait, it returns within 31 passes,
  whatever the source answers, and leaves the price locked or the record marked as failed.\<close>

theorem ptb_retry_returns:
  assumes "pf_retry_schedule f = DEFAULT_PTB_RETRY_SCHEDULE" and "pf_retry_steady f = DEFAULT_PTB_RETRY_STEADY"
    and "timed (ptb_wait f) 0 t ds" and "end_ts \<le> t + 300" and "length ds = 31"
  shows "\<exists>f'. fetch_ptb_with_retry cid asset end_ts ds f = Some f' \<and> settled cid f'"
proof -
  obtain g r where g: "ptb_get_or_create cid asset f = (g, r)" by fastforce
  have stored: "dget (pf_records g) cid = Some r" using get_or_create_dget [of cid asset f cid] g by simp
  show ?thesis
  proof (cases "is_locked r")
    case True
    with g stored show ?thesis by (simp add: fetch_ptb_with_retry_def settled_def)
  next
    case False
    have "ptb_retry_loop cid asset end_ts ds g \<noteq> None"
    proof
      assume "ptb_retry_loop cid asset end_ts ds g = None"
      then have "t + of_int (\<Sum>i<31. ptb_wait f i) < end_ts"
        using retry_loop_unfinished [OF _ assms(3)] assms(5) by force
      moreover have "(\<Sum>i<31. ptb_wait f i) = 300"
        using ptb_elapsed_31 by (simp add: ptb_wait_def assms(1,2) ptb_retry.elapsed_def)
      ultimately show False using assms(4) by simp
    qed
    then obtain f' where f': "ptb_retry_loop cid asset end_ts ds g = Some f'" by blast
    then have "settled cid f'" using stored by (intro retry_loop_settled) auto
    with f' g False show ?thesis by (simp add: fetch_ptb_with_retry_def)
  qed
qed

text \<open>Rounds of exactly the delays of the schedule, with a source that always fails.\<close>

definition example_rounds :: "ptb_round list" where
  "example_rounds = map (\<lambda>n. \<lparr>pd_before = of_int (ptb_retry.elapsed n), pd_after = of_int (ptb_retry.elapsed (Suc n)),
     pd_now = 0, pd_result = ptb_failure ''Timeout''\<rparr>) [0..<31]"

lemma example_rounds_timed:
  "n \<le> m \<Longrightarrow> timed (retry_wait DEFAULT_PTB_RETRY_SCHEDULE DEFAULT_PTB_RETRY_STEADY) n (of_int (ptb_retry.elapsed n))
     (map (\<lambda>n. \<lparr>pd_before = of_int (ptb_retry.elapsed n), pd_after = of_int (ptb_retry.elapsed (Suc n)),
        pd_now = 0, pd_result = r\<rparr>) [n..<m])"
proof (induction "m - n" arbitrary: n)
  case (Suc k)
  then have "[n..<m] = n # [Suc n..<m]" by (simp add: upt_conv_Cons)
  with Suc.hyps(1) [of "Suc n"] Suc.hyps(2) show ?case by (simp add: ptb_retry.elapsed_Suc)
qed simp

theorem ptb_retry_returns_witness:
  "\<exists>f'. fetch_ptb_with_retry ''c1'' ''BTC'' 300 example_rounds example_fetcher = Some f' \<and> settled ''c1'' f'"
proof (rule ptb_retry_returns [where t = 0])
  have "ptb_wait example_fetcher = retry_wait DEFAULT_PTB_RETRY_SCHEDULE DEFAULT_PTB_RETRY_STEADY"
    by (rule ext) (simp add: ptb_wait_def example_fetcher_def new_fetcher_def)
  then show "timed (ptb_wait example_fetcher) 0 0 example_rounds"
    using example_rounds_timed [of 0 31 "ptb_failure ''Timeout''"]
    by (simp add: example_rounds_def ptb_retry.elapsed_def)
qed (simp_all add: example_fetcher_def new_fetcher_def example_rounds_def)

end
