(* ===== verification/Store.thy ===== *)
theory Store
  imports TrackerInv Claims Settings Registry Ptb "HOL-Library.List_Lexorder" "HOL-Library.Char_ord"
begin

text \<open>
  \<^verbatim>\<open>backend/persistence/\<close>: the SQLite stores of positions, claims, coin settings, registry records
  and prices to beat.

  A table is a dictionary from the primary key to the row. A row keeps the columns as the code
  writes them: enums as their text values, flags as integers. A time stamp column holds the
  instant that its ISO text denotes (\<^verbatim>\<open>isoformat\<close> and \<^verbatim>\<open>fromisoformat\<close> are inverse on UTC times, and the
  text order is the time order), and the trigger column holds the list its JSON text denotes,
  \<open>None\<close> if it does not parse. \<open>ok\<close> says whether the database accepts a write or a query; a failed
  write is only logged.
\<close>

section \<open>Tables\<close>

text \<open>\<^verbatim>\<open>INSERT OR REPLACE\<close> drops the old row of the key and adds the new one.\<close>

definition store_save :: "('a \<Rightarrow> 'r) \<Rightarrow> ('a \<Rightarrow> 'k) \<Rightarrow> bool \<Rightarrow> 'a \<Rightarrow> ('k, 'r) dict \<Rightarrow> ('k, 'r) dict \<times> bool" where
  "store_save to_row key ok x tbl = (if ok then (dpop (key x) tbl @ [(key x, to_row x)], True) else (tbl, False))"

text \<open>\<^verbatim>\<open>[self._row_to_record(row) for row in rows]\<close>: the first row that raises ends the load.\<close>

fun rows_to_records :: "('r \<Rightarrow> exc + 'a) \<Rightarrow> 'r list \<Rightarrow> exc + 'a list" where
  "rows_to_records of_row [] = Inr []"
| "rows_to_records of_row (r # rs) = (case of_row r of Inl e \<Rightarrow> Inl e
     | Inr x \<Rightarrow> (case rows_to_records of_row rs of Inl e \<Rightarrow> Inl e | Inr xs \<Rightarrow> Inr (x # xs)))"

text \<open>A load that raises returns the empty list.\<close>

definition store_load :: "('r \<Rightarrow> exc + 'a) \<Rightarrow> bool \<Rightarrow> 'r list \<Rightarrow> 'a list" where
  "store_load of_row ok rows = (if \<not> ok then []
     else case rows_to_records of_row rows of Inl e \<Rightarrow> [] | Inr xs \<Rightarrow> xs)"

text \<open>
  What the stores promise: a row reads back as the record that was written. The locale derives
  what a client of a store relies on.
\<close>

locale row_store =
  fixes to_row :: "'a \<Rightarrow> 'r" and of_row :: "'r \<Rightarrow> exc + 'a" and key :: "'a \<Rightarrow> 'k"
  assumes row_roundtrip: "of_row (to_row x) = Inr x"
begin

lemma set_dpop: "wf_dict d \<Longrightarrow> set (dpop k d) = {(k', v) \<in> set d. k' \<noteq> k}"
  by (induction d) (auto simp: wf_dict_def)

lemma rows_to_records_rows: "rows_to_records of_row (map to_row xs) = Inr xs"
  by (induction xs) (simp_all add: row_roundtrip)

text \<open>Saving \<open>xs\<close> one after the other and loading the table.\<close>

definition save_all :: "'a list \<Rightarrow> ('k, 'r) dict \<Rightarrow> ('k, 'r) dict" where
  "save_all xs tbl = foldl (\<lambda>t x. fst (store_save to_row key True x t)) tbl xs"

lemma save_all_simps:
  "save_all [] tbl = tbl"
  "save_all (xs @ [x]) tbl = fst (store_save to_row key True x (save_all xs tbl))"
  by (simp_all add: save_all_def)

text \<open>
  Exactly what a table holds after the saves: the old rows of other keys in their order, then the
  new rows.
\<close>

lemma dpop_rows:
  "dpop k (map (\<lambda>x. (key x, to_row x)) xs) = map (\<lambda>x. (key x, to_row x)) (filter (\<lambda>x. key x \<noteq> k) xs)"
  by (induction xs) simp_all

lemma save_all_rows:
  "distinct (map key xs) \<Longrightarrow> save_all xs (map (\<lambda>x. (key x, to_row x)) old)
     = map (\<lambda>x. (key x, to_row x)) (filter (\<lambda>x. key x \<notin> key ` set xs) old @ xs)"
proof (induction xs rule: rev_induct)
  case (snoc x xs)
  then have "filter (\<lambda>y. key y \<noteq> key x) xs = xs" by (auto simp: filter_id_conv dest: sym)
  moreover have "save_all xs (map (\<lambda>x. (key x, to_row x)) old)
      = map (\<lambda>x. (key x, to_row x)) (filter (\<lambda>x. key x \<notin> key ` set xs) old @ xs)"
    using snoc by simp
  ultimately show ?case
    by (simp only: save_all_simps store_save_def if_True fst_conv dpop_rows) (simp add: conj_commute)
qed (simp add: save_all_simps)

lemma save_all_set:
  "wf_dict tbl \<Longrightarrow> distinct (map key xs) \<Longrightarrow>
     wf_dict (save_all xs tbl) \<and>
     set (save_all xs tbl) = {(k, r) \<in> set tbl. k \<notin> key ` set xs} \<union> (\<lambda>x. (key x, to_row x)) ` set xs"
proof (induction xs rule: rev_induct)
  case (snoc x xs)
  let ?t = "save_all xs tbl"
  have IH: "wf_dict ?t" "set ?t = {(k, r) \<in> set tbl. k \<notin> key ` set xs} \<union> (\<lambda>x. (key x, to_row x)) ` set xs"
    using snoc by simp_all
  have "wf_dict (dpop (key x) ?t @ [(key x, to_row x)])"
    using wf_dict_dpop [OF IH(1), of "key x"] by (auto simp: wf_dict_def delete_keys)
  moreover have "\<And>y. y \<in> set xs \<Longrightarrow> key y \<noteq> key x" using snoc.prems(2) by (auto dest: sym)
  ultimately show ?case
    by (auto simp: save_all_simps store_save_def set_dpop [OF IH(1)] IH(2))
qed (simp add: save_all_simps)

text \<open>A table that holds rows of these records only loads exactly them, in the table's order.\<close>

lemma load_saved:
  assumes "set rows \<subseteq> to_row ` X"
  shows "\<exists>xs. rows_to_records of_row rows = Inr xs \<and> rows = map to_row xs \<and> set xs \<subseteq> X"
proof -
  have "\<exists>xs. rows = map to_row xs \<and> set xs \<subseteq> X" using assms
  proof (induction rows)
    case (Cons r rs)
    then obtain x xs where "r = to_row x" "x \<in> X" "rs = map to_row xs" "set xs \<subseteq> X" by auto
    then show ?case by (intro exI [of _ "x # xs"]) simp
  qed simp
  then obtain xs where "rows = map to_row xs" "set xs \<subseteq> X" by blast
  then show ?thesis using rows_to_records_rows by blast
qed

lemma to_row_inj: "to_row x = to_row y \<Longrightarrow> x = y"
  by (metis row_roundtrip sum.inject(2))

end

text \<open>Parsing an enum by its text value: an unknown text raises \<^verbatim>\<open>ValueError\<close>.\<close>

definition enum_of :: "('e \<Rightarrow> string) \<Rightarrow> 'e list \<Rightarrow> string \<Rightarrow> exc + 'e" where
  "enum_of val es s = (case find (\<lambda>e. val e = s) es of None \<Rightarrow> Inl ValueError | Some e \<Rightarrow> Inr e)"

section \<open>Positions\<close>

fun state_value :: "PositionState \<Rightarrow> string" where
  "state_value PS_PENDING_OPEN = ''pending_open''"
| "state_value PS_OPEN_CONFIRMED = ''open_confirmed''"
| "state_value PS_CLOSING_REQUESTED = ''closing_requested''"
| "state_value PS_CLOSE_PENDING = ''close_pending''"
| "state_value PS_CLOSED = ''closed''"
| "state_value PS_CLOSE_FAILED = ''close_failed''"

definition state_of :: "string \<Rightarrow> exc + PositionState" where
  "state_of = enum_of state_value [PS_PENDING_OPEN, PS_OPEN_CONFIRMED, PS_CLOSING_REQUESTED, PS_CLOSE_PENDING,
     PS_CLOSED, PS_CLOSE_FAILED]"

fun reason_value :: "CloseReason \<Rightarrow> string" where
  "reason_value TAKE_PROFIT = ''take_profit''"
| "reason_value STOP_LOSS = ''stop_loss''"
| "reason_value FORCE_SELL = ''force_sell''"
| "reason_value MANUAL_CLOSE = ''manual_close''"
| "reason_value EXPIRY = ''expiry''"
| "reason_value CLAIM = ''claim''"
| "reason_value SYSTEM_SHUTDOWN = ''system_shutdown''"
| "reason_value ERROR_RECOVERY = ''error_recovery''"

definition reason_of :: "string \<Rightarrow> exc + CloseReason" where
  "reason_of = enum_of reason_value [TAKE_PROFIT, STOP_LOSS, FORCE_SELL, MANUAL_CLOSE, EXPIRY, CLAIM,
     SYSTEM_SHUTDOWN, ERROR_RECOVERY]"

record PositionRow =
  w_position_id :: string
  w_asset :: string
  w_side :: string
  w_condition_id :: string
  w_token_id :: string
  w_state :: string
  w_created_at :: usec
  w_requested_amount_usd :: num
  w_fill_price :: num
  w_gross_fill_shares :: num
  w_entry_fee_shares :: num
  w_net_position_shares :: num
  w_fee_rate :: num
  w_opened_at :: "usec option"
  w_exit_fill_price :: num
  w_exit_gross_usdc :: num
  w_actual_exit_fee_usdc :: num
  w_net_exit_usdc :: num
  w_net_realized_pnl :: num
  w_close_reason :: "string option"
  w_close_trigger_set :: "ForceSellTrigger list option"
  w_close_triggered_at :: "usec option"
  w_close_requested_price :: num
  w_closed_at :: "usec option"

definition position_row :: "PositionRecord \<Rightarrow> PositionRow" where
  "position_row p = \<lparr>w_position_id = p_position_id p, w_asset = p_asset p, w_side = p_side p,
     w_condition_id = p_condition_id p, w_token_id = p_token_id p, w_state = state_value (p_state p),
     w_created_at = p_created_at p, w_requested_amount_usd = p_requested_amount_usd p, w_fill_price = p_fill_price p,
     w_gross_fill_shares = p_gross_fill_shares p, w_entry_fee_shares = p_entry_fee_shares p,
     w_net_position_shares = p_net_position_shares p, w_fee_rate = p_fee_rate p, w_opened_at = p_opened_at p,
     w_exit_fill_price = p_exit_fill_price p, w_exit_gross_usdc = p_exit_gross_usdc p,
     w_actual_exit_fee_usdc = p_actual_exit_fee_usdc p, w_net_exit_usdc = p_net_exit_usdc p,
     w_net_realized_pnl = p_net_realized_pnl p, w_close_reason = map_option reason_value (p_close_reason p),
     w_close_trigger_set = Some (p_close_trigger_set p), w_close_triggered_at = p_close_triggered_at p,
     w_close_requested_price = p_close_requested_price p, w_closed_at = p_closed_at p\<rparr>"

text \<open>An unknown state raises; an unknown close reason or trigger list is dropped.\<close>

definition row_position :: "PositionRow \<Rightarrow> exc + PositionRecord" where
  "row_position w =
     (let close_reason = (case w_close_reason w of None \<Rightarrow> None
            | Some s \<Rightarrow> if s = [] then None else case reason_of s of Inl e \<Rightarrow> None | Inr c \<Rightarrow> Some c);
          trigger_set = (case w_close_trigger_set w of None \<Rightarrow> [] | Some ts \<Rightarrow> ts)
      in case state_of (w_state w) of
           Inl e \<Rightarrow> Inl e
         | Inr st \<Rightarrow> Inr \<lparr>p_position_id = w_position_id w, p_asset = w_asset w, p_side = w_side w,
             p_condition_id = w_condition_id w, p_token_id = w_token_id w, p_state = st,
             p_created_at = w_created_at w, p_requested_amount_usd = w_requested_amount_usd w, p_fill_price = w_fill_price w,
             p_gross_fill_shares = w_gross_fill_shares w, p_entry_fee_shares = w_entry_fee_shares w,
             p_net_position_shares = w_net_position_shares w, p_fee_rate = w_fee_rate w, p_opened_at = w_opened_at w,
             p_exit_fill_price = w_exit_fill_price w, p_exit_gross_usdc = w_exit_gross_usdc w,
             p_actual_exit_fee_usdc = w_actual_exit_fee_usdc w, p_net_exit_usdc = w_net_exit_usdc w,
             p_net_realized_pnl = w_net_realized_pnl w, p_close_reason = close_reason,
             p_close_trigger_set = trigger_set, p_close_triggered_at = w_close_triggered_at w,
             p_close_requested_price = w_close_requested_price w, p_closed_at = w_closed_at w\<rparr>)"

type_synonym position_table = "(string, PositionRow) dict"

definition position_save :: "bool \<Rightarrow> PositionRecord \<Rightarrow> position_table \<Rightarrow> position_table \<times> bool" where
  "position_save ok p tbl = store_save position_row p_position_id ok p tbl"

definition position_load_all :: "bool \<Rightarrow> position_table \<Rightarrow> PositionRecord list" where
  "position_load_all ok tbl = store_load row_position ok (sort_key w_created_at (dvals tbl))"

definition position_load_non_terminal :: "bool \<Rightarrow> position_table \<Rightarrow> PositionRecord list" where
  "position_load_non_terminal ok tbl =
     store_load row_position ok (sort_key w_created_at (filter (\<lambda>w. w_state w \<noteq> ''closed'') (dvals tbl)))"

section \<open>Claims\<close>

fun claim_status_value :: "ClaimStatus \<Rightarrow> string" where
  "claim_status_value CS_PENDING = ''pending''"
| "claim_status_value CS_SUCCESS = ''success''"
| "claim_status_value CS_FAILED = ''failed''"

fun claim_outcome_value :: "ClaimOutcome \<Rightarrow> string" where
  "claim_outcome_value REDEEMED_WON = ''redeemed_won''"
| "claim_outcome_value REDEEMED_LOST = ''redeemed_lost''"
| "claim_outcome_value CO_PENDING = ''pending''"
| "claim_outcome_value CO_FAILED = ''failed''"

record ClaimRow =
  wc_claim_id :: string
  wc_condition_id :: string
  wc_position_id :: string
  wc_asset :: string
  wc_side :: string
  wc_claim_status :: string
  wc_outcome :: string
  wc_claimed_amount_usdc :: num
  wc_claimed_at :: "usec option"
  wc_retry_count :: int
  wc_last_error :: string
  wc_created_at :: usec

definition claim_row :: "ClaimRecord \<Rightarrow> ClaimRow" where
  "claim_row c = \<lparr>wc_claim_id = c_claim_id c, wc_condition_id = c_condition_id c, wc_position_id = c_position_id c,
     wc_asset = c_asset c, wc_side = c_side c, wc_claim_status = claim_status_value (c_claim_status c),
     wc_outcome = claim_outcome_value (c_outcome c), wc_claimed_amount_usdc = c_claimed_amount_usdc c,
     wc_claimed_at = c_claimed_at c, wc_retry_count = c_retry_count c, wc_last_error = c_last_error c,
     wc_created_at = c_created_at c\<rparr>"

definition row_claim :: "ClaimRow \<Rightarrow> exc + ClaimRecord" where
  "row_claim w = (case enum_of claim_status_value [CS_PENDING, CS_SUCCESS, CS_FAILED] (wc_claim_status w) of
       Inl e \<Rightarrow> Inl e
     | Inr st \<Rightarrow> (case enum_of claim_outcome_value [REDEEMED_WON, REDEEMED_LOST, CO_PENDING, CO_FAILED] (wc_outcome w) of
         Inl e \<Rightarrow> Inl e
       | Inr oc \<Rightarrow> Inr \<lparr>c_claim_id = wc_claim_id w, c_condition_id = wc_condition_id w, c_position_id = wc_position_id w,
           c_asset = wc_asset w, c_side = wc_side w, c_claim_status = st, c_outcome = oc,
           c_claimed_amount_usdc = wc_claimed_amount_usdc w, c_claimed_at = wc_claimed_at w,
           c_retry_count = wc_retry_count w, c_last_error = wc_last_error w, c_created_at = wc_created_at w\<rparr>))"

definition claim_load_all :: "bool \<Rightarrow> (string, ClaimRow) dict \<Rightarrow> ClaimRecord list" where
  "claim_load_all ok tbl = store_load row_claim ok (sort_key wc_created_at (dvals tbl))"

definition claim_load_pending :: "bool \<Rightarrow> (string, ClaimRow) dict \<Rightarrow> ClaimRecord list" where
  "claim_load_pending ok tbl =
     store_load row_claim ok (sort_key wc_created_at (filter (\<lambda>w. wc_claim_status w = ''pending'') (dvals tbl)))"

definition claim_save :: "bool \<Rightarrow> ClaimRecord \<Rightarrow> (string, ClaimRow) dict \<Rightarrow> (string, ClaimRow) dict \<times> bool" where
  "claim_save ok c tbl = store_save claim_row c_claim_id ok c tbl"

section \<open>Settings, registry records, prices to beat\<close>

fun side_mode_value :: "SideMode \<Rightarrow> string" where
  "side_mode_value DOMINANT_ONLY = ''dominant_only''"
| "side_mode_value UP_ONLY = ''up_only''"
| "side_mode_value DOWN_ONLY = ''down_only''"

definition int_of_bool :: "bool \<Rightarrow> int" where "int_of_bool b = (if b then 1 else 0)"

record SettingsRow =
  ws_coin :: string
  ws_coin_enabled :: int
  ws_side_mode :: string
  ws_delta_threshold :: num
  ws_price_min :: int
  ws_price_max :: int
  ws_spread_max :: num
  ws_time_min :: int
  ws_time_max :: int
  ws_event_max :: int
  ws_order_amount :: num
  ws_reactivate_on_return :: int

definition settings_row :: "CoinSettings \<Rightarrow> SettingsRow" where
  "settings_row s = \<lparr>ws_coin = cs_coin s, ws_coin_enabled = int_of_bool (cs_coin_enabled s),
     ws_side_mode = side_mode_value (cs_side_mode s), ws_delta_threshold = cs_delta_threshold s,
     ws_price_min = cs_price_min s, ws_price_max = cs_price_max s, ws_spread_max = cs_spread_max s,
     ws_time_min = cs_time_min s, ws_time_max = cs_time_max s, ws_event_max = cs_event_max s,
     ws_order_amount = cs_order_amount s, ws_reactivate_on_return = int_of_bool (cs_reactivate_on_return s)\<rparr>"

definition row_settings :: "SettingsRow \<Rightarrow> exc + CoinSettings" where
  "row_settings w = (case enum_of side_mode_value [DOMINANT_ONLY, UP_ONLY, DOWN_ONLY] (ws_side_mode w) of
       Inl e \<Rightarrow> Inl e
     | Inr m \<Rightarrow> Inr \<lparr>cs_coin = ws_coin w, cs_coin_enabled = (ws_coin_enabled w \<noteq> 0), cs_side_mode = m,
         cs_delta_threshold = ws_delta_threshold w, cs_price_min = ws_price_min w, cs_price_max = ws_price_max w,
         cs_spread_max = ws_spread_max w, cs_time_min = ws_time_min w, cs_time_max = ws_time_max w,
         cs_event_max = ws_event_max w, cs_order_amount = ws_order_amount w,
         cs_reactivate_on_return = (ws_reactivate_on_return w \<noteq> 0)\<rparr>)"

definition settings_save :: "bool \<Rightarrow> CoinSettings \<Rightarrow> (string, SettingsRow) dict \<Rightarrow> (string, SettingsRow) dict \<times> bool" where
  "settings_save ok s tbl = store_save settings_row cs_coin ok s tbl"

text \<open>\<^verbatim>\<open>ORDER BY coin\<close>\<close>

definition settings_load_all :: "bool \<Rightarrow> (string, SettingsRow) dict \<Rightarrow> CoinSettings list" where
  "settings_load_all ok tbl = store_load row_settings ok (sort_key ws_coin (dvals tbl))"

fun event_status_value :: "EventStatus \<Rightarrow> string" where
  "event_status_value EV_DISCOVERED = ''discovered''"
| "event_status_value EV_VALIDATING = ''validating''"
| "event_status_value EV_ACTIVE = ''active''"
| "event_status_value EV_INACTIVE = ''inactive''"
| "event_status_value EV_EXPIRED = ''expired''"
| "event_status_value EV_SUSPENDED = ''suspended''"
| "event_status_value EV_CLOSED = ''closed''"

record RegistryRow =
  wg_condition_id :: string
  wg_event_id :: string
  wg_asset :: string
  wg_question :: string
  wg_slug :: string
  wg_status :: string
  wg_first_seen_at :: usec
  wg_last_seen_at :: usec
  wg_status_changed_at :: usec
  wg_end_date :: usec
  wg_has_open_position :: int

definition registry_row :: "RegistryRecord \<Rightarrow> RegistryRow" where
  "registry_row r = \<lparr>wg_condition_id = g_condition_id r, wg_event_id = g_event_id r, wg_asset = g_asset r,
     wg_question = g_question r, wg_slug = g_slug r, wg_status = event_status_value (g_status r),
     wg_first_seen_at = g_first_seen_at r, wg_last_seen_at = g_last_seen_at r,
     wg_status_changed_at = g_status_changed_at r, wg_end_date = g_end_date r,
     wg_has_open_position = int_of_bool (g_has_open_position r)\<rparr>"

definition row_registry :: "RegistryRow \<Rightarrow> exc + RegistryRecord" where
  "row_registry w =
     (case enum_of event_status_value [EV_DISCOVERED, EV_VALIDATING, EV_ACTIVE, EV_INACTIVE, EV_EXPIRED, EV_SUSPENDED,
         EV_CLOSED] (wg_status w) of
       Inl e \<Rightarrow> Inl e
     | Inr st \<Rightarrow> Inr \<lparr>g_event_id = wg_event_id w, g_condition_id = wg_condition_id w, g_asset = wg_asset w,
         g_question = wg_question w, g_slug = wg_slug w, g_status = st, g_first_seen_at = wg_first_seen_at w,
         g_last_seen_at = wg_last_seen_at w, g_status_changed_at = wg_status_changed_at w, g_end_date = wg_end_date w,
         g_has_open_position = (wg_has_open_position w \<noteq> 0)\<rparr>)"

definition registry_save :: "bool \<Rightarrow> RegistryRecord \<Rightarrow> (string, RegistryRow) dict \<Rightarrow> (string, RegistryRow) dict \<times> bool" where
  "registry_save ok r tbl = store_save registry_row g_condition_id ok r tbl"

definition registry_load_all :: "bool \<Rightarrow> (string, RegistryRow) dict \<Rightarrow> RegistryRecord list" where
  "registry_load_all ok tbl = store_load row_registry ok (sort_key wg_first_seen_at (dvals tbl))"

definition registry_load_active :: "bool \<Rightarrow> (string, RegistryRow) dict \<Rightarrow> RegistryRecord list" where
  "registry_load_active ok tbl = store_load row_registry ok
     (filter (\<lambda>w. wg_status w \<noteq> ''closed'' \<and> wg_status w \<noteq> ''expired'') (dvals tbl))"

fun ptb_status_value :: "PTBStatus \<Rightarrow> string" where
  "ptb_status_value PTB_WAITING = ''waiting''"
| "ptb_status_value PTB_ACQUIRED = ''acquired''"
| "ptb_status_value PTB_FAILED = ''failed''"

record PTBRow =
  wq_condition_id :: string
  wq_asset :: string
  wq_ptb_value :: "num option"
  wq_status :: string
  wq_source_name :: string
  wq_acquired_at :: "usec option"
  wq_retry_count :: int
  wq_last_error :: string

definition ptb_row :: "PTBRecord \<Rightarrow> PTBRow" where
  "ptb_row r = \<lparr>wq_condition_id = q_condition_id r, wq_asset = q_asset r, wq_ptb_value = q_ptb_value r,
     wq_status = ptb_status_value (q_status r), wq_source_name = q_source_name r, wq_acquired_at = q_acquired_at r,
     wq_retry_count = q_retry_count r, wq_last_error = q_last_error r\<rparr>"

definition row_ptb :: "PTBRow \<Rightarrow> exc + PTBRecord" where
  "row_ptb w = (case enum_of ptb_status_value [PTB_WAITING, PTB_ACQUIRED, PTB_FAILED] (wq_status w) of
       Inl e \<Rightarrow> Inl e
     | Inr st \<Rightarrow> Inr \<lparr>q_condition_id = wq_condition_id w, q_asset = wq_asset w, q_ptb_value = wq_ptb_value w,
         q_status = st, q_source_name = wq_source_name w, q_acquired_at = wq_acquired_at w,
         q_retry_count = wq_retry_count w, q_last_error = wq_last_error w\<rparr>)"

definition ptb_save :: "bool \<Rightarrow> PTBRecord \<Rightarrow> (string, PTBRow) dict \<Rightarrow> (string, PTBRow) dict \<times> bool" where
  "ptb_save ok r tbl = store_save ptb_row q_condition_id ok r tbl"

definition ptb_store_clear :: "bool \<Rightarrow> string \<Rightarrow> (string, PTBRow) dict \<Rightarrow> (string, PTBRow) dict \<times> bool" where
  "ptb_store_clear ok cid tbl = (if ok then (dpop cid tbl, True) else (tbl, False))"

definition ptb_load_locked :: "bool \<Rightarrow> (string, PTBRow) dict \<Rightarrow> PTBRecord list" where
  "ptb_load_locked ok tbl = store_load row_ptb ok (filter (\<lambda>w. wq_status w = ''acquired'') (dvals tbl))"

section \<open>The stores keep the interface\<close>

lemma state_text [simp]:
  "state_of (state_value e) = Inr e"
  by (cases e) (simp_all add: state_of_def enum_of_def)

lemma reason_text [simp]:
  "reason_of (reason_value e) = Inr e"
  by (cases e) (simp_all add: reason_of_def enum_of_def)

lemma claim_status_text [simp]:
  "enum_of claim_status_value [CS_PENDING, CS_SUCCESS, CS_FAILED] (claim_status_value e) = Inr e"
  by (cases e) (simp_all add: enum_of_def)

lemma claim_outcome_text [simp]:
  "enum_of claim_outcome_value [REDEEMED_WON, REDEEMED_LOST, CO_PENDING, CO_FAILED] (claim_outcome_value e) = Inr e"
  by (cases e) (simp_all add: enum_of_def)

lemma side_mode_text [simp]:
  "enum_of side_mode_value [DOMINANT_ONLY, UP_ONLY, DOWN_ONLY] (side_mode_value e) = Inr e"
  by (cases e) (simp_all add: enum_of_def)

lemma event_status_text [simp]:
  "enum_of event_status_value [EV_DISCOVERED, EV_VALIDATING, EV_ACTIVE, EV_INACTIVE, EV_EXPIRED, EV_SUSPENDED,
     EV_CLOSED] (event_status_value e) = Inr e"
  by (cases e) (simp_all add: enum_of_def)

lemma ptb_status_text [simp]:
  "enum_of ptb_status_value [PTB_WAITING, PTB_ACQUIRED, PTB_FAILED] (ptb_status_value e) = Inr e"
  by (cases e) (simp_all add: enum_of_def)

lemma reason_value_nonempty [simp]: "reason_value c \<noteq> []"
  by (cases c) simp_all

lemma flags [simp]: "int_of_bool b \<noteq> 0 \<longleftrightarrow> b"
  by (simp add: int_of_bool_def)

interpretation position_rows: row_store position_row row_position p_position_id
proof
  fix p
  show "row_position (position_row p) = Inr p"
    by (cases "p_close_reason p") (simp_all add: row_position_def position_row_def Let_def)
qed

interpretation claim_rows: row_store claim_row row_claim c_claim_id
  by unfold_locales (simp add: row_claim_def claim_row_def)

interpretation settings_rows: row_store settings_row row_settings cs_coin
  by unfold_locales (simp add: row_settings_def settings_row_def)

interpretation registry_rows: row_store registry_row row_registry g_condition_id
  by unfold_locales (simp add: row_registry_def registry_row_def)

interpretation ptb_rows: row_store ptb_row row_ptb q_condition_id
  by unfold_locales (simp add: row_ptb_def ptb_row_def)

section \<open>Loading what was saved\<close>

lemma insort_key_map: "insort_key k (f x) (map f xs) = map f (insort_key (\<lambda>x. k (f x)) x xs)"
  by (induction xs) simp_all

lemma sort_key_map: "sort_key k (map f xs) = map f (sort_key (\<lambda>x. k (f x)) xs)"
  by (induction xs) (simp_all add: insort_key_map)

text \<open>The table that holds the rows of \<open>ps\<close>, and the saves of \<^verbatim>\<open>_flush_state\<close> on it.\<close>

definition position_rows_of :: "PositionRecord list \<Rightarrow> position_table" where
  "position_rows_of ps = map (\<lambda>p. (p_position_id p, position_row p)) ps"

definition position_save_all :: "PositionRecord list \<Rightarrow> position_table \<Rightarrow> position_table" where
  "position_save_all ps tbl = foldl (\<lambda>t p. fst (position_save True p t)) tbl ps"

lemma position_save_all_rows:
  "distinct (map p_position_id ps) \<Longrightarrow> position_save_all ps (position_rows_of old)
     = position_rows_of (filter (\<lambda>p. p_position_id p \<notin> p_position_id ` set ps) old @ ps)"
  using position_rows.save_all_rows [of ps old]
  by (simp add: position_save_all_def position_save_def position_rows_of_def position_rows.save_all_def)

lemma position_load_rows: "position_load_all True (position_rows_of ps) = sort_key p_created_at ps"
proof -
  have "dvals (position_rows_of ps) = map position_row ps" by (simp add: position_rows_of_def comp_def)
  moreover have "(\<lambda>p. w_created_at (position_row p)) = p_created_at" by (simp add: fun_eq_iff position_row_def)
  ultimately show ?thesis
    by (simp add: position_load_all_def store_load_def sort_key_map position_rows.rows_to_records_rows)
qed

text \<open>C30. Round trip of the position store: after the positions \<open>ps\<close> are saved one after the other into
  the table that holds the rows of \<open>old\<close>, loading returns every record exactly as it was given,
  each column included: the latest version of each position, in the order of creation.\<close>

theorem position_store_roundtrip:
  assumes "distinct (map p_position_id ps)"
  shows "position_load_all True (position_save_all ps (position_rows_of old))
     = sort_key p_created_at (filter (\<lambda>p. p_position_id p \<notin> p_position_id ` set ps) old @ ps)"
  using assms by (simp add: position_save_all_rows position_load_rows)

definition example_stored :: "string \<Rightarrow> usec \<Rightarrow> PositionRecord" where
  "example_stored pid t = (new_position pid ''BTC'' ''UP'' ''c1'' ''tok'' 4 t)
     \<lparr>p_state := PS_CLOSED, p_close_reason := Some STOP_LOSS, p_close_trigger_set := [FS_TIME]\<rparr>"

theorem position_store_roundtrip_witness:
  "position_load_all True (position_save_all [example_stored ''p2'' 3, example_stored ''p1'' 9]
       (position_rows_of [example_stored ''p1'' 7, example_stored ''p3'' 5]))
     = [example_stored ''p2'' 3, example_stored ''p3'' 5, example_stored ''p1'' 9]"
  by (subst position_store_roundtrip) (simp_all add: example_stored_def new_position_def)

lemma enum_of_unknown: "(\<And>e. val e \<noteq> s) \<Longrightarrow> enum_of val es s = Inl ValueError"
  by (induction es) (simp_all add: enum_of_def)

lemma rows_to_records_bad:
  "r \<in> set rows \<Longrightarrow> of_row r = Inl e \<Longrightarrow> \<exists>e'. rows_to_records of_row rows = Inl e'"
  by (induction rows) (auto split: sum.split)

lemma store_load_bad: "r \<in> set rows \<Longrightarrow> of_row r = Inl e \<Longrightarrow> store_load of_row ok rows = []"
  using rows_to_records_bad [of r rows of_row e] by (auto simp: store_load_def)

text \<open>One bad row loses the whole table: if the state column of a single row is not one of the six
  known texts, loading the positions returns the empty list, however many good rows there are, and
  so does loading the positions that are not closed.\<close>

theorem one_bad_row_loses_all:
  assumes "(k, w) \<in> set tbl" and "\<And>st. state_value st \<noteq> w_state w"
  shows "position_load_all ok tbl = [] \<and> position_load_non_terminal ok tbl = []"
proof -
  have bad: "row_position w = Inl ValueError"
    unfolding row_position_def state_of_def Let_def by (subst enum_of_unknown [OF assms(2)]) simp
  have "w \<in> set (dvals tbl)" "w_state w \<noteq> ''closed''"
    using assms(1) assms(2) [of PS_CLOSED] by (force, simp)
  then show ?thesis
    using bad unfolding position_load_all_def position_load_non_terminal_def
    by (intro conjI store_load_bad [of w]) simp_all
qed

theorem one_bad_row_loses_all_witness:
  "position_load_all True ((''p0'', (position_row (example_stored ''p0'' 1))\<lparr>w_state := ''open''\<rparr>)
     # position_rows_of [example_stored ''p1'' 7, example_stored ''p3'' 5]) = []"
proof -
  have "state_value st \<noteq> ''open''" for st by (cases st) simp_all
  then show ?thesis
    using one_bad_row_loses_all [of "''p0''" "(position_row (example_stored ''p0'' 1))\<lparr>w_state := ''open''\<rparr>"
        "(''p0'', (position_row (example_stored ''p0'' 1))\<lparr>w_state := ''open''\<rparr>)
          # position_rows_of [example_stored ''p1'' 7, example_stored ''p3'' 5]" True] by simp
qed

end
