(* ===== verification/Orders.thy ===== *)
theory Orders
  imports Tracker Balance
begin

text \<open>
  The entry side: \<^verbatim>\<open>order_intent.py\<close>, \<^verbatim>\<open>models.py\<close>, \<^verbatim>\<open>order_validator.py\<close>, the FOK order call of
  \<^verbatim>\<open>clob_client_wrapper.py\<close> and \<^verbatim>\<open>order_executor.py\<close> (all in \<^verbatim>\<open>backend/execution/\<close>).

  The exchange SDK is not part of the repository: the replies of its two calls
  (\<^verbatim>\<open>create_market_order\<close> then \<^verbatim>\<open>post_order\<close>) are arguments. Log calls, and the parts of the
  result dictionaries that only feed logs, are left out.
\<close>

section \<open>Intent and validation\<close>

datatype OrderSide = Side_UP | Side_DOWN

fun side_value :: "OrderSide \<Rightarrow> string" where
  "side_value Side_UP = ''UP''"
| "side_value Side_DOWN = ''DOWN''"

record OrderIntent =
  oi_asset :: string
  oi_side :: OrderSide
  oi_amount_usd :: num
  oi_condition_id :: string
  oi_token_id :: string
  oi_dominant_price :: num
  oi_event_max :: int

datatype ValidationStatus = VALID | REJECTED

datatype RejectReason = INSUFFICIENT_BALANCE | BELOW_MINIMUM_AMOUNT | EVENT_MAX_REACHED
  | BOT_MAX_REACHED | MISSING_TOKEN_ID | MISSING_CONDITION_ID | CLAIM_PENDING

record ValidationResult =
  vr_status :: ValidationStatus
  vr_reason :: "RejectReason option"

definition is_rejected :: "ValidationResult \<Rightarrow> bool" where
  "is_rejected v \<longleftrightarrow> vr_status v = REJECTED"

definition is_valid :: "ValidationResult \<Rightarrow> bool" where
  "is_valid v \<longleftrightarrow> vr_status v = VALID"

definition reject :: "RejectReason \<Rightarrow> ValidationResult" where
  "reject reason = \<lparr>vr_status = REJECTED, vr_reason = Some reason\<rparr>"

definition DEFAULT_MINIMUM_ORDER_USD :: num where "DEFAULT_MINIMUM_ORDER_USD = 1"

definition validate ::
  "num \<Rightarrow> OrderIntent \<Rightarrow> num \<Rightarrow> int \<Rightarrow> int \<Rightarrow> int \<Rightarrow> int \<Rightarrow> bool \<Rightarrow> bool \<Rightarrow> ValidationResult" where
  "validate min_order_usd intent available_balance event_fill_count event_max
            open_count bot_max has_pending_claims wait_for_claim_redeem =
     (if wait_for_claim_redeem \<and> has_pending_claims then reject CLAIM_PENDING
      else if oi_token_id intent = [] then reject MISSING_TOKEN_ID
      else if oi_condition_id intent = [] then reject MISSING_CONDITION_ID
      else if oi_amount_usd intent < min_order_usd then reject BELOW_MINIMUM_AMOUNT
      else if available_balance < oi_amount_usd intent then reject INSUFFICIENT_BALANCE
      else if event_max \<le> event_fill_count then reject EVENT_MAX_REACHED
      else if bot_max \<le> open_count then reject BOT_MAX_REACHED
      else \<lparr>vr_status = VALID, vr_reason = None\<rparr>)"

section \<open>The FOK order call\<close>

text \<open>
  One attempt creates and posts an order. It raises (a transient network error or another
  exception), answers with a dictionary, or with something else. \<^verbatim>\<open>makingAmount\<close> and
  \<^verbatim>\<open>takingAmount\<close> are text: \<open>Some\<close> the parsed pair, \<open>None\<close> if one of them does not parse.
\<close>

record SdkDict =
  sd_success :: bool
  sd_status :: string
  sd_order_id :: string
  sd_error_msg :: string
  sd_amounts :: "(num \<times> num) option"

datatype SdkReply = SR_Raise bool | SR_Dict SdkDict | SR_Other

record OrderResponse =
  or_status :: string
  or_order_id :: string
  or_error :: string
  or_fee_rate_bps :: int
  or_making_amount :: num
  or_taking_amount :: num

definition error_response :: "string \<Rightarrow> OrderResponse" where
  "error_response e = \<lparr>or_status = ''error'', or_order_id = [], or_error = e,
     or_fee_rate_bps = 0, or_making_amount = 0, or_taking_amount = 0\<rparr>"

definition parse_sdk_dict :: "int \<Rightarrow> SdkDict \<Rightarrow> OrderResponse" where
  "parse_sdk_dict fee_bps d =
     (let (making, taking) = (case sd_amounts d of Some p \<Rightarrow> p | None \<Rightarrow> (0, 0))
      in if sd_success d \<and> sd_status d = ''matched''
         then \<lparr>or_status = ''matched'', or_order_id = sd_order_id d, or_error = [],
               or_fee_rate_bps = fee_bps, or_making_amount = making, or_taking_amount = taking\<rparr>
         else \<lparr>or_status = ''not_matched'', or_order_id = sd_order_id d,
               or_error = (if sd_error_msg d \<noteq> [] then sd_error_msg d
                           else ''status='' @ sd_status d),
               or_fee_rate_bps = fee_bps, or_making_amount = 0, or_taking_amount = 0\<rparr>)"

text \<open>
  The loop \<^verbatim>\<open>for attempt in range(2)\<close>, from \<open>attempt\<close> on with \<open>left\<close> attempts to go. The second
  component of the result is the number of attempts made.
\<close>

fun send_attempts :: "int \<Rightarrow> (nat \<Rightarrow> SdkReply) \<Rightarrow> nat \<Rightarrow> nat \<Rightarrow> OrderResponse \<times> nat" where
  "send_attempts fee_bps sdk attempt 0 = (error_response ''exhausted retries'', attempt)"
| "send_attempts fee_bps sdk attempt (Suc left) =
     (case sdk attempt of
        SR_Dict d \<Rightarrow> (parse_sdk_dict fee_bps d, Suc attempt)
      | SR_Other \<Rightarrow> (error_response ''unexpected response'', Suc attempt)
      | SR_Raise transient \<Rightarrow>
          if attempt = 0 \<and> transient then send_attempts fee_bps sdk (Suc attempt) left
          else (error_response ''exception'', Suc attempt))"

definition LIVE_ORDER_ENABLED :: bool where "LIVE_ORDER_ENABLED = True"

definition send_market_fok_order ::
  "bool \<Rightarrow> int \<Rightarrow> (nat \<Rightarrow> SdkReply) \<Rightarrow> OrderResponse option \<times> nat" where
  "send_market_fok_order initialized fee_bps sdk =
     (if \<not> LIVE_ORDER_ENABLED then (None, 0)
      else if \<not> initialized then (None, 0)
      else case send_attempts fee_bps sdk 0 2 of (r, n) \<Rightarrow> (Some r, n))"

section \<open>The executor\<close>

datatype ExecutionMode = PAPER | LIVE

datatype OrderResult = FILLED | NOT_FILLED | NETWORK_ERROR | RES_REJECTED | BALANCE_STALE

datatype ExecReason = NoReason | PendingOpenExists | Validation RejectReason | Unknown

record ExecutionResult =
  er_result :: OrderResult
  er_position_id :: "string option"
  er_fill_price :: num
  er_fee_rate :: num
  er_reason :: ExecReason

definition exec_result :: "OrderResult \<Rightarrow> string option \<Rightarrow> num \<Rightarrow> num \<Rightarrow> ExecReason \<Rightarrow> ExecutionResult" where
  "exec_result res pid price rate why = \<lparr>er_result = res, er_position_id = pid,
     er_fill_price = price, er_fee_rate = rate, er_reason = why\<rparr>"

record OrderExecutor =
  x_tracker :: PositionTracker
  x_balance :: BalanceManager
  x_min_order_usd :: num
  x_mode :: ExecutionMode
  x_has_clob_wrapper :: bool
  x_bot_max :: int
  x_execution_count :: int
  x_fill_count :: int
  x_reject_count :: int

text \<open>
  What one call of \<^verbatim>\<open>execute\<close> meets outside the process: the clock at its successive reads
  (0 the staleness check, 1 the creation, 2 the fill or the rejection, 3 the balance), the
  fresh id, the answer of the order call and the answer of the balance fetch.
\<close>

record ExecEnv =
  xe_clock :: "nat \<Rightarrow> usec"
  xe_uuid :: string
  xe_response :: "OrderResponse option"
  xe_balance_reply :: FetchReply

definition fee_rate_of_bps :: "int \<Rightarrow> num" where
  "fee_rate_of_bps bps = (if 0 < bps then fdiv (of_int bps) 10000 else DEFAULT_CRYPTO_FEE_RATE)"

definition execute_paper ::
  "ExecEnv \<Rightarrow> OrderIntent \<Rightarrow> string \<Rightarrow> OrderExecutor \<Rightarrow> (OrderExecutor, ExecutionResult) outcome" where
  "execute_paper env intent pid x =
     (let fill_price = oi_dominant_price intent; fee_rate = DEFAULT_CRYPTO_FEE_RATE
      in case confirm_fill pid fill_price (Some fee_rate) (xe_clock env 2) (x_tracker x) of
           (t', Inl e) \<Rightarrow> (x\<lparr>x_tracker := t'\<rparr>, Inl e)
         | (t', Inr _) \<Rightarrow>
            (x\<lparr>x_tracker := t', x_fill_count := x_fill_count x + 1,
               x_balance := deduct (xe_clock env 3) (oi_amount_usd intent) (x_balance x)\<rparr>,
             Inr (exec_result FILLED (Some pid) fill_price fee_rate NoReason)))"

definition exec_reject_fill ::
  "ExecEnv \<Rightarrow> string \<Rightarrow> OrderResult \<Rightarrow> OrderExecutor \<Rightarrow> (OrderExecutor, ExecutionResult) outcome" where
  "exec_reject_fill env pid res x =
     (case reject_fill pid (xe_clock env 2) (x_tracker x) of
        (t', Inl e) \<Rightarrow> (x\<lparr>x_tracker := t'\<rparr>, Inl e)
      | (t', Inr _) \<Rightarrow> (x\<lparr>x_tracker := t'\<rparr>, Inr (exec_result res (Some pid) 0 0 NoReason)))"

definition buy_fill_price :: "OrderIntent \<Rightarrow> OrderResponse \<Rightarrow> num" where
  "buy_fill_price intent resp =
     (if 0 < or_making_amount resp \<and> 0 < or_taking_amount resp
      then fdiv (or_making_amount resp) (or_taking_amount resp) else oi_dominant_price intent)"

definition execute_live ::
  "ExecEnv \<Rightarrow> OrderIntent \<Rightarrow> string \<Rightarrow> OrderExecutor \<Rightarrow> (OrderExecutor, ExecutionResult) outcome" where
  "execute_live env intent pid x =
     (if \<not> LIVE_ORDER_ENABLED then exec_reject_fill env pid NOT_FILLED x
      else if \<not> x_has_clob_wrapper x then exec_reject_fill env pid NETWORK_ERROR x
      else case xe_response env of
        None \<Rightarrow> exec_reject_fill env pid NETWORK_ERROR x
      | Some resp \<Rightarrow>
         if or_status resp = ''matched'' then
           (let fee_rate = fee_rate_of_bps (or_fee_rate_bps resp);
                fill_price = buy_fill_price intent resp
            in case confirm_fill pid fill_price (Some fee_rate) (xe_clock env 2) (x_tracker x) of
                 (t', Inl e) \<Rightarrow> (x\<lparr>x_tracker := t'\<rparr>, Inl e)
               | (t', Inr _) \<Rightarrow>
                  (x\<lparr>x_tracker := t', x_fill_count := x_fill_count x + 1,
                     x_balance := fst (fetch (xe_clock env 3) (xe_balance_reply env) (x_balance x))\<rparr>,
                   Inr (exec_result FILLED (Some pid) fill_price fee_rate NoReason)))
         else exec_reject_fill env pid
                (if or_status resp = ''not_matched'' then NOT_FILLED else NETWORK_ERROR) x)"

definition pending_for_event :: "PositionTracker \<Rightarrow> string \<Rightarrow> PositionRecord list" where
  "pending_for_event t cid =
     filter (\<lambda>p. p_condition_id p = cid \<and> p_state p = PS_PENDING_OPEN) (get_all_positions t)"

text \<open>
  \<open>execute_send\<close> is the part of \<^verbatim>\<open>execute\<close> after the guards: the pending position, then the
  order in the configured mode. \<open>execute\<close> is the whole method. In the stale branch the log line formats \<^verbatim>\<open>age_seconds\<close> with \<^verbatim>\<open>:.0f\<close>; for a balance
  that was never fetched that age is \<^verbatim>\<open>None\<close>, and the format raises \<^verbatim>\<open>TypeError\<close>.
  The call passes neither \<^verbatim>\<open>has_pending_claims\<close> nor \<^verbatim>\<open>wait_for_claim_redeem\<close>, so the validator
  sees their defaults \<^verbatim>\<open>False\<close> and \<^verbatim>\<open>True\<close>.
\<close>

definition execute_send ::
  "ExecEnv \<Rightarrow> OrderIntent \<Rightarrow> OrderExecutor \<Rightarrow> (OrderExecutor, ExecutionResult) outcome" where
  "execute_send env intent x =
     (let (t', p) = create_pending (oi_asset intent) (side_value (oi_side intent))
                      (oi_condition_id intent) (oi_token_id intent) (oi_amount_usd intent)
                      (xe_uuid env) (xe_clock env 1) (x_tracker x);
          x' = x\<lparr>x_tracker := t'\<rparr>
      in if x_mode x' = PAPER then execute_paper env intent (p_position_id p) x'
         else execute_live env intent (p_position_id p) x')"

definition execute ::
  "ExecEnv \<Rightarrow> OrderIntent \<Rightarrow> OrderExecutor \<Rightarrow> (OrderExecutor, ExecutionResult) outcome" where
  "execute env intent x0 =
     (let x = x0\<lparr>x_execution_count := x_execution_count x0 + 1\<rparr>; t = x_tracker x; b = x_balance x
      in if balance_is_stale (xe_clock env 0) b then
           (case balance_age_seconds (xe_clock env 0) b of
              None \<Rightarrow> (x, Inl TypeError)
            | Some _ \<Rightarrow> (x, Inr (exec_result BALANCE_STALE None 0 0 NoReason)))
         else if pending_for_event t (oi_condition_id intent) \<noteq> [] then
           (x, Inr (exec_result RES_REJECTED None 0 0 PendingOpenExists))
         else
           (let v = validate (x_min_order_usd x) intent (b_available b)
                      (get_event_fill_count t (oi_condition_id intent)) (oi_event_max intent)
                      (open_position_count t) (x_bot_max x) False True
            in if is_rejected v then
                 (x\<lparr>x_reject_count := x_reject_count x + 1\<rparr>,
                  Inr (exec_result RES_REJECTED None 0 0
                        (case vr_reason v of Some r \<Rightarrow> Validation r | None \<Rightarrow> Unknown)))
               else
                 execute_send env intent x))"

section \<open>Validation\<close>

lemma reject_simps [simp]: "is_rejected (reject r)" "\<not> is_valid (reject r)" "vr_reason (reject r) = Some r"
  by (simp_all add: is_rejected_def is_valid_def reject_def)

lemma valid_iff_not_rejected: "is_valid v \<longleftrightarrow> \<not> is_rejected v"
  by (cases "vr_status v") (simp_all add: is_valid_def is_rejected_def)

lemma validate_valid_iff:
  "is_valid (validate m i bal fills emax opens bmax pc wait) \<longleftrightarrow>
     \<not> (wait \<and> pc) \<and> oi_token_id i \<noteq> [] \<and> oi_condition_id i \<noteq> [] \<and> m \<le> oi_amount_usd i \<and>
     oi_amount_usd i \<le> bal \<and> fills < emax \<and> opens < bmax"
  by (auto simp: validate_def is_valid_def reject_def)

section \<open>The order call\<close>

lemma send_attempts_bound: "snd (send_attempts fee sdk a n) \<le> a + n"
  by (induction fee sdk a n rule: send_attempts.induct)
    (auto split: SdkReply.splits)

lemma send_order_attempts:
  assumes "send_market_fok_order init fee sdk = (r, n)"
  shows "n \<le> 2" and "n = 2 \<Longrightarrow> sdk 0 = SR_Raise True"
  using assms
  by (auto simp: send_market_fok_order_def LIVE_ORDER_ENABLED_def numeral_2_eq_2
      split: if_splits SdkReply.splits prod.splits)

section \<open>The executor's effect on the tracker\<close>

lemma create_pending_simps:
  assumes "create_pending asset side cid tok amt pid now t = (t', p)"
  shows "p = new_position pid asset side cid tok amt now"
    and "get_position t' k = (if k = pid then Some p else get_position t k)"
    and "get_event_fill_count t' c = get_event_fill_count t c + (if c = cid then 1 else 0)"
    and "t_session_trade_count t' = t_session_trade_count t"
    and "t_positions t' = dset pid p (t_positions t)"
  using assms by (auto simp: create_pending_def Let_def)

lemma new_position_simps [simp]:
  "p_state (new_position pid a s c k u n) = PS_PENDING_OPEN"
  "p_condition_id (new_position pid a s c k u n) = c"
  "p_position_id (new_position pid a s c k u n) = pid"
  "p_opened_at (new_position pid a s c k u n) = None"
  "p_requested_amount_usd (new_position pid a s c k u n) = u"
  "p_asset (new_position pid a s c k u n) = a"
  "p_side (new_position pid a s c k u n) = s"
  "p_net_position_shares (new_position pid a s c k u n) = 0"
  "p_close_reason (new_position pid a s c k u n) = None"
  by (simp_all add: new_position_def)

text \<open>Confirming a fill keeps the fill counters; rejecting takes one back.\<close>

lemma confirm_fill_counts:
  assumes "confirm_fill pid price fee now t = (t', r)"
  shows "get_event_fill_count t' c = get_event_fill_count t c"
  using assms
  by (auto simp: confirm_fill_def transition_to_def Let_def split: option.splits sum.splits if_splits)

lemma reject_fill_counts:
  assumes "reject_fill pid now t = (t', Inr r')" and "get_position t pid = Some r"
    and "0 < get_event_fill_count t (p_condition_id r)"
  shows "get_event_fill_count t' c =
    get_event_fill_count t c - (if c = p_condition_id r then 1 else 0)"
  using assms(1) by (rule reject_fill_ok) (use assms in auto)

lemma reject_pending_ok:
  assumes "get_position t pid = Some r" and "p_state r = PS_PENDING_OPEN"
  shows "\<exists>t' r'. reject_fill pid now t = (t', Inr r')"
  using assms by (auto simp: reject_fill_def transition_to_def Let_def)

lemma confirm_pending_ok:
  assumes "get_position t pid = Some r" and "p_state r = PS_PENDING_OPEN" and "price \<noteq> 0"
  shows "\<exists>t' r'. confirm_fill pid price fee now t = (t', Inr r')"
  using assms by (auto simp: confirm_fill_def calculate_entry_def transition_to_def Let_def)

text \<open>What an entry that gets past the guards leaves behind, in either mode.\<close>

definition entry_effect :: "string \<Rightarrow> string \<Rightarrow> PositionTracker \<Rightarrow> OrderResult \<Rightarrow> PositionTracker \<Rightarrow> bool" where
  "entry_effect pid cid t res t' \<longleftrightarrow>
     (\<forall>c. get_event_fill_count t' c =
        get_event_fill_count t c - (if c = cid \<and> res \<noteq> FILLED then 1 else 0)) \<and>
     (\<exists>r. get_position t' pid = Some r \<and>
        (if res = FILLED then p_state r = PS_OPEN_CONFIRMED else p_state r = PS_CLOSED) \<and>
        p_condition_id r = cid) \<and>
     (\<forall>k. k \<noteq> pid \<longrightarrow> get_position t' k = get_position t k)"

lemma exec_reject_effect:
  assumes "exec_reject_fill env pid res x = (x', Inr er)" and "res \<noteq> FILLED"
    and "get_position (x_tracker x) pid = Some r" and "p_condition_id r = cid"
    and "0 < get_event_fill_count (x_tracker x) cid"
  shows "entry_effect pid cid (x_tracker x) (er_result er) (x_tracker x')"
    and "er_result er = res" and "x_balance x' = x_balance x"
proof -
  obtain t' r' where rf: "reject_fill pid (xe_clock env 2) (x_tracker x) = (t', Inr r')"
    and x': "x' = x\<lparr>x_tracker := t'\<rparr>" and er: "er = exec_result res (Some pid) 0 0 NoReason"
    using assms(1) by (auto simp: exec_reject_fill_def split: prod.splits sum.splits)
  show "er_result er = res" "x_balance x' = x_balance x" by (simp_all add: er x' exec_result_def)
  then show "entry_effect pid cid (x_tracker x) (er_result er) (x_tracker x')"
    using rf assms(2-5) by (elim reject_fill_ok) (auto simp: entry_effect_def x')
qed

lemma confirm_effect:
  assumes "confirm_fill pid price fee now t = (t', Inr r')"
    and "get_position t pid = Some r" and "p_condition_id r = cid"
  shows "entry_effect pid cid t FILLED t'"
  using assms confirm_fill_counts [OF assms(1)]
  by (elim confirm_fill_ok) (auto simp: entry_effect_def)

lemma execute_mode_effect:
  assumes "(if m = PAPER then execute_paper env intent pid x else execute_live env intent pid x) = (x', Inr er)"
    and "get_position (x_tracker x) pid = Some r" and "p_condition_id r = cid"
    and "0 < get_event_fill_count (x_tracker x) cid"
  shows "entry_effect pid cid (x_tracker x) (er_result er) (x_tracker x')"
proof (cases "m = PAPER")
  case True
  then show ?thesis
    using assms
    by (auto simp: execute_paper_def exec_result_def Let_def intro: confirm_effect [OF _ _ refl]
        split: prod.splits sum.splits)
next
  case False
  with assms(1) have l: "execute_live env intent pid x = (x', Inr er)" by simp
  show ?thesis
  proof (cases "\<exists>resp. xe_response env = Some resp \<and> or_status resp = ''matched'' \<and> x_has_clob_wrapper x")
    case True
    with l obtain resp r' where
      c: "confirm_fill pid (buy_fill_price intent resp) (Some (fee_rate_of_bps (or_fee_rate_bps resp)))
           (xe_clock env 2) (x_tracker x) = (x_tracker x', Inr r')"
      and res: "er_result er = FILLED"
      by (auto simp: execute_live_def LIVE_ORDER_ENABLED_def exec_result_def Let_def
          split: prod.splits sum.splits)
    show ?thesis using confirm_effect [OF c assms(2,3)] by (simp add: res)
  next
    case False
    with l obtain res where "res \<noteq> FILLED" "exec_reject_fill env pid res x = (x', Inr er)"
      by (auto simp: execute_live_def LIVE_ORDER_ENABLED_def split: if_splits option.splits)
    then show ?thesis using assms(2-4) by (auto dest: exec_reject_effect(1))
  qed
qed

text \<open>An execution either leaves the tracker alone, or it validated the intent and entered.\<close>

lemma execute_cases:
  assumes "execute env intent x = (x', Inr er)"
  obtains (guard) "x_tracker x' = x_tracker x" "x_balance x' = x_balance x"
      "er_result er = BALANCE_STALE \<or> er_result er = RES_REJECTED"
  | (entered)
      "\<not> balance_is_stale (xe_clock env 0) (x_balance x)"
      "pending_for_event (x_tracker x) (oi_condition_id intent) = []"
      "is_valid (validate (x_min_order_usd x) intent (b_available (x_balance x))
         (get_event_fill_count (x_tracker x) (oi_condition_id intent)) (oi_event_max intent)
         (open_position_count (x_tracker x)) (x_bot_max x) False True)"
      "execute_send env intent (x\<lparr>x_execution_count := x_execution_count x + 1\<rparr>) = (x', Inr er)"
proof (cases "balance_is_stale (xe_clock env 0) (x_balance x)")
  case True
  with assms show thesis
    by (intro guard) (auto simp: execute_def exec_result_def Let_def split: option.splits)
next
  case fresh: False
  show thesis
  proof (cases "pending_for_event (x_tracker x) (oi_condition_id intent) = []")
    case False
    with fresh assms show thesis
      by (intro guard) (auto simp: execute_def exec_result_def Let_def)
  next
    case np: True
    let ?v = "validate (x_min_order_usd x) intent (b_available (x_balance x))
         (get_event_fill_count (x_tracker x) (oi_condition_id intent)) (oi_event_max intent)
         (open_position_count (x_tracker x)) (x_bot_max x) False True"
    show thesis
    proof (cases "is_rejected ?v")
      case True
      with fresh np assms show thesis
        by (intro guard) (auto simp: execute_def exec_result_def Let_def)
    next
      case False
      with fresh np assms show thesis
        by (intro entered) (auto simp: execute_def Let_def valid_iff_not_rejected)
    qed
  qed
qed

text \<open>Past the guards, the position is created and then filled or closed.\<close>

lemma execute_send_effect:
  assumes "execute_send env intent x = (x', Inr er)"
    and "0 \<le> get_event_fill_count (x_tracker x) (oi_condition_id intent)"
  obtains t1 where
    "\<And>c. get_event_fill_count t1 c = get_event_fill_count (x_tracker x) c +
       (if c = oi_condition_id intent then 1 else 0)"
    and "\<And>k. k \<noteq> xe_uuid env \<Longrightarrow> get_position t1 k = get_position (x_tracker x) k"
    and "entry_effect (xe_uuid env) (oi_condition_id intent) t1 (er_result er) (x_tracker x')"
proof -
  obtain t1 p where cp: "create_pending (oi_asset intent) (side_value (oi_side intent))
      (oi_condition_id intent) (oi_token_id intent) (oi_amount_usd intent) (xe_uuid env)
      (xe_clock env 1) (x_tracker x) = (t1, p)" by fastforce
  note c = create_pending_simps [OF cp]
  have pid: "p_position_id p = xe_uuid env" by (simp add: c(1))
  let ?x1 = "x\<lparr>x_tracker := t1\<rparr>"
  have "(if x_mode x = PAPER then execute_paper env intent (xe_uuid env) ?x1
         else execute_live env intent (xe_uuid env) ?x1) = (x', Inr er)"
    using assms(1) pid by (simp add: execute_send_def cp Let_def del: One_nat_def cong: if_cong)
  then have "entry_effect (xe_uuid env) (oi_condition_id intent) (x_tracker ?x1) (er_result er) (x_tracker x')"
    by (rule execute_mode_effect) (use assms(2) c in auto)
  with c show thesis by (intro that [of t1]) simp_all
qed

lemma execute_send_result:
  assumes "execute_send env intent x = (x', Inr er)"
  shows "er_result er \<noteq> BALANCE_STALE \<and> er_result er \<noteq> RES_REJECTED"
  using assms
  by (auto simp: execute_send_def execute_paper_def execute_live_def exec_reject_fill_def exec_result_def
      Let_def split: prod.splits sum.splits if_splits option.splits)

section \<open>Properties\<close>

definition example_intent :: OrderIntent where
  "example_intent = \<lparr>oi_asset = ''BTC'', oi_side = Side_UP, oi_amount_usd = 4, oi_condition_id = ''c1'',
     oi_token_id = ''tok'', oi_dominant_price = 1 / 2, oi_event_max = 1\<rparr>"

definition example_executor :: "ExecutionMode \<Rightarrow> OrderExecutor" where
  "example_executor mode = \<lparr>x_tracker = new_tracker \<lparr>fc_fee_rate = 1 / 8\<rparr> True,
     x_balance = balance_update 0 100 None (new_balance 90), x_min_order_usd = 1, x_mode = mode,
     x_has_clob_wrapper = True, x_bot_max = 3, x_execution_count = 0, x_fill_count = 0,
     x_reject_count = 0\<rparr>"

definition example_exec_env :: ExecEnv where
  "example_exec_env = \<lparr>xe_clock = (\<lambda>n. 1000 * int n), xe_uuid = ''p1'',
     xe_response = Some \<lparr>or_status = ''not_matched'', or_order_id = ''o1'', or_error = ''killed'',
        or_fee_rate_bps = 1000, or_making_amount = 0, or_taking_amount = 0\<rparr>,
     xe_balance_reply = FR_None\<rparr>"

text \<open>C4. Every executed order passed all the guards, in either mode: a result FILLED, NOT_FILLED or
  NETWORK_ERROR means that the balance was fresh, no order of the event was pending, the token
  and the event id were present, the amount was at least the minimum and at most the available
  balance, and the event's fill counter and the number of open positions were below their
  limits.\<close>

theorem execute_guards:
  assumes "execute env intent x = (x', Inr er)"
    and "er_result er \<noteq> BALANCE_STALE" "er_result er \<noteq> RES_REJECTED"
  shows "\<not> balance_is_stale (xe_clock env 0) (x_balance x) \<and>
     pending_for_event (x_tracker x) (oi_condition_id intent) = [] \<and>
     oi_token_id intent \<noteq> [] \<and> oi_condition_id intent \<noteq> [] \<and>
     x_min_order_usd x \<le> oi_amount_usd intent \<and>
     oi_amount_usd intent \<le> b_available (x_balance x) \<and>
     get_event_fill_count (x_tracker x) (oi_condition_id intent) < oi_event_max intent \<and>
     open_position_count (x_tracker x) < x_bot_max x"
  using assms(1)
proof (cases rule: execute_cases)
  case guard
  with assms(2,3) show ?thesis by auto
next
  case entered
  then show ?thesis by (simp add: validate_valid_iff)
qed

theorem execute_guards_witness:
  "\<not> balance_is_stale (xe_clock example_exec_env 0) (x_balance (example_executor LIVE)) \<and>
     pending_for_event (x_tracker (example_executor LIVE)) (oi_condition_id example_intent) = [] \<and>
     oi_token_id example_intent \<noteq> [] \<and> oi_condition_id example_intent \<noteq> [] \<and>
     x_min_order_usd (example_executor LIVE) \<le> oi_amount_usd example_intent \<and>
     oi_amount_usd example_intent \<le> b_available (x_balance (example_executor LIVE)) \<and>
     get_event_fill_count (x_tracker (example_executor LIVE)) (oi_condition_id example_intent)
       < oi_event_max example_intent \<and>
     open_position_count (x_tracker (example_executor LIVE)) < x_bot_max (example_executor LIVE)"
proof -
  let ?r = "execute example_exec_env example_intent (example_executor LIVE)"
  have r: "(case snd ?r of Inl _ \<Rightarrow> False | Inr er \<Rightarrow> er_result er = NOT_FILLED)" by code_simp
  then obtain x' er where x: "?r = (x', Inr er)" "er_result er = NOT_FILLED"
    by (cases ?r) (auto split: sum.splits)
  then show ?thesis by (intro execute_guards [OF x(1)]) simp_all
qed

text \<open>C5. The effect of an order on the tracker, in either mode and for every answer of the
  exchange: a filled order leaves one new open position of the event and adds one to the event's
  fill counter; any other executed order leaves the new position closed and every fill counter
  where it was; a refused order (stale balance or rejected) leaves the tracker unchanged.
  Positions other than the new one are never touched.\<close>

theorem execute_effect:
  assumes "execute env intent x = (x', Inr er)"
    and "0 \<le> get_event_fill_count (x_tracker x) (oi_condition_id intent)"
  shows "(if er_result er = BALANCE_STALE \<or> er_result er = RES_REJECTED
      then x_tracker x' = x_tracker x
      else (\<forall>c. get_event_fill_count (x_tracker x') c = get_event_fill_count (x_tracker x) c +
              (if c = oi_condition_id intent \<and> er_result er = FILLED then 1 else 0)) \<and>
           (\<exists>r. get_position (x_tracker x') (xe_uuid env) = Some r \<and>
              p_condition_id r = oi_condition_id intent \<and>
              p_state r = (if er_result er = FILLED then PS_OPEN_CONFIRMED else PS_CLOSED)) \<and>
           (\<forall>k. k \<noteq> xe_uuid env \<longrightarrow> get_position (x_tracker x') k = get_position (x_tracker x) k))"
  using assms(1)
proof (cases rule: execute_cases)
  case guard
  then show ?thesis by simp
next
  case entered
  let ?x = "x\<lparr>x_execution_count := x_execution_count x + 1\<rparr>"
  have nn: "0 \<le> get_event_fill_count (x_tracker ?x) (oi_condition_id intent)" using assms(2) by simp
  obtain t1 where t1: "\<And>c. get_event_fill_count t1 c = get_event_fill_count (x_tracker x) c +
       (if c = oi_condition_id intent then 1 else 0)"
    "\<And>k. k \<noteq> xe_uuid env \<Longrightarrow> get_position t1 k = get_position (x_tracker x) k"
    "entry_effect (xe_uuid env) (oi_condition_id intent) t1 (er_result er) (x_tracker x')"
    using execute_send_effect [OF entered(4) nn] by auto
  have "er_result er \<noteq> BALANCE_STALE \<and> er_result er \<noteq> RES_REJECTED"
    using entered(4) by (rule execute_send_result)
  with t1 show ?thesis by (auto simp: entry_effect_def)
qed

theorem execute_effect_witness:
  "\<exists>x' er r. execute example_exec_env example_intent (example_executor LIVE) = (x', Inr er) \<and>
     er_result er = NOT_FILLED \<and>
     (\<forall>c. get_event_fill_count (x_tracker x') c = get_event_fill_count (x_tracker (example_executor LIVE)) c) \<and>
     get_position (x_tracker x') (xe_uuid example_exec_env) = Some r \<and> p_state r = PS_CLOSED"
proof -
  let ?r = "execute example_exec_env example_intent (example_executor LIVE)"
  have r: "(case snd ?r of Inl _ \<Rightarrow> False | Inr er \<Rightarrow> er_result er = NOT_FILLED)" by code_simp
  then obtain x' er where x: "?r = (x', Inr er)" "er_result er = NOT_FILLED"
    by (cases ?r) (auto split: sum.splits)
  have nn: "0 \<le> get_event_fill_count (x_tracker (example_executor LIVE)) (oi_condition_id example_intent)"
    by code_simp
  have n: "er_result er \<noteq> BALANCE_STALE" "er_result er \<noteq> RES_REJECTED" "er_result er \<noteq> FILLED"
    unfolding x(2) by simp_all
  note e = execute_effect [OF x(1) nn]
  show ?thesis using e n x by (simp only: if_False simp_thms add_0_right) blast
qed

text \<open>An order is posted at most twice: the FOK call makes one attempt, and a second one only
  after a transient network error of the first, whatever the exchange answers.\<close>

theorem fok_posts_at_most_twice:
  "snd (send_market_fok_order init fee sdk) \<le> 2 \<and>
     (snd (send_market_fok_order init fee sdk) = 2 \<longleftrightarrow> init \<and> sdk 0 = SR_Raise True)"
proof -
  obtain r n where rn: "send_market_fok_order init fee sdk = (r, n)" by fastforce
  have "init \<and> sdk 0 = SR_Raise True \<Longrightarrow> n = 2"
    using rn by (auto simp: send_market_fok_order_def LIVE_ORDER_ENABLED_def numeral_2_eq_2
      split: SdkReply.splits)
  moreover have "init" if "n = 2" using rn that
    by (auto simp: send_market_fok_order_def split: if_splits)
  ultimately show ?thesis unfolding rn snd_conv using send_order_attempts [OF rn] by blast
qed

end
