(* ===== verification/Exits.thy ===== *)
theory Exits
  imports TrackerInv Orders
begin

text \<open>
  The exit side: \<^verbatim>\<open>backend/execution/exit_evaluator.py\<close> (take profit, stop loss, force sell)
  and \<^verbatim>\<open>exit_executor.py\<close> (the sell order, its retry and its cool-down).

  The executor's callers pass it record objects that the tracker owns, so a position is its id
  and every change of the record is a change of the tracker's dictionary. Details of a signal
  that only feed logs are left out.
\<close>

section \<open>The evaluator\<close>

datatype ExitDetail = ED_None | ED_TakeProfit | ED_JumpThreshold num | ED_StopLoss
  | ED_ForceSell "ForceSellTrigger list" bool

record ExitSignal =
  es_should_exit :: bool
  es_reason :: "CloseReason option"
  es_pnl_pct :: num
  es_detail :: ExitDetail

definition no_exit :: ExitSignal where
  "no_exit = \<lparr>es_should_exit = False, es_reason = None, es_pnl_pct = 0, es_detail = ED_None\<rparr>"

record ExitEvaluator =
  ev_tp_pct :: num
  ev_sl_enabled :: bool
  ev_sl_pct :: num
  ev_sl_jump_threshold :: num
  ev_tp_reevaluate :: bool
  ev_sl_reevaluate :: bool
  ev_fs_time_enabled :: bool
  ev_fs_time_seconds :: int
  ev_fs_pnl_enabled :: bool
  ev_fs_pnl_pct :: num
  ev_last_prices :: "(string, num) dict"

definition evaluate :: "PositionRecord \<Rightarrow> num \<Rightarrow> ExitEvaluator \<Rightarrow> ExitEvaluator \<times> ExitSignal" where
  "evaluate position current_price ev =
     (if \<not> is_open position then (ev, no_exit)
      else if p_fill_price position \<le> 0 \<or> p_net_position_shares position \<le> 0 then (ev, no_exit)
      else
        (let pnl = pnl_pct position current_price;
             prev_price = dget_or (ev_last_prices ev) (p_position_id position) current_price;
             ev' = ev\<lparr>ev_last_prices := dset (p_position_id position) current_price (ev_last_prices ev)\<rparr>
         in if ev_tp_pct ev \<le> pnl then
              (ev', \<lparr>es_should_exit = True, es_reason = Some TAKE_PROFIT, es_pnl_pct = pnl,
                     es_detail = ED_TakeProfit\<rparr>)
            else if ev_sl_enabled ev \<and> pnl \<le> - ev_sl_pct ev then
              (let drop_pct = fdiv (fsub prev_price current_price) prev_price
               in if 0 < prev_price \<and> ev_sl_jump_threshold ev < drop_pct then
                    (ev', no_exit\<lparr>es_detail := ED_JumpThreshold drop_pct\<rparr>)
                  else
                    (ev', \<lparr>es_should_exit = True, es_reason = Some STOP_LOSS, es_pnl_pct = pnl,
                           es_detail = ED_StopLoss\<rparr>))
            else (ev', no_exit\<lparr>es_pnl_pct := pnl\<rparr>)))"

definition should_cancel_close :: "PositionRecord \<Rightarrow> num \<Rightarrow> ExitEvaluator \<Rightarrow> bool" where
  "should_cancel_close position current_price ev =
     (if p_close_reason position \<noteq> Some TAKE_PROFIT then False
      else if \<not> ev_tp_reevaluate ev then False
      else pnl_pct position current_price < ev_tp_pct ev)"

definition evaluate_force_sell ::
  "PositionRecord \<Rightarrow> num \<Rightarrow> num \<Rightarrow> bool \<Rightarrow> ExitEvaluator \<Rightarrow> ExitSignal" where
  "evaluate_force_sell position current_price seconds_remaining outcome_fresh ev =
     (if \<not> is_open position then no_exit
      else if \<not> ev_fs_time_enabled ev \<and> \<not> ev_fs_pnl_enabled ev then no_exit
      else
        (let (trig1, req1, met1) =
               (if ev_fs_time_enabled ev then
                  (if seconds_remaining \<le> of_int (ev_fs_time_seconds ev)
                   then ([FS_TIME], 1, 1) else ([], 1, 0))
                else ([], 0::nat, 0::nat));
             pnl_waiting = (ev_fs_pnl_enabled ev \<and> \<not> outcome_fresh);
             (trig2, req2, met2) =
               (if ev_fs_pnl_enabled ev then
                  (if outcome_fresh \<and> 0 < p_fill_price position \<and> 0 < p_net_position_shares position
                      \<and> pnl_pct position current_price \<le> - ev_fs_pnl_pct ev
                   then (trig1 @ [FS_PNL], req1 + 1, met1 + 1) else (trig1, req1 + 1, met1))
                else (trig1, req1, met1));
             time_met = FS_TIME \<in> set trig2
         in if pnl_waiting \<and> time_met \<and> ev_fs_time_enabled ev then
              no_exit\<lparr>es_should_exit := True, es_reason := Some FORCE_SELL,
                      es_detail := ED_ForceSell [FS_TIME] True\<rparr>
            else if req2 \<le> met2 \<and> 0 < req2 then
              no_exit\<lparr>es_should_exit := True, es_reason := Some FORCE_SELL,
                      es_detail := ED_ForceSell trig2 False\<rparr>
            else no_exit))"

section \<open>The executor\<close>

definition DEFAULT_RETRY_INTERVAL_MS :: int where "DEFAULT_RETRY_INTERVAL_MS = 400"
definition DEFAULT_MAX_CLOSE_RETRIES :: nat where "DEFAULT_MAX_CLOSE_RETRIES = 10"

record ExitExecutor =
  ee_tracker :: PositionTracker
  ee_balance :: BalanceManager
  ee_evaluator :: "ExitEvaluator option"
  ee_has_clob_wrapper :: bool
  ee_paper_mode :: bool
  ee_retry_intervals :: "(CloseReason, int) dict"
  ee_max_close_retries :: nat
  ee_close_count :: int
  ee_retry_count :: int
  ee_close_fail_cooldown :: num
  ee_last_close_fail_at :: "(string, num) dict"

text \<open>The table of retry intervals the constructor builds from its six arguments.\<close>

definition retry_intervals :: "int \<Rightarrow> int \<Rightarrow> int \<Rightarrow> int \<Rightarrow> int \<Rightarrow> int \<Rightarrow> (CloseReason, int) dict" where
  "retry_intervals tp sl fs manual expiry shutdown =
     [(TAKE_PROFIT, tp), (STOP_LOSS, sl), (FORCE_SELL, fs), (MANUAL_CLOSE, manual),
      (EXPIRY, expiry), (SYSTEM_SHUTDOWN, shutdown)]"

definition default_retry_intervals :: "(CloseReason, int) dict" where
  "default_retry_intervals = retry_intervals 400 500 500 400 200 100"

definition get_retry_interval_ms :: "ExitExecutor \<Rightarrow> CloseReason \<Rightarrow> int" where
  "get_retry_interval_ms e reason = dget_or (ee_retry_intervals e) reason DEFAULT_RETRY_INTERVAL_MS"

text \<open>
  What one call of \<^verbatim>\<open>execute_close\<close> meets: \<^verbatim>\<open>time.time()\<close> at the cool-down check and at a
  failure, the clock of the close and of the balance update, the answer of the sell order and
  of the balance fetch.
\<close>

record CloseEnv =
  ce_time_check :: num
  ce_time_fail :: num
  ce_close_now :: usec
  ce_balance_now :: usec
  ce_response :: "OrderResponse option"
  ce_balance_reply :: FetchReply

definition get_default_rate :: num where "get_default_rate = DEFAULT_CRYPTO_FEE_RATE"

definition sell_fill_price :: "PositionRecord \<Rightarrow> OrderResponse \<Rightarrow> num" where
  "sell_fill_price position resp =
     (if 0 < or_making_amount resp \<and> 0 < or_taking_amount resp
      then fdiv (or_taking_amount resp) (or_making_amount resp) else p_fill_price position)"

definition execute_live_sell :: "CloseEnv \<Rightarrow> PositionRecord \<Rightarrow> ExitExecutor \<Rightarrow> bool \<times> num \<times> num" where
  "execute_live_sell env position e =
     (if \<not> ee_has_clob_wrapper e then (False, 0, 0)
      else if p_net_position_shares position \<le> 0 then (False, 0, 0)
      else case ce_response env of
        None \<Rightarrow> (False, 0, 0)
      | Some resp \<Rightarrow>
         if or_status resp = ''matched'' then
           (True, sell_fill_price position resp,
            if 0 < or_fee_rate_bps resp then fdiv (of_int (or_fee_rate_bps resp)) 10000
            else get_default_rate)
         else (False, 0, 0))"

text \<open>\<^verbatim>\<open>position.transition_to(target)\<close> on the record the tracker holds.\<close>

definition move :: "string \<Rightarrow> PositionState \<Rightarrow> PositionTracker \<Rightarrow> (PositionTracker, PositionRecord) outcome" where
  "move pid target t = (case get_position t pid of
       None \<Rightarrow> (t, Inl KeyError)
     | Some r \<Rightarrow> (case transition_to target r of
          (r', Inl err) \<Rightarrow> (put_record pid r' t, Inl err)
        | (r', Inr _) \<Rightarrow> (put_record pid r' t, Inr r')))"

definition tp_cancel :: "PositionRecord \<Rightarrow> PositionRecord" where
  "tp_cancel r = r\<lparr>p_close_reason := None, p_close_trigger_set := [], p_close_triggered_at := None\<rparr>"

text \<open>The part of \<^verbatim>\<open>execute_close\<close> after \<^verbatim>\<open>closing_requested -> close_pending\<close>.\<close>

definition finish_close :: "CloseEnv \<Rightarrow> string \<Rightarrow> num \<Rightarrow> ExitExecutor \<Rightarrow> (ExitExecutor, bool) outcome" where
  "finish_close env pid current_price e =
     (case get_position (ee_tracker e) pid of
        None \<Rightarrow> (e, Inl KeyError)
      | Some r \<Rightarrow>
         (let (success, fill_price, fee_rate) =
                (if ee_paper_mode e then (True, current_price, get_default_rate)
                 else execute_live_sell env r e)
          in if success then
               (case confirm_close pid fill_price (Some fee_rate) (ce_close_now env) (ee_tracker e) of
                  (t', Inl err) \<Rightarrow> (e\<lparr>ee_tracker := t'\<rparr>, Inl err)
                | (t', Inr r') \<Rightarrow>
                   (e\<lparr>ee_tracker := t', ee_close_count := ee_close_count e + 1,
                      ee_last_close_fail_at := dpop pid (ee_last_close_fail_at e),
                      ee_balance := (if ee_paper_mode e
                        then balance_add (ce_balance_now env) (p_net_exit_usdc r') (ee_balance e)
                        else fst (fetch (ce_balance_now env) (ce_balance_reply env) (ee_balance e)))\<rparr>,
                    Inr True))
             else
               (case move pid PS_CLOSE_FAILED (ee_tracker e) of
                  (t', Inl err) \<Rightarrow> (e\<lparr>ee_tracker := t'\<rparr>, Inl err)
                | (t', Inr _) \<Rightarrow>
                   (e\<lparr>ee_tracker := t',
                      ee_last_close_fail_at := dset pid (ce_time_fail env) (ee_last_close_fail_at e)\<rparr>,
                    Inr False))))"

definition in_cooldown :: "CloseEnv \<Rightarrow> PositionRecord \<Rightarrow> ExitExecutor \<Rightarrow> bool" where
  "in_cooldown env r e \<longleftrightarrow> p_state r = PS_CLOSE_FAILED \<and>
     (case dget (ee_last_close_fail_at e) (p_position_id r) of
        None \<Rightarrow> False
      | Some last_fail \<Rightarrow> fsub (ce_time_check env) last_fail < ee_close_fail_cooldown e)"

definition tp_cancels :: "PositionRecord \<Rightarrow> num \<Rightarrow> ExitExecutor \<Rightarrow> bool" where
  "tp_cancels r current_price e \<longleftrightarrow>
     p_state r = PS_CLOSING_REQUESTED \<and> p_close_reason r = Some TAKE_PROFIT \<and>
     (case ee_evaluator e of None \<Rightarrow> False | Some ev \<Rightarrow> should_cancel_close r current_price ev)"

definition execute_close :: "CloseEnv \<Rightarrow> string \<Rightarrow> num \<Rightarrow> ExitExecutor \<Rightarrow> (ExitExecutor, bool) outcome" where
  "execute_close env pid current_price e =
     (case get_position (ee_tracker e) pid of
        None \<Rightarrow> (e, Inl KeyError)
      | Some r \<Rightarrow>
         if p_state r \<noteq> PS_CLOSING_REQUESTED \<and> p_state r \<noteq> PS_CLOSE_FAILED then (e, Inr False)
         else if in_cooldown env r e then (e, Inr False)
         else if tp_cancels r current_price e then
           (case move pid PS_OPEN_CONFIRMED (ee_tracker e) of
              (t', Inl err) \<Rightarrow> (e\<lparr>ee_tracker := t'\<rparr>, Inl err)
            | (t', Inr r') \<Rightarrow> (e\<lparr>ee_tracker := put_record pid (tp_cancel r') t'\<rparr>, Inr False))
         else
           ebind (if p_state r = PS_CLOSE_FAILED then
                    (case move pid PS_CLOSING_REQUESTED (ee_tracker e) of
                       (t', Inl err) \<Rightarrow> (e\<lparr>ee_tracker := t'\<rparr>, Inl err)
                     | (t', Inr _) \<Rightarrow>
                        (e\<lparr>ee_tracker := t', ee_retry_count := ee_retry_count e + 1\<rparr>, Inr ()))
                  else (e, Inr ()))
             (\<lambda>e1 _. case move pid PS_CLOSE_PENDING (ee_tracker e1) of
                 (t', Inl err) \<Rightarrow> (e1\<lparr>ee_tracker := t'\<rparr>, Inl err)
               | (t', Inr _) \<Rightarrow> finish_close env pid current_price (e1\<lparr>ee_tracker := t'\<rparr>)))"

text \<open>
  The retry loop, from attempt \<open>attempt\<close> on with \<open>left\<close> attempts to go. The pause between two
  attempts is the interval of the close reason at the start; it is in the clock readings of
  the environments. The result also gives the pauses made, in milliseconds.
\<close>

fun close_attempts ::
  "(nat \<Rightarrow> CloseEnv) \<Rightarrow> string \<Rightarrow> num \<Rightarrow> int \<Rightarrow> nat \<Rightarrow> nat \<Rightarrow> ExitExecutor
    \<Rightarrow> (ExitExecutor, bool \<times> int list) outcome" where
  "close_attempts env pid price interval attempt 0 e = (e, Inr (False, []))"
| "close_attempts env pid price interval attempt (Suc left) e =
     (case execute_close (env attempt) pid price e of
        (e', Inl err) \<Rightarrow> (e', Inl err)
      | (e', Inr True) \<Rightarrow> (e', Inr (True, []))
      | (e', Inr False) \<Rightarrow>
          if (case get_position (ee_tracker e') pid of None \<Rightarrow> False | Some r \<Rightarrow> is_open r)
          then (e', Inr (False, []))
          else (case close_attempts env pid price interval (Suc attempt) left e' of
                  (e'', Inl err) \<Rightarrow> (e'', Inl err)
                | (e'', Inr (b, ps)) \<Rightarrow> (e'', Inr (b, if left = 0 then ps else interval # ps))))"

definition execute_close_with_retry ::
  "(nat \<Rightarrow> CloseEnv) \<Rightarrow> string \<Rightarrow> num \<Rightarrow> nat option \<Rightarrow> ExitExecutor
    \<Rightarrow> (ExitExecutor, bool \<times> int list) outcome" where
  "execute_close_with_retry env pid price max_retries e =
     (case get_position (ee_tracker e) pid of
        None \<Rightarrow> (e, Inl KeyError)
      | Some r \<Rightarrow>
         (let retries = (case max_retries of Some n \<Rightarrow> n | None \<Rightarrow> ee_max_close_retries e);
              reason = (case p_close_reason r of None \<Rightarrow> MANUAL_CLOSE | Some c \<Rightarrow> c);
              interval = dget_or (ee_retry_intervals e) reason DEFAULT_RETRY_INTERVAL_MS
          in close_attempts env pid price interval 0 retries e))"


section \<open>When the evaluator fires\<close>

lemma evaluate_exit_iff:
  "es_should_exit (snd (evaluate r price ev)) \<longleftrightarrow>
     is_open r \<and> 0 < p_fill_price r \<and> 0 < p_net_position_shares r \<and>
     (ev_tp_pct ev \<le> pnl_pct r price \<or>
      ev_sl_enabled ev \<and> pnl_pct r price \<le> - ev_sl_pct ev \<and>
      (let prev = dget_or (ev_last_prices ev) (p_position_id r) price
       in prev \<le> 0 \<or> fdiv (fsub prev price) prev \<le> ev_sl_jump_threshold ev))"
  by (auto simp: evaluate_def no_exit_def Let_def)

lemma evaluate_reason:
  assumes "es_should_exit (snd (evaluate r price ev))"
  shows "es_reason (snd (evaluate r price ev)) =
     Some (if ev_tp_pct ev \<le> pnl_pct r price then TAKE_PROFIT else STOP_LOSS)"
  using assms by (auto simp: evaluate_def no_exit_def Let_def split: if_splits)

lemma evaluate_config [simp]:
  "ev_tp_pct (fst (evaluate r price ev)) = ev_tp_pct ev"
  "ev_sl_enabled (fst (evaluate r price ev)) = ev_sl_enabled ev"
  "ev_sl_pct (fst (evaluate r price ev)) = ev_sl_pct ev"
  "ev_tp_reevaluate (fst (evaluate r price ev)) = ev_tp_reevaluate ev"
  by (simp_all add: evaluate_def Let_def)

lemma force_sell_iff:
  "es_should_exit (evaluate_force_sell r price secs fresh ev) \<longleftrightarrow>
     is_open r \<and>
     (let time_met = (secs \<le> of_int (ev_fs_time_seconds ev));
          pnl_met = (fresh \<and> 0 < p_fill_price r \<and> 0 < p_net_position_shares r \<and>
                     pnl_pct r price \<le> - ev_fs_pnl_pct ev)
      in if ev_fs_time_enabled ev
         then time_met \<and> (\<not> ev_fs_pnl_enabled ev \<or> \<not> fresh \<or> pnl_met)
         else ev_fs_pnl_enabled ev \<and> pnl_met)"
  by (auto simp: evaluate_force_sell_def no_exit_def Let_def)

section \<open>The effect of one close attempt\<close>

lemma put_put [simp]: "put_record pid r2 (put_record pid r1 t) = put_record pid r2 t"
  by (simp add: put_record_def)

lemma move_ok:
  "get_position t pid = Some r \<Longrightarrow> target \<in> set (ALLOWED_TRANSITIONS (p_state r)) \<Longrightarrow>
     move pid target t = (put_record pid (r\<lparr>p_state := target\<rparr>) t, Inr (r\<lparr>p_state := target\<rparr>))"
  by (simp add: move_def transition_to_def)

text \<open>The end of a close: the position is closed with the exit data, or marked as failed.\<close>

definition close_outcome :: "PositionRecord \<Rightarrow> ExitExecutor \<Rightarrow> bool \<Rightarrow> PositionRecord \<Rightarrow> bool" where
  "close_outcome r e ok r' \<longleftrightarrow>
     (if ok then p_state r' = PS_CLOSED \<and> p_closed_at r' \<noteq> None else p_state r' = PS_CLOSE_FAILED) \<and>
     p_position_id r' = p_position_id r \<and> p_condition_id r' = p_condition_id r \<and>
     p_opened_at r' = p_opened_at r \<and> p_close_reason r' = p_close_reason r \<and>
     p_close_trigger_set r' = p_close_trigger_set r"

lemma finish_close_effect:
  assumes g: "get_position (ee_tracker e) pid = Some r" and st: "p_state r = PS_CLOSE_PENDING"
  obtains e' b r' where "finish_close env pid price e = (e', Inr b)" and "close_outcome r e b r'"
    and "t_positions (ee_tracker e') = dset pid r' (t_positions (ee_tracker e))"
    and "t_event_fills (ee_tracker e') = t_event_fills (ee_tracker e)"
    and "t_session_trade_count (ee_tracker e') = t_session_trade_count (ee_tracker e)"
    and "ee_paper_mode e \<longrightarrow> b"
    and "ee_evaluator e' = ee_evaluator e" "ee_paper_mode e' = ee_paper_mode e"
    and "b \<longrightarrow> ee_paper_mode e \<longrightarrow> ee_balance e' =
           balance_add (ce_balance_now env) (p_net_exit_usdc r') (ee_balance e)"
    and "\<not> b \<longrightarrow> ee_balance e' = ee_balance e"
proof -
  obtain ok fp fee where s: "(if ee_paper_mode e then (True, price, get_default_rate)
      else execute_live_sell env r e) = (ok, fp, fee)" by (metis prod_cases3)
  have pap: "ee_paper_mode e \<longrightarrow> ok" using s by (auto split: if_splits)
  show thesis
  proof (cases ok)
    case True
    let ?t = "ee_tracker e"
    obtain t' r' where c: "confirm_close pid fp (Some fee) (ce_close_now env) ?t = (t', Inr r')"
      using g st by (auto simp: confirm_close_def transition_to_def Let_def)
    from c have r': "close_outcome r e True r'" "t_positions t' = dset pid r' (t_positions ?t)"
      "t_event_fills t' = t_event_fills ?t" "t_session_trade_count t' = t_session_trade_count ?t"
      by (auto elim!: confirm_close_ok simp: g close_outcome_def)
    show thesis
      by (rule that [where e' = "fst (finish_close env pid price e)" and b = True and r' = r'])
        (use True s g c r' in \<open>auto simp: finish_close_def\<close>)
  next
    case False
    with pap have live: "\<not> ee_paper_mode e" by simp
    have m: "move pid PS_CLOSE_FAILED (ee_tracker e) = (put_record pid (r\<lparr>p_state := PS_CLOSE_FAILED\<rparr>) (ee_tracker e),
        Inr (r\<lparr>p_state := PS_CLOSE_FAILED\<rparr>))" by (rule move_ok [OF g]) (simp add: st)
    show thesis
      by (rule that [where e' = "fst (finish_close env pid price e)" and b = False and r' = "r\<lparr>p_state := PS_CLOSE_FAILED\<rparr>"])
        (use False live s g m in \<open>auto simp: finish_close_def close_outcome_def\<close>)
  qed
qed

text \<open>
  One call of \<^verbatim>\<open>execute_close\<close> on a tracked position never raises. It does nothing, takes a
  take-profit close back, or ends in \<open>close_outcome\<close>.
\<close>

lemma execute_close_cases:
  assumes g: "get_position (ee_tracker e) pid = Some r"
  obtains (skip) "execute_close env pid price e = (e, Inr False)"
      "p_state r \<notin> {PS_CLOSING_REQUESTED, PS_CLOSE_FAILED} \<or> in_cooldown env r e"
  | (cancel) e' where "execute_close env pid price e = (e', Inr False)"
      "p_state r = PS_CLOSING_REQUESTED" "tp_cancels r price e"
      "e' = e\<lparr>ee_tracker := put_record pid (tp_cancel (r\<lparr>p_state := PS_OPEN_CONFIRMED\<rparr>)) (ee_tracker e)\<rparr>"
  | (sell) e' b r' where "execute_close env pid price e = (e', Inr b)"
      "p_state r = PS_CLOSING_REQUESTED \<or> p_state r = PS_CLOSE_FAILED"
      "\<not> tp_cancels r price e" "close_outcome r e b r'"
      "t_positions (ee_tracker e') = dset pid r' (t_positions (ee_tracker e))"
      "t_event_fills (ee_tracker e') = t_event_fills (ee_tracker e)"
      "t_session_trade_count (ee_tracker e') = t_session_trade_count (ee_tracker e)"
      "ee_paper_mode e \<longrightarrow> b" "ee_evaluator e' = ee_evaluator e"
      "b \<longrightarrow> ee_paper_mode e \<longrightarrow> ee_balance e' =
         balance_add (ce_balance_now env) (p_net_exit_usdc r') (ee_balance e)"
      "\<not> b \<longrightarrow> ee_balance e' = ee_balance e"
proof -
  let ?closing = "p_state r = PS_CLOSING_REQUESTED \<or> p_state r = PS_CLOSE_FAILED"
  consider (a) "\<not> ?closing \<or> in_cooldown env r e"
    | (b) "?closing" "\<not> in_cooldown env r e" "tp_cancels r price e"
    | (c) "?closing" "\<not> in_cooldown env r e" "\<not> tp_cancels r price e" by blast
  then show thesis
  proof cases
    case a
    show thesis by (rule skip) (use a g in \<open>auto simp: execute_close_def\<close>)
  next
    case b
    then have st: "p_state r = PS_CLOSING_REQUESTED" by (simp add: tp_cancels_def)
    have m: "move pid PS_OPEN_CONFIRMED (ee_tracker e) = (put_record pid (r\<lparr>p_state := PS_OPEN_CONFIRMED\<rparr>) (ee_tracker e),
        Inr (r\<lparr>p_state := PS_OPEN_CONFIRMED\<rparr>))" by (rule move_ok [OF g]) (simp add: st)
    show thesis by (rule cancel [OF _ st b(3) refl]) (use b g m st in \<open>simp add: execute_close_def\<close>)
  next
    case c
    define e1 where "e1 = (if p_state r = PS_CLOSE_FAILED then
        e\<lparr>ee_tracker := put_record pid (r\<lparr>p_state := PS_CLOSING_REQUESTED\<rparr>) (ee_tracker e),
          ee_retry_count := ee_retry_count e + 1\<rparr> else e)"
    let ?r = "r\<lparr>p_state := PS_CLOSE_PENDING\<rparr>"
    let ?e2 = "e1\<lparr>ee_tracker := put_record pid ?r (ee_tracker e)\<rparr>"
    have m1: "p_state r = PS_CLOSE_FAILED \<Longrightarrow> move pid PS_CLOSING_REQUESTED (ee_tracker e) =
        (put_record pid (r\<lparr>p_state := PS_CLOSING_REQUESTED\<rparr>) (ee_tracker e),
         Inr (r\<lparr>p_state := PS_CLOSING_REQUESTED\<rparr>))" by (rule move_ok [OF g]) simp
    have m2: "move pid PS_CLOSE_PENDING (ee_tracker e1) = (put_record pid ?r (ee_tracker e), Inr ?r)"
      using c(1) g by (auto simp: e1_def move_def transition_to_def)
    have run: "execute_close env pid price e = finish_close env pid price ?e2"
      using c g m1 m2 by (auto simp: execute_close_def e1_def)
    have g2: "get_position (ee_tracker ?e2) pid = Some ?r" by simp
    have same: "ee_balance e1 = ee_balance e" "ee_paper_mode e1 = ee_paper_mode e"
      "ee_evaluator e1 = ee_evaluator e" by (simp_all add: e1_def)
    show thesis
      by (rule finish_close_effect [OF g2, of env price], simp,
          rule sell [OF _ c(1) c(3)], unfold run, assumption)
        (auto simp: same close_outcome_def)
  qed
qed


text \<open>Whatever happens, the tracker only makes steps of its transition system.\<close>

lemma execute_close_steps:
  assumes inv: "trk_inv (ee_tracker e)" and g: "get_position (ee_tracker e) pid = Some r"
    and run: "execute_close env pid price e = (e', res)"
  shows "trk_steps (ee_tracker e) (ee_tracker e')"
  using g
proof (cases rule: execute_close_cases [where env = env and price = price])
  case skip
  with run show ?thesis by simp
next
  case (cancel e1)
  then have "held_edit r (tp_cancel (r\<lparr>p_state := PS_OPEN_CONFIRMED\<rparr>))"
    by (simp add: held_edit_def tp_cancel_def allowed_iffs)
  then show ?thesis using held_step(1) [OF g] cancel run by simp
next
  case (sell e1 b r')
  then have r': "p_state r' = PS_CLOSED \<or> p_state r' = PS_CLOSE_FAILED"
    "p_position_id r' = p_position_id r" "p_condition_id r' = p_condition_id r"
    "p_opened_at r' = p_opened_at r" by (auto simp: close_outcome_def split: if_splits)
  have e': "e' = e1" using run sell by simp
  show ?thesis
  proof (cases "p_state r' = PS_CLOSED \<or> p_state r = PS_CLOSE_FAILED")
    case True
    then have "held_edit r r'" using r' sell(2) by (auto simp: held_edit_def)
    then show ?thesis using sell g unfolding e' by (intro r_into_rtranclp ts_held)
  next
    case False
    let ?m = "r\<lparr>p_state := PS_CLOSE_PENDING\<rparr>"
    have "held_edit r ?m" "held_edit ?m r'" using False r' sell(2)
      by (auto simp: held_edit_def allowed_iffs)
    moreover have "trk_step (put_record pid ?m (ee_tracker e)) (ee_tracker e')"
      by (rule ts_held [where pid = pid and r = ?m and r' = r'])
        (use sell \<open>held_edit ?m r'\<close> in \<open>simp_all add: e' put_record_def get_position_def\<close>)
    ultimately show ?thesis using held_step(1) [OF g] by (meson rtranclp.rtrancl_into_rtrancl)
  qed
qed

text \<open>A latched close: any reason but a take profit, or a take profit that is not re-evaluated.\<close>

definition closing :: "PositionRecord \<Rightarrow> bool" where
  "closing r \<longleftrightarrow> p_state r = PS_CLOSING_REQUESTED \<or> p_state r = PS_CLOSE_FAILED"

definition latched_from :: "PositionRecord \<Rightarrow> PositionRecord \<Rightarrow> bool" where
  "latched_from r r' \<longleftrightarrow> (closing r' \<or> p_state r' = PS_CLOSED) \<and>
     p_close_reason r' = p_close_reason r \<and> p_close_trigger_set r' = p_close_trigger_set r"

lemma execute_close_latch:
  assumes g: "get_position (ee_tracker e) pid = Some r" and cl: "closing r"
    and lat: "p_close_reason r \<noteq> Some TAKE_PROFIT"
  obtains e' b r' where "execute_close env pid price e = (e', Inr b)"
    and "get_position (ee_tracker e') pid = Some r'" and "latched_from r r'"
    and "b \<longleftrightarrow> p_state r' = PS_CLOSED"
  using g
proof (cases rule: execute_close_cases [where env = env and price = price])
  case skip
  show thesis by (rule that [OF skip(1) g]) (use cl in \<open>auto simp: latched_from_def closing_def\<close>)
next
  case (cancel e1)
  with lat show thesis by (simp add: tp_cancels_def)
next
  case (sell e1 b r')
  show thesis
    by (rule that [OF sell(1), of r'])
      (use sell in \<open>auto simp: get_position_def close_outcome_def latched_from_def closing_def split: if_splits\<close>)
qed

lemma latched_from_trans:
  "latched_from r r1 \<Longrightarrow> latched_from r1 r2 \<Longrightarrow> latched_from r r2"
  by (auto simp: latched_from_def)

lemma close_attempts_latch:
  assumes "get_position (ee_tracker e) pid = Some r" "closing r" "p_close_reason r \<noteq> Some TAKE_PROFIT"
  shows "\<exists>e' b ps r'. close_attempts env pid price iv a n e = (e', Inr (b, ps)) \<and>
     get_position (ee_tracker e') pid = Some r' \<and> latched_from r r' \<and>
     (b \<longleftrightarrow> p_state r' = PS_CLOSED) \<and> length ps \<le> n - 1"
  using assms
proof (induction n arbitrary: a e r)
  case 0
  then show ?case by (auto simp: latched_from_def closing_def)
next
  case (Suc n)
  obtain e1 b r1 where x: "execute_close (env a) pid price e = (e1, Inr b)"
      "get_position (ee_tracker e1) pid = Some r1" "latched_from r r1" "b \<longleftrightarrow> p_state r1 = PS_CLOSED"
    using execute_close_latch [OF Suc.prems, of "env a" price] by metis
  show ?case
  proof (cases b)
    case True
    with x show ?thesis by auto
  next
    case False
    with x have r1: "closing r1" "p_close_reason r1 \<noteq> Some TAKE_PROFIT" "\<not> is_open r1"
      using Suc.prems by (auto simp: latched_from_def closing_def is_open_def)
    obtain e2 b2 ps r2 where y: "close_attempts env pid price iv (Suc a) n e1 = (e2, Inr (b2, ps))"
      "get_position (ee_tracker e2) pid = Some r2" "latched_from r1 r2"
      "b2 \<longleftrightarrow> p_state r2 = PS_CLOSED" "length ps \<le> n - 1"
      using Suc.IH [OF x(2) r1(1,2), of "Suc a"] by blast
    with x r1 False latched_from_trans [OF x(3) y(3)] show ?thesis by auto
  qed
qed


section \<open>Properties\<close>

definition example_evaluator :: ExitEvaluator where
  "example_evaluator = \<lparr>ev_tp_pct = 5, ev_sl_enabled = True, ev_sl_pct = 3,
     ev_sl_jump_threshold = lit (15 / 100), ev_tp_reevaluate = True, ev_sl_reevaluate = False,
     ev_fs_time_enabled = True, ev_fs_time_seconds = 30, ev_fs_pnl_enabled = False,
     ev_fs_pnl_pct = 5, ev_last_prices = []\<rparr>"

definition example_exit_executor :: "bool \<Rightarrow> PositionTracker \<Rightarrow> ExitExecutor" where
  "example_exit_executor paper t = \<lparr>ee_tracker = t, ee_balance = new_balance 90,
     ee_evaluator = Some example_evaluator, ee_has_clob_wrapper = True, ee_paper_mode = paper,
     ee_retry_intervals = default_retry_intervals,
     ee_max_close_retries = DEFAULT_MAX_CLOSE_RETRIES, ee_close_count = 0, ee_retry_count = 0,
     ee_close_fail_cooldown = 1, ee_last_close_fail_at = []\<rparr>"

definition example_close_env :: CloseEnv where
  "example_close_env = \<lparr>ce_time_check = 100, ce_time_fail = 100, ce_close_now = 100000000,
     ce_balance_now = 100000000, ce_response = Some (error_response ''timeout''),
     ce_balance_reply = FR_None\<rparr>"

text \<open>C10. The close latch. A close whose reason is not take profit (stop loss, force sell, manual,
  expiry) never goes back: however many attempts \<open>execute_close_with_retry\<close> makes and whatever
  the exchange answers, it returns without an exception, the position is still closing or
  closed, its reason and trigger set are the ones of the trigger, it reports success exactly
  when the position is closed, and it pauses at most once between two attempts.\<close>

theorem close_latch:
  assumes "get_position (ee_tracker e) pid = Some r" and "closing r"
    and "p_close_reason r \<noteq> Some TAKE_PROFIT"
  shows "\<exists>e' b ps r'. execute_close_with_retry env pid price (Some n) e = (e', Inr (b, ps)) \<and>
     get_position (ee_tracker e') pid = Some r' \<and>
     (closing r' \<or> p_state r' = PS_CLOSED) \<and> p_close_reason r' = p_close_reason r \<and>
     p_close_trigger_set r' = p_close_trigger_set r \<and>
     (b \<longleftrightarrow> p_state r' = PS_CLOSED) \<and> length ps \<le> n - 1"
  using close_attempts_latch [OF assms, of env price _ 0 n] assms(1)
  by (auto simp: execute_close_with_retry_def latched_from_def Let_def)

theorem close_latch_witness:
  "\<exists>e' b ps r'. execute_close_with_retry (\<lambda>_. example_close_env) ''p1'' 0 (Some 3)
       (example_exit_executor False (example_closing FORCE_SELL)) = (e', Inr (b, ps)) \<and>
     get_position (ee_tracker e') ''p1'' = Some r' \<and>
     (closing r' \<or> p_state r' = PS_CLOSED) \<and> p_close_reason r' = Some FORCE_SELL \<and>
     p_close_trigger_set r' = [FS_TIME] \<and>
     (b \<longleftrightarrow> p_state r' = PS_CLOSED) \<and> length ps \<le> 3 - 1"
proof -
  let ?e = "example_exit_executor False (example_closing FORCE_SELL)"
  let ?r = "the (get_position (ee_tracker ?e) ''p1'')"
  have "get_position (ee_tracker ?e) ''p1'' \<noteq> None \<and>
      closing ?r \<and>
      p_close_reason ?r = Some FORCE_SELL \<and>
      p_close_trigger_set ?r = [FS_TIME]"
    by code_simp
  then have f: "get_position (ee_tracker ?e) ''p1'' \<noteq> None" "closing ?r"
    "p_close_reason ?r = Some FORCE_SELL" "p_close_trigger_set ?r = [FS_TIME]"
    by blast+
  then have g: "get_position (ee_tracker ?e) ''p1'' = Some ?r" by simp
  show ?thesis using close_latch [OF g f(2), of "\<lambda>_. example_close_env" 0 3] f by simp
qed

text \<open>When the evaluator closes: only an open, filled position; take profit as soon as the net
  P&L percentage reaches the target, and stop loss, when enabled, once the loss reaches its limit
  unless the price fell by more than the jump threshold since the last evaluation. Take profit
  wins when both hold, and every other call gives no reason.\<close>

theorem evaluate_triggers:
  "es_reason (snd (evaluate r price ev)) =
     (if \<not> (is_open r \<and> 0 < p_fill_price r \<and> 0 < p_net_position_shares r) then None
      else if ev_tp_pct ev \<le> pnl_pct r price then Some TAKE_PROFIT
      else if ev_sl_enabled ev \<and> pnl_pct r price \<le> - ev_sl_pct ev \<and>
         (let prev = dget_or (ev_last_prices ev) (p_position_id r) price
          in prev \<le> 0 \<or> fdiv (fsub prev price) prev \<le> ev_sl_jump_threshold ev)
        then Some STOP_LOSS else None) \<and>
   es_should_exit (snd (evaluate r price ev)) = (es_reason (snd (evaluate r price ev)) \<noteq> None)"
  by (auto simp: evaluate_def no_exit_def Let_def)

text \<open>C39. When a force sell fires: every selected condition must hold, except that with a stale
  price the P&L condition cannot be computed and the time condition alone decides. A position
  that is not open, or a configuration without any condition, never fires.\<close>

theorem force_sell_triggers:
  "es_should_exit (evaluate_force_sell r price secs fresh ev) =
     (if \<not> is_open r then False
      else if ev_fs_time_enabled ev then
        secs \<le> of_int (ev_fs_time_seconds ev) \<and>
        (if ev_fs_pnl_enabled ev \<and> fresh
         then 0 < p_fill_price r \<and> 0 < p_net_position_shares r \<and> pnl_pct r price \<le> - ev_fs_pnl_pct ev
         else True)
      else ev_fs_pnl_enabled ev \<and> fresh \<and> 0 < p_fill_price r \<and> 0 < p_net_position_shares r \<and>
           pnl_pct r price \<le> - ev_fs_pnl_pct ev)"
  by (auto simp: force_sell_iff Let_def)

text \<open>The only way back from a requested close: one close attempt on a tracked position never
  raises, and it reopens the position exactly when the close is a take profit whose
  re-evaluation is on and whose P&L has fallen below the target. The reason, the trigger set and
  the trigger time are cleared then.\<close>

theorem reopen_only_by_reevaluation:
  assumes "get_position (ee_tracker e) pid = Some r" and "closing r"
  shows "\<exists>e' b r'. execute_close env pid price e = (e', Inr b) \<and>
     get_position (ee_tracker e') pid = Some r' \<and>
     (is_open r' \<longleftrightarrow> p_state r = PS_CLOSING_REQUESTED \<and> p_close_reason r = Some TAKE_PROFIT \<and>
        (case ee_evaluator e of None \<Rightarrow> False
         | Some ev \<Rightarrow> ev_tp_reevaluate ev \<and> pnl_pct r price < ev_tp_pct ev)) \<and>
     (is_open r' \<longrightarrow> p_close_reason r' = None \<and> p_close_trigger_set r' = [] \<and> p_close_triggered_at r' = None)"
  using assms(1)
proof (cases rule: execute_close_cases [where env = env and price = price])
  case skip
  then have "p_state r = PS_CLOSE_FAILED" using assms(2) by (auto simp: closing_def in_cooldown_def)
  with skip assms(1) show ?thesis by (auto simp: is_open_def)
next
  case (cancel e1)
  then show ?thesis
    by (auto simp: tp_cancels_def should_cancel_close_def tp_cancel_def is_open_def split: option.splits if_splits)
next
  case (sell e1 b r')
  then have "get_position (ee_tracker e1) pid = Some r'" "\<not> is_open r'"
    by (auto simp: get_position_def close_outcome_def is_open_def split: if_splits)
  with sell(1,3) show ?thesis
    by (auto simp: tp_cancels_def should_cancel_close_def split: option.splits if_splits)
qed

theorem reopen_only_by_reevaluation_witness:
  "\<exists>e' b r'. execute_close example_close_env ''p1'' (1 / 4)
       (example_exit_executor False (example_closing TAKE_PROFIT)) = (e', Inr b) \<and>
     get_position (ee_tracker e') ''p1'' = Some r' \<and> is_open r' \<and> p_close_reason r' = None"
proof -
  let ?e = "example_exit_executor False (example_closing TAKE_PROFIT)"
  let ?r = "the (get_position (ee_tracker ?e) ''p1'')"
  have "get_position (ee_tracker ?e) ''p1'' \<noteq> None \<and>
      closing ?r \<and>
      p_state ?r = PS_CLOSING_REQUESTED \<and>
      p_close_reason ?r = Some TAKE_PROFIT"
    by code_simp
  then have f: "get_position (ee_tracker ?e) ''p1'' \<noteq> None" "closing ?r" "p_state ?r = PS_CLOSING_REQUESTED"
    "p_close_reason ?r = Some TAKE_PROFIT"
    by blast+
  have p: "(case ee_evaluator ?e of None \<Rightarrow> False
      | Some ev \<Rightarrow> ev_tp_reevaluate ev \<and> pnl_pct ?r (1 / 4) < ev_tp_pct ev)" by code_simp
  from f have g: "get_position (ee_tracker ?e) ''p1'' = Some ?r" by simp
  obtain e' b r' where x: "execute_close example_close_env ''p1'' (1 / 4) ?e = (e', Inr b)"
    "get_position (ee_tracker e') ''p1'' = Some r'"
    "is_open r' \<longleftrightarrow> p_state ?r = PS_CLOSING_REQUESTED \<and> p_close_reason ?r = Some TAKE_PROFIT \<and>
        (case ee_evaluator ?e of None \<Rightarrow> False
         | Some ev \<Rightarrow> ev_tp_reevaluate ev \<and> pnl_pct ?r (1 / 4) < ev_tp_pct ev)"
    "is_open r' \<longrightarrow> p_close_reason r' = None \<and> p_close_trigger_set r' = [] \<and> p_close_triggered_at r' = None"
    using reopen_only_by_reevaluation [OF g f(2), of example_close_env "1 / 4"] by (elim exE conjE) (rule that)
  have o: "is_open r'" unfolding x(3) using f(3,4) p by (intro conjI)
  show ?thesis by (intro exI conjI) (rule x(1), rule x(2), rule o, rule mp [OF x(4) o, THEN conjunct1])
qed

end
