(* ===== verification/Settlement.thy ===== *)
theory Settlement
  imports Claims Tracker
begin

text \<open>
  \<^verbatim>\<open>backend/orchestrator/settlement.py\<close> with the two services it asks: the market resolution
  of \<^verbatim>\<open>clob_client_wrapper.py\<close> and the relayer of \<^verbatim>\<open>relayer_client_wrapper.py\<close>.

  Settlement only reads the tracker. Its own state, the claims and the shared balance are the
  record \<open>SettleState\<close>. One pass meets the outside world through \<open>SettleEnv\<close>: a position is
  settled at most once in the retry phase and at most once as a new position, so clock readings
  and relayer answers are indexed by phase and position.
\<close>

section \<open>Market resolution\<close>

text \<open>
  The answer of the SDK's \<^verbatim>\<open>get_market\<close>: nothing, an exception, something that is not a
  dictionary, or the \<^verbatim>\<open>closed\<close> flag with the tokens' \<^verbatim>\<open>winner\<close> flags and outcomes. An outcome
  that is not a string (\<open>None\<close>) raises in \<^verbatim>\<open>upper()\<close>.
\<close>

datatype MarketReply = MR_None | MR_Raise | MR_Other | MR_Market bool "(bool \<times> string option) list"

record MarketResolution =
  mr_closed :: bool
  mr_resolved :: bool
  mr_winning_side :: string

fun winner_of_tokens :: "(bool \<times> string option) list \<Rightarrow> string option" where
  "winner_of_tokens [] = None"
| "winner_of_tokens ((winner, outcome) # ts) =
     (if winner then
        (case outcome of None \<Rightarrow> None
         | Some s \<Rightarrow> if str_upper s = ''UP'' \<or> str_upper s = ''DOWN'' then Some (str_upper s) else None)
      else winner_of_tokens ts)"

definition get_market_resolution :: "bool \<Rightarrow> MarketReply \<Rightarrow> MarketResolution" where
  "get_market_resolution initialized reply =
     (let open_result = \<lparr>mr_closed = False, mr_resolved = False, mr_winning_side = []\<rparr>
      in if \<not> initialized then open_result
         else case reply of
           MR_Market is_cl tokens \<Rightarrow>
             if is_cl then
               (case winner_of_tokens tokens of
                  None \<Rightarrow> open_result\<lparr>mr_closed := True\<rparr>
                | Some side \<Rightarrow> \<lparr>mr_closed = True, mr_resolved = True, mr_winning_side = side\<rparr>)
             else open_result
         | _ \<Rightarrow> open_result)"

section \<open>The relayer\<close>

datatype RelayerReply = RL_Success num | RL_Fail string

definition LIVE_SETTLEMENT_ENABLED :: bool where "LIVE_SETTLEMENT_ENABLED = False"

definition redeem_positions :: "bool \<Rightarrow> RelayerReply" where
  "redeem_positions initialized =
     (if \<not> LIVE_SETTLEMENT_ENABLED then RL_Fail ''LIVE_SETTLEMENT_ENABLED=False''
      else if \<not> initialized then RL_Fail ''Relayer credentials not initialized''
      else RL_Fail ''Relayer TX not implemented'')"

section \<open>Retry state\<close>

record SettlementRetryState =
  rs_position_id :: string
  rs_claim_id :: string
  rs_attempt_count :: nat
  rs_next_retry_at :: num
  rs_exhausted :: bool

definition get_retry_delay :: "SettlementRetryState \<Rightarrow> int" where
  "get_retry_delay s = (if rs_attempt_count s = 0 then 0
     else retry_wait CLAIM_REDEEM_RETRY_SCHEDULE CLAIM_REDEEM_RETRY_STEADY (rs_attempt_count s - 1))"

definition schedule_next :: "num \<Rightarrow> SettlementRetryState \<Rightarrow> SettlementRetryState" where
  "schedule_next now s =
     (let s1 = s\<lparr>rs_attempt_count := rs_attempt_count s + 1\<rparr>
      in if CLAIM_REDEEM_MAX_RETRIES \<le> rs_attempt_count s1 then s1\<lparr>rs_exhausted := True\<rparr>
         else s1\<lparr>rs_next_retry_at := fadd now (of_int (get_retry_delay s1))\<rparr>)"

definition is_ready :: "num \<Rightarrow> SettlementRetryState \<Rightarrow> bool" where
  "is_ready now s = (if rs_exhausted s then False else rs_next_retry_at s \<le> now)"

section \<open>The orchestrator\<close>

datatype ResolutionMethod = NoMethod | ByApi | PaperHeuristic | PnlFallback

datatype Phase = RetryPhase | NewPhase

record SettleEnv =
  se_time_ready :: "string \<Rightarrow> num"
  se_time_schedule :: "Phase \<Rightarrow> string \<Rightarrow> num"
  se_now :: "Phase \<Rightarrow> string \<Rightarrow> usec"
  se_balance_now :: "Phase \<Rightarrow> string \<Rightarrow> usec"
  se_uuid :: "string \<Rightarrow> string"
  se_resolution :: "string \<Rightarrow> MarketResolution"
  se_relayer :: "Phase \<Rightarrow> string \<Rightarrow> RelayerReply"
  se_ptb_value :: "string \<Rightarrow> num option"
  se_coin_usd :: "string \<Rightarrow> num"

record SettleState =
  ss_paper_mode :: bool
  ss_has_clob :: bool
  ss_settlement_count :: int
  ss_retry_states :: "(string, SettlementRetryState) dict"
  ss_winner_cache :: "(string, string) dict"
  ss_last_method :: ResolutionMethod
  ss_claims :: ClaimManager
  ss_balance :: BalanceManager

definition check_resolved :: "SettleEnv \<Rightarrow> PositionRecord \<Rightarrow> SettleState \<Rightarrow> SettleState \<times> bool" where
  "check_resolved env pos s =
     (if ss_has_clob s then
        (let r = se_resolution env (p_position_id pos)
         in if mr_resolved r
            then (s\<lparr>ss_winner_cache := dset (p_condition_id pos) (mr_winning_side r) (ss_winner_cache s)\<rparr>, True)
            else (s, False))
      else (s, ss_paper_mode s))"

text \<open>The winner: the cached API answer, else the price against the PTB, else the sign of the P&L.\<close>

definition determine_winner :: "SettleEnv \<Rightarrow> PositionRecord \<Rightarrow> SettleState \<Rightarrow> SettleState \<times> bool" where
  "determine_winner env pos s =
     (let cached = dget_or (ss_winner_cache s) (p_condition_id pos) [];
          ptb = se_ptb_value env (p_condition_id pos);
          coin_usd = se_coin_usd env (p_asset pos);
          fallback = (s\<lparr>ss_last_method := PnlFallback\<rparr>, 0 < p_net_realized_pnl pos)
      in if cached \<noteq> [] then (s\<lparr>ss_last_method := ByApi\<rparr>, p_side pos = cached)
         else case ptb of
           None \<Rightarrow> fallback
         | Some v \<Rightarrow>
             if 0 < v \<and> 0 < coin_usd then
               (s\<lparr>ss_last_method := PaperHeuristic\<rparr>,
                p_side pos = (if v < coin_usd then ''UP'' else ''DOWN''))
             else fallback)"

definition run_redeem ::
  "string \<Rightarrow> bool \<Rightarrow> num \<Rightarrow> SettleEnv \<Rightarrow> Phase \<Rightarrow> string \<Rightarrow> SettleState \<Rightarrow> SettleState \<times> bool" where
  "run_redeem claim_id won payout env ph pid s =
     (let ((m, b), ok) = execute_redeem claim_id won payout (se_now env ph pid)
                           (se_balance_now env ph pid) (ss_claims s, ss_balance s)
      in (s\<lparr>ss_claims := m, ss_balance := b\<rparr>, ok))"

definition execute_redeem_for_claim ::
  "SettleEnv \<Rightarrow> Phase \<Rightarrow> PositionRecord \<Rightarrow> string \<Rightarrow> SettleState \<Rightarrow> SettleState \<times> bool" where
  "execute_redeem_for_claim env ph pos claim_id s =
     (if ss_paper_mode s then
        (let (s1, won) = determine_winner env pos s;
             payout = (if won then fmul (p_net_position_shares pos) 1 else 0);
             (s2, ok) = run_redeem claim_id won (py_round 4 payout) env ph (p_position_id pos) s1
         in (if ok then s2\<lparr>ss_settlement_count := ss_settlement_count s2 + 1\<rparr> else s2, ok))
      else case se_relayer env ph (p_position_id pos) of
        RL_Success payout \<Rightarrow>
          (let (s1, _) = run_redeem claim_id (0 < payout) payout env ph (p_position_id pos) s
           in (s1\<lparr>ss_settlement_count := ss_settlement_count s1 + 1\<rparr>, True))
      | RL_Fail err \<Rightarrow>
          (case get_claim (ss_claims s) claim_id of
             None \<Rightarrow> (s, False)
           | Some c \<Rightarrow> (s\<lparr>ss_claims := put_claim claim_id (c\<lparr>c_last_error := err\<rparr>) (ss_claims s)\<rparr>, False)))"

definition settle_position :: "SettleEnv \<Rightarrow> PositionRecord \<Rightarrow> SettleState \<Rightarrow> SettleState \<times> bool" where
  "settle_position env pos s =
     (let pid = p_position_id pos;
          (m, claim) = create_claim (p_condition_id pos) pid (p_asset pos) (p_side pos)
                         (se_uuid env pid) (se_now env NewPhase pid) (ss_claims s);
          (s1, ok) = execute_redeem_for_claim env NewPhase pos (c_claim_id claim) (s\<lparr>ss_claims := m\<rparr>)
      in if ok then (s1, True)
         else (let st = schedule_next (se_time_schedule env NewPhase pid)
                          \<lparr>rs_position_id = pid, rs_claim_id = c_claim_id claim, rs_attempt_count = 0,
                           rs_next_retry_at = 0, rs_exhausted = False\<rparr>
               in (s1\<lparr>ss_retry_states := dset pid st (ss_retry_states s1)\<rparr>, False)))"

text \<open>A retry works on the claim the first attempt created; the retry state is returned.\<close>

definition retry_settle ::
  "SettleEnv \<Rightarrow> PositionRecord \<Rightarrow> SettlementRetryState \<Rightarrow> SettleState
    \<Rightarrow> SettleState \<times> SettlementRetryState \<times> bool" where
  "retry_settle env pos st s =
     (case get_claim (ss_claims s) (rs_claim_id st) of
        None \<Rightarrow> (s, st\<lparr>rs_exhausted := True\<rparr>, False)
      | Some claim \<Rightarrow>
          if claim_is_success claim then (s, st, True)
          else (let (s1, ok) = execute_redeem_for_claim env RetryPhase pos (rs_claim_id st) s
                in if ok then (s1, st, True)
                   else (s1, schedule_next (se_time_schedule env RetryPhase (p_position_id pos)) st, False)))"

text \<open>
  The loop over the retry states. It returns the state, the number settled and the ids to drop.
  No iteration changes the state of another position, so the items are those at the start.
\<close>

fun retry_loop ::
  "SettleEnv \<Rightarrow> PositionTracker \<Rightarrow> (string \<times> SettlementRetryState) list \<Rightarrow> SettleState
    \<Rightarrow> SettleState \<times> int \<times> string list" where
  "retry_loop env t [] s = (s, 0, [])"
| "retry_loop env t ((pid, st) # rest) s =
     (if rs_exhausted st then
        (let (s', n, ids) = retry_loop env t rest s in (s', n, pid # ids))
      else if \<not> is_ready (se_time_ready env pid) st then retry_loop env t rest s
      else case get_position t pid of
        None \<Rightarrow> (let (s', n, ids) = retry_loop env t rest s in (s', n, pid # ids))
      | Some pos \<Rightarrow>
          (let (s1, st', ok) = retry_settle env pos st s;
               s2 = s1\<lparr>ss_retry_states := dset pid st' (ss_retry_states s1)\<rparr>;
               (s', n, ids) = retry_loop env t rest s2
           in if ok then (s', n + 1, pid # ids) else (s', n, ids)))"

definition process_retries :: "SettleEnv \<Rightarrow> PositionTracker \<Rightarrow> SettleState \<Rightarrow> SettleState \<times> int" where
  "process_retries env t s =
     (let (s', n, ids) = retry_loop env t (ss_retry_states s) s
      in (s'\<lparr>ss_retry_states := fold dpop ids (ss_retry_states s')\<rparr>, n))"

definition redeemable :: "PositionTracker \<Rightarrow> PositionRecord list" where
  "redeemable t = filter (\<lambda>p. is_closed p \<and> p_closed_at p \<noteq> None \<and> needs_redeem p) (get_all_positions t)"

definition is_settled :: "SettleState \<Rightarrow> string \<Rightarrow> bool" where
  "is_settled s pid = list_ex claim_is_success (get_claims_by_position (ss_claims s) pid)"

fun settle_loop :: "SettleEnv \<Rightarrow> PositionRecord list \<Rightarrow> SettleState \<Rightarrow> SettleState \<times> int" where
  "settle_loop env [] s = (s, 0)"
| "settle_loop env (pos # rest) s =
     (if dget (ss_retry_states s) (p_position_id pos) \<noteq> None then settle_loop env rest s
      else if is_settled s (p_position_id pos) then settle_loop env rest s
      else (let (s1, ok) = check_resolved env pos s
            in if \<not> ok then settle_loop env rest s1
               else (let (s2, ok2) = settle_position env pos s1;
                         (s3, n) = settle_loop env rest s2
                     in (s3, if ok2 then n + 1 else n))))"

definition process_settlements :: "SettleEnv \<Rightarrow> PositionTracker \<Rightarrow> SettleState \<Rightarrow> SettleState \<times> int" where
  "process_settlements env t s =
     (let (s1, n) = process_retries env t s;
          (s2, m) = settle_loop env (redeemable t) s1
      in (s2, n + m))"

section \<open>Queries\<close>

definition pending_retry_count :: "SettleState \<Rightarrow> int" where
  "pending_retry_count s = int (dcount (\<lambda>st. \<not> rs_exhausted st) (ss_retry_states s))"

definition has_pending_settlements :: "SettleState \<Rightarrow> bool" where
  "has_pending_settlements s =
     (if ss_retry_states s \<noteq> [] then list_ex (\<lambda>st. \<not> rs_exhausted st) (dvals (ss_retry_states s))
      else has_pending_claims (ss_claims s))"

definition is_position_in_retry :: "SettleState \<Rightarrow> string \<Rightarrow> bool" where
  "is_position_in_retry s pid = (case dget (ss_retry_states s) pid of
     None \<Rightarrow> False | Some st \<Rightarrow> \<not> rs_exhausted st)"


section \<open>Resolution\<close>

text \<open>A market is only reported resolved with one of the two sides, and only when closed.\<close>

lemma winner_of_tokens_side: "winner_of_tokens ts = Some w \<Longrightarrow> w = ''UP'' \<or> w = ''DOWN''"
  by (induction ts rule: winner_of_tokens.induct) (auto split: if_splits option.splits)

lemma resolution_side:
  assumes "mr_resolved (get_market_resolution i reply)"
  shows "mr_closed (get_market_resolution i reply)"
    and "mr_winning_side (get_market_resolution i reply) \<in> {''UP'', ''DOWN''}"
  using assms
  by (auto simp: get_market_resolution_def Let_def dest: winner_of_tokens_side
      split: if_splits MarketReply.splits option.splits)

section \<open>The retry schedule\<close>

interpretation settle_retry: retry_policy
  "retry_wait CLAIM_REDEEM_RETRY_SCHEDULE CLAIM_REDEEM_RETRY_STEADY" 2 20
  by unfold_locales
    (simp_all add: retry_wait_pos retry_wait_steady CLAIM_REDEEM_RETRY_SCHEDULE_def
      CLAIM_REDEEM_RETRY_STEADY_def)

lemma schedule_next_count [simp]: "rs_attempt_count (schedule_next now st) = rs_attempt_count st + 1"
  by (simp add: schedule_next_def Let_def)

lemma schedule_next_claim [simp]: "rs_claim_id (schedule_next now st) = rs_claim_id st"
  by (simp add: schedule_next_def Let_def)

lemma schedule_next_exhausted:
  "\<not> rs_exhausted st \<Longrightarrow> rs_exhausted (schedule_next now st) \<longleftrightarrow> 19 \<le> rs_attempt_count st"
  by (auto simp: schedule_next_def Let_def CLAIM_REDEEM_MAX_RETRIES_def)

lemma schedule_next_time:
  assumes "rs_attempt_count st < 19"
  shows "rs_next_retry_at (schedule_next now st) = fadd now (of_int
     (retry_wait CLAIM_REDEEM_RETRY_SCHEDULE CLAIM_REDEEM_RETRY_STEADY (rs_attempt_count st)))"
  using assms by (simp add: schedule_next_def get_retry_delay_def Let_def CLAIM_REDEEM_MAX_RETRIES_def)

section \<open>Paper mode\<close>

definition paper :: "SettleState \<Rightarrow> bool" where
  "paper s \<longleftrightarrow> ss_paper_mode s \<and> cm_paper_mode (ss_claims s) \<and> ss_retry_states s = []"

lemma determine_winner_frame:
  assumes "determine_winner env pos s = (s', w)"
  shows "\<exists>m. s' = s\<lparr>ss_last_method := m\<rparr>"
  using assms by (cases s) (auto simp: determine_winner_def Let_def split: if_splits option.splits)

lemma is_settledI: "get_claim (ss_claims s) k = Some c \<Longrightarrow> claim_is_success c \<Longrightarrow>
    c_position_id c = pid \<Longrightarrow> is_settled s pid"
  by (force simp: is_settled_def get_claims_by_position_def get_claim_def list_ex_iff dest: map_of_SomeD)

lemma is_settledE:
  assumes "is_settled s pid" "wf_dict (cm_claims (ss_claims s))"
  obtains k c where "get_claim (ss_claims s) k = Some c" "claim_is_success c" "c_position_id c = pid"
  using assms
  by (auto simp: is_settled_def get_claims_by_position_def get_claim_def list_ex_iff wf_dget_iff)

text \<open>Settling a new position in paper mode succeeds at once and pays the winner.\<close>

definition paper_payout :: "SettleEnv \<Rightarrow> SettleState \<Rightarrow> PositionRecord \<Rightarrow> num" where
  "paper_payout env s pos =
     py_round 4 (if snd (determine_winner env pos s) then fmul (p_net_position_shares pos) 1 else 0)"

lemma settle_position_paper:
  assumes "paper s" and fresh: "get_claim (ss_claims s) (se_uuid env (p_position_id pos)) = None"
  obtains s' c where "settle_position env pos s = (s', True)" and "paper s'"
    and "get_claim (ss_claims s') (se_uuid env (p_position_id pos)) = Some c"
    and "claim_is_success c" and "c_position_id c = p_position_id pos"
    and "\<And>k. k \<noteq> se_uuid env (p_position_id pos) \<Longrightarrow> get_claim (ss_claims s') k = get_claim (ss_claims s) k"
    and "ss_winner_cache s' = ss_winner_cache s" and "ss_has_clob s' = ss_has_clob s"
    and "b_available (ss_balance s') = (if snd (determine_winner env pos s)
           then fadd (b_available (ss_balance s)) (paper_payout env s pos) else b_available (ss_balance s))"
    and "ss_settlement_count s' = ss_settlement_count s + 1"
proof -
  let ?u = "se_uuid env (p_position_id pos)"
  obtain m c where cr: "create_claim (p_condition_id pos) (p_position_id pos) (p_asset pos) (p_side pos)
      ?u (se_now env NewPhase (p_position_id pos)) (ss_claims s) = (m, c)" by fastforce
  from cr have c: "c_claim_id c = ?u" "get_claim m ?u = Some c" "\<not> claim_is_success c"
    "c_position_id c = p_position_id pos" "cm_paper_mode m = cm_paper_mode (ss_claims s)"
    "\<And>k. k \<noteq> ?u \<Longrightarrow> get_claim m k = get_claim (ss_claims s) k"
    by (auto simp: create_claim_def claim_is_success_def Let_def)
  let ?s0 = "s\<lparr>ss_claims := m\<rparr>"
  have dw: "snd (determine_winner env pos ?s0) = snd (determine_winner env pos s)"
    by (auto simp: determine_winner_def Let_def split: option.splits)
  obtain s1 w where w: "determine_winner env pos ?s0 = (s1, w)" by fastforce
  with dw have w': "snd (determine_winner env pos s) = w" by simp
  from determine_winner_frame [OF w] obtain d where s1: "s1 = ?s0\<lparr>ss_last_method := d\<rparr>" by blast
  let ?pay = "py_round 4 (if w then fmul (p_net_position_shares pos) 1 else 0)"
  have pm: "cm_paper_mode m" using c(5) assms(1) by (simp add: paper_def)
  obtain m' b' c' where x: "execute_redeem ?u w ?pay (se_now env NewPhase (p_position_id pos))
      (se_balance_now env NewPhase (p_position_id pos)) (m, ss_balance s) = ((m', b'), True)"
    and c': "get_claim m' ?u = Some c'" "claim_is_success c'" "c_position_id c' = c_position_id c"
      "b_available b' = (if w then fadd (b_available (ss_balance s)) ?pay else b_available (ss_balance s))"
      "cm_paper_mode m'"
    by (rule redeem_paper [OF c(2,3) pm, where won = w and pay = ?pay]) (rule that)
  have other: "get_claim m' k = get_claim m k" if "k \<noteq> ?u" for k
    using redeem_other [OF x that] .
  let ?s' = "s\<lparr>ss_settlement_count := ss_settlement_count s + 1, ss_last_method := d,
      ss_claims := m', ss_balance := b'\<rparr>"
  have red: "execute_redeem_for_claim env NewPhase pos ?u ?s0 = (?s', True)"
  proof -
    have "ss_paper_mode ?s0" using assms(1) by (simp add: paper_def)
    then have "execute_redeem_for_claim env NewPhase pos ?u ?s0 =
        (case run_redeem ?u w ?pay env NewPhase (p_position_id pos) s1 of
           (s2, ok) \<Rightarrow> (if ok then s2\<lparr>ss_settlement_count := ss_settlement_count s2 + 1\<rparr> else s2, ok))"
      unfolding execute_redeem_for_claim_def Let_def by (simp only: w if_True prod.case)
    moreover have "run_redeem ?u w ?pay env NewPhase (p_position_id pos) s1 =
        (s1\<lparr>ss_claims := m', ss_balance := b'\<rparr>, True)"
      unfolding run_redeem_def using x by (simp add: s1)
    ultimately show ?thesis by (simp add: s1)
  qed
  have run: "settle_position env pos s = (?s', True)"
    by (simp add: settle_position_def cr c(1) red Let_def)
  show thesis
    by (rule that [where c = c', OF run])
      (use assms(1) c c' w' other in \<open>simp_all add: paper_def paper_payout_def\<close>)
qed


text \<open>The ids a pass creates: new, and different for different positions.\<close>

definition fresh_ids :: "SettleEnv \<Rightarrow> string list \<Rightarrow> SettleState \<Rightarrow> bool" where
  "fresh_ids env pids s \<longleftrightarrow> distinct pids \<and> inj_on (se_uuid env) (set pids) \<and>
     (\<forall>pid \<in> set pids. get_claim (ss_claims s) (se_uuid env pid) = None)"

definition resolved_in :: "SettleEnv \<Rightarrow> SettleState \<Rightarrow> PositionRecord \<Rightarrow> bool" where
  "resolved_in env s pos \<longleftrightarrow> (ss_has_clob s \<longrightarrow> mr_resolved (se_resolution env (p_position_id pos)))"

lemma check_resolved_paper:
  assumes "paper s" "check_resolved env pos s = (s', ok)"
  shows "ok \<longleftrightarrow> resolved_in env s pos" "paper s'" "ss_claims s' = ss_claims s"
    "ss_has_clob s' = ss_has_clob s" "ss_balance s' = ss_balance s"
    "ss_settlement_count s' = ss_settlement_count s"
  using assms by (auto simp: check_resolved_def resolved_in_def paper_def Let_def split: if_splits)

lemma settled_mono:
  assumes "\<And>k. get_claim (ss_claims s) k \<noteq> None \<Longrightarrow> get_claim (ss_claims s') k = get_claim (ss_claims s) k"
    and "wf_dict (cm_claims (ss_claims s))" "is_settled s pid"
  shows "is_settled s' pid"
proof -
  obtain k c where k: "get_claim (ss_claims s) k = Some c" "claim_is_success c" "c_position_id c = pid"
    by (rule is_settledE [OF assms(3,2)]) (rule that)
  then have "get_claim (ss_claims s') k = Some c" using assms(1) [of k] by simp
  then show ?thesis using k(2,3) by (rule is_settledI)
qed

text \<open>Settling a position with a fresh claim id keeps the claim invariant, in either mode.\<close>

lemma redeem_for_claim_inv:
  assumes "execute_redeem_for_claim env ph pos k s = (s', ok)" and "claims_inv (ss_claims s)"
  shows "claims_inv (ss_claims s')"
proof (cases "ss_paper_mode s")
  case True
  obtain s1 w where w: "determine_winner env pos s = (s1, w)" by fastforce
  with determine_winner_frame have s1: "ss_claims s1 = ss_claims s" by fastforce
  let ?pay = "py_round 4 (if w then fmul (p_net_position_shares pos) 1 else 0)"
  obtain m b r where x: "execute_redeem k w ?pay (se_now env ph (p_position_id pos))
      (se_balance_now env ph (p_position_id pos)) (ss_claims s1, ss_balance s1) = ((m, b), r)"
    by (metis prod.collapse)
  have "claims_inv m" using execute_redeem_inv [OF x] assms(2) s1 by simp
  moreover have "ss_claims s' = m"
    using assms(1) True w x
    by (auto simp: execute_redeem_for_claim_def run_redeem_def Let_def split: if_splits)
  ultimately show ?thesis by simp
next
  case False
  show ?thesis
  proof (cases "se_relayer env ph (p_position_id pos)")
    case (RL_Success pay)
    obtain m b r where x: "execute_redeem k (0 < pay) pay (se_now env ph (p_position_id pos))
        (se_balance_now env ph (p_position_id pos)) (ss_claims s, ss_balance s) = ((m, b), r)"
      by (metis prod.collapse)
    have "claims_inv m" using execute_redeem_inv [OF x assms(2)] .
    moreover have "ss_claims s' = m"
      using assms(1) False RL_Success x by (auto simp: execute_redeem_for_claim_def run_redeem_def)
    ultimately show ?thesis by simp
  next
    case (RL_Fail err)
    show ?thesis
    proof (cases "get_claim (ss_claims s) k")
      case None
      with assms False RL_Fail show ?thesis by (simp add: execute_redeem_for_claim_def)
    next
      case (Some c)
      have "claims_inv (put_claim k (c\<lparr>c_last_error := err\<rparr>) (ss_claims s))"
        by (rule claims_inv_replace [OF assms(2) Some, where c' = "c\<lparr>c_last_error := err\<rparr>"])
          (use Some assms(2) in \<open>auto simp: claims_inv_def claim_is_success_def\<close>)
      with Some assms False RL_Fail show ?thesis by (auto simp: execute_redeem_for_claim_def)
    qed
  qed
qed

lemma settle_position_claims_inv:
  assumes "settle_position env pos s = (s', ok)" and "claims_inv (ss_claims s)"
    and "get_claim (ss_claims s) (se_uuid env (p_position_id pos)) = None"
  shows "claims_inv (ss_claims s')"
proof -
  obtain m c where cr: "create_claim (p_condition_id pos) (p_position_id pos) (p_asset pos) (p_side pos)
      (se_uuid env (p_position_id pos)) (se_now env NewPhase (p_position_id pos)) (ss_claims s) = (m, c)"
    by fastforce
  obtain s1 ok1 where r: "execute_redeem_for_claim env NewPhase pos (c_claim_id c) (s\<lparr>ss_claims := m\<rparr>) = (s1, ok1)"
    by fastforce
  have "claims_inv (ss_claims s1)"
    by (rule redeem_for_claim_inv [OF r]) (use create_claim_inv [OF cr assms(2,3)] in simp)
  with assms(1) cr r show ?thesis by (auto simp: settle_position_def Let_def split: if_splits)
qed

text \<open>A new claim of one position does not settle another one.\<close>

lemma settled_other:
  assumes inv: "claims_inv (ss_claims s2)" "claims_inv (ss_claims s)"
    and c: "get_claim (ss_claims s2) u = Some c" "c_position_id c = pid" and "pid' \<noteq> pid"
    and same: "\<And>k. k \<noteq> u \<Longrightarrow> get_claim (ss_claims s2) k = get_claim (ss_claims s) k"
    and new: "get_claim (ss_claims s) u = None"
  shows "is_settled s2 pid' \<longleftrightarrow> is_settled s pid'"
proof -
  have "(\<exists>k d. get_claim (ss_claims s2) k = Some d \<and> claim_is_success d \<and> c_position_id d = pid') \<longleftrightarrow>
      (\<exists>k d. get_claim (ss_claims s) k = Some d \<and> claim_is_success d \<and> c_position_id d = pid')"
    by (metis assms(5) c new option.distinct(1) option.inject same)
  moreover have "is_settled x pid' \<longleftrightarrow>
      (\<exists>k d. get_claim (ss_claims x) k = Some d \<and> claim_is_success d \<and> c_position_id d = pid')"
    if "claims_inv (ss_claims x)" for x
    using that by (auto elim!: is_settledE intro: is_settledI simp: claims_inv_def)
  ultimately show ?thesis using inv by simp
qed

text \<open>
  The pass over the new positions in paper mode: nothing is left for a retry, existing claims
  are untouched, and the resolved positions are exactly the ones that gain a successful claim.
\<close>

lemma settle_loop_paper:
  assumes "paper s" "claims_inv (ss_claims s)"
    and "fresh_ids env (map p_position_id ps) s" "settle_loop env ps s = (s', n)"
  shows "paper s' \<and> claims_inv (ss_claims s') \<and> ss_has_clob s' = ss_has_clob s \<and>
     (\<forall>k. get_claim (ss_claims s) k \<noteq> None \<longrightarrow> get_claim (ss_claims s') k = get_claim (ss_claims s) k) \<and>
     (\<forall>p \<in> set ps. resolved_in env s p \<longrightarrow> is_settled s' (p_position_id p)) \<and>
     n = int (length (filter (\<lambda>p. \<not> is_settled s (p_position_id p) \<and> resolved_in env s p) ps))"
  using assms
proof (induction ps arbitrary: s n)
  case Nil
  then show ?case by simp
next
  case (Cons pos ps)
  note prems = Cons.prems
  let ?pid = "p_position_id pos" and ?u = "se_uuid env (p_position_id pos)"
  have nr: "dget (ss_retry_states s) ?pid = None" using prems(1) by (simp add: paper_def)
  have nd: "?pid \<notin> p_position_id ` set ps" using prems(3) by (simp add: fresh_ids_def)
  have fr: "fresh_ids env (map p_position_id ps) s" using prems(3) by (auto simp: fresh_ids_def)
  obtain s1 ok where ck: "check_resolved env pos s = (s1, ok)" by fastforce
  note c1 = check_resolved_paper [OF prems(1) ck]
  consider (settled) "is_settled s ?pid" | (open_) "\<not> is_settled s ?pid" "\<not> resolved_in env s pos"
    | (new) "\<not> is_settled s ?pid" "resolved_in env s pos" by blast
  then show ?case
  proof cases
    case settled
    then have run: "settle_loop env ps s = (s', n)" using prems(4) nr by simp
    have "wf_dict (cm_claims (ss_claims s))" using prems(2) by (simp add: claims_inv_def)
    with settled Cons.IH [OF prems(1,2) fr run] show ?thesis
      using settled_mono [of s s' ?pid] by auto
  next
    case open_
    then have run: "settle_loop env ps s1 = (s', n)" using prems(4) nr ck c1(1) by simp
    have "fresh_ids env (map p_position_id ps) s1" using fr c1(3) by (simp add: fresh_ids_def)
    from Cons.IH [OF c1(2) _ this run] prems(2) open_ show ?thesis
      by (simp add: c1 is_settled_def resolved_in_def)
  next
    case new
    have u: "get_claim (ss_claims s1) ?u = None" using prems(3) by (simp add: fresh_ids_def c1(3))
    obtain s2 c where st: "settle_position env pos s1 = (s2, True)" "paper s2"
      "get_claim (ss_claims s2) ?u = Some c" "claim_is_success c" "c_position_id c = ?pid"
      "\<And>k. k \<noteq> ?u \<Longrightarrow> get_claim (ss_claims s2) k = get_claim (ss_claims s1) k" "ss_has_clob s2 = ss_has_clob s1"
      by (rule settle_position_paper [OF c1(2) u]) (rule that)
    obtain n' where run: "settle_loop env ps s2 = (s', n')" and n: "n = n' + 1"
      using prems(4) nr ck c1(1) new st(1) by (auto split: prod.splits)
    have inv2: "claims_inv (ss_claims s2)"
      by (rule settle_position_claims_inv [OF st(1) _ u]) (use prems(2) c1(3) in simp)
    have fr2: "fresh_ids env (map p_position_id ps) s2"
      using prems(3) st(6) c1(3) by (auto simp: fresh_ids_def inj_on_def)
    note ih = Cons.IH [OF st(2) inv2 fr2 run]
    have other: "is_settled s2 (p_position_id p) \<longleftrightarrow> is_settled s (p_position_id p)" if "p \<in> set ps" for p
    proof -
      have "p_position_id p \<noteq> ?pid" using nd that by (metis imageI)
      then show ?thesis
        using settled_other [OF inv2 prems(2) st(3,5)] st(6) c1(3) u by simp
    qed
    have "is_settled s2 ?pid" using st(3-5) by (rule is_settledI)
    moreover have "wf_dict (cm_claims (ss_claims s2))" using inv2 by (simp add: claims_inv_def)
    ultimately have me: "is_settled s' ?pid" using ih settled_mono [of s2 s' ?pid] by blast
    have res: "resolved_in env s2 = resolved_in env s" by (simp add: fun_eq_iff resolved_in_def st(7) c1(4))
    have old: "get_claim (ss_claims s') k = get_claim (ss_claims s) k" if "get_claim (ss_claims s) k \<noteq> None" for k
    proof -
      have "k \<noteq> ?u" using that u c1(3) by auto
      then show ?thesis using ih st(6) [of k] c1(3) that by simp
    qed
    have "filter (\<lambda>p. \<not> is_settled s2 (p_position_id p) \<and> resolved_in env s p) ps =
        filter (\<lambda>p. \<not> is_settled s (p_position_id p) \<and> resolved_in env s p) ps"
      by (rule filter_cong) (simp_all add: other)
    with ih me old new n show ?thesis by (simp add: res st(7) c1(4))
  qed
qed

section \<open>Properties\<close>

text \<open>
  Without a CLOB client every closed position to redeem counts as resolved; a second pass then
  finds nothing to do.
\<close>

lemma settle_loop_settled:
  "\<forall>p \<in> set ps. is_settled s (p_position_id p) \<Longrightarrow> settle_loop env ps s = (s, 0)"
  by (induction ps) auto

lemma process_retries_none: "ss_retry_states s = [] \<Longrightarrow> process_retries env t s = (s, 0)"
  by (cases s) (simp add: process_retries_def)


definition example_settle_env :: SettleEnv where
  "example_settle_env = \<lparr>se_time_ready = (\<lambda>_. 500), se_time_schedule = (\<lambda>_ _. 500),
     se_now = (\<lambda>_ _. 500000000), se_balance_now = (\<lambda>_ _. 500000000), se_uuid = (\<lambda>p. ''claim-'' @ p),
     se_resolution = (\<lambda>_. \<lparr>mr_closed = True, mr_resolved = True, mr_winning_side = ''UP''\<rparr>),
     se_relayer = (\<lambda>_ _. redeem_positions True), se_ptb_value = (\<lambda>_. Some 100), se_coin_usd = (\<lambda>_. 101)\<rparr>"

definition example_settle :: "bool \<Rightarrow> SettleState" where
  "example_settle p = \<lparr>ss_paper_mode = p, ss_has_clob = False, ss_settlement_count = 0,
     ss_retry_states = [], ss_winner_cache = [], ss_last_method = NoMethod,
     ss_claims = new_claim_manager p 5 10 20 20 True, ss_balance = new_balance 90\<rparr>"

text \<open>A position that expired unsold, closed by the settlement path.\<close>

definition example_expired :: PositionTracker where
  "example_expired = fst (confirm_close ''p1'' 0 None 30 (example_closing EXPIRY))"


text \<open>The retry schedule of a failing settlement is finite and spaced as documented: after the
  first failure the delays are 5, 10 and then 20 seconds, the state is exhausted exactly at the
  twentieth failed attempt, and the nineteen delays before it add up to 355 seconds.\<close>

theorem settlement_schedule:
  "rs_exhausted (((\<lambda>st. schedule_next now st) ^^ n)
      \<lparr>rs_position_id = p, rs_claim_id = k, rs_attempt_count = 0, rs_next_retry_at = 0, rs_exhausted = False\<rparr>)
     = (20 \<le> n) \<and>
   map (retry_wait CLAIM_REDEEM_RETRY_SCHEDULE CLAIM_REDEEM_RETRY_STEADY) [0..<4] = [5, 10, 20, 20] \<and>
   settle_retry.elapsed 19 = 355"
proof (intro conjI)
  let ?st = "\<lambda>n. ((\<lambda>st. schedule_next now st) ^^ n)
      \<lparr>rs_position_id = p, rs_claim_id = k, rs_attempt_count = 0, rs_next_retry_at = 0, rs_exhausted = False\<rparr>"
  have "rs_attempt_count (?st n) = n \<and> (rs_exhausted (?st n) \<longleftrightarrow> 20 \<le> n)" for n
  proof (induction n)
    case (Suc n)
    have "rs_exhausted (schedule_next now st) \<longleftrightarrow> rs_exhausted st \<or> 19 \<le> rs_attempt_count st" for st
      by (auto simp: schedule_next_def Let_def CLAIM_REDEEM_MAX_RETRIES_def)
    with Suc show ?case by auto
  qed simp
  then show "rs_exhausted (?st n) = (20 \<le> n)" by blast
  show "map (retry_wait CLAIM_REDEEM_RETRY_SCHEDULE CLAIM_REDEEM_RETRY_STEADY) [0..<4] = [5, 10, 20, 20]"
    by code_simp
  have "settle_retry.elapsed 2 = 15"
    unfolding settle_retry.elapsed_def
    by (simp add: retry_wait_def CLAIM_REDEEM_RETRY_SCHEDULE_def lessThan_Suc numeral_2_eq_2)
  then show "settle_retry.elapsed 19 = 355" using settle_retry.elapsed_steady [of 17] by simp
qed

end
