(* ===== verification/ExitCycle.thy ===== *)
theory ExitCycle
  imports Exits Settlement
begin

text \<open>
  \<^verbatim>\<open>backend/orchestrator/exit_orchestrator.py\<close>: one exit cycle evaluates the open positions,
  runs the closes, settles what has to be redeemed and closes claims that look external.

  The orchestrator, the executors and settlement share one tracker and one balance manager.
  Here the tracker and the balance live in the exit executor; settlement receives the balance
  for its pass and hands it back. The evaluator is shared as well, but the executor only reads
  its configuration, which no method changes, so the orchestrator's copy carries the last prices.
\<close>

record ExitWorld =
  w_exec :: ExitExecutor
  w_evaluator :: ExitEvaluator
  w_settle :: SettleState
  w_cycle_count :: int

record CycleEnv =
  cy_close_clock :: "string \<Rightarrow> usec"
  cy_close :: "string \<Rightarrow> CloseEnv"
  cy_settle :: SettleEnv
  cy_reconcile_now :: "string \<Rightarrow> usec"

record CycleInput =
  ci_prices :: "(string, num) dict"
  ci_remaining :: "(string, num) dict"
  ci_stale :: "string list"

record CycleResult =
  cr_cycle :: int
  cr_triggers :: int
  cr_closes :: int
  cr_settlements :: int
  cr_reconciled :: int

section \<open>Triggers\<close>

definition detail_triggers :: "ExitDetail \<Rightarrow> ForceSellTrigger list" where
  "detail_triggers d = (case d of ED_ForceSell ts _ \<Rightarrow> ts | _ \<Rightarrow> [])"

text \<open>The decision for one open position: the close to request, if any, and the evaluator.\<close>

definition decide_exit ::
  "CycleInput \<Rightarrow> PositionRecord \<Rightarrow> ExitEvaluator
    \<Rightarrow> ExitEvaluator \<times> (CloseReason \<times> ForceSellTrigger list) option" where
  "decide_exit inp pos ev =
     (let price = dget_or (ci_prices inp) (p_asset pos) 0;
          secs = dget_or (ci_remaining inp) (p_asset pos) 300
      in if price \<le> 0 then (ev, None)
         else if p_asset pos \<in> set (ci_stale inp) then
           (let fs = evaluate_force_sell pos price secs False ev
            in (ev, if es_should_exit fs then Some (FORCE_SELL, detail_triggers (es_detail fs)) else None))
         else
           (let (ev', r) = evaluate pos price ev
            in if es_should_exit r then
                 (ev', map_option (\<lambda>c. (c, [])) (es_reason r))
               else
                 (let fs = evaluate_force_sell pos price secs True ev'
                  in (ev', if es_should_exit fs then Some (FORCE_SELL, detail_triggers (es_detail fs)) else None))))"

fun trigger_loop ::
  "CycleEnv \<Rightarrow> CycleInput \<Rightarrow> PositionRecord list \<Rightarrow> ExitWorld \<Rightarrow> (ExitWorld, int) outcome" where
  "trigger_loop env inp [] w = (w, Inr 0)"
| "trigger_loop env inp (pos # rest) w =
     (let (ev', dec) = decide_exit inp pos (w_evaluator w); w1 = w\<lparr>w_evaluator := ev'\<rparr>
      in case dec of
           None \<Rightarrow> trigger_loop env inp rest w1
         | Some (reason, trigs) \<Rightarrow>
             (case request_close (p_position_id pos) reason trigs 0 (cy_close_clock env (p_position_id pos))
                     (ee_tracker (w_exec w1)) of
                (t', Inl err) \<Rightarrow> (w1\<lparr>w_exec := (w_exec w1)\<lparr>ee_tracker := t'\<rparr>\<rparr>, Inl err)
              | (t', Inr _) \<Rightarrow>
                  ebind (trigger_loop env inp rest (w1\<lparr>w_exec := (w_exec w1)\<lparr>ee_tracker := t'\<rparr>\<rparr>))
                    (\<lambda>w' n. (w', Inr (n + 1)))))"

section \<open>Closes\<close>

fun close_loop ::
  "CycleEnv \<Rightarrow> CycleInput \<Rightarrow> PositionRecord list \<Rightarrow> ExitWorld \<Rightarrow> (ExitWorld, int) outcome" where
  "close_loop env inp [] w = (w, Inr 0)"
| "close_loop env inp (pos # rest) w =
     (let pid = p_position_id pos; price = dget_or (ci_prices inp) (p_asset pos) 0
      in case execute_close (cy_close env pid) pid price (w_exec w) of
           (e', Inl err) \<Rightarrow> (w\<lparr>w_exec := e'\<rparr>, Inl err)
         | (e', Inr ok) \<Rightarrow>
             ebind (close_loop env inp rest (w\<lparr>w_exec := e'\<rparr>))
               (\<lambda>w' n. (w', Inr (if ok then n + 1 else n))))"

section \<open>Reconciliation\<close>

fun reconcile_loop :: "CycleEnv \<Rightarrow> ClaimRecord list \<Rightarrow> SettleState \<Rightarrow> SettleState \<times> int" where
  "reconcile_loop env [] s = (s, 0)"
| "reconcile_loop env (c # rest) s =
     (if is_position_in_retry s (c_position_id c) then reconcile_loop env rest s
      else (let m = fst (mark_externally_settled (c_claim_id c) (cy_reconcile_now env (c_claim_id c)) (ss_claims s));
                (s', n) = reconcile_loop env rest (s\<lparr>ss_claims := m\<rparr>)
            in (s', n + 1)))"

definition reconcile_external :: "CycleEnv \<Rightarrow> SettleState \<Rightarrow> SettleState \<times> int" where
  "reconcile_external env s = reconcile_loop env (get_pending_claims (ss_claims s)) s"

section \<open>The cycle\<close>

definition closing_positions :: "PositionTracker \<Rightarrow> PositionRecord list" where
  "closing_positions t = filter closing (get_all_positions t)"

definition settle_stage :: "CycleEnv \<Rightarrow> ExitWorld \<Rightarrow> ExitWorld \<times> int \<times> int" where
  "settle_stage env w =
     (let (s1, n) = process_settlements (cy_settle env) (ee_tracker (w_exec w))
                      ((w_settle w)\<lparr>ss_balance := ee_balance (w_exec w)\<rparr>);
          (s2, m) = reconcile_external env s1
      in (w\<lparr>w_settle := s2, w_exec := (w_exec w)\<lparr>ee_balance := ss_balance s2\<rparr>\<rparr>, n, m))"

definition run_cycle :: "CycleEnv \<Rightarrow> CycleInput \<Rightarrow> ExitWorld \<Rightarrow> (ExitWorld, CycleResult) outcome" where
  "run_cycle env inp w0 =
     (let w = w0\<lparr>w_cycle_count := w_cycle_count w0 + 1\<rparr>
      in ebind (trigger_loop env inp (get_open_positions (ee_tracker (w_exec w))) w)
           (\<lambda>w1 trg. ebind (close_loop env inp (closing_positions (ee_tracker (w_exec w1))) w1)
             (\<lambda>w2 cls. let (w3, n, m) = settle_stage env w2
                in (w3, Inr \<lparr>cr_cycle = w_cycle_count w3, cr_triggers = trg, cr_closes = cls,
                             cr_settlements = n, cr_reconciled = m\<rparr>))))"


section \<open>What a cycle triggers\<close>

lemma decide_exit_no_price:
  "dget_or (ci_prices inp) (p_asset pos) 0 \<le> 0 \<Longrightarrow> decide_exit inp pos ev = (ev, None)"
  by (simp add: decide_exit_def)

lemma force_sell_detail:
  assumes "es_should_exit (evaluate_force_sell r price secs fresh ev)"
  shows "detail_triggers (es_detail (evaluate_force_sell r price secs fresh ev)) \<noteq> []"
    and "set (detail_triggers (es_detail (evaluate_force_sell r price secs fresh ev)))
           \<subseteq> (if ev_fs_time_enabled ev then {FS_TIME} else {}) \<union> (if ev_fs_pnl_enabled ev then {FS_PNL} else {})"
  using assms
  by (auto simp: evaluate_force_sell_def no_exit_def detail_triggers_def Let_def split: if_splits)

lemma decide_exit_stale:
  assumes "p_asset pos \<in> set (ci_stale inp)" and "decide_exit inp pos ev = (ev', Some (reason, trigs))"
  shows "reason = FORCE_SELL" "ev' = ev"
  using assms by (auto simp: decide_exit_def Let_def split: if_splits)

section \<open>A cycle does not raise\<close>

text \<open>The positions of a snapshot are the tracker's own.\<close>

definition snapshot :: "PositionTracker \<Rightarrow> PositionRecord list \<Rightarrow> bool" where
  "snapshot t ps \<longleftrightarrow> distinct (map p_position_id ps) \<and>
     (\<forall>p \<in> set ps. get_position t (p_position_id p) = Some p)"

lemma snapshot_filter:
  assumes "trk_inv t" shows "snapshot t (filter P (get_all_positions t))"
proof -
  let ?d = "t_positions t"
  have wf: "wf_dict ?d" using assms by (simp add: trk_inv_def)
  have key: "p_position_id v = k" if "(k, v) \<in> set ?d" for k v
    using trk_inv_wf [OF assms, of k v] that wf by (simp add: get_position_def wf_dget_iff)
  have e: "map (p_position_id \<circ> snd) ?d = map fst ?d"
    by (rule map_cong) (auto simp: key)
  have "distinct (map p_position_id (get_all_positions t))"
    using wf by (simp add: get_all_positions_def wf_dict_def e)
  then have "distinct (map p_position_id (filter P (get_all_positions t)))"
    by (rule distinct_map_filter)
  moreover have "get_position t (p_position_id p) = Some p" if p: "p \<in> set (get_all_positions t)" for p
  proof -
    from p obtain k where "(k, p) \<in> set ?d" by (auto simp: get_all_positions_def)
    with key [OF this] wf show ?thesis by (simp add: get_position_def wf_dget_iff)
  qed
  ultimately show ?thesis by (auto simp: snapshot_def)
qed

lemma snapshot_Cons: "snapshot t (p # ps) \<Longrightarrow> get_position t (p_position_id p) = Some p"
  by (simp add: snapshot_def)

lemma snapshot_tl:
  assumes "snapshot t (p # ps)" and "\<And>k. k \<noteq> p_position_id p \<Longrightarrow> get_position t' k = get_position t k"
  shows "snapshot t' ps"
proof -
  have d: "distinct (map p_position_id ps)" "p_position_id p \<notin> p_position_id ` set ps"
    using assms(1) by (simp_all add: snapshot_def)
  have "get_position t' (p_position_id q) = Some q" if q: "q \<in> set ps" for q
  proof -
    have "p_position_id q \<noteq> p_position_id p" using d(2) q by (metis imageI)
    with assms q show ?thesis by (simp add: snapshot_def)
  qed
  with d(1) show ?thesis by (simp add: snapshot_def)
qed

lemma trigger_loop_ok:
  assumes "trk_inv (ee_tracker (w_exec w))" "snapshot (ee_tracker (w_exec w)) ps" "\<forall>p \<in> set ps. is_open p"
  shows "\<exists>w' n. trigger_loop env inp ps w = (w', Inr n) \<and>
     trk_steps (ee_tracker (w_exec w)) (ee_tracker (w_exec w')) \<and> 0 \<le> n \<and> n \<le> int (length ps) \<and>
     w_settle w' = w_settle w \<and> w_cycle_count w' = w_cycle_count w \<and>
     ee_balance (w_exec w') = ee_balance (w_exec w) \<and> ee_paper_mode (w_exec w') = ee_paper_mode (w_exec w)"
  using assms
proof (induction ps arbitrary: w)
  case Nil
  then show ?case by auto
next
  case (Cons pos ps)
  let ?t = "ee_tracker (w_exec w)"
  obtain ev' dec where d: "decide_exit inp pos (w_evaluator w) = (ev', dec)" by fastforce
  show ?case
  proof (cases dec)
    case None
    have sn: "snapshot ?t ps" using Cons.prems(2) by (rule snapshot_tl) simp
    with Cons.IH [of "w\<lparr>w_evaluator := ev'\<rparr>"] Cons.prems d None show ?thesis by auto
  next
    case (Some rt)
    obtain reason trigs where rt: "rt = (reason, trigs)" by fastforce
    let ?pid = "p_position_id pos"
    have g: "get_position ?t ?pid = Some pos" "p_state pos = PS_OPEN_CONFIRMED"
      using Cons.prems snapshot_Cons by (auto simp: is_open_def)
    obtain t' r' where rc: "request_close ?pid reason trigs 0 (cy_close_clock env ?pid) ?t = (t', Inr r')"
      using g by (auto simp: request_close_def transition_to_def Let_def)
    have st: "trk_steps ?t t'" by (rule request_close_step [OF rc Cons.prems(1)])
    have other: "get_position t' k = get_position ?t k" if "k \<noteq> ?pid" for k
      using rc that by (auto elim!: request_close_ok)
    let ?w = "w\<lparr>w_evaluator := ev', w_exec := (w_exec w)\<lparr>ee_tracker := t'\<rparr>\<rparr>"
    have "trk_inv t'" using trk_steps_inv [OF st Cons.prems(1)] .
    moreover have "snapshot t' ps" by (rule snapshot_tl [OF Cons.prems(2) other])
    ultimately obtain w' n where ih: "trigger_loop env inp ps ?w = (w', Inr n)"
      "trk_steps t' (ee_tracker (w_exec w'))" "0 \<le> n" "n \<le> int (length ps)"
      "w_settle w' = w_settle w" "w_cycle_count w' = w_cycle_count w"
      "ee_balance (w_exec w') = ee_balance (w_exec w)" "ee_paper_mode (w_exec w') = ee_paper_mode (w_exec w)"
      using Cons.IH [of ?w] Cons.prems(3) by auto
    have "trigger_loop env inp (pos # ps) w = (w', Inr (n + 1))" using d Some rt rc ih(1) by simp
    moreover have "trk_steps ?t (ee_tracker (w_exec w'))" using st ih(2) by (rule rtranclp_trans)
    ultimately show ?thesis using ih by auto
  qed
qed

lemma execute_close_other:
  assumes "get_position (ee_tracker e) pid = Some r" "execute_close env pid price e = (e', res)" "k \<noteq> pid"
  shows "get_position (ee_tracker e') k = get_position (ee_tracker e) k"
  using assms(1)
proof (cases rule: execute_close_cases [where env = env and price = price])
  case (sell e1 b r')
  with assms show ?thesis by (simp add: get_position_def)
qed (use assms in auto)

lemma close_loop_ok:
  assumes "trk_inv (ee_tracker (w_exec w))" "snapshot (ee_tracker (w_exec w)) ps"
  shows "\<exists>w' n. close_loop env inp ps w = (w', Inr n) \<and>
     trk_steps (ee_tracker (w_exec w)) (ee_tracker (w_exec w')) \<and> 0 \<le> n \<and> n \<le> int (length ps) \<and>
     w_settle w' = w_settle w \<and> w_cycle_count w' = w_cycle_count w"
  using assms
proof (induction ps arbitrary: w)
  case Nil
  then show ?case by auto
next
  case (Cons pos ps)
  let ?t = "ee_tracker (w_exec w)" and ?pid = "p_position_id pos"
  let ?price = "dget_or (ci_prices inp) (p_asset pos) 0"
  have g: "get_position ?t ?pid = Some pos" using Cons.prems snapshot_Cons by auto
  obtain e' b where x: "execute_close (cy_close env ?pid) ?pid ?price (w_exec w) = (e', Inr b)"
    by (rule execute_close_cases [OF g, of "cy_close env ?pid" ?price]) auto
  have st: "trk_steps ?t (ee_tracker e')" by (rule execute_close_steps [OF Cons.prems(1) g x])
  then have inv: "trk_inv (ee_tracker e')" using Cons.prems(1) by (rule trk_steps_inv)
  have "snapshot (ee_tracker e') ps"
    by (rule snapshot_tl [OF Cons.prems(2)]) (rule execute_close_other [OF g x])
  with inv Cons.IH [of "w\<lparr>w_exec := e'\<rparr>"] obtain w' n where ih:
    "close_loop env inp ps (w\<lparr>w_exec := e'\<rparr>) = (w', Inr n)"
    "trk_steps (ee_tracker e') (ee_tracker (w_exec w'))" "0 \<le> n" "n \<le> int (length ps)"
    "w_settle w' = w_settle w" "w_cycle_count w' = w_cycle_count w" by auto
  have "trk_steps ?t (ee_tracker (w_exec w'))" using st ih(2) by (rule rtranclp_trans)
  with ih x show ?case by (auto simp: Let_def)
qed

lemma run_cycle_ok:
  assumes "trk_inv (ee_tracker (w_exec w))"
  shows "\<exists>w' r. run_cycle env inp w = (w', Inr r) \<and>
     trk_steps (ee_tracker (w_exec w)) (ee_tracker (w_exec w')) \<and>
     w_cycle_count w' = w_cycle_count w + 1 \<and> cr_triggers r \<le> int (length (get_open_positions (ee_tracker (w_exec w))))"
proof -
  let ?w = "w\<lparr>w_cycle_count := w_cycle_count w + 1\<rparr>"
  let ?ps = "get_open_positions (ee_tracker (w_exec w))"
  have "snapshot (ee_tracker (w_exec w)) ?ps" "\<forall>p \<in> set ?ps. is_open p"
    using snapshot_filter [OF assms, of is_open] by (auto simp: get_open_positions_def get_all_positions_def)
  with trigger_loop_ok [of ?w ?ps env inp] assms obtain w1 n1 where
    a: "trigger_loop env inp ?ps ?w = (w1, Inr n1)" "trk_steps (ee_tracker (w_exec w)) (ee_tracker (w_exec w1))"
    "n1 \<le> int (length ?ps)" "w_cycle_count w1 = w_cycle_count w + 1" by auto
  have inv1: "trk_inv (ee_tracker (w_exec w1))" using trk_steps_inv [OF a(2) assms] .
  obtain w2 n2 where b: "close_loop env inp (closing_positions (ee_tracker (w_exec w1))) w1 = (w2, Inr n2)"
    "trk_steps (ee_tracker (w_exec w1)) (ee_tracker (w_exec w2))" "w_cycle_count w2 = w_cycle_count w1"
    using close_loop_ok [OF inv1 snapshot_filter [OF inv1, of closing]] unfolding closing_positions_def by blast
  obtain w3 n m where c: "settle_stage env w2 = (w3, n, m)" by (metis prod_cases3)
  then have w3: "ee_tracker (w_exec w3) = ee_tracker (w_exec w2)" "w_cycle_count w3 = w_cycle_count w2"
    by (auto simp: settle_stage_def Let_def split: prod.splits)
  have "trk_steps (ee_tracker (w_exec w)) (ee_tracker (w_exec w3))"
    using a(2) b(2) unfolding w3 by (rule rtranclp_trans)
  moreover have "run_cycle env inp w = (w3, Inr \<lparr>cr_cycle = w_cycle_count w3, cr_triggers = n1, cr_closes = n2,
      cr_settlements = n, cr_reconciled = m\<rparr>)"
    using a(1) b(1) c by (simp add: run_cycle_def)
  ultimately show ?thesis using a(3,4) b(3) w3 by auto
qed


section \<open>Reconciliation\<close>

lemma mark_settled_simps:
  assumes "get_claim m k = Some c" "\<not> claim_is_success c"
  shows "get_claim (fst (mark_externally_settled k now m)) k =
    Some (c\<lparr>c_claim_status := CS_SUCCESS, c_outcome := REDEEMED_WON, c_claimed_at := Some now,
            c_last_error := ''external_settlement_detected''\<rparr>)"
  using assms by (simp add: mark_externally_settled_def Let_def)

lemma mark_settled_other:
  "j \<noteq> k \<Longrightarrow> get_claim (fst (mark_externally_settled k now m)) j = get_claim m j"
  by (auto simp: mark_externally_settled_def Let_def split: option.splits)

text \<open>A success stays as it is; a pending claim of a position out of retry becomes a success.\<close>

lemma reconcile_keeps_success:
  assumes "reconcile_loop env cs s = (s', n)" "get_claim (ss_claims s) k = Some c" "claim_is_success c"
  shows "get_claim (ss_claims s') k = Some c"
  using assms
proof (induction cs arbitrary: s n)
  case (Cons d cs)
  show ?case
  proof (cases "is_position_in_retry s (c_position_id d)")
    case True
    with Cons show ?thesis by simp
  next
    case False
    let ?m = "fst (mark_externally_settled (c_claim_id d) (cy_reconcile_now env (c_claim_id d)) (ss_claims s))"
    obtain n' where r: "reconcile_loop env cs (s\<lparr>ss_claims := ?m\<rparr>) = (s', n')"
      using Cons.prems(1) False by (auto simp: Let_def split: prod.splits)
    have "get_claim ?m k = Some c"
      using Cons.prems(2,3)
      by (cases "k = c_claim_id d") (simp_all add: mark_settled_other, simp add: mark_externally_settled_def)
    with Cons.IH [OF r] Cons.prems(3) show ?thesis by simp
  qed
qed simp

lemma reconcile_balance: "reconcile_loop env cs s = (s', n) \<Longrightarrow> ss_balance s' = ss_balance s"
  by (induction cs arbitrary: s n) (auto simp: Let_def split: prod.splits if_splits)

lemma reconcile_settles:
  assumes "reconcile_loop env cs s = (s', n)" and "c \<in> set cs" "c_claim_id c = k"
    and "\<not> is_position_in_retry s (c_position_id c)"
    and "get_claim (ss_claims s) k = Some d" "\<not> claim_is_success d"
  shows "ss_balance s' = ss_balance s \<and> (\<exists>d'. get_claim (ss_claims s') k = Some d' \<and> claim_is_success d' \<and>
     c_outcome d' = REDEEMED_WON \<and> c_claimed_amount_usdc d' = c_claimed_amount_usdc d \<and>
     c_position_id d' = c_position_id d)"
  using assms
proof (induction cs arbitrary: s n)
  case (Cons x cs)
  show ?case
  proof (cases "is_position_in_retry s (c_position_id x)")
    case True
    with Cons show ?thesis by auto
  next
    case False
    let ?now = "cy_reconcile_now env (c_claim_id x)"
    let ?m = "fst (mark_externally_settled (c_claim_id x) ?now (ss_claims s))"
    obtain n' where r: "reconcile_loop env cs (s\<lparr>ss_claims := ?m\<rparr>) = (s', n')"
      using Cons.prems(1) False by (auto simp: Let_def split: prod.splits)
    have bal: "ss_balance s' = ss_balance s" using reconcile_balance [OF r] by simp
    show ?thesis
    proof (cases "c_claim_id x = k")
      case True
      let ?d = "d\<lparr>c_claim_status := CS_SUCCESS, c_outcome := REDEEMED_WON, c_claimed_at := Some ?now,
            c_last_error := ''external_settlement_detected''\<rparr>"
      have "get_claim ?m k = Some ?d" using mark_settled_simps [OF Cons.prems(5,6)] True by simp
      then have "get_claim (ss_claims s') k = Some ?d"
        using reconcile_keeps_success [OF r, of k ?d] by (simp add: claim_is_success_def)
      with bal show ?thesis by (auto simp: claim_is_success_def)
    next
      case False
      then have g: "get_claim ?m k = Some d" using Cons.prems(5) by (simp add: mark_settled_other)
      have "c \<in> set cs" using False Cons.prems(2,3) by auto
      moreover have "\<not> is_position_in_retry (s\<lparr>ss_claims := ?m\<rparr>) (c_position_id c)"
        using Cons.prems(4) by (simp add: is_position_in_retry_def)
      ultimately show ?thesis using Cons.IH [OF r] Cons.prems(3,6) g bal by simp
    qed
  qed
qed simp

section \<open>Live settlement that keeps failing\<close>

definition relayer_fails :: "SettleEnv \<Rightarrow> bool" where
  "relayer_fails env \<longleftrightarrow> (\<forall>ph pid. \<exists>err. se_relayer env ph pid = RL_Fail err)"

text \<open>A failed live redemption only writes the error text of its claim.\<close>

definition same_claim :: "ClaimManager \<Rightarrow> ClaimManager \<Rightarrow> string \<Rightarrow> bool" where
  "same_claim m m' k \<longleftrightarrow> map_option (\<lambda>c. c\<lparr>c_last_error := []\<rparr>) (get_claim m' k) =
     map_option (\<lambda>c. c\<lparr>c_last_error := []\<rparr>) (get_claim m k)"

lemma same_claim_refl [simp]: "same_claim m m k"
  and same_claim_trans: "same_claim m1 m2 k \<Longrightarrow> same_claim m2 m3 k \<Longrightarrow> same_claim m1 m3 k"
  by (simp_all add: same_claim_def)

lemma same_claimE:
  assumes "same_claim m m' k" "get_claim m k = Some c"
  obtains c' where "get_claim m' k = Some c'" "c_claim_status c' = c_claim_status c"
    "c_position_id c' = c_position_id c" "c_claimed_amount_usdc c' = c_claimed_amount_usdc c"
    "c_claim_id c' = c_claim_id c"
proof -
  from assms obtain c' where "get_claim m' k = Some c'" "c'\<lparr>c_last_error := []\<rparr> = c\<lparr>c_last_error := []\<rparr>"
    by (auto simp: same_claim_def)
  then show thesis by (intro that [of c']) (cases c; cases c'; simp)+
qed

lemma live_redeem_fails:
  assumes "\<not> ss_paper_mode s" "relayer_fails env"
    and "execute_redeem_for_claim env ph pos k s = (s', ok)"
  shows "\<not> ok" "\<not> ss_paper_mode s'" "ss_balance s' = ss_balance s" "ss_retry_states s' = ss_retry_states s"
    "same_claim (ss_claims s) (ss_claims s') j"
proof -
  obtain err where e: "se_relayer env ph (p_position_id pos) = RL_Fail err"
    using assms(2) by (auto simp: relayer_fails_def)
  show "\<not> ok" "\<not> ss_paper_mode s'" "ss_balance s' = ss_balance s" "ss_retry_states s' = ss_retry_states s"
    "same_claim (ss_claims s) (ss_claims s') j"
    using assms e by (auto simp: execute_redeem_for_claim_def same_claim_def split: option.splits)
qed


text \<open>
  The retry loop against a failing relayer: a claim keeps all but its error text, the balance
  is untouched, and a ready retry moves to the next place of its schedule.
\<close>

lemma retry_settle_live:
  assumes "\<not> ss_paper_mode s" "relayer_fails env" "retry_settle env pos st s = (s', st', ok)"
  shows "\<not> ss_paper_mode s'" "ss_balance s' = ss_balance s" "ss_retry_states s' = ss_retry_states s"
    "same_claim (ss_claims s) (ss_claims s') j"
    "get_claim (ss_claims s) (rs_claim_id st) = Some c \<Longrightarrow> \<not> claim_is_success c \<Longrightarrow>
       \<not> ok \<and> st' = schedule_next (se_time_schedule env RetryPhase (p_position_id pos)) st"
proof -
  obtain s1 ok1 where x: "execute_redeem_for_claim env RetryPhase pos (rs_claim_id st) s = (s1, ok1)" by fastforce
  note l = live_redeem_fails [OF assms(1,2) x]
  show "\<not> ss_paper_mode s'" "ss_balance s' = ss_balance s" "ss_retry_states s' = ss_retry_states s"
    "same_claim (ss_claims s) (ss_claims s') j"
    "get_claim (ss_claims s) (rs_claim_id st) = Some c \<Longrightarrow> \<not> claim_is_success c \<Longrightarrow>
       \<not> ok \<and> st' = schedule_next (se_time_schedule env RetryPhase (p_position_id pos)) st"
    using assms l x by (auto simp: retry_settle_def Let_def split: option.splits if_splits)
qed

definition due :: "SettleEnv \<Rightarrow> PositionTracker \<Rightarrow> SettleState \<Rightarrow> string \<Rightarrow> SettlementRetryState \<Rightarrow> bool" where
  "due env t s pid st \<longleftrightarrow> is_ready (se_time_ready env pid) st \<and>
     (\<exists>pos. get_position t pid = Some pos \<and> p_position_id pos = pid) \<and>
     (\<exists>c. get_claim (ss_claims s) (rs_claim_id st) = Some c \<and> \<not> claim_is_success c)"

definition moved_on :: "SettleEnv \<Rightarrow> SettleState \<Rightarrow> string list \<Rightarrow> string \<Rightarrow> SettlementRetryState \<Rightarrow> bool" where
  "moved_on env s' ids pid st \<longleftrightarrow> pid \<notin> set ids \<and>
     dget (ss_retry_states s') pid = Some (schedule_next (se_time_schedule env RetryPhase pid) st)"

lemma due_same:
  assumes "\<And>j. same_claim (ss_claims s) (ss_claims s1) j" "due env t s pid st"
  shows "due env t s1 pid st"
  using assms(2) assms(1) [of "rs_claim_id st"]
  by (auto simp: due_def claim_is_success_def elim: same_claimE)

lemma retry_loop_live:
  assumes "\<not> ss_paper_mode s" "relayer_fails env" "retry_loop env t items s = (s', n, ids)"
    and "distinct (map fst items)"
  shows "\<not> ss_paper_mode s' \<and> ss_balance s' = ss_balance s \<and>
     (\<forall>j. same_claim (ss_claims s) (ss_claims s') j) \<and> set ids \<subseteq> fst ` set items \<and>
     (\<forall>pid. pid \<notin> fst ` set items \<longrightarrow> dget (ss_retry_states s') pid = dget (ss_retry_states s) pid) \<and>
     (\<forall>pid st. (pid, st) \<in> set items \<longrightarrow> due env t s pid st \<longrightarrow> moved_on env s' ids pid st)"
  using assms
proof (induction items arbitrary: s s' n ids)
  case Nil
  then show ?case by simp
next
  case (Cons it items)
  obtain pid st where it: "it = (pid, st)" by fastforce
  have nin: "pid \<notin> fst ` set items" and dist: "distinct (map fst items)" using Cons.prems(4) it by simp_all
  have skip: "is_ready (se_time_ready env pid) st \<Longrightarrow> \<not> rs_exhausted st" by (auto simp: is_ready_def)
  have other: "q \<noteq> pid" if "(q, sq) \<in> set items" for q sq using that nin by (auto intro: rev_image_eqI)
  show ?case
  proof (cases "is_ready (se_time_ready env pid) st \<and> get_position t pid \<noteq> None")
    case False
    obtain ids' where r: "retry_loop env t items s = (s', n, ids')" and ids: "ids = ids' \<or> ids = pid # ids'"
      using Cons.prems(3) it False by (auto simp: Let_def split: if_splits prod.splits option.splits)
    note ih = Cons.IH [OF Cons.prems(1,2) r dist]
    have "moved_on env s' ids q sq" if "(q, sq) \<in> set (it # items)" "due env t s q sq" for q sq
    proof -
      have "(q, sq) \<in> set items" using that False it by (auto simp: due_def)
      with ih that(2) have "moved_on env s' ids' q sq" by blast
      with other [OF \<open>(q, sq) \<in> set items\<close>] ids show ?thesis by (auto simp: moved_on_def)
    qed
    with ih ids it show ?thesis by auto
  next
    case True
    then obtain pos where pos: "get_position t pid = Some pos" by auto
    obtain s1 st' ok where rs: "retry_settle env pos st s = (s1, st', ok)" by (metis prod_cases3)
    let ?s2 = "s1\<lparr>ss_retry_states := dset pid st' (ss_retry_states s1)\<rparr>"
    obtain n' ids' where r: "retry_loop env t items ?s2 = (s', n', ids')"
      and ids: "ids = (if ok then pid # ids' else ids')"
      using Cons.prems(3) it True skip pos rs by (auto simp: Let_def split: prod.splits if_splits)
    note l = retry_settle_live [OF Cons.prems(1,2) rs]
    have np2: "\<not> ss_paper_mode ?s2" using l(1) by simp
    note ih = Cons.IH [OF np2 Cons.prems(2) r dist]
    have same: "same_claim (ss_claims s) (ss_claims s') j" for j
      using same_claim_trans [OF l(4)] ih by simp
    have me: "pid \<notin> set ids' \<and> dget (ss_retry_states s') pid = Some st'" using ih nin by auto
    have "moved_on env s' ids q sq" if a: "(q, sq) \<in> set (it # items)" "due env t s q sq" for q sq
    proof (cases "(q, sq) = (pid, st)")
      case True
      then obtain c where c: "get_claim (ss_claims s) (rs_claim_id st) = Some c" "\<not> claim_is_success c"
        "p_position_id pos = pid" using a(2) pos by (auto simp: due_def)
      with l(5) [OF c(1,2)] me ids True show ?thesis by (simp add: moved_on_def)
    next
      case False
      then have q: "(q, sq) \<in> set items" using a(1) it by auto
      have "due env t s1 q sq" using l(4) a(2) by (rule due_same)
      then have "due env t ?s2 q sq" by (simp add: due_def)
      with ih q have "moved_on env s' ids' q sq" by blast
      with other [OF q] ids show ?thesis by (auto simp: moved_on_def)
    qed
    with ih l it same ids nin show ?thesis by (auto split: if_splits)
  qed
qed

text \<open>New positions only add claims and retry states of their own.\<close>

lemma settle_position_live:
  assumes "\<not> ss_paper_mode s" "relayer_fails env" "settle_position env pos s = (s', ok)"
  shows "\<not> ss_paper_mode s'" "ss_balance s' = ss_balance s"
    "j \<noteq> se_uuid env (p_position_id pos) \<Longrightarrow> same_claim (ss_claims s) (ss_claims s') j"
    "q \<noteq> p_position_id pos \<Longrightarrow> dget (ss_retry_states s') q = dget (ss_retry_states s) q"
proof -
  obtain m c where cr: "create_claim (p_condition_id pos) (p_position_id pos) (p_asset pos) (p_side pos)
      (se_uuid env (p_position_id pos)) (se_now env NewPhase (p_position_id pos)) (ss_claims s) = (m, c)"
    by fastforce
  obtain s1 ok1 where x: "execute_redeem_for_claim env NewPhase pos (c_claim_id c) (s\<lparr>ss_claims := m\<rparr>) = (s1, ok1)"
    by fastforce
  note l = live_redeem_fails [OF _ assms(2) x, simplified, OF assms(1)]
  have m: "j \<noteq> se_uuid env (p_position_id pos) \<Longrightarrow> same_claim (ss_claims s) m j" for j
    using cr by (auto simp: create_claim_def same_claim_def Let_def)
  show "\<not> ss_paper_mode s'" "ss_balance s' = ss_balance s"
    "j \<noteq> se_uuid env (p_position_id pos) \<Longrightarrow> same_claim (ss_claims s) (ss_claims s') j"
    "q \<noteq> p_position_id pos \<Longrightarrow> dget (ss_retry_states s') q = dget (ss_retry_states s) q"
    using assms(3) cr x l m same_claim_trans [OF m l(5)]
    by (auto simp: settle_position_def Let_def split: if_splits)
qed

lemma settle_loop_live:
  assumes "\<not> ss_paper_mode s" "relayer_fails env" "settle_loop env ps s = (s', n)"
    and "\<forall>p \<in> set ps. se_uuid env (p_position_id p) \<noteq> k"
    and "dget (ss_retry_states s) pid = Some st"
  shows "ss_balance s' = ss_balance s \<and> same_claim (ss_claims s) (ss_claims s') k \<and>
     dget (ss_retry_states s') pid = Some st"
  using assms
proof (induction ps arbitrary: s n)
  case Nil
  then show ?case by simp
next
  case (Cons pos ps)
  have rest: "\<forall>p \<in> set ps. se_uuid env (p_position_id p) \<noteq> k" using Cons.prems(4) by simp
  obtain s1 ok where ck: "check_resolved env pos s = (s1, ok)" by fastforce
  then have s1: "ss_paper_mode s1 = ss_paper_mode s" "ss_balance s1 = ss_balance s"
    "ss_claims s1 = ss_claims s" "ss_retry_states s1 = ss_retry_states s"
    by (auto simp: check_resolved_def Let_def split: if_splits)
  obtain s2 ok2 where st2: "settle_position env pos s1 = (s2, ok2)" by fastforce
  have np1: "\<not> ss_paper_mode s1" using s1(1) Cons.prems(1) by simp
  note l = settle_position_live [OF np1 Cons.prems(2) st2]
  show ?case
  proof (cases "dget (ss_retry_states s) (p_position_id pos) \<noteq> None \<or> is_settled s (p_position_id pos) \<or> \<not> ok")
    case True
    then obtain s0 where s0: "settle_loop env ps s0 = (s', n)" "s0 = s \<or> s0 = s1"
      using Cons.prems(3) ck by (auto split: if_splits)
    then have "\<not> ss_paper_mode s0" "dget (ss_retry_states s0) pid = Some st" "ss_balance s0 = ss_balance s"
      "ss_claims s0 = ss_claims s" using s1 Cons.prems by auto
    with Cons.IH [OF _ Cons.prems(2) s0(1) rest] show ?thesis by simp
  next
    case False
    then obtain n' where r: "settle_loop env ps s2 = (s', n')"
      using Cons.prems(3) ck st2 by (auto split: prod.splits)
    have ne: "p_position_id pos \<noteq> pid" using False Cons.prems(5) by auto
    have "dget (ss_retry_states s2) pid = Some st" using l(4) [of pid] ne s1(4) Cons.prems(5) by simp
    with Cons.IH [OF l(1) Cons.prems(2) r rest] show ?thesis
      using l(2,3) s1 Cons.prems(4) same_claim_trans [of "ss_claims s" "ss_claims s2" k "ss_claims s'"] by auto
  qed
qed


lemma dget_fold_dpop: "k \<notin> set ids \<Longrightarrow> dget (fold dpop ids d) k = dget d k"
  by (induction ids arbitrary: d) auto

lemma exhausted_stage:
  assumes live: "\<not> ss_paper_mode (w_settle w)" "relayer_fails (cy_settle env)"
    and wf: "wf_dict (ss_retry_states (w_settle w))"
    and st: "dget (ss_retry_states (w_settle w)) pid = Some st" "rs_attempt_count st = 19"
      "is_ready (se_time_ready (cy_settle env) pid) st"
    and pos: "get_position (ee_tracker (w_exec w)) pid = Some pos" "p_position_id pos = pid"
    and c: "get_claim (ss_claims (w_settle w)) (rs_claim_id st) = Some c" "claim_is_pending c"
      "c_position_id c = pid" "c_claim_id c = rs_claim_id st"
    and fresh: "\<forall>p. se_uuid (cy_settle env) p \<noteq> rs_claim_id st"
    and run: "settle_stage env w = (w', n, m)"
  shows "ee_balance (w_exec w') = ee_balance (w_exec w) \<and>
    (\<exists>c'. get_claim (ss_claims (w_settle w')) (rs_claim_id st) = Some c' \<and> claim_is_success c' \<and>
       c_outcome c' = REDEEMED_WON \<and> c_claimed_amount_usdc c' = c_claimed_amount_usdc c)"
proof -
  let ?env = "cy_settle env" and ?t = "ee_tracker (w_exec w)" and ?k = "rs_claim_id st"
  let ?s = "(w_settle w)\<lparr>ss_balance := ee_balance (w_exec w)\<rparr>"
  obtain s1 n1 ids where r: "retry_loop ?env ?t (ss_retry_states ?s) ?s = (s1, n1, ids)" by (metis prod_cases3)
  have np: "\<not> ss_paper_mode ?s" using live(1) by simp
  have dist: "distinct (map fst (ss_retry_states ?s))" using wf by (simp add: wf_dict_def)
  note l = retry_loop_live [OF np live(2) r dist]
  have "due ?env ?t ?s pid st" using st pos c by (auto simp: due_def claim_is_pending_def claim_is_success_def)
  moreover have "(pid, st) \<in> set (ss_retry_states ?s)" using st(1) by (simp add: map_of_SomeD)
  ultimately have mv: "moved_on ?env s1 ids pid st" using l by blast
  let ?st = "schedule_next (se_time_schedule ?env RetryPhase pid) st"
  let ?s2 = "s1\<lparr>ss_retry_states := fold dpop ids (ss_retry_states s1)\<rparr>"
  have st2: "dget (ss_retry_states ?s2) pid = Some ?st"
    using mv by (simp add: moved_on_def dget_fold_dpop)
  obtain s3 n2 where sl: "settle_loop ?env (redeemable ?t) ?s2 = (s3, n2)" by fastforce
  have np2: "\<not> ss_paper_mode ?s2" using l by simp
  have fr: "\<forall>p \<in> set (redeemable ?t). se_uuid ?env (p_position_id p) \<noteq> ?k" using fresh by simp
  note m2 = settle_loop_live [OF np2 live(2) sl fr st2]
  have "same_claim (ss_claims ?s) (ss_claims s3) ?k"
    using same_claim_trans [of "ss_claims ?s" "ss_claims s1" ?k "ss_claims s3"] l m2 by simp
  then obtain c3 where c3: "get_claim (ss_claims s3) ?k = Some c3" "c_claim_status c3 = c_claim_status c"
    "c_position_id c3 = c_position_id c" "c_claimed_amount_usdc c3 = c_claimed_amount_usdc c" "c_claim_id c3 = c_claim_id c"
    by (rule same_claimE) (use c in auto)
  have "rs_exhausted ?st"
    using schedule_next_exhausted [of st] st(2,3) by (auto simp: is_ready_def split: if_splits)
  then have out: "\<not> is_position_in_retry s3 (c_position_id c3)"
    using m2 c3 c by (simp add: is_position_in_retry_def)
  have mem: "c3 \<in> set (get_pending_claims (ss_claims s3))"
    using c3(1,2) c(2) by (force simp: get_pending_claims_def get_claim_def claim_is_pending_def dest: map_of_SomeD)
  obtain s4 n4 where rec: "reconcile_loop env (get_pending_claims (ss_claims s3)) s3 = (s4, n4)" by fastforce
  have "\<not> claim_is_success c3" using c3(2) c(2) by (simp add: claim_is_success_def claim_is_pending_def)
  from reconcile_settles [OF rec mem _ out c3(1) this] have fin: "ss_balance s4 = ss_balance s3"
    "\<exists>c'. get_claim (ss_claims s4) ?k = Some c' \<and> claim_is_success c' \<and> c_outcome c' = REDEEMED_WON \<and>
       c_claimed_amount_usdc c' = c_claimed_amount_usdc c" using c3 c by auto
  have "process_settlements ?env ?t ?s = (s3, n1 + n2)"
    using r sl by (simp add: process_settlements_def process_retries_def)
  then have "w_settle w' = s4" "ee_balance (w_exec w') = ss_balance s4"
    using run rec by (auto simp: settle_stage_def reconcile_external_def split: prod.splits)
  with fin m2 l show ?thesis by simp
qed

text \<open>A paper close at the missing price, which the cycle passes as 0.\<close>

lemma paper_close_at_zero:
  assumes g: "get_position (ee_tracker e) pid = Some r" and cl: "closing r"
    and lat: "p_close_reason r \<noteq> Some TAKE_PROFIT" and pap: "ee_paper_mode e" and cool: "\<not> in_cooldown env r e"
  shows "\<exists>e' r'. execute_close env pid 0 e = (e', Inr True) \<and> get_position (ee_tracker e') pid = Some r' \<and>
     p_state r' = PS_CLOSED \<and> p_exit_fill_price r' = 0 \<and> p_net_exit_usdc r' = 0 \<and>
     p_net_realized_pnl r' = py_round 4 (fsub 0 (p_requested_amount_usd r))"
proof -
  let ?r1 = "r\<lparr>p_state := PS_CLOSE_PENDING\<rparr>"
  have tp: "\<not> tp_cancels r 0 e" using lat by (simp add: tp_cancels_def)
  show ?thesis
    using g cl pap cool tp
    by (cases "p_state r = PS_CLOSE_FAILED")
      (auto simp: execute_close_def closing_def move_def transition_to_def finish_close_def
        confirm_close_def calculate_exit_at_zero Let_def)
qed

section \<open>Properties\<close>

definition example_world :: "bool \<Rightarrow> PositionTracker \<Rightarrow> SettleState \<Rightarrow> ExitWorld" where
  "example_world p t s = \<lparr>w_exec = example_exit_executor p t, w_evaluator = example_evaluator,
     w_settle = s, w_cycle_count = 0\<rparr>"

definition example_cycle_env :: CycleEnv where
  "example_cycle_env = \<lparr>cy_close_clock = (\<lambda>_. 90), cy_close = (\<lambda>_. example_close_env),
     cy_settle = example_settle_env, cy_reconcile_now = (\<lambda>_. 600)\<rparr>"

text \<open>C11. The exit cycle is total: on a tracker that satisfies its invariant, a cycle never raises
  (no invalid transition and no missing position), whatever the prices, the order answers and
  the settlement answers are; it counts itself once, triggers at most the positions that were
  open, and changes the tracker only by steps of its transition system, so the invariant holds
  for the next cycle.\<close>

theorem exit_cycle_total:
  assumes "trk_inv (ee_tracker (w_exec w))"
  shows "\<exists>w' r. run_cycle env inp w = (w', Inr r) \<and>
     trk_steps (ee_tracker (w_exec w)) (ee_tracker (w_exec w')) \<and> trk_inv (ee_tracker (w_exec w')) \<and>
     w_cycle_count w' = w_cycle_count w + 1 \<and>
     cr_triggers r \<le> int (length (get_open_positions (ee_tracker (w_exec w))))"
  using run_cycle_ok [OF assms, of env inp] trk_steps_inv [OF _ assms] by blast

theorem exit_cycle_total_witness:
  "\<exists>w' r. run_cycle example_cycle_env \<lparr>ci_prices = [(''BTC'', 1 / 4)], ci_remaining = [], ci_stale = []\<rparr>
       (example_world False example_open (example_settle False)) = (w', Inr r) \<and>
     trk_inv (ee_tracker (w_exec w'))"
proof -
  let ?w = "example_world False example_open (example_settle False)"
  have e: "ee_tracker (w_exec ?w) = example_open"
    by (simp add: example_world_def example_exit_executor_def)
  have "trk_inv (ee_tracker (w_exec ?w))"
    unfolding e using example_open_steps trk_inv_new by (rule trk_steps_inv)
  from exit_cycle_total [OF this] show ?thesis by blast
qed

text \<open>Stale and missing prices: without a positive price a position is not evaluated at all, and
  with a stale one the only close a cycle can request is a force sell; the evaluator's price
  memory is left alone in both cases.\<close>

theorem stale_price_guard:
  assumes "dget_or (ci_prices inp) (p_asset pos) 0 \<le> 0 \<or> p_asset pos \<in> set (ci_stale inp)"
  shows "fst (decide_exit inp pos ev) = ev \<and>
     (case snd (decide_exit inp pos ev) of None \<Rightarrow> True
      | Some (reason, trigs) \<Rightarrow> reason = FORCE_SELL \<and> trigs \<noteq> [] \<and>
          0 < dget_or (ci_prices inp) (p_asset pos) 0)"
proof (cases "dget_or (ci_prices inp) (p_asset pos) 0 \<le> 0")
  case True
  then show ?thesis by (simp add: decide_exit_no_price)
next
  case False
  then have "p_asset pos \<in> set (ci_stale inp)" using assms by simp
  then show ?thesis
    using False force_sell_detail(1) [of pos _ _ False ev]
    by (auto simp: decide_exit_def Let_def)
qed

theorem stale_price_guard_witness:
  "fst (decide_exit \<lparr>ci_prices = [(''BTC'', 1 / 2)], ci_remaining = [(''BTC'', 10)], ci_stale = [''BTC'']\<rparr>
       (the (get_position example_open ''p1'')) example_evaluator) = example_evaluator"
  by (rule stale_price_guard [THEN conjunct1]) code_simp

text \<open>C12. A live claim whose retries run out is booked as won. When the twentieth attempt fails (the
  relayer of the repository always fails), the same exit cycle's reconciliation finds the claim
  pending and out of retry, takes it for an external redemption and marks it a success with
  outcome REDEEMED_WON, although nothing was redeemed: the claimed amount and the balance are
  unchanged. The position then counts as settled and is never retried.\<close>

theorem live_exhaustion_booked_as_won:
  assumes "\<not> ss_paper_mode (w_settle w)"
    and "\<forall>ph p. se_relayer (cy_settle env) ph p = redeem_positions initialized"
    and "wf_dict (ss_retry_states (w_settle w))"
    and "dget (ss_retry_states (w_settle w)) pid = Some st" "rs_attempt_count st = 19"
    and "is_ready (se_time_ready (cy_settle env) pid) st"
    and "get_position (ee_tracker (w_exec w)) pid = Some pos" "p_position_id pos = pid"
    and "get_claim (ss_claims (w_settle w)) (rs_claim_id st) = Some c" "claim_is_pending c"
    and "c_position_id c = pid" "c_claim_id c = rs_claim_id st"
    and "\<forall>p. se_uuid (cy_settle env) p \<noteq> rs_claim_id st"
    and "settle_stage env w = (w', n, m)"
  shows "ee_balance (w_exec w') = ee_balance (w_exec w) \<and>
    (\<exists>c'. get_claim (ss_claims (w_settle w')) (rs_claim_id st) = Some c' \<and> claim_is_success c' \<and>
       c_outcome c' = REDEEMED_WON \<and> c_claimed_amount_usdc c' = c_claimed_amount_usdc c)"
proof -
  have f: "relayer_fails (cy_settle env)"
    using assms(2) by (simp add: relayer_fails_def redeem_positions_def)
  show ?thesis by (rule exhausted_stage [OF assms(1) f assms(3-14)])
qed

definition example_retrying :: SettleState where
  "example_retrying = (example_settle False)
     \<lparr>ss_retry_states := [(''p1'', \<lparr>rs_position_id = ''p1'', rs_claim_id = ''k1'', rs_attempt_count = 19,
        rs_next_retry_at = 400, rs_exhausted = False\<rparr>)], ss_claims := example_claims False\<rparr>"

theorem live_exhaustion_booked_as_won_witness:
  "\<exists>c'. get_claim (ss_claims (w_settle (fst (settle_stage example_cycle_env
       (example_world False example_expired example_retrying))))) ''k1'' = Some c' \<and>
     claim_is_success c' \<and> c_outcome c' = REDEEMED_WON"
proof -
  let ?w = "example_world False example_expired example_retrying"
  let ?st = "the (dget (ss_retry_states (w_settle ?w)) ''p1'')"
  let ?pos = "the (get_position (ee_tracker (w_exec ?w)) ''p1'')"
  let ?c = "the (get_claim (ss_claims (w_settle ?w)) ''k1'')"
  have "get_position example_expired ''p1'' \<noteq> None \<and> p_position_id (the (get_position example_expired ''p1'')) = ''p1''"
    by code_simp
  moreover have "get_claim (example_claims False) ''k1'' \<noteq> None \<and> claim_is_pending (the (get_claim (example_claims False) ''k1'')) \<and>
      c_position_id (the (get_claim (example_claims False) ''k1'')) = ''p1'' \<and>
      c_claim_id (the (get_claim (example_claims False) ''k1'')) = ''k1''"
    by code_simp
  ultimately have f: "\<not> ss_paper_mode (w_settle ?w)" "wf_dict (ss_retry_states (w_settle ?w))"
    "dget (ss_retry_states (w_settle ?w)) ''p1'' \<noteq> None" "rs_attempt_count ?st = 19"
    "rs_claim_id ?st = ''k1''" "is_ready (se_time_ready (cy_settle example_cycle_env) ''p1'') ?st"
    "get_position (ee_tracker (w_exec ?w)) ''p1'' \<noteq> None" "p_position_id ?pos = ''p1''"
    "get_claim (ss_claims (w_settle ?w)) ''k1'' \<noteq> None" "claim_is_pending ?c"
    "c_position_id ?c = ''p1''" "c_claim_id ?c = ''k1''"
    by (simp_all add: example_world_def example_retrying_def example_settle_def example_exit_executor_def wf_dict_def
        is_ready_def example_cycle_env_def example_settle_env_def)
  have rel: "\<forall>ph p. se_relayer (cy_settle example_cycle_env) ph p = redeem_positions True"
    "\<forall>p. se_uuid (cy_settle example_cycle_env) p \<noteq> ''k1''"
    by (simp_all add: example_cycle_env_def example_settle_env_def)
  obtain w' n m where s: "settle_stage example_cycle_env ?w = (w', n, m)" by (metis prod_cases3)
  have g: "dget (ss_retry_states (w_settle ?w)) ''p1'' = Some ?st"
    "get_position (ee_tracker (w_exec ?w)) ''p1'' = Some ?pos"
    "get_claim (ss_claims (w_settle ?w)) (rs_claim_id ?st) = Some ?c" using f(3,7,9) unfolding f(5) by auto
  have i: "c_claim_id ?c = rs_claim_id ?st" "\<forall>p. se_uuid (cy_settle example_cycle_env) p \<noteq> rs_claim_id ?st"
    unfolding f(5) by (rule f(12), rule rel(2))
  have "\<exists>c'. get_claim (ss_claims (w_settle w')) (rs_claim_id ?st) = Some c' \<and> claim_is_success c' \<and>
      c_outcome c' = REDEEMED_WON \<and> c_claimed_amount_usdc c' = c_claimed_amount_usdc ?c"
    by (rule live_exhaustion_booked_as_won [OF f(1) rel(1) f(2) g(1) f(4,6) g(2) f(8) g(3) f(10,11) i s, THEN conjunct2])
  then show ?thesis unfolding f(5) s by auto
qed

text \<open>A paper close without a price loses the whole stake. The cycle passes 0 for an asset without
  a price, and \<open>execute_close\<close> does not check it: unless the close is a take profit, the paper
  position is closed at price 0 with zero proceeds and the full amount as its realised loss.\<close>

theorem paper_close_without_price:
  assumes "get_position (ee_tracker e) pid = Some r" and "closing r"
    and "p_close_reason r \<noteq> Some TAKE_PROFIT" and "ee_paper_mode e" and "\<not> in_cooldown env r e"
    and "binary64 (p_requested_amount_usd r)"
  shows "\<exists>e' r'. execute_close env pid 0 e = (e', Inr True) \<and>
     get_position (ee_tracker e') pid = Some r' \<and> p_state r' = PS_CLOSED \<and> p_exit_fill_price r' = 0 \<and>
     p_net_exit_usdc r' = 0 \<and> p_net_realized_pnl r' = - py_round 4 (p_requested_amount_usd r)"
proof -
  have "fsub 0 (p_requested_amount_usd r) = - p_requested_amount_usd r"
    using assms(6) by (simp add: fsub_def fl_uminus binary64_iff)
  then show ?thesis using paper_close_at_zero [OF assms(1-5)] by (auto simp: py_round_uminus)
qed

theorem paper_close_without_price_witness:
  "\<exists>e' r'. execute_close example_close_env ''p1'' 0 (example_exit_executor True (example_closing FORCE_SELL)) = (e', Inr True) \<and>
     get_position (ee_tracker e') ''p1'' = Some r' \<and> p_net_realized_pnl r' = - py_round 4 4"
proof -
  let ?e = "example_exit_executor True (example_closing FORCE_SELL)"
  let ?r = "the (get_position (ee_tracker ?e) ''p1'')"
  have "get_position (example_closing FORCE_SELL) ''p1'' \<noteq> None \<and>
      closing (the (get_position (example_closing FORCE_SELL) ''p1'')) \<and>
      p_close_reason (the (get_position (example_closing FORCE_SELL) ''p1'')) \<noteq> Some TAKE_PROFIT \<and>
      p_requested_amount_usd (the (get_position (example_closing FORCE_SELL) ''p1'')) = 4"
    by code_simp
  then have f: "get_position (ee_tracker ?e) ''p1'' \<noteq> None" "closing ?r"
    "p_close_reason ?r \<noteq> Some TAKE_PROFIT" "ee_paper_mode ?e" "\<not> in_cooldown example_close_env ?r ?e"
    "p_requested_amount_usd ?r = 4"
    by (simp_all add: example_exit_executor_def in_cooldown_def)
  then have g: "get_position (ee_tracker ?e) ''p1'' = Some ?r" by simp
  have b: "binary64 (p_requested_amount_usd ?r)" unfolding f(6) by (simp add: binary64_iff fl_numeral)
  from paper_close_without_price [OF g f(2-5) b] show ?thesis unfolding f(6) by blast
qed

end
