(* ===== verification/MarketData.thy ===== *)
theory MarketData
  imports Json
begin

text \<open>
  \<^verbatim>\<open>backend/market_data/live_price.py\<close> and \<^verbatim>\<open>ws_price_bridge.py\<close>: the price records of the tracked
  events, and the routing of WebSocket messages to them.

  Every read passes through \<open>check_freshness\<close>, which may turn a record stale in place, so reads
  return the changed pipeline too. The clock is an argument.
\<close>

section \<open>Price records\<close>

datatype PriceSource = RTDS_WS | GAMMA_OUTCOME_PRICES | SRC_NONE

datatype PriceStatus = PS_FRESH | PS_STALE | PS_INVALID | PS_WAITING

definition DEFAULT_STALE_THRESHOLD_SEC :: int where "DEFAULT_STALE_THRESHOLD_SEC = 30"

record LivePriceRecord =
  l_condition_id :: string
  l_asset :: string
  l_up_bid :: num
  l_up_ask :: num
  l_down_bid :: num
  l_down_ask :: num
  l_spread :: num
  l_status :: PriceStatus
  l_updated_at :: "usec option"
  l_source :: PriceSource
  l_stale_threshold_sec :: int

definition new_price :: "string \<Rightarrow> string \<Rightarrow> int \<Rightarrow> LivePriceRecord" where
  "new_price cid asset thr = \<lparr>l_condition_id = cid, l_asset = asset, l_up_bid = 0, l_up_ask = 0,
     l_down_bid = 0, l_down_ask = 0, l_spread = 0, l_status = PS_WAITING, l_updated_at = None,
     l_source = SRC_NONE, l_stale_threshold_sec = thr\<rparr>"

definition best_bid :: "LivePriceRecord \<Rightarrow> num" where
  "best_bid r = (if l_down_bid r \<le> l_up_bid r then l_up_bid r else l_down_bid r)"

definition best_ask :: "LivePriceRecord \<Rightarrow> num" where
  "best_ask r = (if l_down_bid r \<le> l_up_bid r then l_up_ask r else l_down_ask r)"

definition display_up :: "LivePriceRecord \<Rightarrow> num" where
  "display_up r = (if 0 < l_up_bid r \<and> 0 < l_up_ask r
     then py_round 4 (fdiv (fadd (l_up_bid r) (l_up_ask r)) 2) else l_up_bid r)"

definition display_down :: "LivePriceRecord \<Rightarrow> num" where
  "display_down r = (if 0 < l_down_bid r \<and> 0 < l_down_ask r
     then py_round 4 (fdiv (fadd (l_down_bid r) (l_down_ask r)) 2) else l_down_bid r)"

definition price_is_fresh :: "usec \<Rightarrow> LivePriceRecord \<Rightarrow> bool" where
  "price_is_fresh now r = (case l_updated_at r of
       None \<Rightarrow> False
     | Some t \<Rightarrow> l_status r \<noteq> PS_INVALID \<and> total_seconds (now - t) \<le> of_int (l_stale_threshold_sec r))"

definition price_is_stale :: "usec \<Rightarrow> LivePriceRecord \<Rightarrow> bool" where
  "price_is_stale now r = (case l_updated_at r of
       None \<Rightarrow> False
     | Some t \<Rightarrow> of_int (l_stale_threshold_sec r) < total_seconds (now - t))"

definition price_is_valid :: "LivePriceRecord \<Rightarrow> bool" where
  "price_is_valid r \<longleftrightarrow> l_status r = PS_FRESH \<or> l_status r = PS_STALE"

definition check_freshness :: "usec \<Rightarrow> LivePriceRecord \<Rightarrow> LivePriceRecord" where
  "check_freshness now r =
     (if l_status r = PS_INVALID \<or> l_status r = PS_WAITING then r
      else if price_is_stale now r then r\<lparr>l_status := PS_STALE\<rparr> else r)"

section \<open>The pipeline\<close>

record LivePricePipeline =
  pl_records :: "(string, LivePriceRecord) dict"
  pl_stale_threshold :: int

definition is_valid_price :: "flt \<Rightarrow> bool" where
  "is_valid_price p = flt_in_oc 0 1 p"

definition is_valid_ws_price :: "flt \<Rightarrow> bool" where
  "is_valid_ws_price p = flt_in_oc 0 1 p"

text \<open>The record \<^verbatim>\<open>_get_or_create\<close> returns, and the pipeline after it.\<close>

definition get_or_create :: "string \<Rightarrow> string \<Rightarrow> LivePricePipeline \<Rightarrow> LivePricePipeline \<times> LivePriceRecord" where
  "get_or_create cid asset p = (case dget (pl_records p) cid of
       Some r \<Rightarrow> (p, r)
     | None \<Rightarrow> (let r = new_price cid asset (pl_stale_threshold p)
         in (p\<lparr>pl_records := dset cid r (pl_records p)\<rparr>, r)))"

definition put_price :: "string \<Rightarrow> LivePriceRecord \<Rightarrow> LivePricePipeline \<Rightarrow> LivePricePipeline" where
  "put_price cid r p = p\<lparr>pl_records := dset cid r (pl_records p)\<rparr>"

definition set_side :: "string \<Rightarrow> num \<Rightarrow> num \<Rightarrow> LivePriceRecord \<Rightarrow> LivePriceRecord option" where
  "set_side side bid ask r =
     (if str_lower side = ''up'' then Some (r\<lparr>l_up_bid := bid, l_up_ask := ask\<rparr>)
      else if str_lower side = ''down'' then Some (r\<lparr>l_down_bid := bid, l_down_ask := ask\<rparr>)
      else None)"

definition set_spread :: "LivePriceRecord \<Rightarrow> LivePriceRecord" where
  "set_spread r = (if 0 < best_bid r \<and> 0 < best_ask r
     then r\<lparr>l_spread := py_round 4 (fsub (best_ask r) (best_bid r))\<rparr> else r)"

definition update_from_ws ::
  "usec \<Rightarrow> string \<Rightarrow> string \<Rightarrow> string \<Rightarrow> flt \<Rightarrow> flt \<Rightarrow> LivePricePipeline \<Rightarrow> LivePricePipeline \<times> LivePriceRecord" where
  "update_from_ws now cid asset side bid ask p0 =
     (let (p, r) = get_or_create cid asset p0
      in if \<not> is_valid_ws_price bid \<or> \<not> is_valid_ws_price ask then
           (let r' = (if l_status r = PS_WAITING then r\<lparr>l_status := PS_INVALID\<rparr> else r)
            in (put_price cid r' p, r'))
         else case set_side side (the_num bid) (the_num ask) r of
           None \<Rightarrow> (p, r)
         | Some r1 \<Rightarrow> (let r' = (set_spread r1)\<lparr>l_status := PS_FRESH, l_updated_at := Some now, l_source := RTDS_WS\<rparr>
             in (put_price cid r' p, r')))"

text \<open>
  \<^verbatim>\<open>outcomePrices\<close> is a JSON text or a list: \<open>Gamma_text\<close> carries what \<^verbatim>\<open>json.loads\<close> makes of the text
  (\<open>None\<close>: it does not parse), \<open>Gamma_value\<close> any other value.
\<close>

datatype gamma_raw = Gamma_text "json option" | Gamma_value json

definition parse_outcome_prices :: "gamma_raw \<Rightarrow> (flt \<times> flt) option" where
  "parse_outcome_prices raw =
     (let parsed = (case raw of Gamma_text j \<Rightarrow> j | Gamma_value j \<Rightarrow> Some j)
      in case parsed of
           Some (JList (u # d # _)) \<Rightarrow>
             (case py_float u of Inl e \<Rightarrow> None
              | Inr up \<Rightarrow> (case py_float d of Inl e \<Rightarrow> None | Inr down \<Rightarrow> Some (up, down)))
         | _ \<Rightarrow> None)"

definition update_from_gamma ::
  "usec \<Rightarrow> string \<Rightarrow> string \<Rightarrow> gamma_raw \<Rightarrow> num \<Rightarrow> LivePricePipeline \<Rightarrow> LivePricePipeline \<times> LivePriceRecord" where
  "update_from_gamma now cid asset raw spread p0 =
     (let (p, r) = get_or_create cid asset p0;
          invalid = r\<lparr>l_status := PS_INVALID\<rparr>
      in case parse_outcome_prices raw of
           None \<Rightarrow> (put_price cid invalid p, invalid)
         | Some (up, down) \<Rightarrow>
             if \<not> is_valid_price up \<or> \<not> is_valid_price down then (put_price cid invalid p, invalid)
             else (let r' = r\<lparr>l_up_bid := the_num up, l_up_ask := the_num up, l_down_bid := the_num down, l_down_ask := the_num down,
                       l_spread := spread, l_status := PS_FRESH, l_updated_at := Some now, l_source := GAMMA_OUTCOME_PRICES\<rparr>
                   in (put_price cid r' p, r')))"

definition pipeline_get_record :: "usec \<Rightarrow> string \<Rightarrow> LivePricePipeline \<Rightarrow> LivePricePipeline \<times> LivePriceRecord option" where
  "pipeline_get_record now cid p = (case dget (pl_records p) cid of
       None \<Rightarrow> (p, None)
     | Some r \<Rightarrow> (let r' = check_freshness now r in (put_price cid r' p, Some r')))"

definition pipeline_get_by_asset :: "usec \<Rightarrow> string \<Rightarrow> LivePricePipeline \<Rightarrow> LivePricePipeline \<times> LivePriceRecord option" where
  "pipeline_get_by_asset now asset p =
     (case find (\<lambda>(cid, r). str_upper (l_asset r) = str_upper asset) (pl_records p) of
       None \<Rightarrow> (p, None)
     | Some (cid, r) \<Rightarrow> (let r' = check_freshness now r in (put_price cid r' p, Some r')))"

definition check_all :: "usec \<Rightarrow> LivePricePipeline \<Rightarrow> LivePricePipeline" where
  "check_all now p = p\<lparr>pl_records := map (\<lambda>(cid, r). (cid, check_freshness now r)) (pl_records p)\<rparr>"

definition pipeline_get_all :: "usec \<Rightarrow> LivePricePipeline \<Rightarrow> LivePricePipeline \<times> LivePriceRecord list" where
  "pipeline_get_all now p = (let p' = check_all now p in (p', dvals (pl_records p')))"

definition pipeline_clear_event :: "string \<Rightarrow> LivePricePipeline \<Rightarrow> LivePricePipeline" where
  "pipeline_clear_event cid p = p\<lparr>pl_records := dpop cid (pl_records p)\<rparr>"

text \<open>The assets with a health incident and the status each is reported for.\<close>

definition pipeline_incidents :: "usec \<Rightarrow> LivePricePipeline \<Rightarrow> LivePricePipeline \<times> (string \<times> PriceStatus) list" where
  "pipeline_incidents now p = (let p' = check_all now p
     in (p', map (\<lambda>r. (l_asset r, l_status r))
               (filter (\<lambda>r. l_status r = PS_STALE \<or> l_status r = PS_INVALID) (dvals (pl_records p')))))"

definition fresh_count :: "usec \<Rightarrow> LivePricePipeline \<Rightarrow> nat" where
  "fresh_count now p = dcount (price_is_fresh now) (pl_records p)"

definition stale_count :: "usec \<Rightarrow> LivePricePipeline \<Rightarrow> nat" where
  "stale_count now p = dcount (price_is_stale now) (pl_records p)"

definition invalid_count :: "LivePricePipeline \<Rightarrow> nat" where
  "invalid_count p = dcount (\<lambda>r. l_status r = PS_INVALID) (pl_records p)"

section \<open>The WebSocket bridge\<close>

record TokenRoute =
  rt_token_id :: string
  rt_condition_id :: string
  rt_asset :: string
  rt_side :: string

record WSPriceBridge =
  br_pipeline :: LivePricePipeline
  br_token_routes :: "(string, TokenRoute) dict"
  br_last_message_at :: "(string, usec) dict"
  br_total_routed :: int
  br_total_skipped :: int

definition register_token :: "string \<Rightarrow> string \<Rightarrow> string \<Rightarrow> string \<Rightarrow> WSPriceBridge \<Rightarrow> WSPriceBridge" where
  "register_token tid cid asset side b = b\<lparr>br_token_routes := dset tid
     \<lparr>rt_token_id = tid, rt_condition_id = cid, rt_asset = asset, rt_side = side\<rparr> (br_token_routes b)\<rparr>"

definition unregister_token :: "string \<Rightarrow> WSPriceBridge \<Rightarrow> WSPriceBridge" where
  "unregister_token tid b = b\<lparr>br_token_routes := dpop tid (br_token_routes b),
     br_last_message_at := dpop tid (br_last_message_at b)\<rparr>"

definition bridge_clear_all :: "WSPriceBridge \<Rightarrow> WSPriceBridge" where
  "bridge_clear_all b = b\<lparr>br_token_routes := [], br_last_message_at := []\<rparr>"

definition registered_token_ids :: "WSPriceBridge \<Rightarrow> string list" where
  "registered_token_ids b = dkeys (br_token_routes b)"

text \<open>\<^verbatim>\<open>obj[k]\<close>\<close>

fun jindex :: "json \<Rightarrow> string \<Rightarrow> exc + json" where
  "jindex (JObj kvs) k = (case dget kvs k of None \<Rightarrow> Inl KeyError | Some v \<Rightarrow> Inr v)"
| "jindex j k = Inl TypeError"

text \<open>
  \<^verbatim>\<open>float(b["price"]) for b in levels if b.get("price")\<close>: the prices of a book side. Its
  \<^verbatim>\<open>AttributeError\<close> is not caught by \<^verbatim>\<open>_extract_prices\<close>.
\<close>

fun level_prices :: "json list \<Rightarrow> exc + flt list" where
  "level_prices [] = Inr []"
| "level_prices (b # bs) = (case jget b ''price'' JNull of
     Inl e \<Rightarrow> Inl e
   | Inr pr \<Rightarrow> if \<not> truthy pr then level_prices bs
       else case py_float pr of
         Inl e \<Rightarrow> Inl e
       | Inr x \<Rightarrow> (case level_prices bs of Inl e \<Rightarrow> Inl e | Inr xs \<Rightarrow> Inr (x # xs)))"

text \<open>
  \<^verbatim>\<open>max\<close> and \<^verbatim>\<open>min\<close> of the prices: an empty book side raises, and a later item replaces the candidate
  only if it compares strictly better.
\<close>

definition best_of :: "(flt \<Rightarrow> flt \<Rightarrow> bool) \<Rightarrow> flt list \<Rightarrow> exc + flt" where
  "best_of better xs = (case xs of [] \<Rightarrow> Inl ValueError
     | y # ys \<Rightarrow> Inr (foldl (\<lambda>a b. if better b a then b else a) y ys))"

fun json_items :: "json \<Rightarrow> exc + json list" where
  "json_items (JList xs) = Inr xs"
| "json_items (JStr s) = Inr (map (\<lambda>c. JStr [c]) s)"
| "json_items (JObj kvs) = Inr (map (JStr \<circ> fst) kvs)"
| "json_items j = Inl TypeError"

text \<open>The two errors a price conversion may raise are turned into \<^verbatim>\<open>(None, None)\<close>.\<close>

definition caught :: "exc + 'a \<Rightarrow> exc + 'a option" where
  "caught r = (case r of Inr x \<Rightarrow> Inr (Some x)
     | Inl e \<Rightarrow> if e \<in> {ValueError, TypeError, KeyError} then Inr None else Inl e)"

definition book_prices :: "json \<Rightarrow> json \<Rightarrow> exc + flt \<times> flt" where
  "book_prices bids asks =
     (case json_items bids of Inl e \<Rightarrow> Inl e | Inr bs \<Rightarrow>
      case level_prices bs of Inl e \<Rightarrow> Inl e | Inr bp \<Rightarrow>
      case best_of (\<lambda>x y. flt_less y x) bp of Inl e \<Rightarrow> Inl e | Inr bid \<Rightarrow>
      case json_items asks of Inl e \<Rightarrow> Inl e | Inr as \<Rightarrow>
      case level_prices as of Inl e \<Rightarrow> Inl e | Inr ap \<Rightarrow>
      case best_of flt_less ap of Inl e \<Rightarrow> Inl e | Inr ask \<Rightarrow> Inr (bid, ask))"

definition extract_prices :: "(string \<times> json) list \<Rightarrow> exc + (flt \<times> flt) option" where
  "extract_prices ev =
     (case (dget ev ''best_bid'', dget ev ''best_ask'') of
        (Some b, Some a) \<Rightarrow> caught (case py_float b of Inl e \<Rightarrow> Inl e
          | Inr bid \<Rightarrow> (case py_float a of Inl e \<Rightarrow> Inl e | Inr ask \<Rightarrow> Inr (bid, ask)))
      | _ \<Rightarrow>
        (let bids = dget_or ev ''bids'' (JList []); asks = dget_or ev ''asks'' (JList [])
         in if truthy bids \<and> truthy asks then caught (book_prices bids asks)
            else case dget ev ''price'' of
              Some p \<Rightarrow> caught (case py_float p of Inl e \<Rightarrow> Inl e | Inr x \<Rightarrow> Inr (x, x))
            | None \<Rightarrow> Inr None))"

text \<open>
  One market event. The token id is used as a dictionary key: an unhashable one raises, any
  other one that is not a string is not registered.
\<close>

definition process_single_event :: "usec \<Rightarrow> json \<Rightarrow> WSPriceBridge \<Rightarrow> (WSPriceBridge, unit) outcome" where
  "process_single_event now event b =
     (case jget event ''asset_id'' (JStr []) of
        Inl e \<Rightarrow> (b, Inl e)
      | Inr aid \<Rightarrow>
        if \<not> truthy aid then (b, Inr ())
        else case aid of
          JList xs \<Rightarrow> (b, Inl TypeError)
        | JObj kvs \<Rightarrow> (b, Inl TypeError)
        | _ \<Rightarrow>
          (case (case aid of JStr tid \<Rightarrow> dget (br_token_routes b) tid | _ \<Rightarrow> None) of
             None \<Rightarrow> (b\<lparr>br_total_skipped := br_total_skipped b + 1\<rparr>, Inr ())
           | Some route \<Rightarrow>
             (case extract_prices (case event of JObj kvs \<Rightarrow> kvs | _ \<Rightarrow> []) of
                Inl e \<Rightarrow> (b, Inl e)
              | Inr None \<Rightarrow> (b, Inr ())
              | Inr (Some (bid, ask)) \<Rightarrow>
                (let p = fst (update_from_ws now (rt_condition_id route) (rt_asset route) (rt_side route) bid ask (br_pipeline b))
                 in (b\<lparr>br_pipeline := p,
                       br_last_message_at := dset (case aid of JStr tid \<Rightarrow> tid | _ \<Rightarrow> []) now (br_last_message_at b),
                       br_total_routed := br_total_routed b + 1\<rparr>, Inr ())))))"

fun process_events :: "usec \<Rightarrow> json list \<Rightarrow> WSPriceBridge \<Rightarrow> (WSPriceBridge, unit) outcome" where
  "process_events now [] b = (b, Inr ())"
| "process_events now (ev # evs) b = ebind (process_single_event now ev b) (\<lambda>b' _. process_events now evs b')"

definition on_ws_message :: "usec \<Rightarrow> json \<Rightarrow> WSPriceBridge \<Rightarrow> (WSPriceBridge, unit) outcome" where
  "on_ws_message now data b =
     (case data of
        JList items \<Rightarrow> process_events now items b
      | JObj kvs \<Rightarrow>
          (case dget_or kvs ''event_type'' (JStr []) of
             JStr ty \<Rightarrow> if ty = ''price_change'' \<or> ty = ''last_trade_price'' then
                 (case json_items (dget_or kvs ''price_changes'' (JList [])) of
                    Inl e \<Rightarrow> (b, Inl e)
                  | Inr pcs \<Rightarrow> process_events now pcs b)
               else process_single_event now data b
           | _ \<Rightarrow> process_single_event now data b)
      | _ \<Rightarrow> (b, Inr ()))"

text \<open>The tokens with a health incident: nothing received yet, or nothing for a minute.\<close>

definition bridge_incidents :: "usec \<Rightarrow> WSPriceBridge \<Rightarrow> (string \<times> bool) list" where
  "bridge_incidents now b = concat (map (\<lambda>(tid, route). case dget (br_last_message_at b) tid of
       None \<Rightarrow> [(tid, False)]
     | Some t \<Rightarrow> if 60 < total_seconds (now - t) then [(tid, True)] else []) (br_token_routes b))"

section \<open>What the pipeline keeps\<close>

text \<open>
  A record's prices: both prices of a side are missing (0) together or lie in (0, 1]; a valid
  status means that a side was quoted and when.
\<close>

definition side_ok :: "num \<Rightarrow> num \<Rightarrow> bool" where
  "side_ok bid ask \<longleftrightarrow> (bid = 0 \<and> ask = 0) \<or> (0 < bid \<and> bid \<le> 1 \<and> 0 < ask \<and> ask \<le> 1)"

definition price_ok :: "LivePriceRecord \<Rightarrow> bool" where
  "price_ok r \<longleftrightarrow> side_ok (l_up_bid r) (l_up_ask r) \<and> side_ok (l_down_bid r) (l_down_ask r) \<and>
     (if price_is_valid r then l_updated_at r \<noteq> None \<and> (0 < l_up_bid r \<or> 0 < l_down_bid r) else True)"

definition pipeline_ok :: "LivePricePipeline \<Rightarrow> bool" where
  "pipeline_ok p \<longleftrightarrow> wf_dict (pl_records p) \<and> (\<forall>(cid, r) \<in> set (pl_records p). price_ok r)"

lemma pipeline_ok_dget: "pipeline_ok p \<Longrightarrow> dget (pl_records p) cid = Some r \<Longrightarrow> price_ok r"
  by (auto simp: pipeline_ok_def dest: map_of_SomeD)

lemma pipeline_ok_alt:
  "wf_dict (pl_records p) \<Longrightarrow> pipeline_ok p \<longleftrightarrow> (\<forall>cid r. dget (pl_records p) cid = Some r \<longrightarrow> price_ok r)"
  by (auto simp: pipeline_ok_def wf_dget_iff)

lemma put_price_ok: "pipeline_ok p \<Longrightarrow> price_ok r \<Longrightarrow> pipeline_ok (put_price cid r p)"
proof -
  assume p: "pipeline_ok p" and r: "price_ok r"
  have "wf_dict (pl_records (put_price cid r p))" using p by (simp add: put_price_def pipeline_ok_def)
  then show ?thesis
    using p r by (auto simp: pipeline_ok_alt put_price_def split: if_splits dest: pipeline_ok_dget)
qed

lemma new_price_ok: "price_ok (new_price cid asset thr)"
  by (simp add: price_ok_def new_price_def side_ok_def price_is_valid_def)

lemma get_or_create_ok:
  assumes "pipeline_ok p" "get_or_create cid asset p = (p', r)"
  shows "pipeline_ok p' \<and> price_ok r"
  using assms put_price_ok [OF assms(1) new_price_ok, of cid cid asset "pl_stale_threshold p"]
  by (auto simp: get_or_create_def new_price_ok put_price_def Let_def dest: pipeline_ok_dget split: option.splits)

lemma get_or_create_frame:
  "get_or_create cid asset p = (p', r) \<Longrightarrow> c \<noteq> cid \<Longrightarrow> dget (pl_records p') c = dget (pl_records p) c"
  by (auto simp: get_or_create_def Let_def split: option.splits)

lemma put_price_frame [simp]:
  "dget (pl_records (put_price cid r p)) c = (if c = cid then Some r else dget (pl_records p) c)"
  by (simp add: put_price_def)

lemma check_freshness_fields [simp]:
  "l_up_bid (check_freshness now r) = l_up_bid r" "l_up_ask (check_freshness now r) = l_up_ask r"
  "l_down_bid (check_freshness now r) = l_down_bid r" "l_down_ask (check_freshness now r) = l_down_ask r"
  "l_updated_at (check_freshness now r) = l_updated_at r" "l_asset (check_freshness now r) = l_asset r"
  "l_condition_id (check_freshness now r) = l_condition_id r"
  "l_stale_threshold_sec (check_freshness now r) = l_stale_threshold_sec r"
  by (simp_all add: check_freshness_def)

lemma check_freshness_valid [simp]: "price_is_valid (check_freshness now r) = price_is_valid r"
  by (cases "l_status r") (simp_all add: check_freshness_def price_is_valid_def)

lemma check_freshness_ok: "price_ok r \<Longrightarrow> price_ok (check_freshness now r)"
  by (simp add: price_ok_def)

lemma check_freshness_fresh:
  assumes "price_ok r" "l_status (check_freshness now r) = PS_FRESH"
  shows "price_is_fresh now r"
proof -
  have "l_status r = PS_FRESH" "\<not> price_is_stale now r"
    using assms(2) by (auto simp: check_freshness_def split: if_splits)
  moreover from this assms(1) obtain t where "l_updated_at r = Some t"
    by (auto simp: price_ok_def price_is_valid_def)
  ultimately show ?thesis by (simp add: price_is_fresh_def price_is_stale_def not_less)
qed

lemma set_spread_fields [simp]:
  "l_up_bid (set_spread r) = l_up_bid r" "l_up_ask (set_spread r) = l_up_ask r"
  "l_down_bid (set_spread r) = l_down_bid r" "l_down_ask (set_spread r) = l_down_ask r"
  "l_condition_id (set_spread r) = l_condition_id r" "l_asset (set_spread r) = l_asset r"
  by (simp_all add: set_spread_def)

lemma set_side_cases:
  "set_side side b a r = Some r' \<longleftrightarrow>
     (str_lower side = ''up'' \<and> r' = r\<lparr>l_up_bid := b, l_up_ask := a\<rparr>) \<or>
     (str_lower side = ''down'' \<and> r' = r\<lparr>l_down_bid := b, l_down_ask := a\<rparr>)"
  by (auto simp: set_side_def)

lemma update_from_ws_ok:
  assumes "pipeline_ok p" shows "pipeline_ok (fst (update_from_ws now cid asset side bid ask p))"
proof -
  obtain q r where g: "get_or_create cid asset p = (q, r)" by fastforce
  note ok = get_or_create_ok [OF assms g]
  show ?thesis
  proof (cases "is_valid_ws_price bid \<and> is_valid_ws_price ask")
    case False
    have "price_ok (if l_status r = PS_WAITING then r\<lparr>l_status := PS_INVALID\<rparr> else r)"
      using ok by (auto simp: price_ok_def price_is_valid_def)
    with False ok g show ?thesis by (auto simp: update_from_ws_def Let_def intro: put_price_ok)
  next
    case True
    then obtain b a where v: "bid = Fin b" "ask = Fin a" "0 < b" "b \<le> 1" "0 < a" "a \<le> 1"
      by (auto simp: is_valid_ws_price_def flt_in_oc_iff)
    show ?thesis
    proof (cases "set_side side b a r")
      case (Some r1)
      have "price_ok ((set_spread r1)\<lparr>l_status := PS_FRESH, l_updated_at := Some now, l_source := RTDS_WS\<rparr>)"
        using Some ok v by (auto simp: set_side_cases price_ok_def price_is_valid_def side_ok_def)
      with Some True ok g v show ?thesis by (simp add: update_from_ws_def Let_def put_price_ok)
    qed (use True ok g v in \<open>simp add: update_from_ws_def Let_def\<close>)
  qed
qed

lemma update_from_ws_frame:
  "c \<noteq> cid \<Longrightarrow> dget (pl_records (fst (update_from_ws now cid asset side bid ask p))) c = dget (pl_records p) c"
  by (auto simp: update_from_ws_def Let_def split: prod.splits option.splits dest: get_or_create_frame)

lemma update_from_gamma_ok:
  assumes "pipeline_ok p" shows "pipeline_ok (fst (update_from_gamma now cid asset raw spread p))"
proof -
  obtain q r where g: "get_or_create cid asset p = (q, r)" by fastforce
  note ok = get_or_create_ok [OF assms g]
  have inv: "price_ok (r\<lparr>l_status := PS_INVALID\<rparr>)" using ok by (simp add: price_ok_def price_is_valid_def)
  show ?thesis
  proof (cases "parse_outcome_prices raw")
    case None
    with g ok inv show ?thesis by (simp add: update_from_gamma_def Let_def put_price_ok)
  next
    case (Some ud)
    then obtain u d where ud: "parse_outcome_prices raw = Some (u, d)" by (cases ud) simp
    show ?thesis
    proof (cases "is_valid_price u \<and> is_valid_price d")
      case True
      then obtain x y where v: "u = Fin x" "d = Fin y" "0 < x" "x \<le> 1" "0 < y" "y \<le> 1"
        by (auto simp: is_valid_price_def flt_in_oc_iff)
      have "price_ok (r\<lparr>l_up_bid := x, l_up_ask := x, l_down_bid := y, l_down_ask := y,
          l_spread := spread, l_status := PS_FRESH, l_updated_at := Some now, l_source := GAMMA_OUTCOME_PRICES\<rparr>)"
        using v by (simp add: price_ok_def side_ok_def)
      with True g ok ud v show ?thesis by (simp add: update_from_gamma_def Let_def put_price_ok)
    qed (use g ok ud inv in \<open>auto simp: update_from_gamma_def Let_def put_price_ok\<close>)
  qed
qed

lemma pipeline_get_record_ok: "pipeline_ok p \<Longrightarrow> pipeline_ok (fst (pipeline_get_record now cid p))"
  by (auto simp: pipeline_get_record_def Let_def intro!: put_price_ok check_freshness_ok
      dest: pipeline_ok_dget split: option.splits)

lemma pipeline_get_by_asset_ok: "pipeline_ok p \<Longrightarrow> pipeline_ok (fst (pipeline_get_by_asset now asset p))"
proof (cases "find (\<lambda>(cid, r). str_upper (l_asset r) = str_upper asset) (pl_records p)")
  case (Some cr)
  assume p: "pipeline_ok p"
  obtain c r where cr: "cr = (c, r)" by fastforce
  have "(c, r) \<in> set (pl_records p)" using Some cr by (auto dest: find_SomeD)
  with p have "price_ok r" by (auto simp: pipeline_ok_def)
  with p Some cr show ?thesis by (simp add: pipeline_get_by_asset_def Let_def put_price_ok check_freshness_ok)
qed (simp add: pipeline_get_by_asset_def)

lemma check_all_keys [simp]: "dkeys (pl_records (check_all now p)) = dkeys (pl_records p)"
  by (simp add: check_all_def comp_def case_prod_unfold)

lemma check_all_ok: "pipeline_ok p \<Longrightarrow> pipeline_ok (check_all now p)"
  unfolding pipeline_ok_def wf_dict_def check_all_keys
  by (auto simp: check_all_def check_freshness_ok)

lemma pipeline_clear_ok: "pipeline_ok p \<Longrightarrow> pipeline_ok (pipeline_clear_event cid p)"
proof -
  assume p: "pipeline_ok p"
  then have "wf_dict (pl_records (pipeline_clear_event cid p))"
    by (simp add: pipeline_clear_event_def pipeline_ok_def)
  with p show ?thesis
    by (auto simp: pipeline_ok_alt pipeline_clear_event_def split: if_splits dest: pipeline_ok_dget)
qed

section \<open>The feed as a step relation\<close>

text \<open>Everything that changes the bridge or its pipeline while the bot runs.\<close>

inductive feed_step :: "WSPriceBridge \<Rightarrow> WSPriceBridge \<Rightarrow> bool" where
  message: "on_ws_message now data b = (b', res) \<Longrightarrow> feed_step b b'"
| gamma: "update_from_gamma now cid asset raw spread (br_pipeline b) = (p, r) \<Longrightarrow> feed_step b (b\<lparr>br_pipeline := p\<rparr>)"
| read: "pipeline_get_record now cid (br_pipeline b) = (p, res) \<Longrightarrow> feed_step b (b\<lparr>br_pipeline := p\<rparr>)"
| read_asset: "pipeline_get_by_asset now asset (br_pipeline b) = (p, res) \<Longrightarrow> feed_step b (b\<lparr>br_pipeline := p\<rparr>)"
| read_all: "feed_step b (b\<lparr>br_pipeline := check_all now (br_pipeline b)\<rparr>)"
| clear: "feed_step b (b\<lparr>br_pipeline := pipeline_clear_event cid (br_pipeline b)\<rparr>)"
| register: "feed_step b (register_token tid cid asset side b)"
| unregister: "feed_step b (unregister_token tid b)"
| clear_all: "feed_step b (bridge_clear_all b)"

inductive_cases feed_stepE: "feed_step b b'"

abbreviation feed_steps :: "WSPriceBridge \<Rightarrow> WSPriceBridge \<Rightarrow> bool" where
  "feed_steps \<equiv> feed_step\<^sup>*\<^sup>*"

text \<open>What one event and a whole message do to the bridge, whether or not they raise.\<close>

lemma process_single_event_cases:
  "fst (process_single_event now ev b) = b \<or>
   fst (process_single_event now ev b) = b\<lparr>br_total_skipped := br_total_skipped b + 1\<rparr> \<or>
   (\<exists>tid route bid ask. dget (br_token_routes b) tid = Some route \<and>
      fst (process_single_event now ev b) =
        b\<lparr>br_pipeline := fst (update_from_ws now (rt_condition_id route) (rt_asset route) (rt_side route) bid ask (br_pipeline b)),
          br_last_message_at := dset tid now (br_last_message_at b), br_total_routed := br_total_routed b + 1\<rparr>)"
proof (cases "jget ev ''asset_id'' (JStr [])")
  case (Inr aid)
  show ?thesis
  proof (cases "\<exists>tid route. aid = JStr tid \<and> tid \<noteq> [] \<and> dget (br_token_routes b) tid = Some route")
    case True
    then obtain tid route where a: "aid = JStr tid" "tid \<noteq> []" "dget (br_token_routes b) tid = Some route" by blast
    obtain x where x: "extract_prices (case ev of JObj kvs \<Rightarrow> kvs | _ \<Rightarrow> []) = x" by simp
    show ?thesis
    proof (cases "\<exists>bid ask. x = Inr (Some (bid, ask))")
      case True
      then obtain bid ask where "x = Inr (Some (bid, ask))" by blast
      with Inr a x show ?thesis
        by (intro disjI2 exI [of _ tid] exI [of _ route] exI [of _ bid] exI [of _ ask])
          (simp add: process_single_event_def)
    next
      case False
      with Inr a x show ?thesis
        by (cases x) (auto simp: process_single_event_def split: option.splits)
    qed
  next
    case False
    with Inr show ?thesis
      by (cases aid) (auto simp: process_single_event_def split: option.splits)
  qed
qed (simp add: process_single_event_def)

text \<open>A predicate that these three updates keep is kept by every message.\<close>

lemma process_events_induct:
  assumes "P b" and step: "\<And>ev b. P b \<Longrightarrow> P (fst (process_single_event now ev b))"
  shows "P (fst (process_events now evs b))"
  using assms(1)
proof (induction evs arbitrary: b)
  case (Cons ev evs)
  obtain b1 r where s: "process_single_event now ev b = (b1, r)" by fastforce
  with step [OF Cons.prems, of ev] have "P b1" by simp
  with Cons.IH s show ?case by (cases r) simp_all
qed simp

lemma on_ws_message_induct:
  assumes "P b" and step: "\<And>ev b. P b \<Longrightarrow> P (fst (process_single_event now ev b))"
  shows "P (fst (on_ws_message now data b))"
proof (cases data)
  case (JList xs)
  with process_events_induct [of P, OF assms(1) step] show ?thesis by (simp add: on_ws_message_def)
next
  case (JObj kvs)
  with process_events_induct [of P, OF assms(1) step] step [OF assms(1), of data] show ?thesis
    by (auto simp: on_ws_message_def assms(1) split: json.splits sum.splits if_splits)
qed (simp_all add: on_ws_message_def assms(1))

lemma process_single_event_ok:
  "pipeline_ok (br_pipeline b) \<Longrightarrow> pipeline_ok (br_pipeline (fst (process_single_event now ev b)))"
  using process_single_event_cases [of now ev b] by (auto simp: update_from_ws_ok)

lemma process_single_event_routes [simp]:
  "br_token_routes (fst (process_single_event now ev b)) = br_token_routes b"
  using process_single_event_cases [of now ev b] by auto

lemma on_ws_message_routes [simp]: "br_token_routes (fst (on_ws_message now data b)) = br_token_routes b"
  by (rule on_ws_message_induct [of "\<lambda>b'. br_token_routes b' = br_token_routes b"]) simp_all

lemma feed_step_ok: "feed_step b b' \<Longrightarrow> pipeline_ok (br_pipeline b) \<Longrightarrow> pipeline_ok (br_pipeline b')"
proof (induction rule: feed_step.induct)
  case (message now data b b' res)
  with on_ws_message_induct [of "\<lambda>b. pipeline_ok (br_pipeline b)" b now data] show ?case
    by (simp add: process_single_event_ok)
next
  case (gamma now cid asset raw spread b p r)
  with update_from_gamma_ok [of "br_pipeline b" now cid asset raw spread] show ?case by simp
next
  case (read now cid b p res)
  with pipeline_get_record_ok [of "br_pipeline b" now cid] show ?case by simp
next
  case (read_asset now asset b p res)
  with pipeline_get_by_asset_ok [of "br_pipeline b" now asset] show ?case by simp
qed (simp_all add: check_all_ok pipeline_clear_ok register_token_def unregister_token_def bridge_clear_all_def)

lemma feed_steps_ok: "feed_steps b b' \<Longrightarrow> pipeline_ok (br_pipeline b) \<Longrightarrow> pipeline_ok (br_pipeline b')"
  by (induction rule: rtranclp_induct) (auto intro: feed_step_ok)

section \<open>Properties\<close>

definition example_route :: TokenRoute where
  "example_route = \<lparr>rt_token_id = ''t1'', rt_condition_id = ''c1'', rt_asset = ''BTC'', rt_side = ''up''\<rparr>"

definition example_bridge :: WSPriceBridge where
  "example_bridge = \<lparr>br_pipeline = \<lparr>pl_records = [], pl_stale_threshold = 30\<rparr>,
     br_token_routes = [(''t1'', example_route)], br_last_message_at = [], br_total_routed = 0, br_total_skipped = 0\<rparr>"

definition example_quote :: json where
  "example_quote = JObj [(''asset_id'', JStr ''t1''), (''best_bid'', JStr ''0.25''), (''best_ask'', JStr ''0.5'')]"


definition example_quoted :: WSPriceBridge where
  "example_quoted = fst (on_ws_message 1000000 example_quote example_bridge)"

lemma example_quoted_record:
  "dget (pl_records (br_pipeline example_quoted)) ''c1'' =
     Some \<lparr>l_condition_id = ''c1'', l_asset = ''BTC'', l_up_bid = 1/4, l_up_ask = 1/2, l_down_bid = 0,
       l_down_ask = 0, l_spread = 1/4, l_status = PS_FRESH, l_updated_at = Some 1000000, l_source = RTDS_WS,
       l_stale_threshold_sec = 30\<rparr>"
  by code_simp


text \<open>A WebSocket message reaches only the records of routed events: the record of any other event
  is the same afterwards, whatever the message is and even when its processing raises, and the
  routes themselves never change.\<close>

lemma ws_message_scope:
  "br_token_routes (fst (on_ws_message now data b)) = br_token_routes b \<and>
   (dget (pl_records (br_pipeline (fst (on_ws_message now data b)))) cid = dget (pl_records (br_pipeline b)) cid \<or>
    cid \<in> rt_condition_id ` set (dvals (br_token_routes b)))"
proof (cases "cid \<in> rt_condition_id ` set (dvals (br_token_routes b))")
  case False
  let ?P = "\<lambda>b' :: WSPriceBridge. br_token_routes b' = br_token_routes b \<and>
    dget (pl_records (br_pipeline b')) cid = dget (pl_records (br_pipeline b)) cid"
  have "?P (fst (on_ws_message now data b))"
  proof (rule on_ws_message_induct [of ?P])
    fix ev and b1 :: WSPriceBridge assume b1: "?P b1"
    have routed: "cid \<noteq> rt_condition_id route" if "dget (br_token_routes b1) tid = Some route" for tid route
    proof
      assume "cid = rt_condition_id route"
      moreover have "route \<in> set (dvals (br_token_routes b))"
        using that b1 by (force dest: map_of_SomeD)
      ultimately show False using False by blast
    qed
    show "?P (fst (process_single_event now ev b1))"
      using process_single_event_cases [of now ev b1] b1 routed
      by (auto simp: update_from_ws_frame)
  qed simp
  then show ?thesis by simp
qed simp

text \<open>A quote for one side renews the freshness of the whole record: however old the quote of the
  other side is, and even if the record was stale, the record is fresh at the time of the
  message and carries the other side's old prices unchanged.\<close>

theorem one_sided_quote_is_fresh:
  assumes "dget (pl_records p) cid = Some r" and "0 < b" "b \<le> 1" "0 < a" "a \<le> 1"
    and "0 \<le> l_stale_threshold_sec r"
  shows "let r' = snd (update_from_ws now cid asset ''up'' (Fin b) (Fin a) p)
     in l_status r' = PS_FRESH \<and> price_is_fresh now r' \<and> l_up_bid r' = b \<and> l_up_ask r' = a \<and>
        l_down_bid r' = l_down_bid r \<and> l_down_ask r' = l_down_ask r"
proof -
  have "str_lower ''up'' = ''up''" by code_simp
  then have s: "set_side ''up'' b a r = Some (r\<lparr>l_up_bid := b, l_up_ask := a\<rparr>)" by (simp add: set_side_def)
  have "l_stale_threshold_sec (set_spread r1) = l_stale_threshold_sec r1" for r1 :: LivePriceRecord
    by (simp add: set_spread_def)
  with assms s show ?thesis
    by (simp add: update_from_ws_def get_or_create_def is_valid_ws_price_def flt_in_oc_def Let_def
        price_is_fresh_def total_seconds_def)
qed

theorem one_sided_quote_is_fresh_witness:
  "let p = \<lparr>pl_records = [(''c1'', (new_price ''c1'' ''BTC'' 30)\<lparr>l_down_bid := 1/8, l_down_ask := 1/4,
         l_status := PS_STALE, l_updated_at := Some 0\<rparr>)], pl_stale_threshold = 30\<rparr>;
       r' = snd (update_from_ws 900000000 ''c1'' ''BTC'' ''up'' (Fin (1/2)) (Fin (1/2)) p)
   in l_status r' = PS_FRESH \<and> l_down_ask r' = 1/4"
  using one_sided_quote_is_fresh [of "\<lparr>pl_records = [(''c1'', (new_price ''c1'' ''BTC'' 30)\<lparr>l_down_bid := 1/8,
       l_down_ask := 1/4, l_status := PS_STALE, l_updated_at := Some 0\<rparr>)], pl_stale_threshold = 30\<rparr>" "''c1''"
     "(new_price ''c1'' ''BTC'' 30)\<lparr>l_down_bid := 1/8, l_down_ask := 1/4, l_status := PS_STALE, l_updated_at := Some 0\<rparr>"
     "1/2" "1/2" 900000000 "''BTC''"]
  by (simp add: new_price_def Let_def)

end
