(* ===== verification/CoinPrice.thy ===== *)
theory CoinPrice
  imports Json
begin

text \<open>
  \<^verbatim>\<open>backend/market_data/coin_price_client.py\<close>: the USD prices of the coins, the messages that
  update them and the start and stop of the background loop.

  The socket and the text it delivers are outside: \<open>feed_message\<close> is the body of the receive loop
  for one message, given what \<^verbatim>\<open>json.loads\<close> makes of it. The task of the background loop is its
  state: none, alive or ended.
\<close>

definition COIN_SYMBOLS :: "(string, string) dict" where
  "COIN_SYMBOLS = [(''BTC'', ''btcusdt''), (''ETH'', ''ethusdt''), (''SOL'', ''solusdt''),
     (''DOGE'', ''dogeusdt''), (''XRP'', ''xrpusdt''), (''BNB'', ''bnbusdt'')]"

definition SYMBOL_TO_COIN :: "(string, string) dict" where
  "SYMBOL_TO_COIN = map (\<lambda>(k, v). (v, k)) COIN_SYMBOLS"

definition PRICE_MIN :: num where "PRICE_MIN = lit (1 / 100000)"
definition PRICE_MAX :: num where "PRICE_MAX = 1000000"

datatype CoinPriceStatus = CP_FRESH | CP_STALE | CP_WAITING | CP_INVALID

record CoinPriceRecord =
  k_coin :: string
  k_usd_price :: num
  k_status :: CoinPriceStatus
  k_updated_at :: "usec option"
  k_stale_threshold_sec :: num

definition new_coin_price :: "string \<Rightarrow> num \<Rightarrow> CoinPriceRecord" where
  "new_coin_price coin thr = \<lparr>k_coin = coin, k_usd_price = 0, k_status = CP_WAITING, k_updated_at = None,
     k_stale_threshold_sec = thr\<rparr>"

definition coin_is_fresh :: "usec \<Rightarrow> CoinPriceRecord \<Rightarrow> bool" where
  "coin_is_fresh now r \<longleftrightarrow> k_status r \<noteq> CP_INVALID \<and> k_status r \<noteq> CP_WAITING \<and>
     (case k_updated_at r of None \<Rightarrow> False | Some t \<Rightarrow> total_seconds (now - t) \<le> k_stale_threshold_sec r)"

definition coin_is_stale :: "usec \<Rightarrow> CoinPriceRecord \<Rightarrow> bool" where
  "coin_is_stale now r = (case k_updated_at r of None \<Rightarrow> False
     | Some t \<Rightarrow> k_stale_threshold_sec r < total_seconds (now - t))"

definition coin_check_freshness :: "usec \<Rightarrow> CoinPriceRecord \<Rightarrow> CoinPriceRecord" where
  "coin_check_freshness now r =
     (if k_status r = CP_INVALID \<or> k_status r = CP_WAITING then r
      else if coin_is_stale now r then r\<lparr>k_status := CP_STALE\<rparr> else r)"

datatype task_state = TaskAlive | TaskEnded

record CoinPriceClient =
  kc_stale_threshold :: num
  kc_records :: "(string, CoinPriceRecord) dict"
  kc_coins :: "string list"
  kc_total_updates :: int
  kc_running :: bool
  kc_task :: "task_state option"
  kc_reconnect_count :: int

section \<open>Reads\<close>

definition coin_get_price :: "usec \<Rightarrow> string \<Rightarrow> CoinPriceClient \<Rightarrow> CoinPriceClient \<times> CoinPriceRecord option" where
  "coin_get_price now coin c = (case dget (kc_records c) coin of
       None \<Rightarrow> (c, None)
     | Some r \<Rightarrow> (let r' = coin_check_freshness now r
         in (c\<lparr>kc_records := dset coin r' (kc_records c)\<rparr>, Some r')))"

definition get_usd_price :: "usec \<Rightarrow> string \<Rightarrow> CoinPriceClient \<Rightarrow> CoinPriceClient \<times> num" where
  "get_usd_price now coin c = (case coin_get_price now coin c of
       (c', Some r) \<Rightarrow> (c', if k_status r = CP_FRESH then k_usd_price r else 0)
     | (c', None) \<Rightarrow> (c', 0))"

definition get_all_prices :: "usec \<Rightarrow> CoinPriceClient \<Rightarrow> CoinPriceClient \<times> (string, CoinPriceRecord) dict" where
  "get_all_prices now c = (let rs = map (\<lambda>(k, r). (k, coin_check_freshness now r)) (kc_records c)
     in (c\<lparr>kc_records := rs\<rparr>, rs))"

section \<open>Tracked coins and updates\<close>

fun ensure_records :: "num \<Rightarrow> string list \<Rightarrow> (string, CoinPriceRecord) dict \<Rightarrow> (string, CoinPriceRecord) dict" where
  "ensure_records thr [] rs = rs"
| "ensure_records thr (k # ks) rs =
     ensure_records thr ks (if k \<in> set (dkeys rs) then rs else dset k (new_coin_price k thr) rs)"

definition set_coins :: "string list \<Rightarrow> CoinPriceClient \<Rightarrow> CoinPriceClient" where
  "set_coins coins c = (let up = map str_upper coins
     in c\<lparr>kc_coins := up, kc_records := ensure_records (kc_stale_threshold c) up (kc_records c)\<rparr>)"

definition update_coin_record :: "usec \<Rightarrow> string \<Rightarrow> num \<Rightarrow> CoinPriceClient \<Rightarrow> CoinPriceClient" where
  "update_coin_record now coin price c =
     (let r = (case dget (kc_records c) coin of Some r \<Rightarrow> r | None \<Rightarrow> new_coin_price coin (kc_stale_threshold c));
          r' = r\<lparr>k_usd_price := price, k_status := CP_FRESH, k_updated_at := Some now\<rparr>
      in c\<lparr>kc_records := dset coin r' (kc_records c), kc_total_updates := kc_total_updates c + 1\<rparr>)"

text \<open>\<^verbatim>\<open>a or b\<close>\<close>

definition py_or :: "json \<Rightarrow> json \<Rightarrow> json" where
  "py_or a b = (if truthy a then a else b)"

definition float_or_none :: "json \<Rightarrow> flt option" where
  "float_or_none v = (case py_float v of Inl e \<Rightarrow> None | Inr x \<Rightarrow> Some x)"

definition extract_price :: "(string \<times> json) list \<Rightarrow> flt option" where
  "extract_price payload =
     (let direct = dget_or payload ''value'' JNull;
          from_direct = (if truthy direct then float_or_none direct else None)
      in case dget_or payload ''data'' (JList []) of
           JList arr \<Rightarrow>
             if arr = [] then from_direct
             else (case last arr of
                 JObj kvs \<Rightarrow> (let v = py_or (dget_or kvs ''value'' JNull) (dget_or kvs ''v'' JNull)
                     in if truthy v then float_or_none v else from_direct)
               | _ \<Rightarrow> from_direct)
         | _ \<Rightarrow> from_direct)"

definition is_valid_coin_price :: "flt \<Rightarrow> bool" where
  "is_valid_coin_price p = flt_in_cc PRICE_MIN PRICE_MAX p"

text \<open>The body of the receive loop; an error leaves the loop and the connection.\<close>

definition feed_message :: "usec \<Rightarrow> json option \<Rightarrow> CoinPriceClient \<Rightarrow> (CoinPriceClient, unit) outcome" where
  "feed_message now raw c =
     (case raw of
        None \<Rightarrow> (c, Inl ValueError)
      | Some data \<Rightarrow>
        (case jget data ''payload'' (JObj []) of
           Inl e \<Rightarrow> (c, Inl e)
         | Inr payload \<Rightarrow>
           (case payload of
              JObj kvs \<Rightarrow>
                (case dget_or kvs ''symbol'' (JStr []) of
                   JList xs \<Rightarrow> (c, Inl TypeError)
                 | JObj xs \<Rightarrow> (c, Inl TypeError)
                 | JStr s \<Rightarrow>
                   (case dget SYMBOL_TO_COIN s of
                      None \<Rightarrow> (c, Inr ())
                    | Some coin \<Rightarrow>
                      (case extract_price kvs of
                         None \<Rightarrow> (c, Inr ())
                       | Some p \<Rightarrow> (if is_valid_coin_price p then update_coin_record now coin (the_num p) c else c, Inr ())))
                 | _ \<Rightarrow> (c, Inr ()))
            | _ \<Rightarrow> (c, Inr ()))))"

section \<open>The background loop\<close>

text \<open>\<^verbatim>\<open>wait = min(fail_count * 2, 10)\<close> after the n-th failed connection in a row\<close>

definition reconnect_wait :: "int \<Rightarrow> int" where
  "reconnect_wait fail_count = min (fail_count * 2) 10"

text \<open>
  \<^verbatim>\<open>start\<close> only looks at the flag, which the loop sets when it first runs: \<open>loop_begins\<close> is that
  moment, \<open>loop_dies\<close> the end of the task without a stop.
\<close>

definition coin_start :: "CoinPriceClient \<Rightarrow> CoinPriceClient" where
  "coin_start c = (if kc_running c then c else c\<lparr>kc_task := Some TaskAlive\<rparr>)"

definition loop_begins :: "CoinPriceClient \<Rightarrow> CoinPriceClient" where
  "loop_begins c = c\<lparr>kc_running := True\<rparr>"

definition loop_dies :: "CoinPriceClient \<Rightarrow> CoinPriceClient" where
  "loop_dies c = c\<lparr>kc_task := Some TaskEnded\<rparr>"

definition coin_stop :: "CoinPriceClient \<Rightarrow> CoinPriceClient" where
  "coin_stop c = c\<lparr>kc_running := False, kc_task := None\<rparr>"

section \<open>What the client keeps\<close>

definition coin_ok :: "CoinPriceRecord \<Rightarrow> bool" where
  "coin_ok r \<longleftrightarrow> (if k_status r = CP_WAITING then k_usd_price r = 0 \<and> k_updated_at r = None
     else k_updated_at r \<noteq> None \<and> PRICE_MIN \<le> k_usd_price r \<and> k_usd_price r \<le> PRICE_MAX)"

definition recs_ok :: "(string, CoinPriceRecord) dict \<Rightarrow> bool" where
  "recs_ok rs \<longleftrightarrow> (\<forall>coin r. dget rs coin = Some r \<longrightarrow> coin_ok r)"

definition coins_ok :: "CoinPriceClient \<Rightarrow> bool" where
  "coins_ok c \<longleftrightarrow> (\<forall>coin r. dget (kc_records c) coin = Some r \<longrightarrow> coin_ok r)"

lemma coins_ok_iff: "coins_ok c \<longleftrightarrow> recs_ok (kc_records c)"
  by (simp add: coins_ok_def recs_ok_def)

lemma price_min_le_1: "PRICE_MIN \<le> 1"
  unfolding PRICE_MIN_def lit_def by (rule fl_le) simp_all

lemma new_coin_ok: "coin_ok (new_coin_price k thr)"
  by (simp add: coin_ok_def new_coin_price_def)

lemma coin_check_freshness_ok: "coin_ok r \<Longrightarrow> coin_ok (coin_check_freshness now r)"
  by (auto simp: coin_ok_def coin_check_freshness_def split: if_splits)

lemma coins_ok_dset:
  "coins_ok c \<Longrightarrow> coin_ok r \<Longrightarrow> kc_records c' = dset coin r (kc_records c) \<Longrightarrow> coins_ok c'"
  by (simp add: coins_ok_def)

lemma coin_get_price_ok: "coins_ok c \<Longrightarrow> coins_ok (fst (coin_get_price now coin c))"
  by (auto simp: coin_get_price_def Let_def coins_ok_def coin_check_freshness_ok split: option.splits)

lemma get_all_prices_ok: "coins_ok c \<Longrightarrow> coins_ok (fst (get_all_prices now c))"
proof -
  have m: "map_of (map (\<lambda>(k, r). (k, f r)) rs) k = map_option f (map_of rs k)"
    for f :: "CoinPriceRecord \<Rightarrow> CoinPriceRecord" and rs :: "(string, CoinPriceRecord) dict" and k
    by (induction rs) auto
  show "coins_ok c \<Longrightarrow> ?thesis"
    by (auto simp: get_all_prices_def Let_def coins_ok_def m coin_check_freshness_ok)
qed

lemma ensure_records_ok: "recs_ok rs \<Longrightarrow> recs_ok (ensure_records thr ks rs)"
proof (induction ks arbitrary: rs)
  case (Cons k ks)
  have "recs_ok (if k \<in> set (dkeys rs) then rs else dset k (new_coin_price k thr) rs)"
    using Cons.prems by (simp add: recs_ok_def new_coin_ok)
  then show ?case using Cons.IH by simp
qed simp

lemma set_coins_ok: "coins_ok c \<Longrightarrow> coins_ok (set_coins coins c)"
  by (simp add: coins_ok_iff set_coins_def Let_def ensure_records_ok)

lemma update_coin_record_ok:
  assumes "coins_ok c" "PRICE_MIN \<le> x" "x \<le> PRICE_MAX"
  shows "coins_ok (update_coin_record now coin x c)"
  using assms(1) by (rule coins_ok_dset) (auto simp: update_coin_record_def coin_ok_def Let_def assms)

lemma feed_message_ok: "coins_ok c \<Longrightarrow> coins_ok (fst (feed_message now raw c))"
  by (auto simp: feed_message_def is_valid_coin_price_def flt_in_cc_iff update_coin_record_ok
      split: option.splits sum.splits json.splits)

inductive coin_step :: "CoinPriceClient \<Rightarrow> CoinPriceClient \<Rightarrow> bool" where
  message: "feed_message now raw c = (c', res) \<Longrightarrow> coin_step c c'"
| get: "coin_get_price now coin c = (c', res) \<Longrightarrow> coin_step c c'"
| get_all: "get_all_prices now c = (c', res) \<Longrightarrow> coin_step c c'"
| track: "coin_step c (set_coins coins c)"
| start: "coin_step c (coin_start c)"
| begins: "coin_step c (loop_begins c)"
| dies: "coin_step c (loop_dies c)"
| stop: "coin_step c (coin_stop c)"

lemma coin_step_ok: "coin_step c c' \<Longrightarrow> coins_ok c \<Longrightarrow> coins_ok c'"
proof (induction rule: coin_step.induct)
  case (message now raw c c' res)
  with feed_message_ok [of c now raw] show ?case by simp
next
  case (get now coin c c' res)
  with coin_get_price_ok [of c now coin] show ?case by simp
next
  case (get_all now c c' res)
  with get_all_prices_ok [of c now] show ?case by simp
next
  case (track c coins)
  then show ?case by (rule set_coins_ok)
qed (auto simp: coins_ok_def coin_start_def loop_begins_def loop_dies_def coin_stop_def)

lemma coin_steps_ok: "coin_step\<^sup>*\<^sup>* c c' \<Longrightarrow> coins_ok c \<Longrightarrow> coins_ok c'"
  by (induction rule: rtranclp_induct) (auto intro: coin_step_ok)

section \<open>Properties\<close>

text \<open>Over any sequence of messages, reads, settings and restarts of the loop, the price a reader
  gets is 0 or a price within the plausible bounds that arrived within the staleness threshold
  of the read. A malformed message, a price out of bounds or an unknown symbol leaves the last
  good price in place.\<close>

theorem usd_price_is_sound:
  assumes "coin_step\<^sup>*\<^sup>* c c'" and "kc_records c = []"
  shows "case get_usd_price now coin c' of (c2, price) \<Rightarrow> price = 0 \<or>
     (PRICE_MIN \<le> price \<and> price \<le> PRICE_MAX \<and>
      (\<exists>r t. dget (kc_records c') coin = Some r \<and> k_usd_price r = price \<and> k_updated_at r = Some t \<and>
         total_seconds (now - t) \<le> k_stale_threshold_sec r))"
proof (cases "dget (kc_records c') coin")
  case (Some r)
  have "coins_ok c" using assms(2) by (simp add: coins_ok_def)
  then have "coin_ok r" using coin_steps_ok [OF assms(1)] Some by (simp add: coins_ok_def)
  with Some show ?thesis
    by (auto simp: get_usd_price_def coin_get_price_def Let_def coin_check_freshness_def coin_is_stale_def
        coin_ok_def not_less split: if_splits)
qed (simp add: get_usd_price_def coin_get_price_def)

definition example_client :: CoinPriceClient where
  "example_client = \<lparr>kc_stale_threshold = 15, kc_records = [], kc_coins = [], kc_total_updates = 0,
     kc_running = False, kc_task = None, kc_reconnect_count = 0\<rparr>"

definition example_tick :: json where
  "example_tick = JObj [(''payload'', JObj [(''symbol'', JStr ''btcusdt''), (''value'', JNum 64)])]"

lemma example_feed:
  "kc_records (fst (feed_message 1000000 (Some example_tick) example_client)) =
     [(''BTC'', \<lparr>k_coin = ''BTC'', k_usd_price = 64, k_status = CP_FRESH, k_updated_at = Some 1000000,
        k_stale_threshold_sec = 15\<rparr>)]"
proof -
  have "flt_in_cc PRICE_MIN PRICE_MAX (Fin 64)"
    using price_min_le_1 by (simp add: flt_in_cc_def PRICE_MAX_def)
  then show ?thesis
    by (simp add: feed_message_def example_tick_def dget_or_def SYMBOL_TO_COIN_def COIN_SYMBOLS_def extract_price_def
        float_or_none_def fl_numeral is_valid_coin_price_def update_coin_record_def example_client_def
        new_coin_price_def Let_def)
qed

theorem usd_price_is_sound_witness:
  "snd (get_usd_price 2000000 ''BTC'' (fst (feed_message 1000000 (Some example_tick) example_client))) = 64 \<and>
   PRICE_MIN \<le> 64 \<and> (64 :: num) \<le> PRICE_MAX"
proof -
  let ?c = "fst (feed_message 1000000 (Some example_tick) example_client)"
  have s: "coin_step\<^sup>*\<^sup>* example_client ?c"
    by (rule r_into_rtranclp, rule coin_step.message) (rule surjective_pairing)
  have t: "total_seconds 1000000 = 1" by (simp add: total_seconds_def)
  have "snd (get_usd_price 2000000 ''BTC'' ?c) = 64"
    by (simp add: get_usd_price_def coin_get_price_def example_feed coin_check_freshness_def coin_is_stale_def t Let_def)
  with usd_price_is_sound [OF s, where now = 2000000 and coin = "''BTC''"] show ?thesis
    by (auto simp: example_client_def split: prod.splits)
qed

text \<open>A loop that ended without a stop is not started again: once the loop has run, every further
  \<^verbatim>\<open>start\<close> is without effect until a stop, so the ended task stays in place.\<close>

lemma dead_loop_not_restarted:
  "coin_start (loop_dies (loop_begins (coin_start c))) = loop_dies (loop_begins (coin_start c)) \<and>
   kc_task (coin_start (loop_dies (loop_begins (coin_start c)))) = Some TaskEnded \<and>
   kc_task (coin_start (coin_stop (loop_dies c))) = Some TaskAlive"
  by (simp add: coin_start_def loop_dies_def loop_begins_def coin_stop_def)

end
