(* ===== verification/Subscriptions.thy ===== *)
theory Subscriptions
  imports MarketData CoinPrice Ptb "HOL-Library.List_Lexorder" "HOL-Library.Char_ord"
begin

text \<open>
  \<^verbatim>\<open>backend/orchestrator/subscription_manager.py\<close> and \<^verbatim>\<open>cleanup.py\<close>: which event of each coin the bot
  listens to, and the removal of the data of an event.

  The manager changes the bridge and the coin client in place; \<open>SubWorld\<close> holds them with its own
  map of active events, the token list last handed to the RTDS client and the PTB fetcher that
  the cleanup changes. Sending the list over the socket is outside.
\<close>

record EventData =
  ed_condition_id :: string
  ed_token_ids :: "string list"
  ed_sides :: "string list"
  ed_slug :: string

definition no_event_data :: EventData where
  "no_event_data = \<lparr>ed_condition_id = [], ed_token_ids = [], ed_sides = [], ed_slug = []\<rparr>"

record SubWorld =
  sm_bridge :: WSPriceBridge
  sm_coin_client :: CoinPriceClient
  sm_ptb :: PTBFetcher
  sm_active_events :: "(string, string) dict"
  sm_rtds_tokens :: "string list option"
  sm_cleaned_count :: int

record SubscriptionDiff =
  df_to_subscribe :: "string list"
  df_to_unsubscribe :: "string list"
  df_unchanged :: "string list"

definition compute_diff :: "string list \<Rightarrow> SubWorld \<Rightarrow> SubscriptionDiff" where
  "compute_diff new_eligible w =
     (let new_set = set (map str_upper new_eligible); old_set = set (dkeys (sm_active_events w))
      in \<lparr>df_to_subscribe = sorted_list_of_set (new_set - old_set),
          df_to_unsubscribe = sorted_list_of_set (old_set - new_set),
          df_unchanged = sorted_list_of_set (new_set \<inter> old_set)\<rparr>)"

text \<open>\<^verbatim>\<open>for i, token_id in enumerate(token_ids)\<close>; a missing side counts as up.\<close>

fun register_tokens :: "string \<Rightarrow> string \<Rightarrow> string list \<Rightarrow> string list \<Rightarrow> WSPriceBridge \<Rightarrow> WSPriceBridge" where
  "register_tokens cid asset [] sides b = b"
| "register_tokens cid asset (t # ts) [] b = register_tokens cid asset ts [] (register_token t cid asset ''up'' b)"
| "register_tokens cid asset (t # ts) (s # ss) b = register_tokens cid asset ts ss (register_token t cid asset s b)"

definition subscribe_asset :: "string \<Rightarrow> EventData \<Rightarrow> SubWorld \<Rightarrow> SubWorld" where
  "subscribe_asset asset ed w =
     (let w1 = w\<lparr>sm_bridge := register_tokens (ed_condition_id ed) asset (ed_token_ids ed) (ed_sides ed) (sm_bridge w)\<rparr>;
          current_coins = kc_coins (sm_coin_client w)
      in if str_upper asset \<notin> set (map str_upper current_coins)
         then w1\<lparr>sm_coin_client := set_coins (current_coins @ [str_upper asset]) (sm_coin_client w1)\<rparr> else w1)"

definition unregister_where :: "(TokenRoute \<Rightarrow> bool) \<Rightarrow> WSPriceBridge \<Rightarrow> WSPriceBridge" where
  "unregister_where P b = foldl (\<lambda>b t. unregister_token t b) b
     (map fst (filter (\<lambda>(t, route). P route) (br_token_routes b)))"

definition unsubscribe_asset :: "string \<Rightarrow> SubWorld \<Rightarrow> SubWorld" where
  "unsubscribe_asset asset w = w\<lparr>sm_bridge :=
     unregister_where (\<lambda>route. str_upper (rt_asset route) = str_upper asset) (sm_bridge w)\<rparr>"

definition event_data_of :: "(string, EventData) dict \<Rightarrow> string \<Rightarrow> EventData" where
  "event_data_of em asset = dget_or em asset no_event_data"

definition sub_new :: "(string, EventData) dict \<Rightarrow> string \<Rightarrow> SubWorld \<Rightarrow> SubWorld" where
  "sub_new em asset w0 = (let ed = event_data_of em asset; w = subscribe_asset asset ed w0
     in w\<lparr>sm_active_events := dset asset (ed_condition_id ed) (sm_active_events w)\<rparr>)"

definition sub_drop :: "string \<Rightarrow> SubWorld \<Rightarrow> SubWorld" where
  "sub_drop asset w0 = (let w = unsubscribe_asset asset w0
     in w\<lparr>sm_active_events := dpop asset (sm_active_events w)\<rparr>)"

definition rotates :: "(string, EventData) dict \<Rightarrow> string \<Rightarrow> SubWorld \<Rightarrow> bool" where
  "rotates em asset w \<longleftrightarrow> (let new_cid = ed_condition_id (event_data_of em asset);
       old_cid = dget_or (sm_active_events w) asset []
     in new_cid \<noteq> [] \<and> old_cid \<noteq> [] \<and> new_cid \<noteq> old_cid)"

definition sub_rotate :: "(string, EventData) dict \<Rightarrow> string \<Rightarrow> SubWorld \<Rightarrow> SubWorld" where
  "sub_rotate em asset w0 =
     (if rotates em asset w0 then
        (let ed = event_data_of em asset; w = subscribe_asset asset ed (unsubscribe_asset asset w0)
         in w\<lparr>sm_active_events := dset asset (ed_condition_id ed) (sm_active_events w)\<rparr>)
      else w0)"

text \<open>The three passes; \<open>changed\<close> decides whether the token list is handed on.\<close>

definition apply_diff :: "SubscriptionDiff \<Rightarrow> (string, EventData) dict \<Rightarrow> SubWorld \<Rightarrow> SubWorld" where
  "apply_diff d em w0 =
     (let w1 = fold (sub_new em) (df_to_subscribe d) w0;
          w2 = fold sub_drop (df_to_unsubscribe d) w1;
          w3 = fold (sub_rotate em) (df_unchanged d) w2;
          changed = (df_to_subscribe d \<noteq> [] \<or> df_to_unsubscribe d \<noteq> [] \<or> list_ex (\<lambda>a. rotates em a w2) (df_unchanged d))
      in if changed then w3\<lparr>sm_rtds_tokens := map_option (\<lambda>_. registered_token_ids (sm_bridge w3)) (sm_rtds_tokens w3)\<rparr>
         else w3)"

definition subscribed_assets :: "SubWorld \<Rightarrow> string set" where
  "subscribed_assets w = set (dkeys (sm_active_events w))"

section \<open>Cleanup\<close>

definition cleanup_event :: "string \<Rightarrow> SubWorld \<Rightarrow> SubWorld" where
  "cleanup_event cid w =
     (let b = (sm_bridge w)\<lparr>br_pipeline := pipeline_clear_event cid (br_pipeline (sm_bridge w))\<rparr>
      in w\<lparr>sm_bridge := unregister_where (\<lambda>route. rt_condition_id route = cid) b,
           sm_ptb := ptb_clear_event cid (sm_ptb w),
           sm_cleaned_count := sm_cleaned_count w + 1\<rparr>)"

definition cleanup_expired_events :: "string list \<Rightarrow> SubWorld \<Rightarrow> SubWorld \<times> int" where
  "cleanup_expired_events cids w = (fold cleanup_event cids w, int (length cids))"

section \<open>Routes\<close>

lemma register_tokens_routes:
  "dget (br_token_routes (register_tokens cid asset ts ss b)) t = Some r \<Longrightarrow>
     (rt_condition_id r = cid \<and> rt_asset r = asset) \<or> dget (br_token_routes b) t = Some r"
proof (induction cid asset ts ss b rule: register_tokens.induct)
  case (2 cid asset t' ts b)
  from 2(1) 2(2) show ?case by (auto simp: register_token_def split: if_splits)
next
  case (3 cid asset t' ts s ss b)
  from 3(1) 3(2) show ?case by (auto simp: register_token_def split: if_splits)
qed simp

lemma unregister_tokens_routes:
  "dget (br_token_routes (foldl (\<lambda>b t. unregister_token t b) b ts)) t =
     (if t \<in> set ts then None else dget (br_token_routes b) t)"
  by (induction ts arbitrary: b) (auto simp: unregister_token_def)

lemma unregister_where_routes:
  assumes "wf_dict (br_token_routes b)"
  shows "dget (br_token_routes (unregister_where P b)) t =
     (case dget (br_token_routes b) t of None \<Rightarrow> None | Some r \<Rightarrow> if P r then None else Some r)"
proof -
  have "t \<in> fst ` set (filter (\<lambda>(t, route). P route) (br_token_routes b)) \<longleftrightarrow>
      (\<exists>r. dget (br_token_routes b) t = Some r \<and> P r)"
    using assms by (force simp: wf_dget_iff)
  then show ?thesis
    unfolding unregister_where_def unregister_tokens_routes by (auto split: option.splits)
qed

lemma register_tokens_wf: "wf_dict (br_token_routes b) \<Longrightarrow> wf_dict (br_token_routes (register_tokens cid asset ts ss b))"
  by (induction cid asset ts ss b rule: register_tokens.induct) (simp_all add: register_token_def)

lemma unregister_where_wf: "wf_dict (br_token_routes b) \<Longrightarrow> wf_dict (br_token_routes (unregister_where P b))"
proof -
  have "wf_dict (br_token_routes b) \<Longrightarrow> wf_dict (br_token_routes (foldl (\<lambda>b t. unregister_token t b) b ts))" for ts
    by (induction ts arbitrary: b) (auto simp: unregister_token_def)
  then show "wf_dict (br_token_routes b) \<Longrightarrow> ?thesis" by (simp add: unregister_where_def)
qed

text \<open>Every route belongs to the active event of its coin, and coins are named in upper case.\<close>

definition sub_inv :: "SubWorld \<Rightarrow> bool" where
  "sub_inv w \<longleftrightarrow> wf_dict (br_token_routes (sm_bridge w)) \<and>
     (\<forall>a \<in> set (dkeys (sm_active_events w)). str_upper a = a) \<and>
     (\<forall>t r. dget (br_token_routes (sm_bridge w)) t = Some r \<longrightarrow>
        dget (sm_active_events w) (rt_asset r) = Some (rt_condition_id r))"

lemma sub_invD:
  assumes "sub_inv w" "dget (br_token_routes (sm_bridge w)) t = Some r"
  shows "dget (sm_active_events w) (rt_asset r) = Some (rt_condition_id r)"
    and "rt_asset r \<in> set (dkeys (sm_active_events w))" and "str_upper (rt_asset r) = rt_asset r"
proof -
  show a: "dget (sm_active_events w) (rt_asset r) = Some (rt_condition_id r)"
    using assms by (simp add: sub_inv_def)
  then show k: "rt_asset r \<in> set (dkeys (sm_active_events w))" by (rule dget_Some_dkeys)
  then show "str_upper (rt_asset r) = rt_asset r" using assms(1) unfolding sub_inv_def by blast
qed

lemma subscribe_asset_fields [simp]:
  "sm_bridge (subscribe_asset a ed w) = register_tokens (ed_condition_id ed) a (ed_token_ids ed) (ed_sides ed) (sm_bridge w)"
  "sm_active_events (subscribe_asset a ed w) = sm_active_events w"
  by (simp_all add: subscribe_asset_def Let_def)

lemma unsubscribe_asset_fields [simp]:
  "sm_bridge (unsubscribe_asset a w) = unregister_where (\<lambda>route. str_upper (rt_asset route) = str_upper a) (sm_bridge w)"
  "sm_active_events (unsubscribe_asset a w) = sm_active_events w"
  by (simp_all add: unsubscribe_asset_def)

lemma sub_new_inv:
  assumes "sub_inv w" "str_upper a = a" "a \<notin> set (dkeys (sm_active_events w))"
  shows "sub_inv (sub_new em a w)"
  unfolding sub_inv_def
proof (intro conjI allI impI ballI)
  let ?w = "sub_new em a w"
  show "wf_dict (br_token_routes (sm_bridge ?w))"
    using assms(1) by (simp add: sub_new_def Let_def register_tokens_wf sub_inv_def)
  show "str_upper x = x" if "x \<in> set (dkeys (sm_active_events ?w))" for x
    using that assms(1,2) by (auto simp: sub_new_def Let_def sub_inv_def dkeys_dset simp del: set_map)
  fix t r assume "dget (br_token_routes (sm_bridge ?w)) t = Some r"
  then have "(rt_condition_id r = ed_condition_id (event_data_of em a) \<and> rt_asset r = a) \<or>
      dget (br_token_routes (sm_bridge w)) t = Some r"
    by (auto simp: sub_new_def Let_def dest: register_tokens_routes)
  then show "dget (sm_active_events ?w) (rt_asset r) = Some (rt_condition_id r)"
    using sub_invD(1,2) [OF assms(1), of t r] assms(3) by (auto simp: sub_new_def Let_def)
qed

lemma sub_drop_inv:
  assumes "sub_inv w" "str_upper a = a"
  shows "sub_inv (sub_drop a w)"
  unfolding sub_inv_def
proof (intro conjI allI impI ballI)
  let ?w = "sub_drop a w"
  have wf: "wf_dict (br_token_routes (sm_bridge w))" using assms(1) by (simp add: sub_inv_def)
  then show "wf_dict (br_token_routes (sm_bridge ?w))" by (simp add: sub_drop_def Let_def unregister_where_wf)
  show "str_upper x = x" if "x \<in> set (dkeys (sm_active_events ?w))" for x
    using that assms(1) by (auto simp: sub_drop_def Let_def sub_inv_def delete_keys simp del: set_map)
  fix t r assume "dget (br_token_routes (sm_bridge ?w)) t = Some r"
  then have r: "dget (br_token_routes (sm_bridge w)) t = Some r" "str_upper (rt_asset r) \<noteq> a"
    using assms(2) by (auto simp: sub_drop_def Let_def unregister_where_routes [OF wf] split: option.splits if_splits)
  then show "dget (sm_active_events ?w) (rt_asset r) = Some (rt_condition_id r)"
    using sub_invD [OF assms(1) r(1)] by (auto simp: sub_drop_def Let_def)
qed

lemma sub_rotate_inv:
  assumes "sub_inv w" "str_upper a = a"
  shows "sub_inv (sub_rotate em a w)"
proof (cases "rotates em a w")
  case True
  let ?w = "sub_rotate em a w" and ?u = "unsubscribe_asset a w" and ?cid = "ed_condition_id (event_data_of em a)"
  have wf: "wf_dict (br_token_routes (sm_bridge w))" using assms(1) by (simp add: sub_inv_def)
  show ?thesis
    unfolding sub_inv_def
  proof (intro conjI allI impI ballI)
    show "wf_dict (br_token_routes (sm_bridge ?w))"
      using True wf by (simp add: sub_rotate_def Let_def register_tokens_wf unregister_where_wf)
    show "str_upper x = x" if "x \<in> set (dkeys (sm_active_events ?w))" for x
      using that True assms by (auto simp: sub_rotate_def Let_def sub_inv_def dkeys_dset simp del: set_map)
    fix t r assume "dget (br_token_routes (sm_bridge ?w)) t = Some r"
    then have "(rt_condition_id r = ?cid \<and> rt_asset r = a) \<or> dget (br_token_routes (sm_bridge ?u)) t = Some r"
      using True by (auto simp: sub_rotate_def Let_def dest: register_tokens_routes)
    then have "(rt_condition_id r = ?cid \<and> rt_asset r = a) \<or>
        (dget (br_token_routes (sm_bridge w)) t = Some r \<and> str_upper (rt_asset r) \<noteq> a)"
      using assms(2) by (auto simp: unregister_where_routes [OF wf] split: option.splits if_splits)
    then show "dget (sm_active_events ?w) (rt_asset r) = Some (rt_condition_id r)"
      using sub_invD [OF assms(1), of t r] True by (auto simp: sub_rotate_def Let_def)
  qed
qed (use assms in \<open>simp add: sub_rotate_def\<close>)

lemma fold_inv: "P w \<Longrightarrow> (\<And>x w. x \<in> set xs \<Longrightarrow> P w \<Longrightarrow> P (f x w)) \<Longrightarrow> P (fold f xs w)"
  by (induction xs arbitrary: w) simp_all

section \<open>Refinement of the active events\<close>

text \<open>
  What a refresh should do to the map from coins to events: forget the coins that are no longer
  eligible, take the event of a new coin, and replace the event of a kept coin when both events
  are known and differ.
\<close>

definition rotated :: "string \<Rightarrow> string option \<Rightarrow> string option" where
  "rotated cid v = (case v of None \<Rightarrow> None
     | Some old \<Rightarrow> if cid \<noteq> [] \<and> old \<noteq> [] then Some cid else Some old)"

definition sub_spec ::
  "string set \<Rightarrow> (string, EventData) dict \<Rightarrow> (string \<Rightarrow> string option) \<Rightarrow> string \<Rightarrow> string option" where
  "sub_spec eligible em active a =
     (let cid = ed_condition_id (event_data_of em a)
      in if a \<notin> eligible then None
         else if active a = None then Some cid else rotated cid (active a))"

lemma rotated_idem [simp]: "rotated cid (rotated cid v) = rotated cid v"
  by (auto simp: rotated_def split: option.splits)

lemma sub_new_active [simp]:
  "dget (sm_active_events (sub_new em a w)) c =
     (if c = a then Some (ed_condition_id (event_data_of em a)) else dget (sm_active_events w) c)"
  by (simp add: sub_new_def Let_def)

lemma sub_drop_active [simp]:
  "dget (sm_active_events (sub_drop a w)) c = (if c = a then None else dget (sm_active_events w) c)"
  by (simp add: sub_drop_def Let_def)

lemma sub_rotate_active [simp]:
  "dget (sm_active_events (sub_rotate em a w)) c =
     (if c = a then rotated (ed_condition_id (event_data_of em a)) (dget (sm_active_events w) a)
      else dget (sm_active_events w) c)"
  by (auto simp: sub_rotate_def rotates_def rotated_def dget_or_def Let_def split: option.splits)

lemma fold_sub_new_active:
  "dget (sm_active_events (fold (sub_new em) as w)) c =
     (if c \<in> set as then Some (ed_condition_id (event_data_of em c)) else dget (sm_active_events w) c)"
  by (induction as arbitrary: w) auto

lemma fold_sub_drop_active:
  "dget (sm_active_events (fold sub_drop as w)) c = (if c \<in> set as then None else dget (sm_active_events w) c)"
  by (induction as arbitrary: w) auto

lemma fold_sub_rotate_active:
  "dget (sm_active_events (fold (sub_rotate em) as w)) c =
     (if c \<in> set as then rotated (ed_condition_id (event_data_of em c)) (dget (sm_active_events w) c)
      else dget (sm_active_events w) c)"
  by (induction as arbitrary: w) auto

lemma compute_diff_sets:
  "set (df_to_subscribe (compute_diff new w)) = set (map str_upper new) - set (dkeys (sm_active_events w))"
  "set (df_to_unsubscribe (compute_diff new w)) = set (dkeys (sm_active_events w)) - set (map str_upper new)"
  "set (df_unchanged (compute_diff new w)) = set (map str_upper new) \<inter> set (dkeys (sm_active_events w))"
  unfolding compute_diff_def Let_def SubscriptionDiff.simps by (simp_all del: set_map)

lemma apply_diff_active:
  "sm_active_events (apply_diff d em w) =
     sm_active_events (fold (sub_rotate em) (df_unchanged d)
       (fold sub_drop (df_to_unsubscribe d) (fold (sub_new em) (df_to_subscribe d) w)))"
  and apply_diff_bridge:
  "sm_bridge (apply_diff d em w) =
     sm_bridge (fold (sub_rotate em) (df_unchanged d)
       (fold sub_drop (df_to_unsubscribe d) (fold (sub_new em) (df_to_subscribe d) w)))"
  by (simp_all add: apply_diff_def Let_def)

lemma sub_inv_cong:
  "sm_active_events w' = sm_active_events w \<Longrightarrow> br_token_routes (sm_bridge w') = br_token_routes (sm_bridge w) \<Longrightarrow>
     sub_inv w' = sub_inv w"
  by (simp add: sub_inv_def)

lemma sub_new_keys: "set (dkeys (sm_active_events (sub_new em a w))) = insert a (set (dkeys (sm_active_events w)))"
  by (simp add: sub_new_def Let_def dkeys_dset del: set_map)

lemma fold_sub_new_inv:
  "sub_inv w \<Longrightarrow> distinct as \<Longrightarrow> (\<And>a. a \<in> set as \<Longrightarrow> str_upper a = a) \<Longrightarrow>
     set as \<inter> set (dkeys (sm_active_events w)) = {} \<Longrightarrow> sub_inv (fold (sub_new em) as w)"
proof (induction as arbitrary: w)
  case (Cons a as)
  have "sub_inv (sub_new em a w)" using Cons.prems by (intro sub_new_inv) auto
  moreover have "set as \<inter> set (dkeys (sm_active_events (sub_new em a w))) = {}"
    unfolding sub_new_keys using Cons.prems(2,4) by auto
  ultimately show ?case using Cons.IH Cons.prems(2,3) by simp
qed simp

lemma apply_diff_inv:
  assumes "sub_inv w"
  shows "sub_inv (apply_diff (compute_diff new w) em w)"
proof -
  let ?d = "compute_diff new w"
  let ?w1 = "fold (sub_new em) (df_to_subscribe ?d) w"
  let ?w2 = "fold sub_drop (df_to_unsubscribe ?d) ?w1"
  have upper: "str_upper a = a" if "a \<in> set (map str_upper new) \<union> set (dkeys (sm_active_events w))" for a
    using that assms unfolding sub_inv_def by auto
  have "sub_inv ?w1"
  proof (rule fold_sub_new_inv [OF assms])
    show "distinct (df_to_subscribe ?d)" by (simp add: compute_diff_def Let_def)
    show "str_upper a = a" if "a \<in> set (df_to_subscribe ?d)" for a
      using that upper unfolding compute_diff_sets by blast
    show "set (df_to_subscribe ?d) \<inter> set (dkeys (sm_active_events w)) = {}"
      unfolding compute_diff_sets by blast
  qed
  then have "sub_inv ?w2"
  proof (rule fold_inv)
    show "sub_inv (sub_drop a v)" if "a \<in> set (df_to_unsubscribe ?d)" "sub_inv v" for a v
      using that upper unfolding compute_diff_sets by (intro sub_drop_inv) blast+
  qed
  then have "sub_inv (fold (sub_rotate em) (df_unchanged ?d) ?w2)"
  proof (rule fold_inv)
    show "sub_inv (sub_rotate em a v)" if "a \<in> set (df_unchanged ?d)" "sub_inv v" for a v
      using that upper unfolding compute_diff_sets by (intro sub_rotate_inv) blast+
  qed
  then show ?thesis
    using sub_inv_cong [OF apply_diff_active, of ?d em w] apply_diff_bridge [of ?d em w] by simp
qed

lemma cleanup_event_inv: "sub_inv w \<Longrightarrow> sub_inv (cleanup_event cid w)"
proof -
  assume w: "sub_inv w"
  let ?b = "(sm_bridge w)\<lparr>br_pipeline := pipeline_clear_event cid (br_pipeline (sm_bridge w))\<rparr>"
  have wf: "wf_dict (br_token_routes ?b)" using w by (simp add: sub_inv_def)
  show ?thesis
    unfolding sub_inv_def
  proof (intro conjI allI impI)
    show "wf_dict (br_token_routes (sm_bridge (cleanup_event cid w)))"
      using wf by (simp add: cleanup_event_def Let_def unregister_where_wf)
    show "\<forall>a \<in> set (dkeys (sm_active_events (cleanup_event cid w))). str_upper a = a"
      using w by (simp add: cleanup_event_def Let_def sub_inv_def)
    fix t r assume "dget (br_token_routes (sm_bridge (cleanup_event cid w))) t = Some r"
    then have "dget (br_token_routes (sm_bridge w)) t = Some r"
      using unregister_where_routes [OF wf, of "\<lambda>route. rt_condition_id route = cid" t]
      by (simp add: cleanup_event_def Let_def split: option.splits if_splits)
    then show "dget (sm_active_events (cleanup_event cid w)) (rt_asset r) = Some (rt_condition_id r)"
      using sub_invD(1) [OF w] by (simp add: cleanup_event_def Let_def)
  qed
qed

text \<open>The steps that touch subscriptions, interleaved with incoming messages.\<close>

inductive sub_step :: "SubWorld \<Rightarrow> SubWorld \<Rightarrow> bool" where
  refresh: "sub_step w (apply_diff (compute_diff new w) em w)"
| cleanup: "sub_step w (cleanup_event cid w)"
| quote: "on_ws_message now data (sm_bridge w) = (b, res) \<Longrightarrow> sub_step w (w\<lparr>sm_bridge := b\<rparr>)"

lemma sub_step_inv: "sub_step w w' \<Longrightarrow> sub_inv w \<Longrightarrow> sub_inv w'"
proof (induction rule: sub_step.induct)
  case (quote now data w b res)
  with on_ws_message_routes [of now data "sm_bridge w"] show ?case by (simp add: sub_inv_def)
qed (simp_all add: apply_diff_inv cleanup_event_inv)

lemma sub_steps_inv: "sub_step\<^sup>*\<^sup>* w w' \<Longrightarrow> sub_inv w \<Longrightarrow> sub_inv w'"
  by (induction rule: rtranclp_induct) (auto intro: sub_step_inv)

lemma apply_diff_spec:
  "dget (sm_active_events (apply_diff (compute_diff new w) em w)) =
     sub_spec (set (map str_upper new)) em (dget (sm_active_events w))"
proof (rule ext)
  fix a
  have key: "a \<in> set (dkeys (sm_active_events w)) \<longleftrightarrow> dget (sm_active_events w) a \<noteq> None"
    by (simp add: map_of_eq_None_iff)
  show "dget (sm_active_events (apply_diff (compute_diff new w) em w)) a =
      sub_spec (set (map str_upper new)) em (dget (sm_active_events w)) a"
    unfolding apply_diff_active fold_sub_new_active fold_sub_drop_active fold_sub_rotate_active compute_diff_sets
      sub_spec_def Let_def
    using key by (cases "dget (sm_active_events w) a") (auto simp del: set_map simp: rotated_def)
qed

section \<open>Properties\<close>

text \<open>C29. A refresh of the subscriptions refines the map from coins to events that the module documents:
  exactly the eligible coins are active afterwards, a new coin gets the event of the scan, a kept
  coin moves to the new event of its slot when both are known.\<close>

theorem subscription_refines:
  "dget (sm_active_events (apply_diff (compute_diff new w) em w)) =
     sub_spec (set (map str_upper new)) em (dget (sm_active_events w))"
  by (rule apply_diff_spec)


definition example_event_map :: "(string, EventData) dict" where
  "example_event_map = [(''BTC'', \<lparr>ed_condition_id = ''c1'', ed_token_ids = [''t1'', ''t2''], ed_sides = [''Up'', ''Down''],
     ed_slug = ''btc-updown-5m-1700000100''\<rparr>)]"

definition example_subs :: SubWorld where
  "example_subs = \<lparr>sm_bridge = example_bridge\<lparr>br_token_routes := []\<rparr>, sm_coin_client = example_client,
     sm_ptb = example_fetcher, sm_active_events = [], sm_rtds_tokens = Some [], sm_cleaned_count = 0\<rparr>"


text \<open>A cleanup removes every trace of its event, the routes, the price record and the price to
  beat, and leaves the routes and records of all other events as they are.\<close>

theorem cleanup_exact:
  assumes "wf_dict (br_token_routes (sm_bridge w))"
  shows "dget (pl_records (br_pipeline (sm_bridge (cleanup_event cid w)))) =
           (dget (pl_records (br_pipeline (sm_bridge w))))(cid := None) \<and>
         dget (pf_records (sm_ptb (cleanup_event cid w))) = (dget (pf_records (sm_ptb w)))(cid := None) \<and>
         dget (br_token_routes (sm_bridge (cleanup_event cid w))) t =
           (case dget (br_token_routes (sm_bridge w)) t of None \<Rightarrow> None
            | Some r \<Rightarrow> if rt_condition_id r = cid then None else Some r)"
proof -
  have p: "br_pipeline (foldl (\<lambda>b t. unregister_token t b) b ts) = br_pipeline b" for b ts
    by (induction ts arbitrary: b) (auto simp: unregister_token_def)
  show ?thesis
    using unregister_where_routes [of "(sm_bridge w)\<lparr>br_pipeline := pipeline_clear_event cid (br_pipeline (sm_bridge w))\<rparr>"]
      assms
    by (auto simp: cleanup_event_def Let_def unregister_where_def p pipeline_clear_event_def ptb_clear_event_def
        fun_eq_iff delete_conv')
qed

theorem cleanup_exact_witness:
  "dget (br_token_routes (sm_bridge (cleanup_event ''c1'' (example_subs\<lparr>sm_bridge := example_bridge\<rparr>)))) ''t1'' = None"
  using cleanup_exact [of "example_subs\<lparr>sm_bridge := example_bridge\<rparr>" "''c1''" "''t1''"]
  by (simp add: example_bridge_def example_route_def wf_dict_def)

end
