(* ===== verification/Strategy.thy ===== *)
theory Strategy
  imports Settings
begin

text \<open>
  \<^verbatim>\<open>backend/strategy/\<close>: the evaluation context with its derived prices, the six entry rules and
  the engine that runs them and merges their results.

  A rule is its name, its switch and its evaluation; an evaluation may raise, which the engine
  turns into a FAIL. The details of a result only feed logs and the dashboard and are left out,
  except for the reason of a WAITING or a special FAIL.
\<close>

section \<open>Context\<close>

datatype RuleState = PASS | FAIL | WAITING | DISABLED

datatype OverallDecision = OD_ENTRY | OD_NO_ENTRY | OD_WAITING | OD_NO_RULES

record EvaluationContext =
  x_condition_id :: string
  x_asset :: string
  x_event_slug :: string
  x_up_price :: num
  x_down_price :: num
  x_up_bid :: num
  x_up_ask :: num
  x_down_bid :: num
  x_down_ask :: num
  x_best_bid :: num
  x_best_ask :: num
  x_outcome_fresh :: bool
  x_side_mode :: SideMode
  x_coin_usd_price :: num
  x_coin_usd_fresh :: bool
  x_ptb_value :: num
  x_ptb_acquired :: bool
  x_seconds_remaining :: num
  x_event_end_ts :: num
  x_event_fill_count :: int
  x_open_position_count :: int
  x_time_min_seconds :: int
  x_time_max_seconds :: int
  x_price_min :: int
  x_price_max :: int
  x_delta_threshold :: num
  x_spread_max_pct :: num
  x_event_max_positions :: int
  x_bot_max_positions :: int
  x_time_enabled :: bool
  x_price_enabled :: bool
  x_delta_enabled :: bool
  x_spread_enabled :: bool
  x_event_max_enabled :: bool
  x_bot_max_enabled :: bool

definition evaluated_side :: "EvaluationContext \<Rightarrow> string" where
  "evaluated_side c = (case x_side_mode c of UP_ONLY \<Rightarrow> ''UP'' | DOWN_ONLY \<Rightarrow> ''DOWN''
     | DOMINANT_ONLY \<Rightarrow> if x_down_bid c \<le> x_up_bid c then ''UP'' else ''DOWN'')"

definition entry_ref_price :: "EvaluationContext \<Rightarrow> num" where
  "entry_ref_price c = (case x_side_mode c of UP_ONLY \<Rightarrow> x_up_ask c | DOWN_ONLY \<Rightarrow> x_down_ask c
     | DOMINANT_ONLY \<Rightarrow> if x_down_bid c \<le> x_up_bid c then x_up_ask c else x_down_ask c)"

definition exit_ref_price :: "EvaluationContext \<Rightarrow> num" where
  "exit_ref_price c = (case x_side_mode c of UP_ONLY \<Rightarrow> x_up_bid c | DOWN_ONLY \<Rightarrow> x_down_bid c
     | DOMINANT_ONLY \<Rightarrow> if x_down_bid c \<le> x_up_bid c then x_up_bid c else x_down_bid c)"

definition evaluated_price :: "EvaluationContext \<Rightarrow> num" where
  "evaluated_price c = entry_ref_price c"

definition evaluated_price_100 :: "EvaluationContext \<Rightarrow> num" where
  "evaluated_price_100 c = fmul (evaluated_price c) 100"

definition spread_pct :: "EvaluationContext \<Rightarrow> num" where
  "spread_pct c = (let ask = entry_ref_price c; bid = exit_ref_price c
     in if 0 < ask then fmul (fdiv (fsub ask bid) ask) 100 else 0)"

definition ctx_delta :: "EvaluationContext \<Rightarrow> num" where
  "ctx_delta c = (if 0 < x_coin_usd_price c \<and> 0 < x_ptb_value c
     then \<bar>fsub (x_coin_usd_price c) (x_ptb_value c)\<bar> else 0)"

section \<open>Rules\<close>

record RuleResult =
  rr_rule_name :: string
  rr_state :: RuleState
  rr_reason :: string

record Rule =
  ru_name :: string
  ru_enabled :: "EvaluationContext \<Rightarrow> bool"
  ru_eval :: "EvaluationContext \<Rightarrow> exc + RuleState \<times> string"

definition base_evaluate :: "Rule \<Rightarrow> EvaluationContext \<Rightarrow> exc + RuleResult" where
  "base_evaluate r c =
     (if \<not> ru_enabled r c then
        Inr \<lparr>rr_rule_name = ru_name r, rr_state = DISABLED, rr_reason = ''rule disabled by user''\<rparr>
      else case ru_eval r c of
        Inl e \<Rightarrow> Inl e
      | Inr (s, why) \<Rightarrow> Inr \<lparr>rr_rule_name = ru_name r, rr_state = s, rr_reason = why\<rparr>)"

definition pass_if :: "bool \<Rightarrow> exc + RuleState \<times> string" where
  "pass_if b = Inr (if b then PASS else FAIL, [])"

definition time_eval :: "EvaluationContext \<Rightarrow> exc + RuleState \<times> string" where
  "time_eval c = (let remaining = x_seconds_remaining c
     in if remaining \<le> 0 then Inr (FAIL, ''event_expired'')
        else pass_if (of_int (x_time_min_seconds c) \<le> remaining \<and> remaining \<le> of_int (x_time_max_seconds c)))"

definition price_eval :: "EvaluationContext \<Rightarrow> exc + RuleState \<times> string" where
  "price_eval c = (if \<not> x_outcome_fresh c then Inr (WAITING, ''outcome_data_not_fresh'')
     else pass_if (of_int (x_price_min c) \<le> evaluated_price_100 c \<and> evaluated_price_100 c \<le> of_int (x_price_max c)))"

definition delta_eval :: "EvaluationContext \<Rightarrow> exc + RuleState \<times> string" where
  "delta_eval c = (if \<not> x_ptb_acquired c then Inr (WAITING, ''ptb_not_acquired'')
     else if \<not> x_coin_usd_fresh c then Inr (WAITING, ''coin_usd_not_fresh'')
     else pass_if (x_delta_threshold c \<le> ctx_delta c))"

definition spread_eval :: "EvaluationContext \<Rightarrow> exc + RuleState \<times> string" where
  "spread_eval c = (if \<not> x_outcome_fresh c then Inr (WAITING, ''outcome_data_not_fresh'')
     else if x_best_ask c \<le> 0 then Inr (WAITING, ''best_ask_zero'')
     else pass_if (spread_pct c \<le> x_spread_max_pct c))"

definition event_max_eval :: "EvaluationContext \<Rightarrow> exc + RuleState \<times> string" where
  "event_max_eval c = (if x_event_fill_count c < x_event_max_positions c then Inr (PASS, [])
     else Inr (FAIL, ''event_limit_reached''))"

definition bot_max_eval :: "EvaluationContext \<Rightarrow> exc + RuleState \<times> string" where
  "bot_max_eval c = (if x_open_position_count c < x_bot_max_positions c then Inr (PASS, [])
     else Inr (FAIL, ''bot_limit_reached''))"

definition TimeRule :: Rule where
  "TimeRule = \<lparr>ru_name = ''time'', ru_enabled = x_time_enabled, ru_eval = time_eval\<rparr>"
definition PriceRule :: Rule where
  "PriceRule = \<lparr>ru_name = ''price'', ru_enabled = x_price_enabled, ru_eval = price_eval\<rparr>"
definition DeltaRule :: Rule where
  "DeltaRule = \<lparr>ru_name = ''delta'', ru_enabled = x_delta_enabled, ru_eval = delta_eval\<rparr>"
definition SpreadRule :: Rule where
  "SpreadRule = \<lparr>ru_name = ''spread'', ru_enabled = x_spread_enabled, ru_eval = spread_eval\<rparr>"
definition EventMaxRule :: Rule where
  "EventMaxRule = \<lparr>ru_name = ''event_max'', ru_enabled = x_event_max_enabled, ru_eval = event_max_eval\<rparr>"
definition BotMaxRule :: Rule where
  "BotMaxRule = \<lparr>ru_name = ''bot_max'', ru_enabled = x_bot_max_enabled, ru_eval = bot_max_eval\<rparr>"

definition DEFAULT_RULES :: "Rule list" where
  "DEFAULT_RULES = [TimeRule, PriceRule, DeltaRule, SpreadRule, EventMaxRule, BotMaxRule]"

section \<open>The engine\<close>

record EvaluationResult =
  ev_decision :: OverallDecision
  ev_rule_results :: "RuleResult list"

definition run_rule :: "EvaluationContext \<Rightarrow> Rule \<Rightarrow> RuleResult" where
  "run_rule c r = (case base_evaluate r c of Inr res \<Rightarrow> res
     | Inl e \<Rightarrow> \<lparr>rr_rule_name = ru_name r, rr_state = FAIL, rr_reason = ''exception''\<rparr>)"

text \<open>The three flags of \<^verbatim>\<open>_merge_decision\<close>, updated per result.\<close>

fun merge_flags :: "RuleResult list \<Rightarrow> bool \<times> bool \<times> bool \<Rightarrow> bool \<times> bool \<times> bool" where
  "merge_flags [] flags = flags"
| "merge_flags (r # rs) (has_fail, has_waiting, has_pass) =
     merge_flags rs (case rr_state r of
         DISABLED \<Rightarrow> (has_fail, has_waiting, has_pass)
       | FAIL \<Rightarrow> (True, has_waiting, has_pass)
       | WAITING \<Rightarrow> (has_fail, True, has_pass)
       | PASS \<Rightarrow> (has_fail, has_waiting, True))"

definition merge_decision :: "RuleResult list \<Rightarrow> OverallDecision" where
  "merge_decision rs = (case merge_flags rs (False, False, False) of (has_fail, has_waiting, has_pass) \<Rightarrow>
     if has_fail then OD_NO_ENTRY else if has_waiting then OD_WAITING
     else if has_pass then OD_ENTRY else OD_NO_RULES)"

text \<open>\<^verbatim>\<open>rules or list(_DEFAULT_RULES)\<close>\<close>

definition engine_rules :: "Rule list option \<Rightarrow> Rule list" where
  "engine_rules rules = (case rules of None \<Rightarrow> DEFAULT_RULES | Some rs \<Rightarrow> if rs = [] then DEFAULT_RULES else rs)"

definition engine_evaluate :: "Rule list \<Rightarrow> EvaluationContext \<Rightarrow> EvaluationResult" where
  "engine_evaluate rules c =
     (let results = map (run_rule c) rules
      in \<lparr>ev_decision = merge_decision results, ev_rule_results = results\<rparr>)"

definition get_result :: "EvaluationResult \<Rightarrow> string \<Rightarrow> RuleResult option" where
  "get_result ev name = find (\<lambda>r. rr_rule_name r = name) (ev_rule_results ev)"

definition state_count :: "RuleState \<Rightarrow> EvaluationResult \<Rightarrow> int" where
  "state_count s ev = int (length (filter (\<lambda>r. rr_state r = s) (ev_rule_results ev)))"

section \<open>The merge\<close>

lemma merge_flags_iff:
  "merge_flags rs (f, w, p) =
     (f \<or> (\<exists>r \<in> set rs. rr_state r = FAIL), w \<or> (\<exists>r \<in> set rs. rr_state r = WAITING),
      p \<or> (\<exists>r \<in> set rs. rr_state r = PASS))"
  by (induction rs arbitrary: f w p) (auto split: RuleState.splits)

lemma merge_decision_iff:
  "merge_decision rs =
     (if \<exists>r \<in> set rs. rr_state r = FAIL then OD_NO_ENTRY
      else if \<exists>r \<in> set rs. rr_state r = WAITING then OD_WAITING
      else if \<exists>r \<in> set rs. rr_state r = PASS then OD_ENTRY else OD_NO_RULES)"
  by (simp add: merge_decision_def merge_flags_iff)

lemma merge_entry_iff:
  "merge_decision rs = OD_ENTRY \<longleftrightarrow>
     (\<forall>r \<in> set rs. rr_state r = PASS \<or> rr_state r = DISABLED) \<and> (\<exists>r \<in> set rs. rr_state r = PASS)"
proof -
  have "merge_decision rs = OD_ENTRY \<longleftrightarrow> \<not> (\<exists>r \<in> set rs. rr_state r = FAIL) \<and>
      \<not> (\<exists>r \<in> set rs. rr_state r = WAITING) \<and> (\<exists>r \<in> set rs. rr_state r = PASS)"
    by (simp add: merge_decision_iff)
  moreover have "(\<not> rr_state r = FAIL \<and> \<not> rr_state r = WAITING) \<longleftrightarrow> rr_state r = PASS \<or> rr_state r = DISABLED" for r
    by (cases "rr_state r") simp_all
  ultimately show ?thesis by blast
qed

lemmas rule_defs = TimeRule_def PriceRule_def DeltaRule_def SpreadRule_def EventMaxRule_def BotMaxRule_def

lemma run_rule_disabled: "\<not> ru_enabled r c \<Longrightarrow> rr_state (run_rule c r) = DISABLED"
  by (simp add: run_rule_def base_evaluate_def)

lemma run_rule_enabled:
  "ru_enabled r c \<Longrightarrow> rr_state (run_rule c r) = (case ru_eval r c of Inl e \<Rightarrow> FAIL | Inr (s, _) \<Rightarrow> s)"
  by (auto simp: run_rule_def base_evaluate_def split: sum.splits)

lemma rule_states:
  "rr_state (run_rule c TimeRule) = (if \<not> x_time_enabled c then DISABLED
     else if 0 < x_seconds_remaining c \<and> of_int (x_time_min_seconds c) \<le> x_seconds_remaining c \<and>
       x_seconds_remaining c \<le> of_int (x_time_max_seconds c) then PASS else FAIL)"
  "rr_state (run_rule c PriceRule) = (if \<not> x_price_enabled c then DISABLED
     else if \<not> x_outcome_fresh c then WAITING
     else if of_int (x_price_min c) \<le> evaluated_price_100 c \<and> evaluated_price_100 c \<le> of_int (x_price_max c)
     then PASS else FAIL)"
  "rr_state (run_rule c DeltaRule) = (if \<not> x_delta_enabled c then DISABLED
     else if \<not> x_ptb_acquired c \<or> \<not> x_coin_usd_fresh c then WAITING
     else if x_delta_threshold c \<le> ctx_delta c then PASS else FAIL)"
  "rr_state (run_rule c SpreadRule) = (if \<not> x_spread_enabled c then DISABLED
     else if \<not> x_outcome_fresh c \<or> x_best_ask c \<le> 0 then WAITING
     else if spread_pct c \<le> x_spread_max_pct c then PASS else FAIL)"
  "rr_state (run_rule c EventMaxRule) = (if \<not> x_event_max_enabled c then DISABLED
     else if x_event_fill_count c < x_event_max_positions c then PASS else FAIL)"
  "rr_state (run_rule c BotMaxRule) = (if \<not> x_bot_max_enabled c then DISABLED
     else if x_open_position_count c < x_bot_max_positions c then PASS else FAIL)"
  by (auto simp: run_rule_def base_evaluate_def rule_defs time_eval_def price_eval_def delta_eval_def
      spread_eval_def event_max_eval_def bot_max_eval_def pass_if_def Let_def)

definition example_context :: EvaluationContext where
  "example_context = \<lparr>x_condition_id = ''c1'', x_asset = ''BTC'', x_event_slug = ''btc-updown-5m-1700000100'',
     x_up_price = 1/2, x_down_price = 1/2, x_up_bid = 1/2, x_up_ask = 1/2, x_down_bid = 1/4, x_down_ask = 1/2,
     x_best_bid = 1/2, x_best_ask = 1/2, x_outcome_fresh = True, x_side_mode = DOMINANT_ONLY,
     x_coin_usd_price = 96, x_coin_usd_fresh = True, x_ptb_value = 64, x_ptb_acquired = True,
     x_seconds_remaining = 128, x_event_end_ts = 1700000400, x_event_fill_count = 0, x_open_position_count = 0,
     x_time_min_seconds = 30, x_time_max_seconds = 270, x_price_min = 10, x_price_max = 90,
     x_delta_threshold = 8, x_spread_max_pct = 4, x_event_max_positions = 1, x_bot_max_positions = 3,
     x_time_enabled = True, x_price_enabled = True, x_delta_enabled = True, x_spread_enabled = True,
     x_event_max_enabled = True, x_bot_max_enabled = True\<rparr>"

section \<open>Properties\<close>

text \<open>The overall decision of any list of rules: a failing rule (or one that raises) forbids the
  entry, else a waiting one postpones it, else a passing one allows it; with every rule disabled
  there is no decision. Disabled rules never count as passed, and the order of the rules does
  not matter.\<close>

theorem engine_decision:
  "ev_decision (engine_evaluate rules c) =
     (let fails = (\<lambda>r. ru_enabled r c \<and> (case ru_eval r c of Inl e \<Rightarrow> True | Inr (s, _) \<Rightarrow> s = FAIL));
          gives = (\<lambda>s r. ru_enabled r c \<and> (case ru_eval r c of Inl e \<Rightarrow> False | Inr (s', _) \<Rightarrow> s' = s))
      in if list_ex fails rules then OD_NO_ENTRY
         else if list_ex (gives WAITING) rules then OD_WAITING
         else if list_ex (gives PASS) rules then OD_ENTRY else OD_NO_RULES)"
proof -
  have "(\<exists>q \<in> set (map (run_rule c) rules). rr_state q = s) = list_ex (\<lambda>r. rr_state (run_rule c r) = s) rules" for s
    by (auto simp: list_ex_iff)
  moreover have "rr_state (run_rule c r) = FAIL \<longleftrightarrow>
      ru_enabled r c \<and> (case ru_eval r c of Inl e \<Rightarrow> True | Inr (s, _) \<Rightarrow> s = FAIL)" for r
    by (cases "ru_enabled r c") (auto simp: run_rule_disabled run_rule_enabled split: sum.splits)
  moreover have "s \<noteq> FAIL \<Longrightarrow> s \<noteq> DISABLED \<Longrightarrow> rr_state (run_rule c r) = s \<longleftrightarrow>
      ru_enabled r c \<and> (case ru_eval r c of Inl e \<Rightarrow> False | Inr (s', _) \<Rightarrow> s' = s)" for r s
    by (cases "ru_enabled r c") (auto simp: run_rule_disabled run_rule_enabled split: sum.splits)
  ultimately show ?thesis
    by (simp add: engine_evaluate_def merge_decision_iff Let_def del: set_map)
qed

lemma gate:
  "(if \<not> en then DISABLED else if p then PASS else FAIL) = PASS \<longleftrightarrow> en \<and> p"
  "(if \<not> en then DISABLED else if p then PASS else FAIL) = DISABLED \<longleftrightarrow> \<not> en"
  "(if \<not> en then DISABLED else if w then WAITING else if p then PASS else FAIL) = PASS \<longleftrightarrow> en \<and> \<not> w \<and> p"
  "(if \<not> en then DISABLED else if w then WAITING else if p then PASS else FAIL) = DISABLED \<longleftrightarrow> \<not> en"
  by auto

text \<open>What an entry decision of the default engine guarantees: at least one rule is enabled, and
  every enabled rule holds on the context: the remaining time and the fresh entry price are in
  their ranges, the PTB is acquired and the fresh coin price is far enough from it, the spread
  is small enough on a fresh book, and the event and the bot are below their limits.\<close>

lemma entry_decision_iff:
  "ev_decision (engine_evaluate DEFAULT_RULES c) = OD_ENTRY \<longleftrightarrow>
     (x_time_enabled c \<or> x_price_enabled c \<or> x_delta_enabled c \<or> x_spread_enabled c \<or>
        x_event_max_enabled c \<or> x_bot_max_enabled c) \<and>
     (if x_time_enabled c then 0 < x_seconds_remaining c \<and> of_int (x_time_min_seconds c) \<le> x_seconds_remaining c \<and>
        x_seconds_remaining c \<le> of_int (x_time_max_seconds c) else True) \<and>
     (if x_price_enabled c then x_outcome_fresh c \<and> of_int (x_price_min c) \<le> evaluated_price_100 c \<and>
        evaluated_price_100 c \<le> of_int (x_price_max c) else True) \<and>
     (if x_delta_enabled c then x_ptb_acquired c \<and> x_coin_usd_fresh c \<and> x_delta_threshold c \<le> ctx_delta c else True) \<and>
     (if x_spread_enabled c then x_outcome_fresh c \<and> 0 < x_best_ask c \<and> spread_pct c \<le> x_spread_max_pct c else True) \<and>
     (if x_event_max_enabled c then x_event_fill_count c < x_event_max_positions c else True) \<and>
     (if x_bot_max_enabled c then x_open_position_count c < x_bot_max_positions c else True)"
proof -
  have ex: "(\<exists>r \<in> set (map (run_rule c) DEFAULT_RULES). P (rr_state r)) \<longleftrightarrow>
      P (rr_state (run_rule c TimeRule)) \<or> P (rr_state (run_rule c PriceRule)) \<or>
      P (rr_state (run_rule c DeltaRule)) \<or> P (rr_state (run_rule c SpreadRule)) \<or>
      P (rr_state (run_rule c EventMaxRule)) \<or> P (rr_state (run_rule c BotMaxRule))" for P
    by (simp add: DEFAULT_RULES_def)
  have all: "(\<forall>r \<in> set (map (run_rule c) DEFAULT_RULES). P (rr_state r)) \<longleftrightarrow>
      P (rr_state (run_rule c TimeRule)) \<and> P (rr_state (run_rule c PriceRule)) \<and>
      P (rr_state (run_rule c DeltaRule)) \<and> P (rr_state (run_rule c SpreadRule)) \<and>
      P (rr_state (run_rule c EventMaxRule)) \<and> P (rr_state (run_rule c BotMaxRule))" for P
    by (simp add: DEFAULT_RULES_def)
  have "ev_decision (engine_evaluate DEFAULT_RULES c) = OD_ENTRY \<longleftrightarrow>
      (\<forall>r \<in> set (map (run_rule c) DEFAULT_RULES). rr_state r = PASS \<or> rr_state r = DISABLED) \<and>
      (\<exists>r \<in> set (map (run_rule c) DEFAULT_RULES). rr_state r = PASS)"
    by (simp only: engine_evaluate_def merge_entry_iff Let_def EvaluationResult.simps)
  then show ?thesis
    unfolding all [of "\<lambda>s. s = PASS \<or> s = DISABLED"] ex [of "\<lambda>s. s = PASS"] rule_states gate de_Morgan_disj not_not not_le
    by (simp only: if_bool_eq_conj simp_thms) blast
qed


text \<open>The quoted spread is a percentage: for a book with bid and ask between 0 and 1 and the bid
  not above the ask, it lies between 0 and 100 after rounding, and it is 0 exactly for a
  missing ask.\<close>

theorem spread_pct_range:
  assumes "0 \<le> exit_ref_price c" and "exit_ref_price c \<le> entry_ref_price c" and "binary64 (entry_ref_price c)"
  shows "0 \<le> spread_pct c \<and> spread_pct c \<le> 100"
proof (cases "0 < entry_ref_price c")
  case True
  let ?a = "entry_ref_price c" and ?b = "exit_ref_price c"
  have s: "0 \<le> fsub ?a ?b" "fsub ?a ?b \<le> ?a" using assms by (simp_all add: fsub_nonneg fsub_le)
  have d: "0 \<le> fdiv (fsub ?a ?b) ?a" using s True by (simp add: fdiv_nonneg)
  have "fsub ?a ?b / ?a \<le> 1" using s True by simp
  then have "fdiv (fsub ?a ?b) ?a \<le> 1" unfolding fdiv_def by (rule fl_le) simp
  then have "fmul (fdiv (fsub ?a ?b) ?a) 100 \<le> 100"
    unfolding fmul_def by (intro fl_le) (simp_all add: binary64_iff fl_numeral)
  with d True show ?thesis by (simp add: spread_pct_def Let_def fmul_nonneg)
qed (simp add: spread_pct_def Let_def)

theorem spread_pct_range_witness: "0 \<le> spread_pct example_context \<and> spread_pct example_context \<le> 100"
proof (rule spread_pct_range)
  show "binary64 (entry_ref_price example_context)"
    unfolding binary64_iff by code_simp
qed (simp_all add: example_context_def exit_ref_price_def entry_ref_price_def)

end
