(* ===== verification/EvalLoop.thy ===== *)
theory EvalLoop
  imports Subscriptions Strategy Registry Orders TrackerInv
begin

text \<open>
  \<^verbatim>\<open>backend/orchestrator/evaluation_loop.py\<close>: the loop that builds an evaluation context for every
  eligible coin from the market data, the price to beat, the settings and the counters, asks the
  rule engine, and dispatches an order on an entry decision.

  The components the loop reads and changes are the ones the wiring passes: \<open>EvalWorld\<close> holds
  them, the pipeline inside the bridge and the position tracker inside the executor. One pass over
  a coin does not wait before its order is sent, so it is one step; its clock readings and the
  answers to its order are in \<open>EvalEnv\<close>.
\<close>

record EvalWorld =
  ew_bridge :: WSPriceBridge
  ew_coin_client :: CoinPriceClient
  ew_ptb :: PTBFetcher
  ew_settings :: SettingsStore
  ew_registry :: EventRegistry
  ew_executor :: OrderExecutor
  ew_rules :: "Rule list"
  ew_bot_max_positions :: int
  ew_paper_mode :: bool
  ew_dispatch_enabled :: bool
  ew_last_results :: "(string, EvaluationResult) dict"
  ew_eval_count :: int
  ew_entry_count :: int

record EvalEnv =
  ee_slot_now :: num
  ee_price_now :: usec
  ee_coin_now :: usec
  ee_remaining_now :: num
  ee_find_now :: num
  ee_dispatch_price_now :: usec
  ee_guard_now :: num
  ee_exec :: ExecEnv

section \<open>The event of the current slot\<close>

definition in_slot :: "int \<Rightarrow> string \<Rightarrow> bool" where
  "in_slot now slug = (case slug_ts slug of None \<Rightarrow> False | Some start \<Rightarrow> start \<le> now \<and> now < start + SLOT_SECONDS)"

definition find_current_slot_cid :: "num \<Rightarrow> string \<Rightarrow> EventRegistry \<Rightarrow> string" where
  "find_current_slot_cid now asset reg =
     (case find (\<lambda>r. str_upper (g_asset r) = str_upper asset \<and> in_slot (py_int now) (g_slug r)) (dvals reg) of
        None \<Rightarrow> [] | Some r \<Rightarrow> g_condition_id r)"

section \<open>Evaluation of one coin\<close>

abbreviation ew_pipeline :: "EvalWorld \<Rightarrow> LivePricePipeline" where
  "ew_pipeline w \<equiv> br_pipeline (ew_bridge w)"

definition set_pipeline :: "LivePricePipeline \<Rightarrow> EvalWorld \<Rightarrow> EvalWorld" where
  "set_pipeline p w = w\<lparr>ew_bridge := (ew_bridge w)\<lparr>br_pipeline := p\<rparr>\<rparr>"

text \<open>The price record of the current event, else any record of the asset.\<close>

definition eval_price :: "usec \<Rightarrow> string \<Rightarrow> string \<Rightarrow> LivePricePipeline \<Rightarrow> LivePricePipeline \<times> LivePriceRecord option" where
  "eval_price now cid asset p =
     (case (if cid \<noteq> [] then pipeline_get_record now cid p else (p, None)) of
        (p', Some r) \<Rightarrow> (p', Some r)
      | (p', None) \<Rightarrow> pipeline_get_by_asset now asset p')"

text \<open>The PTB record of the event, else of the asset.\<close>

definition eval_ptb :: "string \<Rightarrow> string \<Rightarrow> PTBFetcher \<Rightarrow> PTBRecord option" where
  "eval_ptb cid asset f =
     (case (if cid \<noteq> [] then ptb_get_record cid f else None) of
        Some r \<Rightarrow> Some r | None \<Rightarrow> ptb_get_by_asset asset f)"

definition build_context ::
  "num \<Rightarrow> CoinSettings \<Rightarrow> LivePriceRecord option \<Rightarrow> CoinPriceRecord option \<Rightarrow> PTBRecord option \<Rightarrow>
     PositionTracker \<Rightarrow> int \<Rightarrow> EvaluationContext" where
  "build_context now cs pr cr qr t bot_max =
     (let f = (\<lambda>g. case pr of None \<Rightarrow> 0 | Some r \<Rightarrow> g r);
          up_bid = f l_up_bid; up_ask = f l_up_ask; down_bid = f l_down_bid; down_ask = f l_down_ask;
          cid = (case pr of None \<Rightarrow> [] | Some r \<Rightarrow> l_condition_id r);
          locked = (case qr of None \<Rightarrow> False | Some r \<Rightarrow> is_locked r)
      in \<lparr>x_condition_id = cid, x_asset = cs_coin cs, x_event_slug = [],
          x_up_price = up_bid, x_down_price = down_bid,
          x_up_bid = up_bid, x_up_ask = up_ask, x_down_bid = down_bid, x_down_ask = down_ask,
          x_best_bid = max up_bid down_bid, x_best_ask = (if down_bid \<le> up_bid then up_ask else down_ask),
          x_outcome_fresh = (case pr of None \<Rightarrow> False | Some r \<Rightarrow> l_status r = PS_FRESH),
          x_side_mode = cs_side_mode cs,
          x_coin_usd_price = (case cr of None \<Rightarrow> 0 | Some r \<Rightarrow> k_usd_price r),
          x_coin_usd_fresh = (case cr of None \<Rightarrow> False | Some r \<Rightarrow> k_status r = CP_FRESH),
          x_ptb_value = (case qr of None \<Rightarrow> 0 | Some r \<Rightarrow> if is_locked r then the (q_ptb_value r) else 0),
          x_ptb_acquired = locked,
          x_seconds_remaining = fsub (of_int (slot_start_of now + SLOT_SECONDS)) now,
          x_event_end_ts = 0,
          x_event_fill_count = (if cid \<noteq> [] then get_event_fill_count t cid else 0),
          x_open_position_count = open_position_count t,
          x_time_min_seconds = cs_time_min cs, x_time_max_seconds = cs_time_max cs,
          x_price_min = cs_price_min cs, x_price_max = cs_price_max cs,
          x_delta_threshold = cs_delta_threshold cs, x_spread_max_pct = cs_spread_max cs,
          x_event_max_positions = cs_event_max cs, x_bot_max_positions = bot_max,
          x_time_enabled = (0 < cs_time_min cs), x_price_enabled = (0 < cs_price_min cs),
          x_delta_enabled = (0 < cs_delta_threshold cs), x_spread_enabled = (0 < cs_spread_max cs),
          x_event_max_enabled = True, x_bot_max_enabled = True\<rparr>)"

definition evaluate_single ::
  "EvalEnv \<Rightarrow> CoinSettings \<Rightarrow> EvalWorld \<Rightarrow> EvalWorld \<times> EvaluationContext \<times> EvaluationResult" where
  "evaluate_single env cs w =
     (let asset = cs_coin cs;
          current_cid = find_current_slot_cid (ee_slot_now env) asset (ew_registry w);
          (p, pr) = eval_price (ee_price_now env) current_cid asset (ew_pipeline w);
          cid = (case pr of None \<Rightarrow> [] | Some r \<Rightarrow> l_condition_id r);
          (c, cr) = coin_get_price (ee_coin_now env) asset (ew_coin_client w);
          qr = eval_ptb cid asset (ew_ptb w);
          ctx = build_context (ee_remaining_now env) cs pr cr qr (x_tracker (ew_executor w)) (ew_bot_max_positions w);
          res = engine_evaluate (ew_rules w) ctx
      in ((set_pipeline p w)\<lparr>ew_coin_client := c, ew_last_results := dset asset res (ew_last_results w)\<rparr>, ctx, res))"

section \<open>Dispatch\<close>

text \<open>The guard on the registry record of the event, with its own reading of the clock.\<close>

definition slot_guard :: "num \<Rightarrow> string \<Rightarrow> EventRegistry \<Rightarrow> bool" where
  "slot_guard now cid reg = (case get_by_condition_id reg cid of
       None \<Rightarrow> True
     | Some r \<Rightarrow> (case slug_ts (g_slug r) of None \<Rightarrow> True
         | Some start \<Rightarrow> start \<le> py_int now \<and> py_int now < start + SLOT_SECONDS))"

definition find_token :: "string \<Rightarrow> string \<Rightarrow> string \<Rightarrow> WSPriceBridge \<Rightarrow> string" where
  "find_token coin side cid b =
     (case find (\<lambda>(tid, route). str_upper (rt_asset route) = str_upper coin \<and> str_upper (rt_side route) = side \<and>
          rt_condition_id route = cid) (br_token_routes b) of
        None \<Rightarrow> [] | Some (tid, route) \<Rightarrow> tid)"

definition entry_price :: "string \<Rightarrow> LivePriceRecord \<Rightarrow> num" where
  "entry_price side r =
     (if side = ''UP'' then (if 0 < l_up_ask r then l_up_ask r else l_up_bid r)
      else (if 0 < l_down_ask r then l_down_ask r else l_down_bid r))"

text \<open>The world after the dispatch, and the intent with its outcome if an order was sent.\<close>

definition dispatch_entry ::
  "EvalEnv \<Rightarrow> CoinSettings \<Rightarrow> string \<Rightarrow> EvalWorld \<Rightarrow> EvalWorld \<times> (OrderIntent \<times> (exc + ExecutionResult)) option" where
  "dispatch_entry env cs side_str w =
     (let current_cid = find_current_slot_cid (ee_find_now env) (cs_coin cs) (ew_registry w)
      in if current_cid = [] then (w, None)
         else case pipeline_get_record (ee_dispatch_price_now env) current_cid (ew_pipeline w) of
           (p, None) \<Rightarrow> (set_pipeline p w, None)
         | (p, Some r) \<Rightarrow>
            (let w1 = set_pipeline p w
             in if \<not> slot_guard (ee_guard_now env) current_cid (ew_registry w1) then (w1, None)
                else let token_id = find_token (cs_coin cs) side_str current_cid (ew_bridge w1);
                         price = entry_price side_str r
                  in if token_id = [] then (w1, None)
                     else if price \<le> 0 then (w1, None)
                     else let intent = \<lparr>oi_asset = cs_coin cs, oi_side = (if side_str = ''UP'' then Side_UP else Side_DOWN),
                                oi_amount_usd = cs_order_amount cs, oi_condition_id = current_cid, oi_token_id = token_id,
                                oi_dominant_price = price, oi_event_max = cs_event_max cs\<rparr>;
                              (x', out) = execute (ee_exec env) intent (ew_executor w1)
                       in (w1\<lparr>ew_executor := x'\<rparr>, Some (intent, out))))"

definition can_dispatch :: "EvalWorld \<Rightarrow> bool" where
  "can_dispatch w \<longleftrightarrow> ew_dispatch_enabled w \<or> ew_paper_mode w"

definition eval_coin ::
  "EvalEnv \<Rightarrow> CoinSettings \<Rightarrow> EvalWorld \<Rightarrow> EvalWorld \<times> (OrderIntent \<times> (exc + ExecutionResult)) option" where
  "eval_coin env cs w0 =
     (let (w1, ctx, res) = evaluate_single env cs w0;
          w2 = w1\<lparr>ew_eval_count := ew_eval_count w1 + 1\<rparr>
      in if ev_decision res = OD_ENTRY then
           (let w3 = w2\<lparr>ew_entry_count := ew_entry_count w2 + 1\<rparr>
            in if can_dispatch w3 then dispatch_entry env cs (evaluated_side ctx) w3 else (w3, None))
         else (w2, None))"

fun eval_coins ::
  "(nat \<Rightarrow> EvalEnv) \<Rightarrow> nat \<Rightarrow> CoinSettings list \<Rightarrow> EvalWorld \<Rightarrow> EvalWorld \<times> (OrderIntent \<times> (exc + ExecutionResult)) list" where
  "eval_coins envs n [] w = (w, [])"
| "eval_coins envs n (cs # css) w =
     (let (w1, sent) = eval_coin (envs n) cs w; (w2, rest) = eval_coins envs (Suc n) css w1
      in (w2, (case sent of None \<Rightarrow> rest | Some s \<Rightarrow> s # rest)))"

definition evaluate_all_eligible ::
  "(nat \<Rightarrow> EvalEnv) \<Rightarrow> EvalWorld \<Rightarrow> EvalWorld \<times> (OrderIntent \<times> (exc + ExecutionResult)) list" where
  "evaluate_all_eligible envs w = eval_coins envs 0 (get_eligible_coins (ew_settings w)) w"

definition enable_order_dispatch :: "EvalWorld \<Rightarrow> EvalWorld" where
  "enable_order_dispatch w = w\<lparr>ew_dispatch_enabled := True\<rparr>"

definition disable_order_dispatch :: "EvalWorld \<Rightarrow> EvalWorld" where
  "disable_order_dispatch w = w\<lparr>ew_dispatch_enabled := False\<rparr>"

section \<open>Lemmas\<close>

lemma set_pipeline_simps [simp]:
  "ew_pipeline (set_pipeline p w) = p" "ew_executor (set_pipeline p w) = ew_executor w"
  "ew_registry (set_pipeline p w) = ew_registry w" "ew_settings (set_pipeline p w) = ew_settings w"
  "br_token_routes (ew_bridge (set_pipeline p w)) = br_token_routes (ew_bridge w)"
  "ew_ptb (set_pipeline p w) = ew_ptb w" "ew_dispatch_enabled (set_pipeline p w) = ew_dispatch_enabled w"
  "ew_paper_mode (set_pipeline p w) = ew_paper_mode w" "ew_rules (set_pipeline p w) = ew_rules w"
  "ew_bot_max_positions (set_pipeline p w) = ew_bot_max_positions w"
  by (simp_all add: set_pipeline_def)

lemma find_current_slot_sound:
  assumes "find_current_slot_cid now asset reg = cid" "cid \<noteq> []"
  obtains r where "r \<in> set (dvals reg)" "g_condition_id r = cid" "str_upper (g_asset r) = str_upper asset"
    "in_slot (py_int now) (g_slug r)"
  using assms by (auto simp: find_current_slot_cid_def split: option.splits dest: find_SomeD)

lemma find_token_sound:
  assumes "find_token coin side cid b = t" "t \<noteq> []"
  obtains route where "(t, route) \<in> set (br_token_routes b)" "str_upper (rt_asset route) = str_upper coin"
    "str_upper (rt_side route) = side" "rt_condition_id route = cid"
proof -
  from assms obtain route where "find (\<lambda>(tid, route). str_upper (rt_asset route) = str_upper coin \<and>
      str_upper (rt_side route) = side \<and> rt_condition_id route = cid) (br_token_routes b) = Some (t, route)"
    by (auto simp: find_token_def split: option.splits)
  then show thesis by (intro that [of route]) (auto dest: find_SomeD)
qed

lemma eval_price_ok: "pipeline_ok p \<Longrightarrow> pipeline_ok (fst (eval_price now cid asset p))"
  using pipeline_get_record_ok [of p now cid] pipeline_get_by_asset_ok
  by (auto simp: eval_price_def split: prod.splits option.splits)

text \<open>A record that a read hands out comes from a stored one through the freshness check.\<close>

lemma pipeline_get_record_from:
  assumes "pipeline_get_record now cid p = (p', Some r)" "pipeline_ok p"
  obtains q where "r = check_freshness now q" "price_ok q" "dget (pl_records p) cid = Some q"
  using assms by (auto simp: pipeline_get_record_def Let_def split: option.splits dest: pipeline_ok_dget)

lemma pipeline_get_by_asset_from:
  assumes "pipeline_get_by_asset now asset p = (p', Some r)" "pipeline_ok p"
  obtains q where "r = check_freshness now q" "price_ok q"
proof -
  from assms(1) obtain c q where f: "find (\<lambda>(cid, r). str_upper (l_asset r) = str_upper asset) (pl_records p) = Some (c, q)"
    and r: "r = check_freshness now q"
    by (auto simp: pipeline_get_by_asset_def Let_def split: option.splits)
  from f have "(c, q) \<in> set (pl_records p)" by (auto dest: find_SomeD)
  with assms(2) have "price_ok q" by (auto simp: pipeline_ok_def)
  with r show thesis by (rule that)
qed

lemma eval_price_fresh:
  assumes "eval_price now cid asset p = (p', Some r)" "pipeline_ok p" "l_status r = PS_FRESH"
  shows "price_is_fresh now r \<and> price_ok r"
proof -
  have "\<exists>q. r = check_freshness now q \<and> price_ok q"
  proof (cases "cid \<noteq> [] \<and> snd (pipeline_get_record now cid p) \<noteq> None")
    case True
    with assms(1) have "pipeline_get_record now cid p = (p', Some r)"
      by (auto simp: eval_price_def split: prod.splits option.splits)
    then show ?thesis using assms(2) by (elim pipeline_get_record_from) auto
  next
    case False
    then obtain q where "pipeline_get_by_asset now asset q = (p', Some r)" "pipeline_ok q"
      using assms(1,2) pipeline_get_record_ok [OF assms(2), of now cid]
      by (auto simp: eval_price_def split: prod.splits option.splits if_splits)
    then show ?thesis by (elim pipeline_get_by_asset_from) auto
  qed
  then obtain q where q: "r = check_freshness now q" "price_ok q" by blast
  have "price_is_fresh now q" using q assms(3) by (auto intro: check_freshness_fresh)
  then show ?thesis
    using q assms(3) by (auto simp: price_is_fresh_def check_freshness_ok split: option.splits)
qed

lemma coin_get_price_fresh:
  assumes "coin_get_price now coin c = (c', Some r)" "coins_ok c" "k_status r = CP_FRESH"
  shows "PRICE_MIN \<le> k_usd_price r \<and> k_usd_price r \<le> PRICE_MAX \<and>
    (\<exists>t. k_updated_at r = Some t \<and> total_seconds (now - t) \<le> k_stale_threshold_sec r)"
proof -
  from assms(1) obtain q where q: "dget (kc_records c) coin = Some q" "r = coin_check_freshness now q"
    by (auto simp: coin_get_price_def Let_def split: option.splits)
  have "coin_ok q" using assms(2) q(1) by (simp add: coins_ok_def)
  with q(2) assms(3) show ?thesis
    by (auto simp: coin_check_freshness_def coin_is_stale_def coin_ok_def not_less split: if_splits)
qed

text \<open>What the evaluation of a coin reads and what it leaves unchanged.\<close>

lemma evaluate_single_parts:
  assumes "evaluate_single env cs w = (w', ctx, res)"
  obtains p pr c cr where
    "eval_price (ee_price_now env) (find_current_slot_cid (ee_slot_now env) (cs_coin cs) (ew_registry w)) (cs_coin cs) (ew_pipeline w) = (p, pr)"
    "coin_get_price (ee_coin_now env) (cs_coin cs) (ew_coin_client w) = (c, cr)"
    "ctx = build_context (ee_remaining_now env) cs pr cr
       (eval_ptb (case pr of None \<Rightarrow> [] | Some r \<Rightarrow> l_condition_id r) (cs_coin cs) (ew_ptb w))
       (x_tracker (ew_executor w)) (ew_bot_max_positions w)"
    "res = engine_evaluate (ew_rules w) ctx"
    "w' = (set_pipeline p w)\<lparr>ew_coin_client := c, ew_last_results := dset (cs_coin cs) res (ew_last_results w)\<rparr>"
proof -
  obtain p pr where e: "eval_price (ee_price_now env) (find_current_slot_cid (ee_slot_now env) (cs_coin cs) (ew_registry w))
      (cs_coin cs) (ew_pipeline w) = (p, pr)" by fastforce
  obtain c cr where c: "coin_get_price (ee_coin_now env) (cs_coin cs) (ew_coin_client w) = (c, cr)" by fastforce
  show thesis
    by (rule that [OF e c]) (use assms in \<open>auto simp: evaluate_single_def e c Let_def\<close>)
qed

lemma evaluate_single_frame:
  assumes "evaluate_single env cs w = (w', ctx, res)"
  shows "ew_executor w' = ew_executor w" "ew_registry w' = ew_registry w"
    "br_token_routes (ew_bridge w') = br_token_routes (ew_bridge w)"
    "ew_dispatch_enabled w' = ew_dispatch_enabled w" "ew_paper_mode w' = ew_paper_mode w"
    "pipeline_ok (ew_pipeline w) \<Longrightarrow> pipeline_ok (ew_pipeline w')"
proof -
  from assms obtain p pr c where
    e: "eval_price (ee_price_now env) (find_current_slot_cid (ee_slot_now env) (cs_coin cs) (ew_registry w)) (cs_coin cs) (ew_pipeline w) = (p, pr)"
    and w': "w' = (set_pipeline p w)\<lparr>ew_coin_client := c, ew_last_results := dset (cs_coin cs) res (ew_last_results w)\<rparr>"
    by (rule evaluate_single_parts)
  show "ew_executor w' = ew_executor w" "ew_registry w' = ew_registry w"
    "br_token_routes (ew_bridge w') = br_token_routes (ew_bridge w)"
    "ew_dispatch_enabled w' = ew_dispatch_enabled w" "ew_paper_mode w' = ew_paper_mode w"
    by (simp_all add: w' set_pipeline_def)
  show "pipeline_ok (ew_pipeline w) \<Longrightarrow> pipeline_ok (ew_pipeline w')"
    using eval_price_ok [of "ew_pipeline w"] e by (simp add: w' set_pipeline_def) (metis fst_conv)
qed

lemma dispatch_sent:
  assumes "dispatch_entry env cs side w = (w', Some (intent, out))" "pipeline_ok (ew_pipeline w)"
  obtains g route where
    "g \<in> set (dvals (ew_registry w))" "g_condition_id g = oi_condition_id intent"
    "str_upper (g_asset g) = str_upper (cs_coin cs)" "in_slot (py_int (ee_find_now env)) (g_slug g)"
    "slot_guard (ee_guard_now env) (oi_condition_id intent) (ew_registry w)"
    "(oi_token_id intent, route) \<in> set (br_token_routes (ew_bridge w))"
    "rt_condition_id route = oi_condition_id intent" "str_upper (rt_asset route) = str_upper (cs_coin cs)"
    "str_upper (rt_side route) = side"
    "0 < oi_dominant_price intent" "oi_dominant_price intent \<le> 1"
    "oi_amount_usd intent = cs_order_amount cs" "oi_event_max intent = cs_event_max cs"
    "oi_side intent = (if side = ''UP'' then Side_UP else Side_DOWN)"
    "execute (ee_exec env) intent (ew_executor w) = (ew_executor w', out)"
proof -
  let ?cid = "find_current_slot_cid (ee_find_now env) (cs_coin cs) (ew_registry w)"
  have cid: "?cid \<noteq> []" using assms(1) by (auto simp: dispatch_entry_def Let_def split: if_splits)
  obtain p r where pr: "pipeline_get_record (ee_dispatch_price_now env) ?cid (ew_pipeline w) = (p, Some r)"
    using assms(1) cid by (auto simp: dispatch_entry_def Let_def split: if_splits prod.splits option.splits)
  let ?tok = "find_token (cs_coin cs) side ?cid (ew_bridge (set_pipeline p w))"
  let ?intent = "\<lparr>oi_asset = cs_coin cs, oi_side = (if side = ''UP'' then Side_UP else Side_DOWN),
     oi_amount_usd = cs_order_amount cs, oi_condition_id = ?cid, oi_token_id = ?tok,
     oi_dominant_price = entry_price side r, oi_event_max = cs_event_max cs\<rparr>"
  obtain x' o' where ex: "execute (ee_exec env) ?intent (ew_executor w) = (x', o')" by fastforce
  have sent: "slot_guard (ee_guard_now env) ?cid (ew_registry w)" "?tok \<noteq> []" "0 < entry_price side r"
    "intent = ?intent" "out = o'" "ew_executor w' = x'"
    using assms(1) cid pr ex by (auto simp: dispatch_entry_def Let_def split: if_splits)
  obtain q where "price_ok q" "r = check_freshness (ee_dispatch_price_now env) q"
    using pr assms(2) by (rule pipeline_get_record_from)
  then have "price_ok r" by (simp add: check_freshness_ok)
  then have le: "entry_price side r \<le> 1" by (auto simp: entry_price_def price_ok_def side_ok_def)
  obtain g where g: "g \<in> set (dvals (ew_registry w))" "g_condition_id g = ?cid"
    "str_upper (g_asset g) = str_upper (cs_coin cs)" "in_slot (py_int (ee_find_now env)) (g_slug g)"
    using find_current_slot_sound [OF refl cid] .
  obtain route where rt: "(?tok, route) \<in> set (br_token_routes (ew_bridge w))"
    "str_upper (rt_asset route) = str_upper (cs_coin cs)" "str_upper (rt_side route) = side" "rt_condition_id route = ?cid"
    using find_token_sound [OF refl sent(2)] by (auto simp del: set_map)
  show thesis
    by (rule that [of g route]) (use sent g rt le ex in simp_all)
qed

section \<open>Properties\<close>

text \<open>C8. An order goes only to the event that is live: whatever the loop dispatches is for an event
  that the registry has for the coin and whose slot contains the time of the look-up, with a
  token that is routed to this very event, coin and side, at a price in (0, 1], for the amount
  and the event limit of the coin's settings, and only with dispatch enabled or in paper mode.\<close>

theorem dispatch_is_for_the_live_event:
  assumes "eval_coin env cs w = (w', Some (intent, out))" and "pipeline_ok (ew_pipeline w)"
  shows "can_dispatch w \<and>
    (\<exists>g \<in> set (dvals (ew_registry w)). g_condition_id g = oi_condition_id intent \<and>
       str_upper (g_asset g) = str_upper (cs_coin cs) \<and> in_slot (py_int (ee_find_now env)) (g_slug g)) \<and>
    (\<exists>route. (oi_token_id intent, route) \<in> set (br_token_routes (ew_bridge w)) \<and>
       rt_condition_id route = oi_condition_id intent \<and> str_upper (rt_asset route) = str_upper (cs_coin cs) \<and>
       str_upper (rt_side route) = side_value (oi_side intent)) \<and>
    0 < oi_dominant_price intent \<and> oi_dominant_price intent \<le> 1 \<and>
    oi_amount_usd intent = cs_order_amount cs \<and> oi_event_max intent = cs_event_max cs \<and>
    execute (ee_exec env) intent (ew_executor w) = (ew_executor w', out)"
proof -
  obtain w1 ctx res where e: "evaluate_single env cs w = (w1, ctx, res)" by (cases "evaluate_single env cs w")
  note fr = evaluate_single_frame [OF e]
  let ?w3 = "w1\<lparr>ew_eval_count := ew_eval_count w1 + 1, ew_entry_count := ew_entry_count w1 + 1\<rparr>"
  have d: "dispatch_entry env cs (evaluated_side ctx) ?w3 = (w', Some (intent, out))" and can: "can_dispatch w"
    using assms(1) fr by (auto simp: eval_coin_def e Let_def can_dispatch_def split: if_splits)
  have ok: "pipeline_ok (ew_pipeline ?w3)" using fr(6) [OF assms(2)] by simp
  have side: "evaluated_side ctx = ''UP'' \<or> evaluated_side ctx = ''DOWN''"
    by (simp add: evaluated_side_def split: SideMode.splits)
  show ?thesis
    using d ok by (rule dispatch_sent) (use can fr side in auto)
qed

definition example_settings :: CoinSettings where
  "example_settings = (new_coin_settings ''BTC'')\<lparr>cs_coin_enabled := True, cs_delta_threshold := 8, cs_price_min := 10,
     cs_price_max := 90, cs_spread_max := 0, cs_time_min := 30, cs_time_max := 270, cs_order_amount := 4\<rparr>"

definition example_price :: LivePriceRecord where
  "example_price = (new_price ''c1'' ''BTC'' 30)\<lparr>l_up_bid := 1/2, l_up_ask := 1/2, l_down_bid := 1/4, l_down_ask := 1/2,
     l_status := PS_FRESH, l_updated_at := Some 0\<rparr>"

definition example_coin_price :: CoinPriceRecord where
  "example_coin_price = (new_coin_price ''BTC'' 15)\<lparr>k_usd_price := 96, k_status := CP_FRESH, k_updated_at := Some 0\<rparr>"

definition example_ptb :: PTBRecord where
  "example_ptb = (new_ptb ''c1'' ''BTC'')\<lparr>q_ptb_value := Some 64, q_status := PTB_ACQUIRED\<rparr>"

definition example_event :: RegistryRecord where
  "example_event = \<lparr>g_event_id = ''e1'', g_condition_id = ''c1'', g_asset = ''BTC'', g_question = ''BTC Up or Down'',
     g_slug = ''btc-updown-5m-1700000100'', g_status = EV_ACTIVE, g_first_seen_at = 0, g_last_seen_at = 0,
     g_status_changed_at = 0, g_end_date = 1700000400000000, g_has_open_position = False\<rparr>"

definition example_eval_world :: EvalWorld where
  "example_eval_world = \<lparr>ew_bridge = example_bridge\<lparr>br_pipeline := \<lparr>pl_records = [(''c1'', example_price)], pl_stale_threshold = 30\<rparr>\<rparr>,
     ew_coin_client = example_client\<lparr>kc_records := [(''BTC'', example_coin_price)]\<rparr>,
     ew_ptb = example_fetcher\<lparr>pf_records := [(''c1'', example_ptb)]\<rparr>,
     ew_settings = \<lparr>st_settings = [(''BTC'', example_settings)], st_db = False, st_outbox = []\<rparr>,
     ew_registry = [(''c1'', example_event)], ew_executor = example_executor PAPER, ew_rules = DEFAULT_RULES,
     ew_bot_max_positions = 3, ew_paper_mode = True, ew_dispatch_enabled = False, ew_last_results = [],
     ew_eval_count = 0, ew_entry_count = 0\<rparr>"

definition example_eval_env :: EvalEnv where
  "example_eval_env = \<lparr>ee_slot_now = 1700000200, ee_price_now = 1000000, ee_coin_now = 1000000,
     ee_remaining_now = 1700000200, ee_find_now = 1700000200, ee_dispatch_price_now = 1000000,
     ee_guard_now = 1700000200, ee_exec = example_exec_env\<rparr>"

lemma example_eval_sent:
  "(case eval_coin example_eval_env example_settings example_eval_world of
      (_, Some (intent, Inr er)) \<Rightarrow> er_result er = FILLED \<and> oi_condition_id intent = ''c1'' | _ \<Rightarrow> False)"
  by code_simp

theorem dispatch_is_for_the_live_event_witness:
  "\<exists>w' intent out. eval_coin example_eval_env example_settings example_eval_world = (w', Some (intent, out)) \<and>
     0 < oi_dominant_price intent \<and> oi_amount_usd intent = cs_order_amount example_settings \<and>
     execute (ee_exec example_eval_env) intent (ew_executor example_eval_world) = (ew_executor w', out)"
proof -
  obtain w' intent out where r: "eval_coin example_eval_env example_settings example_eval_world = (w', Some (intent, out))"
    using example_eval_sent by (auto split: prod.splits option.splits)
  have "pipeline_ok (ew_pipeline example_eval_world)"
    by (simp add: example_eval_world_def example_price_def new_price_def pipeline_ok_def wf_dict_def price_ok_def side_ok_def)
  from dispatch_is_for_the_live_event [OF r this] r show ?thesis by blast
qed



text \<open>The price to beat need not be the event's own: when the fetcher has no record for the event of
  the price record, the context takes the locked price of another event of the same coin, and
  the delta rule treats it as acquired.\<close>

theorem ptb_of_another_event_is_used:
  assumes "evaluate_single env cs w = (w', ctx, res)"
    and "dget (pf_records (ew_ptb w)) (x_condition_id ctx) = None" "dget (pf_records (ew_ptb w)) [] = None"
    and "ptb_get_by_asset (cs_coin cs) (ew_ptb w) = Some q" "is_locked q"
  shows "x_ptb_acquired ctx \<and> Some (x_ptb_value ctx) = q_ptb_value q"
  using assms(1)
proof (rule evaluate_single_parts)
  fix p pr c cr
  assume ctx: "ctx = build_context (ee_remaining_now env) cs pr cr
       (eval_ptb (case pr of None \<Rightarrow> [] | Some r \<Rightarrow> l_condition_id r) (cs_coin cs) (ew_ptb w))
       (x_tracker (ew_executor w)) (ew_bot_max_positions w)"
  have cid: "x_condition_id ctx = (case pr of None \<Rightarrow> [] | Some r \<Rightarrow> l_condition_id r)"
    by (simp add: ctx build_context_def Let_def)
  have "eval_ptb (case pr of None \<Rightarrow> [] | Some r \<Rightarrow> l_condition_id r) (cs_coin cs) (ew_ptb w) = Some q"
    using assms(2-4) unfolding cid [symmetric] by (simp add: eval_ptb_def ptb_get_record_def)
  with assms(5) show ?thesis by (auto simp: ctx build_context_def Let_def is_locked_def)
qed

theorem ptb_of_another_event_is_used_witness:
  "let w = example_eval_world\<lparr>ew_ptb := example_fetcher\<lparr>pf_records := [(''c0'', example_ptb)]\<rparr>\<rparr>
   in x_ptb_acquired (fst (snd (evaluate_single example_eval_env example_settings w))) \<and>
      x_condition_id (fst (snd (evaluate_single example_eval_env example_settings w))) = ''c1'' \<and>
      dget (pf_records (ew_ptb w)) ''c1'' = None"
proof -
  let ?w = "example_eval_world\<lparr>ew_ptb := example_fetcher\<lparr>pf_records := [(''c0'', example_ptb)]\<rparr>\<rparr>"
  obtain w' ctx res where e: "evaluate_single example_eval_env example_settings ?w = (w', ctx, res)"
    by (cases "evaluate_single example_eval_env example_settings ?w")
  have "x_condition_id (fst (snd (evaluate_single example_eval_env example_settings ?w))) = ''c1''" by code_simp
  then have c: "x_condition_id ctx = ''c1''" by (simp add: e)
  have g: "ptb_get_by_asset (cs_coin example_settings) (ew_ptb ?w) = Some example_ptb" by code_simp
  have "is_locked example_ptb" by (simp add: is_locked_def example_ptb_def)
  from ptb_of_another_event_is_used [OF e _ _ g this] show ?thesis by (simp add: e c)
qed

end
