(* ===== verification/EntryPass.thy ===== *)
theory EntryPass
  imports EvalLoop
begin

text \<open>
  The evaluation loop and the position tracker together: what one pass over all eligible coins
  does to the positions and their counters, whatever the exchange answers.
\<close>

section \<open>An order as tracker steps\<close>

lemma confirm_pending_error:
  assumes "confirm_fill pid price fee now t = (t', Inl e)" "get_position t pid = Some r" "p_state r = PS_PENDING_OPEN"
  shows "t' = t"
  using assms by (auto simp: confirm_fill_def transition_to_def Let_def split: sum.splits)

lemma reject_pending_no_error:
  assumes "reject_fill pid now t = (t', Inl e)" "get_position t pid = Some r" "p_state r = PS_PENDING_OPEN"
  shows False
  using assms by (auto simp: reject_fill_def transition_to_def Let_def)

text \<open>What follows the creation of the pending position.\<close>

definition pending_then :: "string \<Rightarrow> PositionTracker \<Rightarrow> PositionTracker \<Rightarrow> bool" where
  "pending_then pid t t' \<longleftrightarrow> t' = t \<or>
     (\<exists>price fee now r. confirm_fill pid price fee now t = (t', Inr r)) \<or>
     (\<exists>now r. reject_fill pid now t = (t', Inr r))"

lemma reject_then:
  assumes "exec_reject_fill env pid res x = (x', out)" "get_position (x_tracker x) pid = Some r" "p_state r = PS_PENDING_OPEN"
  shows "pending_then pid (x_tracker x) (x_tracker x') \<and> x_bot_max x' = x_bot_max x"
proof -
  obtain t' res' where r: "reject_fill pid (xe_clock env 2) (x_tracker x) = (t', res')" by fastforce
  then obtain q where "res' = Inr q" using reject_pending_no_error [OF _ assms(2,3)] by (cases res') auto
  with r assms(1) show ?thesis by (auto simp: exec_reject_fill_def pending_then_def)
qed

lemma confirm_then:
  assumes "confirm_fill pid price fee now t = (t', out)" "get_position t pid = Some r" "p_state r = PS_PENDING_OPEN"
  shows "pending_then pid t t'"
  using assms confirm_pending_error [OF _ assms(2,3)] by (cases out) (auto simp: pending_then_def)

lemma execute_paper_then:
  assumes "execute_paper env intent pid x = (x', out)" "get_position (x_tracker x) pid = Some r" "p_state r = PS_PENDING_OPEN"
  shows "pending_then pid (x_tracker x) (x_tracker x') \<and> x_bot_max x' = x_bot_max x"
proof (cases "confirm_fill pid (oi_dominant_price intent) (Some DEFAULT_CRYPTO_FEE_RATE) (xe_clock env 2) (x_tracker x)")
  case (Pair t' res')
  from confirm_then [OF Pair assms(2,3)] show ?thesis
    using assms(1) Pair by (cases res') (auto simp: execute_paper_def Let_def)
qed

lemma execute_live_then:
  assumes "execute_live env intent pid x = (x', out)" "get_position (x_tracker x) pid = Some r" "p_state r = PS_PENDING_OPEN"
  shows "pending_then pid (x_tracker x) (x_tracker x') \<and> x_bot_max x' = x_bot_max x"
proof (cases "\<exists>resp. xe_response env = Some resp \<and> or_status resp = ''matched'' \<and> x_has_clob_wrapper x")
  case True
  then obtain resp where resp: "xe_response env = Some resp" "or_status resp = ''matched''" "x_has_clob_wrapper x" by blast
  show ?thesis
  proof (cases "confirm_fill pid (buy_fill_price intent resp) (Some (fee_rate_of_bps (or_fee_rate_bps resp)))
      (xe_clock env 2) (x_tracker x)")
    case (Pair t' res')
    from confirm_then [OF Pair assms(2,3)] show ?thesis
      using assms(1) Pair resp by (cases res') (auto simp: execute_live_def LIVE_ORDER_ENABLED_def Let_def)
  qed
next
  case False
  then obtain res where "exec_reject_fill env pid res x = (x', out)"
    using assms(1) by (auto simp: execute_live_def LIVE_ORDER_ENABLED_def split: if_splits option.splits)
  then show ?thesis using assms(2,3) by (rule reject_then)
qed

lemma execute_send_then:
  assumes "execute_send env intent x = (x', out)"
  obtains t1 p where
    "create_pending (oi_asset intent) (side_value (oi_side intent)) (oi_condition_id intent) (oi_token_id intent)
       (oi_amount_usd intent) (xe_uuid env) (xe_clock env 1) (x_tracker x) = (t1, p)"
    "pending_then (xe_uuid env) t1 (x_tracker x')" "x_bot_max x' = x_bot_max x"
proof -
  obtain t1 p where cp: "create_pending (oi_asset intent) (side_value (oi_side intent)) (oi_condition_id intent)
      (oi_token_id intent) (oi_amount_usd intent) (xe_uuid env) (xe_clock env 1) (x_tracker x) = (t1, p)" by fastforce
  note c = create_pending_simps [OF cp]
  have g: "get_position (x_tracker (x\<lparr>x_tracker := t1\<rparr>)) (xe_uuid env) = Some p" and pend: "p_state p = PS_PENDING_OPEN"
    and pid: "p_position_id p = xe_uuid env"
    by (simp_all add: c(1) c(2))
  have run: "(if x_mode x = PAPER then execute_paper env intent (xe_uuid env) (x\<lparr>x_tracker := t1\<rparr>)
      else execute_live env intent (xe_uuid env) (x\<lparr>x_tracker := t1\<rparr>)) = (x', out)"
    using assms pid by (simp add: execute_send_def cp Let_def del: One_nat_def cong: if_cong)
  have "pending_then (xe_uuid env) t1 (x_tracker x') \<and> x_bot_max x' = x_bot_max x"
  proof (cases "x_mode x = PAPER")
    case True
    with run execute_paper_then [OF _ g pend] show ?thesis by auto
  next
    case False
    with run execute_live_then [OF _ g pend] show ?thesis by auto
  qed
  with cp show thesis by (intro that) auto
qed

text \<open>The open positions, counted through the steps of one order.\<close>

lemma dcount_dset_le: "wf_dict d \<Longrightarrow> dcount P (dset k v d) \<le> dcount P d + (if P v then 1 else 0)"
proof (cases "dget d k")
  case None
  then have "k \<notin> set (dkeys d)" by (simp add: map_of_eq_None_iff)
  then show ?thesis by (simp add: dcount_dset_new)
next
  case (Some w)
  assume "wf_dict d"
  from dcount_dset_old [OF this Some, of P v] show ?thesis by (auto split: if_splits)
qed

lemma pending_then_positions:
  assumes "pending_then pid t t'"
  shows "t' = t \<or> (\<exists>r'. t_positions t' = dset pid r' (t_positions t))"
  using assms unfolding pending_then_def
  by (auto elim!: confirm_fill_ok reject_fill_ok simp: put_record_def)

lemma execute_tracker:
  assumes "execute env intent x = (x', out)" and inv: "trk_inv (x_tracker x)"
    and fresh: "get_position (x_tracker x) (xe_uuid env) = None"
  shows "trk_steps (x_tracker x) (x_tracker x') \<and> x_bot_max x' = x_bot_max x \<and>
    open_position_count (x_tracker x') \<le> max (open_position_count (x_tracker x)) (x_bot_max x) \<and>
    (\<forall>k. k \<noteq> xe_uuid env \<longrightarrow> get_position (x_tracker x') k = get_position (x_tracker x) k)"
proof -
  let ?y = "x\<lparr>x_execution_count := x_execution_count x + 1\<rparr>"
  have "x_tracker x' = x_tracker x \<and> x_bot_max x' = x_bot_max x \<or>
      (execute_send env intent ?y = (x', out) \<and> open_position_count (x_tracker x) < x_bot_max x)"
  proof (cases "is_valid (validate (x_min_order_usd x) intent (b_available (x_balance x))
      (get_event_fill_count (x_tracker x) (oi_condition_id intent)) (oi_event_max intent)
      (open_position_count (x_tracker x)) (x_bot_max x) False True)")
    case True
    then have "open_position_count (x_tracker x) < x_bot_max x" by (simp add: validate_valid_iff)
    with True assms(1) show ?thesis
      by (auto simp: execute_def Let_def valid_iff_not_rejected split: if_splits option.splits)
  next
    case False
    with assms(1) show ?thesis
      by (auto simp: execute_def Let_def valid_iff_not_rejected split: if_splits option.splits)
  qed
  then show ?thesis
  proof (elim disjE conjE)
    assume send: "execute_send env intent ?y = (x', out)" and lt: "open_position_count (x_tracker x) < x_bot_max x"
    from send show ?thesis
    proof (rule execute_send_then)
      fix t1 p
      assume cp: "create_pending (oi_asset intent) (side_value (oi_side intent)) (oi_condition_id intent)
          (oi_token_id intent) (oi_amount_usd intent) (xe_uuid env) (xe_clock env 1) (x_tracker ?y) = (t1, p)"
        and th: "pending_then (xe_uuid env) t1 (x_tracker x')" and bm: "x_bot_max x' = x_bot_max ?y"
      note c = create_pending_simps [OF cp]
      have create: "trk_step (x_tracker x) t1" using fresh cp by (intro ts_create [of _ "xe_uuid env"]) auto
      have g: "get_position t1 (xe_uuid env) = Some p" and pend: "p_state p = PS_PENDING_OPEN" by (simp_all add: c(1) c(2))
      have wf: "wf_dict (t_positions (x_tracker x))" using inv by (simp add: trk_inv_def)
      then have wf1: "wf_dict (t_positions t1)" by (simp add: c(5))
      have count1: "open_position_count t1 \<le> open_position_count (x_tracker x)"
        using dcount_dset_le [OF wf, of is_open "xe_uuid env" p] pend
        by (simp add: open_position_count_def c(5) is_open_def)
      have steps: "trk_steps t1 (x_tracker x')"
        using th g pend unfolding pending_then_def by (auto intro: r_into_rtranclp ts_fill ts_reject)
      from pending_then_positions [OF th]
      have count2: "open_position_count (x_tracker x') \<le> open_position_count t1 + 1"
      proof
        assume "\<exists>r'. t_positions (x_tracker x') = dset (xe_uuid env) r' (t_positions t1)"
        then obtain r' where "t_positions (x_tracker x') = dset (xe_uuid env) r' (t_positions t1)" ..
        with dcount_dset_le [OF wf1, of is_open "xe_uuid env" r'] show ?thesis
          by (auto simp: open_position_count_def split: if_splits)
      qed simp
      have "get_position (x_tracker x') k = get_position (x_tracker x) k" if "k \<noteq> xe_uuid env" for k
        using pending_then_positions [OF th] that c(2) by (auto simp: get_position_def)
      with create steps count1 count2 lt bm show ?thesis
        by (auto intro: converse_rtranclp_into_rtranclp)
    qed
  qed simp_all
qed

section \<open>A pass over the coins\<close>

lemma eval_coin_executor:
  assumes "eval_coin env cs w = (w', sent)"
  shows "ew_executor w' = ew_executor w \<or>
    (\<exists>intent out. execute (ee_exec env) intent (ew_executor w) = (ew_executor w', out))"
proof -
  obtain w1 ctx res where e: "evaluate_single env cs w = (w1, ctx, res)" by (cases "evaluate_single env cs w")
  have d: "ew_executor v' = ew_executor v \<or> (\<exists>intent out. execute (ee_exec env) intent (ew_executor v) = (ew_executor v', out))"
    if "dispatch_entry env cs side v = (v', x)" for side v v' x
    using that by (auto simp: dispatch_entry_def Let_def split: if_splits prod.splits option.splits)
  let ?w3 = "w1\<lparr>ew_eval_count := ew_eval_count w1 + 1, ew_entry_count := ew_entry_count w1 + 1\<rparr>"
  from assms have "ew_executor w' = ew_executor w1 \<or> dispatch_entry env cs (evaluated_side ctx) ?w3 = (w', sent)"
    by (auto simp: eval_coin_def e Let_def split: if_splits)
  then show ?thesis using evaluate_single_frame(1) [OF e] d [of "evaluated_side ctx" ?w3 w' sent] by auto
qed

lemma eval_coins_tracker:
  assumes "eval_coins envs n css w = (w', sent)" and "trk_inv (x_tracker (ew_executor w))"
    and "inj (\<lambda>n. xe_uuid (ee_exec (envs n)))"
    and "\<And>m. n \<le> m \<Longrightarrow> get_position (x_tracker (ew_executor w)) (xe_uuid (ee_exec (envs m))) = None"
  shows "trk_steps (x_tracker (ew_executor w)) (x_tracker (ew_executor w')) \<and>
    x_bot_max (ew_executor w') = x_bot_max (ew_executor w) \<and>
    open_position_count (x_tracker (ew_executor w')) \<le>
      max (open_position_count (x_tracker (ew_executor w))) (x_bot_max (ew_executor w))"
  using assms(1,2,4)
proof (induction css arbitrary: n w w' sent)
  case (Cons cs css)
  let ?x = "ew_executor w"
  obtain w1 s1 where c: "eval_coin (envs n) cs w = (w1, s1)" by fastforce
  obtain w2 s2 where r: "eval_coins envs (Suc n) css w1 = (w2, s2)" by fastforce
  have w': "w' = w2" using Cons.prems(1) c r by simp
  have one: "trk_steps (x_tracker ?x) (x_tracker (ew_executor w1)) \<and> x_bot_max (ew_executor w1) = x_bot_max ?x \<and>
      open_position_count (x_tracker (ew_executor w1)) \<le> max (open_position_count (x_tracker ?x)) (x_bot_max ?x) \<and>
      (\<forall>k. k \<noteq> xe_uuid (ee_exec (envs n)) \<longrightarrow> get_position (x_tracker (ew_executor w1)) k = get_position (x_tracker ?x) k)"
    using eval_coin_executor [OF c] execute_tracker [OF _ Cons.prems(2) Cons.prems(3) [of n]] by auto
  have inv1: "trk_inv (x_tracker (ew_executor w1))" using one Cons.prems(2) trk_steps_inv by blast
  have "get_position (x_tracker (ew_executor w1)) (xe_uuid (ee_exec (envs m))) = None" if "Suc n \<le> m" for m
  proof -
    have "xe_uuid (ee_exec (envs m)) \<noteq> xe_uuid (ee_exec (envs n))" using that injD [OF assms(3), of m n] by auto
    with one Cons.prems(3) [of m] that show ?thesis by auto
  qed
  from Cons.IH [OF r inv1 this] one w' show ?case by (auto intro: rtranclp_trans)
qed simp



end
