(* ===== verification/Wiring.thy ===== *)
theory Wiring
  imports Store ExitCycle EntryPass
begin

text \<open>
  \<^verbatim>\<open>backend/orchestrator/wiring.py\<close>, first part: the orchestrator that owns every component, the
  start-up restore, the flushes to the database, the balance check of degraded mode and the clock
  of the bot.

  The components share one position tracker and one balance manager (through the order executor,
  the exit executor and settlement), one registry (evaluation loop and sync), one bridge, coin
  client and PTB fetcher (evaluation loop, subscriptions, cleanup). The shared objects live in the
  evaluation world \<open>o_eval\<close>; the views below hand them to a component and take them back.
\<close>

record Orchestrator =
  o_eval :: EvalWorld
  o_exit :: ExitWorld
  o_sync :: SafeSync
  o_active_events :: "(string, string) dict"
  o_rtds_tokens :: "string list option"
  o_cleaned_count :: int
  o_trading_enabled :: bool
  o_paused :: bool
  o_verify_retry_running :: bool
  o_bot_start_time :: "num option"
  o_bot_paused_at :: "num option"
  o_bot_accumulated :: num

abbreviation o_tracker :: "Orchestrator \<Rightarrow> PositionTracker" where
  "o_tracker w \<equiv> x_tracker (ew_executor (o_eval w))"

abbreviation o_balance :: "Orchestrator \<Rightarrow> BalanceManager" where
  "o_balance w \<equiv> x_balance (ew_executor (o_eval w))"

abbreviation o_claims :: "Orchestrator \<Rightarrow> ClaimManager" where
  "o_claims w \<equiv> ss_claims (w_settle (o_exit w))"

definition set_tracker :: "PositionTracker \<Rightarrow> Orchestrator \<Rightarrow> Orchestrator" where
  "set_tracker t w = w\<lparr>o_eval := (o_eval w)\<lparr>ew_executor := (ew_executor (o_eval w))\<lparr>x_tracker := t\<rparr>\<rparr>\<rparr>"

definition set_balance :: "BalanceManager \<Rightarrow> Orchestrator \<Rightarrow> Orchestrator" where
  "set_balance b w = w\<lparr>o_eval := (o_eval w)\<lparr>ew_executor := (ew_executor (o_eval w))\<lparr>x_balance := b\<rparr>\<rparr>\<rparr>"

definition set_claims :: "ClaimManager \<Rightarrow> Orchestrator \<Rightarrow> Orchestrator" where
  "set_claims m w = w\<lparr>o_exit := (o_exit w)\<lparr>w_settle := (w_settle (o_exit w))\<lparr>ss_claims := m\<rparr>\<rparr>\<rparr>"

definition exit_view :: "Orchestrator \<Rightarrow> ExitWorld" where
  "exit_view w = (o_exit w)\<lparr>w_exec := (w_exec (o_exit w))\<lparr>ee_tracker := o_tracker w, ee_balance := o_balance w\<rparr>\<rparr>"

definition put_exit :: "ExitWorld \<Rightarrow> Orchestrator \<Rightarrow> Orchestrator" where
  "put_exit x w = set_balance (ee_balance (w_exec x)) (set_tracker (ee_tracker (w_exec x)) (w\<lparr>o_exit := x\<rparr>))"

definition sub_view :: "Orchestrator \<Rightarrow> SubWorld" where
  "sub_view w = \<lparr>sm_bridge = ew_bridge (o_eval w), sm_coin_client = ew_coin_client (o_eval w), sm_ptb = ew_ptb (o_eval w),
     sm_active_events = o_active_events w, sm_rtds_tokens = o_rtds_tokens w, sm_cleaned_count = o_cleaned_count w\<rparr>"

definition put_sub :: "SubWorld \<Rightarrow> Orchestrator \<Rightarrow> Orchestrator" where
  "put_sub s w = w\<lparr>o_eval := (o_eval w)\<lparr>ew_bridge := sm_bridge s, ew_coin_client := sm_coin_client s, ew_ptb := sm_ptb s\<rparr>,
     o_active_events := sm_active_events s, o_rtds_tokens := sm_rtds_tokens s, o_cleaned_count := sm_cleaned_count s\<rparr>"

section \<open>The database\<close>

record Database =
  db_positions :: position_table
  db_claims :: "(string, ClaimRow) dict"
  db_settings :: "(string, SettingsRow) dict"
  db_registry :: "(string, RegistryRow) dict"
  db_ptb :: "(string, PTBRow) dict"

text \<open>\<^verbatim>\<open>for x in xs: if await store.save(x): flushed += 1\<close>; \<open>ok\<close> says which saves the database accepts.\<close>

fun flush_all :: "(bool \<Rightarrow> 'a \<Rightarrow> 't \<Rightarrow> 't \<times> bool) \<Rightarrow> ('a \<Rightarrow> bool) \<Rightarrow> 'a list \<Rightarrow> 't \<Rightarrow> 't \<times> int" where
  "flush_all save ok [] tbl = (tbl, 0)"
| "flush_all save ok (x # xs) tbl =
     (let (t1, b) = save (ok x) x tbl; (t2, n) = flush_all save ok xs t1 in (t2, if b then n + 1 else n))"

definition periodic_flush ::
  "(PositionRecord \<Rightarrow> bool) \<Rightarrow> (ClaimRecord \<Rightarrow> bool) \<Rightarrow> Orchestrator \<Rightarrow> Database \<Rightarrow> Database" where
  "periodic_flush okp okc w db =
     db\<lparr>db_positions := fst (flush_all position_save okp (get_all_positions (o_tracker w)) (db_positions db)),
        db_claims := fst (flush_all claim_save okc (get_pending_claims (o_claims w)) (db_claims db))\<rparr>"

definition flush_state ::
  "(PositionRecord \<Rightarrow> bool) \<Rightarrow> (ClaimRecord \<Rightarrow> bool) \<Rightarrow> (CoinSettings \<Rightarrow> bool) \<Rightarrow> Orchestrator \<Rightarrow> Database
    \<Rightarrow> Database \<times> int \<times> int \<times> int" where
  "flush_state okp okc oks w db =
     (let (p, np) = flush_all position_save okp (get_all_positions (o_tracker w)) (db_positions db);
          (c, nc) = flush_all claim_save okc (get_pending_claims (o_claims w)) (db_claims db);
          (s, ns) = flush_all settings_save oks (settings_get_all (ew_settings (o_eval w))) (db_settings db)
      in (db\<lparr>db_positions := p, db_claims := c, db_settings := s\<rparr>, np, nc, ns))"

section \<open>The balance check\<close>

text \<open>
  \<^verbatim>\<open>get_balance\<close> of the exchange wrapper: what the SDK answers is its exception, \<^verbatim>\<open>None\<close>, or the integer
  its balance text denotes (a text that does not parse raises).
\<close>

datatype SdkBalance = SB_Raise | SB_None | SB_Raw int

definition clob_get_balance :: "bool \<Rightarrow> SdkBalance \<Rightarrow> (num \<times> num) option" where
  "clob_get_balance initialized reply =
     (if \<not> initialized then None
      else case reply of SB_Raise \<Rightarrow> None | SB_None \<Rightarrow> None
        | SB_Raw raw \<Rightarrow> (let usd = fdiv (of_int raw) 1000000 in Some (usd, usd)))"

definition verify_balance :: "bool \<Rightarrow> SdkBalance \<Rightarrow> usec \<Rightarrow> Orchestrator \<Rightarrow> Orchestrator \<times> bool" where
  "verify_balance initialized reply now w =
     (case clob_get_balance initialized reply of
        None \<Rightarrow> (w, False)
      | Some (available, tot) \<Rightarrow> (set_balance (balance_update now available (Some tot) (o_balance w)) w, True))"

text \<open>One turn of the retry loop after its sleep; \<open>vr_stopped\<close> says whether \<^verbatim>\<open>stop\<close> ran meanwhile.\<close>

record verify_round =
  vr_stopped :: bool
  vr_initialized :: bool
  vr_reply :: SdkBalance
  vr_now :: usec

definition start_verify_retry :: "Orchestrator \<Rightarrow> Orchestrator" where
  "start_verify_retry w = (if o_verify_retry_running w then w else w\<lparr>o_verify_retry_running := True\<rparr>)"

text \<open>The loop over the rounds that are given; the flag says whether it has ended.\<close>

fun verify_retry_loop :: "verify_round list \<Rightarrow> Orchestrator \<Rightarrow> Orchestrator \<times> bool" where
  "verify_retry_loop [] w = (w, \<not> (o_verify_retry_running w \<and> \<not> o_trading_enabled w))"
| "verify_retry_loop (r # rs) w =
     (if \<not> (o_verify_retry_running w \<and> \<not> o_trading_enabled w) then (w, True)
      else if vr_stopped r then (w\<lparr>o_verify_retry_running := False\<rparr>, True)
      else (case verify_balance (vr_initialized r) (vr_reply r) (vr_now r) w of
          (w1, True) \<Rightarrow> (w1\<lparr>o_trading_enabled := True, o_verify_retry_running := False\<rparr>, True)
        | (w1, False) \<Rightarrow> verify_retry_loop rs w1))"

section \<open>Restore\<close>

record RestoreEnv =
  re_settings_ok :: bool
  re_registry_ok :: bool
  re_ptb_ok :: bool
  re_positions_ok :: bool
  re_claims_ok :: bool
  re_reject_now :: "string \<Rightarrow> usec"
  re_initialized :: bool
  re_balance :: SdkBalance
  re_balance_now :: usec

record RestoreReport =
  rp_settings_restored :: int
  rp_registry_restored :: int
  rp_ptb_restored :: int
  rp_positions_restored :: int
  rp_pending_cleaned :: int
  rp_claims_restored :: int
  rp_open_positions :: int
  rp_pending_claims :: int
  rp_normal :: bool

text \<open>A pending position is restored and rejected at once; the counts are restored and cleaned ones.\<close>

fun restore_positions ::
  "(string \<Rightarrow> usec) \<Rightarrow> PositionRecord list \<Rightarrow> PositionTracker \<Rightarrow> (PositionTracker, int \<times> int) outcome" where
  "restore_positions clk [] t = (t, Inr (0, 0))"
| "restore_positions clk (p # ps) t =
     (let t1 = restore_position p t
      in if p_state p = PS_PENDING_OPEN then
           ebind (reject_fill (p_position_id p) (clk (p_position_id p)) t1)
             (\<lambda>t2 _. ebind (restore_positions clk ps t2) (\<lambda>t3 (n, c). (t3, Inr (n, c + 1))))
         else ebind (restore_positions clk ps t1) (\<lambda>t3 (n, c). (t3, Inr (n + 1, c))))"

definition restore_stores :: "RestoreEnv \<Rightarrow> Database \<Rightarrow> Orchestrator \<Rightarrow> Orchestrator" where
  "restore_stores env db w =
     (let e = o_eval w
      in w\<lparr>o_eval := e\<lparr>ew_settings := fold settings_set (settings_load_all (re_settings_ok env) (db_settings db)) (ew_settings e),
           ew_registry := fold (\<lambda>r. dset (g_condition_id r) r) (registry_load_active (re_registry_ok env) (db_registry db)) (ew_registry e),
           ew_ptb := fold (\<lambda>r. put_ptb (q_condition_id r) r) (ptb_load_locked (re_ptb_ok env) (db_ptb db)) (ew_ptb e)\<rparr>\<rparr>)"

definition restore_state :: "RestoreEnv \<Rightarrow> Database \<Rightarrow> Orchestrator \<Rightarrow> (Orchestrator, RestoreReport) outcome" where
  "restore_state env db w0 =
     (let w1 = restore_stores env db w0
      in case restore_positions (re_reject_now env) (position_load_all (re_positions_ok env) (db_positions db)) (o_tracker w1) of
           (t, Inl e) \<Rightarrow> (set_tracker t w1, Inl e)
         | (t, Inr (n, cleaned)) \<Rightarrow>
             (let claims = claim_load_all (re_claims_ok env) (db_claims db);
                  w2 = set_tracker t w1;
                  w3 = set_claims (fold restore_claim claims (o_claims w2)) w2;
                  (w4, ok) = verify_balance (re_initialized env) (re_balance env) (re_balance_now env) w3;
                  w5 = w4\<lparr>o_trading_enabled := ok\<rparr>;
                  w6 = (if ok then w5 else start_verify_retry w5)
              in (w6, Inr \<lparr>rp_settings_restored = int (length (settings_load_all (re_settings_ok env) (db_settings db))),
                    rp_registry_restored = int (length (registry_load_active (re_registry_ok env) (db_registry db))),
                    rp_ptb_restored = int (length (ptb_load_locked (re_ptb_ok env) (db_ptb db))),
                    rp_positions_restored = n, rp_pending_cleaned = cleaned, rp_claims_restored = int (length claims),
                    rp_open_positions = open_position_count (o_tracker w3),
                    rp_pending_claims = claims_pending_count (o_claims w3), rp_normal = ok\<rparr>)))"

section \<open>The clock of the bot\<close>

text \<open>\<open>now\<close> of \<open>pause\<close> is its first reading of the clock, which the accumulated time uses; \<open>now2\<close> the second.\<close>

definition pause :: "num \<Rightarrow> num \<Rightarrow> Orchestrator \<Rightarrow> Orchestrator" where
  "pause now now2 w =
     (if o_paused w then w
      else (let w1 = w\<lparr>o_paused := True\<rparr>
        in case o_bot_start_time w of
             None \<Rightarrow> w1
           | Some s \<Rightarrow> w1\<lparr>o_bot_accumulated := fadd (o_bot_accumulated w) (fsub now s), o_bot_paused_at := Some now2\<rparr>))"

definition resume :: "num \<Rightarrow> Orchestrator \<Rightarrow> Orchestrator" where
  "resume now w = (if \<not> o_paused w then w
     else w\<lparr>o_paused := False, o_bot_start_time := Some now, o_bot_paused_at := None\<rparr>)"

definition bot_uptime_sec :: "num \<Rightarrow> Orchestrator \<Rightarrow> int" where
  "bot_uptime_sec now w =
     (case o_bot_start_time w of
        None \<Rightarrow> 0
      | Some s \<Rightarrow> if o_paused w \<and> o_bot_paused_at w \<noteq> None then py_int (o_bot_accumulated w)
          else py_int (fadd (o_bot_accumulated w) (fsub now s)))"

text \<open>
  \<^verbatim>\<open>start\<close> and \<^verbatim>\<open>stop\<close> up to the tasks they create and cancel; \<open>running\<close> is \<^verbatim>\<open>_exit_cycle_running\<close>.
\<close>

definition bot_start :: "bool \<Rightarrow> num \<Rightarrow> RestoreEnv \<Rightarrow> Database \<Rightarrow> Orchestrator \<Rightarrow> (Orchestrator, RestoreReport option) outcome" where
  "bot_start running now env db w =
     (if running then ((if o_paused w then resume now w else w)\<lparr>o_trading_enabled := True\<rparr>, Inr None)
      else (let w1 = w\<lparr>o_trading_enabled := True, o_paused := False, o_bot_start_time := Some now,
                       o_bot_paused_at := None, o_bot_accumulated := 0\<rparr>;
                w2 = set_tracker (reset (o_tracker w1)) w1
            in ebind (restore_state env db w2) (\<lambda>w3 r. (w3, Inr (Some r)))))"

definition bot_stop ::
  "(PositionRecord \<Rightarrow> bool) \<Rightarrow> (ClaimRecord \<Rightarrow> bool) \<Rightarrow> (CoinSettings \<Rightarrow> bool) \<Rightarrow> Orchestrator \<Rightarrow> Database
    \<Rightarrow> Orchestrator \<times> Database" where
  "bot_stop okp okc oks w db =
     (let w1 = w\<lparr>o_trading_enabled := False, o_paused := False, o_bot_start_time := None, o_bot_paused_at := None,
                 o_bot_accumulated := 0, o_verify_retry_running := False\<rparr>
      in (w1, fst (flush_state okp okc oks w1 db)))"

section \<open>What a restart keeps\<close>

lemma set_frames [simp]:
  "o_tracker (set_tracker t w) = t" "o_tracker (set_balance b w) = o_tracker w" "o_tracker (set_claims m w) = o_tracker w"
  "o_claims (set_tracker t w) = o_claims w" "o_claims (set_balance b w) = o_claims w" "o_claims (set_claims m w) = m"
  "o_balance (set_tracker t w) = o_balance w" "o_balance (set_balance b w) = b" "o_balance (set_claims m w) = o_balance w"
  by (simp_all add: set_tracker_def set_balance_def set_claims_def)

lemma verify_balance_tracker [simp]:
  "o_tracker (fst (verify_balance i reply now w)) = o_tracker w" "o_claims (fst (verify_balance i reply now w)) = o_claims w"
  by (simp_all add: verify_balance_def split: option.split)

lemma verify_balance_exit [simp]: "o_exit (fst (verify_balance i reply now w)) = o_exit w"
  by (simp add: verify_balance_def set_balance_def split: option.split)

lemma flush_all_True: "fst (flush_all position_save (\<lambda>_. True) ps tbl) = position_save_all ps tbl"
  by (induction ps arbitrary: tbl)
    (simp_all add: position_save_all_def position_save_def store_save_def Let_def case_prod_beta)

lemma dset_dset [simp]: "dset k v (dset k v' d) = dset k v d"
  by (induction d) auto

text \<open>A position after a restart: a pending one is closed as never opened.\<close>

definition restarted :: "(string \<Rightarrow> usec) \<Rightarrow> PositionRecord \<Rightarrow> PositionRecord" where
  "restarted clk p = (if p_state p = PS_PENDING_OPEN
     then p\<lparr>p_state := PS_CLOSED, p_closed_at := Some (clk (p_position_id p))\<rparr> else p)"

definition held :: "string \<Rightarrow> PositionRecord \<Rightarrow> bool" where
  "held e p \<longleftrightarrow> p_condition_id p = e \<and> p_state p \<noteq> PS_PENDING_OPEN"

lemma restore_one_pending:
  assumes "p_state p = PS_PENDING_OPEN" and "p_position_id p \<notin> set (dkeys (t_positions t))"
    and "\<And>e. 0 \<le> get_event_fill_count t e"
  obtains t' r where "reject_fill (p_position_id p) (clk (p_position_id p)) (restore_position p t) = (t', Inr r)"
    and "t_positions t' = t_positions t @ [(p_position_id p, restarted clk p)]"
    and "\<And>e. get_event_fill_count t' e = get_event_fill_count t e"
    and "t_session_trade_count t' = t_session_trade_count t"
proof -
  let ?pid = "p_position_id p" and ?cid = "p_condition_id p" and ?t1 = "restore_position p t"
  let ?t2 = "put_record ?pid (restarted clk p) (bump_event_fills ?cid (- 1) ?t1)"
  have f: "get_event_fill_count ?t1 e = get_event_fill_count t e + (if ?cid = e then 1 else 0)" for e
    by (simp add: restore_position_def Let_def)
  have p1: "t_positions ?t1 = dset ?pid p (t_positions t)" "t_session_trade_count ?t1 = t_session_trade_count t"
    using assms(1) by (simp_all add: restore_position_def Let_def)
  have "reject_fill ?pid (clk ?pid) ?t1 = (?t2, Inr (restarted clk p))"
    using f [of ?cid] p1 assms(1) assms(3) [of ?cid]
    by (simp add: reject_fill_def get_position_def transition_to_def restarted_def Let_def)
  moreover have "t_positions ?t2 = t_positions t @ [(?pid, restarted clk p)]"
    using assms(2) by (simp add: p1) (simp add: dset_new)
  moreover have "get_event_fill_count ?t2 e = get_event_fill_count t e" for e by (simp add: f)
  moreover have "t_session_trade_count ?t2 = t_session_trade_count t" by (simp add: p1)
  ultimately show thesis by (rule that)
qed

lemma restore_positions_exact:
  "distinct (map p_position_id ps) \<Longrightarrow> set (map p_position_id ps) \<inter> set (dkeys (t_positions t)) = {} \<Longrightarrow>
   (\<And>e. 0 \<le> get_event_fill_count t e) \<Longrightarrow>
   \<exists>t'. restore_positions clk ps t = (t', Inr (int (length (filter (\<lambda>p. p_state p \<noteq> PS_PENDING_OPEN) ps)),
            int (length (filter (\<lambda>p. p_state p = PS_PENDING_OPEN) ps)))) \<and>
     t_positions t' = t_positions t @ map (\<lambda>p. (p_position_id p, restarted clk p)) ps \<and>
     (\<forall>e. get_event_fill_count t' e = get_event_fill_count t e + int (length (filter (held e) ps))) \<and>
     t_session_trade_count t' = t_session_trade_count t + int (length (filter (\<lambda>p. p_state p \<noteq> PS_PENDING_OPEN) ps))"
proof (induction ps arbitrary: t)
  case (Cons p ps)
  show ?case
  proof (cases "p_state p = PS_PENDING_OPEN")
    case True
    from Cons.prems(2) have "p_position_id p \<notin> set (dkeys (t_positions t))" by auto
    then obtain t1 r where r: "reject_fill (p_position_id p) (clk (p_position_id p)) (restore_position p t) = (t1, Inr r)"
        "t_positions t1 = t_positions t @ [(p_position_id p, restarted clk p)]"
        "\<And>e. get_event_fill_count t1 e = get_event_fill_count t e" "t_session_trade_count t1 = t_session_trade_count t"
      using restore_one_pending [OF True _ Cons.prems(3), of clk] by metis
    have "set (map p_position_id ps) \<inter> set (dkeys (t_positions t1)) = {}" using Cons.prems(1,2) r(2) by auto
    from Cons.IH [OF _ this] Cons.prems(1,3) r True show ?thesis by (auto simp: held_def [of _ p])
  next
    case False
    let ?t1 = "restore_position p t"
    have k: "p_position_id p \<notin> set (dkeys (t_positions t))" using Cons.prems(2) by auto
    have t1: "t_positions ?t1 = t_positions t @ [(p_position_id p, restarted clk p)]"
        "\<And>e. get_event_fill_count ?t1 e = get_event_fill_count t e + (if p_condition_id p = e then 1 else 0)"
        "t_session_trade_count ?t1 = t_session_trade_count t + 1"
      using False k by (simp_all add: restore_position_def Let_def restarted_def dset_new)
    have "set (map p_position_id ps) \<inter> set (dkeys (t_positions ?t1)) = {}" using Cons.prems(1,2) t1(1) by auto
    moreover have "0 \<le> get_event_fill_count ?t1 e" for e using Cons.prems(3) [of e] t1(2) by simp
    ultimately obtain t' where
        "restore_positions clk ps ?t1 = (t', Inr (int (length (filter (\<lambda>p. p_state p \<noteq> PS_PENDING_OPEN) ps)),
            int (length (filter (\<lambda>p. p_state p = PS_PENDING_OPEN) ps))))"
        "t_positions t' = t_positions ?t1 @ map (\<lambda>p. (p_position_id p, restarted clk p)) ps"
        "\<forall>e. get_event_fill_count t' e = get_event_fill_count ?t1 e + int (length (filter (held e) ps))"
        "t_session_trade_count t' = t_session_trade_count ?t1 + int (length (filter (\<lambda>p. p_state p \<noteq> PS_PENDING_OPEN) ps))"
      using Cons.IH [of ?t1] Cons.prems(1) by auto
    with t1 False show ?thesis by (auto simp: Let_def held_def [of _ p])
  qed
qed simp

lemma length_filter_sort_key: "length (filter P (sort_key k xs)) = length (filter P xs)"
  by (simp add: filter_sort)

lemma trk_inv_ids:
  assumes "trk_inv t"
  shows "distinct (map p_position_id (get_all_positions t))"
    and "p \<in> set (get_all_positions t) \<longleftrightarrow> get_position t (p_position_id p) = Some p"
proof -
  show "distinct (map p_position_id (get_all_positions t))"
    using snapshot_filter [OF assms, of "\<lambda>_. True"] by (simp add: snapshot_def)
  show "p \<in> set (get_all_positions t) \<longleftrightarrow> get_position t (p_position_id p) = Some p"
    using snapshot_filter [OF assms, of "\<lambda>_. True"]
    by (force simp: snapshot_def get_all_positions_def get_position_def dest: map_of_SomeD)
qed

lemma restore_state_tracker:
  assumes "restore_positions (re_reject_now env) (position_load_all (re_positions_ok env) (db_positions db)) (o_tracker w)
     = (t, Inr nc)"
  shows "\<exists>w' r. restore_state env db w = (w', Inr r) \<and> o_tracker w' = t"
proof -
  have t: "o_tracker (restore_stores env db w) = o_tracker w" by (simp add: restore_stores_def Let_def)
  obtain n c where nc: "nc = (n, c)" by fastforce
  let ?w3 = "set_claims (fold restore_claim (claim_load_all (re_claims_ok env) (db_claims db))
      (o_claims (set_tracker t (restore_stores env db w)))) (set_tracker t (restore_stores env db w))"
  obtain w4 ok where v: "verify_balance (re_initialized env) (re_balance env) (re_balance_now env) ?w3 = (w4, ok)" by fastforce
  then have "o_tracker w4 = t" using verify_balance_tracker(1) [of "re_initialized env" "re_balance env" "re_balance_now env" ?w3] by simp
  then show ?thesis using assms v by (auto simp: restore_state_def t nc Let_def start_verify_retry_def)
qed

lemma held_count:
  "int (length (filter (held e) ps)) = int (length (filter (counted_in e) ps))
     - int (length (filter (\<lambda>p. p_condition_id p = e \<and> p_state p = PS_PENDING_OPEN) ps))
     + int (length (filter (\<lambda>p. p_condition_id p = e \<and> p_state p = PS_CLOSED \<and> p_opened_at p = None) ps))"
  by (induction ps) (auto simp: held_def counted_in_def counted_def)

text \<open>C13. A stop that reaches the database and the next start bring every position back as it was, with all
  its data; a position whose order was still open is closed as never filled. The counters come
  back from the positions that are restored: the event counters lose the open orders, but every
  order that was rejected in the past is counted as a fill again, so the limit of an event is
  smaller after a restart than before it.\<close>

theorem restart_roundtrip:
  assumes "trk_inv (o_tracker w)" and "db_positions db = position_rows_of old"
    and "p_position_id ` set old \<subseteq> p_position_id ` set (get_all_positions (o_tracker w))" and "re_positions_ok env"
  shows "let (w1, db1) = bot_stop (\<lambda>_. True) okc oks w db; (w2, r) = bot_start False now env db1 w1;
      t = o_tracker w; t' = o_tracker w2
    in (\<exists>rep. r = Inr (Some rep)) \<and>
      (\<forall>k. get_position t' k = map_option (restarted (re_reject_now env)) (get_position t k)) \<and>
      (\<forall>e. get_event_fill_count t' e = get_event_fill_count t e
         - int (length (filter (\<lambda>p. p_condition_id p = e \<and> p_state p = PS_PENDING_OPEN) (get_all_positions t)))
         + int (length (filter (\<lambda>p. p_condition_id p = e \<and> p_state p = PS_CLOSED \<and> p_opened_at p = None) (get_all_positions t))))"
proof -
  let ?t = "o_tracker w" and ?clk = "re_reject_now env"
  let ?ps = "sort_key p_created_at (get_all_positions ?t)"
  obtain w1 db1 where st: "bot_stop (\<lambda>_. True) okc oks w db = (w1, db1)" by fastforce
  have ids: "distinct (map p_position_id ?ps)"
    using trk_inv_ids(1) [OF assms(1)] by (simp add: distinct_map inj_on_def)
  have "filter (\<lambda>p. p_position_id p \<notin> p_position_id ` set (get_all_positions ?t)) old = []"
    using assms(3) by (auto simp: filter_empty_conv)
  then have "db_positions db1 = position_rows_of (get_all_positions ?t)" and w1: "o_tracker w1 = ?t"
    using st assms(2) position_save_all_rows [OF trk_inv_ids(1) [OF assms(1)], of old]
    by (auto simp: bot_stop_def flush_state_def Let_def flush_all_True case_prod_beta)
  then have load: "position_load_all (re_positions_ok env) (db_positions db1) = ?ps"
    using assms(4) by (simp add: position_load_rows)
  have "reset ?t = (reset ?t)\<lparr>t_positions := []\<rparr>" by (simp add: reset_def)
  then obtain t' where r: "restore_positions ?clk ?ps (reset ?t) = (t', Inr (int (length (filter (\<lambda>p. p_state p \<noteq> PS_PENDING_OPEN) ?ps)),
            int (length (filter (\<lambda>p. p_state p = PS_PENDING_OPEN) ?ps))))"
      and pos: "t_positions t' = map (\<lambda>p. (p_position_id p, restarted ?clk p)) ?ps"
      and cnt: "\<And>e. get_event_fill_count t' e = int (length (filter (held e) ?ps))"
    using restore_positions_exact [OF ids, of "reset ?t" ?clk] by (auto simp: reset_def get_event_fill_count_def)
  obtain w2 rep where s: "bot_start False now env db1 w1 = (w2, Inr (Some rep))" "o_tracker w2 = t'"
    using restore_state_tracker [of env db1 "set_tracker (reset ?t) (w1\<lparr>o_trading_enabled := True, o_paused := False,
      o_bot_start_time := Some now, o_bot_paused_at := None, o_bot_accumulated := 0\<rparr>)"] load r w1
    by (auto simp: bot_start_def Let_def)
  have "get_position t' k = map_option (restarted ?clk) (get_position ?t k)" for k
  proof (cases "get_position ?t k")
    case None
    then have "k \<notin> p_position_id ` set ?ps" using trk_inv_ids(2) [OF assms(1)] by auto
    then have "k \<notin> fst ` set (t_positions t')" by (simp add: pos image_image)
    then have "dget (t_positions t') k = None" by (simp only: map_of_eq_None_iff not_False_eq_True)
    then show ?thesis using None by (simp add: get_position_def)
  next
    case (Some p)
    with trk_inv_wf [OF assms(1)] have "p_position_id p = k" by blast
    with Some trk_inv_ids(2) [OF assms(1)] have "(k, restarted ?clk p) \<in> set (t_positions t')" by (auto simp: pos)
    moreover have "distinct (map fst (t_positions t'))" using ids by (simp add: pos comp_def)
    ultimately show ?thesis using Some by (simp add: get_position_def)
  qed
  moreover have "get_event_fill_count t' e = get_event_fill_count ?t e
         - int (length (filter (\<lambda>p. p_condition_id p = e \<and> p_state p = PS_PENDING_OPEN) (get_all_positions ?t)))
         + int (length (filter (\<lambda>p. p_condition_id p = e \<and> p_state p = PS_CLOSED \<and> p_opened_at p = None) (get_all_positions ?t)))" for e
    using held_count [of e "get_all_positions ?t"] trk_inv_fills [OF assms(1), of e]
    by (simp add: cnt length_filter_sort_key dcount_def get_all_positions_def)
  ultimately show ?thesis by (simp add: st s w1 Let_def)
qed

text \<open>A bot that had one order rejected.\<close>

definition example_db :: Database where
  "example_db = \<lparr>db_positions = [], db_claims = [], db_settings = [], db_registry = [], db_ptb = []\<rparr>"

definition example_bot :: Orchestrator where
  "example_bot = \<lparr>o_eval = example_eval_world, o_exit = example_world False example_open (example_settle False),
     o_sync = \<lparr>sy_registry = [], sy_delist_threshold = 3, sy_miss_counts = []\<rparr>, o_active_events = [],
     o_rtds_tokens = None, o_cleaned_count = 0, o_trading_enabled = True, o_paused = False,
     o_verify_retry_running = False, o_bot_start_time = Some 0, o_bot_paused_at = None, o_bot_accumulated = 0\<rparr>"

definition example_rejected :: PositionTracker where
  "example_rejected = fst (reject_fill ''p1'' 20 example_pending)"

definition example_restore_env :: RestoreEnv where
  "example_restore_env = \<lparr>re_settings_ok = True, re_registry_ok = True, re_ptb_ok = True, re_positions_ok = True,
     re_claims_ok = True, re_reject_now = (\<lambda>_. 30), re_initialized = False, re_balance = SB_None, re_balance_now = 30\<rparr>"

lemma example_rejected_inv: "trk_inv example_rejected"
proof -
  have "trk_inv example_pending"
    unfolding example_pending_def
    by (rule create_pending_inv [OF prod.collapse [symmetric] trk_inv_new]) code_simp
  moreover obtain r where "get_position example_pending ''p1'' = Some r" "p_state r = PS_PENDING_OPEN"
    by (simp add: example_pending_def create_pending_def new_position_def Let_def)
  moreover from this obtain t' r' where "reject_fill ''p1'' 20 example_pending = (t', Inr r')"
    by (auto simp: reject_fill_def transition_to_def Let_def)
  ultimately show ?thesis
    by (metis example_rejected_def fst_conv reject_fill_inv)
qed

theorem restart_roundtrip_witness:
  "let w = set_tracker example_rejected example_bot;
       (w1, db1) = bot_stop (\<lambda>_. True) (\<lambda>_. True) (\<lambda>_. True) w example_db;
       (w2, r) = bot_start False 100 example_restore_env db1 w1
   in get_event_fill_count (o_tracker w) ''c1'' = 0 \<and> get_event_fill_count (o_tracker w2) ''c1'' = 1"
proof -
  let ?w = "set_tracker example_rejected example_bot"
  have "get_event_fill_count example_rejected ''c1'' = 0"
    "length (filter (\<lambda>p. p_condition_id p = ''c1'' \<and> p_state p = PS_PENDING_OPEN) (get_all_positions example_rejected)) = 0"
    "length (filter (\<lambda>p. p_condition_id p = ''c1'' \<and> p_state p = PS_CLOSED \<and> p_opened_at p = None)
       (get_all_positions example_rejected)) = 1"
    by code_simp+
  then show ?thesis
    using restart_roundtrip [of ?w example_db "[]" example_restore_env "\<lambda>_. True" "\<lambda>_. True" 100] example_rejected_inv
    by (simp add: example_db_def position_rows_of_def example_restore_env_def Let_def case_prod_beta)
qed

section \<open>Claims after a restart\<close>

lemma restore_positions_total: "\<exists>t' nc. restore_positions clk ps t = (t', Inr nc)"
proof (induction ps arbitrary: t)
  case (Cons p ps)
  let ?t1 = "restore_position p t"
  show ?case
  proof (cases "p_state p = PS_PENDING_OPEN")
    case True
    then obtain t2 r where r: "reject_fill (p_position_id p) (clk (p_position_id p)) ?t1 = (t2, Inr r)"
      by (auto simp: restore_position_def reject_fill_def transition_to_def get_position_def Let_def)
    from Cons.IH [of t2] True r show ?thesis by auto
  next
    case False
    from Cons.IH [of ?t1] False show ?thesis by auto
  qed
qed simp

lemma restore_claim_get:
  "get_claim (restore_claim d m) k = (if k = c_claim_id d then Some d else get_claim m k)"
  by (simp add: restore_claim_def get_claim_def put_claim_def Let_def)

lemma restore_claims_get:
  "distinct (map c_claim_id cs) \<Longrightarrow> get_claim (fold restore_claim cs m) k =
     (case find (\<lambda>c. c_claim_id c = k) cs of None \<Rightarrow> get_claim m k | Some c \<Rightarrow> Some c)"
proof (induction cs arbitrary: m)
  case (Cons d cs)
  have "find (\<lambda>c. c_claim_id c = k) cs = None" if "k = c_claim_id d"
    using Cons.prems that by (simp add: find_None_iff) (metis image_eqI)
  with Cons show ?case by (auto simp: restore_claim_get split: option.split)
qed simp

definition claim_rows_of :: "ClaimRecord list \<Rightarrow> (string, ClaimRow) dict" where
  "claim_rows_of cs = map (\<lambda>c. (c_claim_id c, claim_row c)) cs"

lemma claim_load_rows: "claim_load_all True (claim_rows_of cs) = sort_key c_created_at cs"
proof -
  have "dvals (claim_rows_of cs) = map claim_row cs" by (simp add: claim_rows_of_def comp_def)
  moreover have "(\<lambda>c. wc_created_at (claim_row c)) = c_created_at" by (simp add: fun_eq_iff claim_row_def)
  ultimately show ?thesis
    by (simp add: claim_load_all_def store_load_def sort_key_map claim_rows.rows_to_records_rows)
qed

lemma restore_state_claims:
  obtains w' r where "restore_state env db w = (w', Inr r)"
    and "w_settle (o_exit w') = (w_settle (o_exit w))
      \<lparr>ss_claims := fold restore_claim (claim_load_all (re_claims_ok env) (db_claims db)) (o_claims w)\<rparr>"
proof -
  obtain t nc where r: "restore_positions (re_reject_now env) (position_load_all (re_positions_ok env) (db_positions db))
      (o_tracker (restore_stores env db w)) = (t, Inr nc)"
    using restore_positions_total by blast
  obtain n c where nc: "nc = (n, c)" by fastforce
  have e: "o_exit (restore_stores env db w) = o_exit w" by (simp add: restore_stores_def Let_def)
  let ?w3 = "set_claims (fold restore_claim (claim_load_all (re_claims_ok env) (db_claims db))
      (o_claims (set_tracker t (restore_stores env db w)))) (set_tracker t (restore_stores env db w))"
  obtain w4 ok where v: "verify_balance (re_initialized env) (re_balance env) (re_balance_now env) ?w3 = (w4, ok)" by fastforce
  then have "o_exit w4 = o_exit ?w3"
    using verify_balance_exit [of "re_initialized env" "re_balance env" "re_balance_now env" ?w3] by simp
  then have "\<exists>w' r. restore_state env db w = (w', Inr r) \<and> o_exit w' = o_exit ?w3"
    using r v by (auto simp: restore_state_def nc start_verify_retry_def Let_def)
  then show thesis using that e by (auto simp: set_claims_def set_tracker_def)
qed

lemma no_retries: "ss_retry_states s = [] \<Longrightarrow> s\<lparr>ss_retry_states := []\<rparr> = s"
  by (cases s) simp

lemma settle_loop_unresolved:
  assumes "\<And>pid. \<not> mr_resolved (se_resolution env pid)" and "ss_has_clob s"
  shows "settle_loop env ps s = (s, 0)"
  using assms by (induction ps) (simp_all add: check_resolved_def Let_def)

text \<open>C14. A restart loses the retry schedule of the settlements, and with it the money of a claim that is
  still pending: the claim is restored, but if the exchange does not report its market as resolved
  in the first exit cycle (an outage is enough), the reconciliation of that cycle takes the claim
  for settled outside and marks it redeemed and won, with nothing redeemed, nothing credited, and
  its position never settled again.\<close>

theorem pending_claim_won_after_restart:
  assumes "db_claims db = claim_rows_of cs" "distinct (map c_claim_id cs)" "c \<in> set cs" "claim_is_pending c"
    and "re_claims_ok env" "ss_retry_states (w_settle (o_exit w)) = []" "ss_has_clob (w_settle (o_exit w))"
    and "\<And>pid. \<not> mr_resolved (se_resolution (cy_settle cenv) pid)"
  shows "let w' = fst (restore_state env db w); (x, n, m) = settle_stage cenv (exit_view w')
    in (\<exists>c'. get_claim (ss_claims (w_settle x)) (c_claim_id c) = Some c' \<and> claim_is_success c' \<and>
         c_outcome c' = REDEEMED_WON \<and> c_claimed_amount_usdc c' = c_claimed_amount_usdc c) \<and>
      ss_balance (w_settle x) = o_balance w' \<and> is_settled (w_settle x) (c_position_id c)"
proof -
  obtain w' r where rs: "restore_state env db w = (w', Inr r)"
    and st: "w_settle (o_exit w') = (w_settle (o_exit w))
      \<lparr>ss_claims := fold restore_claim (sort_key c_created_at cs) (o_claims w)\<rparr>"
    using assms(1,5) claim_load_rows by (metis restore_state_claims)
  let ?s = "(w_settle (o_exit w'))\<lparr>ss_balance := o_balance w'\<rparr>"
  have "find (\<lambda>d. c_claim_id d = c_claim_id c) (sort_key c_created_at cs) = Some c"
  proof -
    obtain d where d: "find (\<lambda>d. c_claim_id d = c_claim_id c) (sort_key c_created_at cs) = Some d"
      using assms(3) by (cases "find (\<lambda>d. c_claim_id d = c_claim_id c) (sort_key c_created_at cs)") (auto simp: find_None_iff)
    then have "d \<in> set cs" "c_claim_id d = c_claim_id c" by (auto dest!: find_SomeD)
    with assms(2,3) have "d = c" by (auto simp: distinct_map inj_on_def)
    with d show ?thesis by simp
  qed
  then have g: "get_claim (ss_claims ?s) (c_claim_id c) = Some c"
    using assms(2) by (simp add: st restore_claims_get distinct_map inj_on_def)
  then have pend: "c \<in> set (get_pending_claims (ss_claims ?s))"
    using assms(4) by (force simp: get_pending_claims_def get_claim_def dest: map_of_SomeD)
  obtain s2 m where rec: "reconcile_loop cenv (get_pending_claims (ss_claims ?s)) ?s = (s2, m)" by fastforce
  have ns: "\<not> claim_is_success c" using assms(4) by (simp add: claim_is_success_def claim_is_pending_def)
  have "\<not> is_position_in_retry ?s (c_position_id c)" using assms(6) by (simp add: st is_position_in_retry_def)
  from reconcile_settles [OF rec pend refl this g ns]
  obtain c' where "ss_balance s2 = o_balance w'" "get_claim (ss_claims s2) (c_claim_id c) = Some c'" "claim_is_success c'"
      "c_outcome c' = REDEEMED_WON" "c_claimed_amount_usdc c' = c_claimed_amount_usdc c" "c_position_id c' = c_position_id c"
    by auto
  moreover have "process_settlements (cy_settle cenv) t ?s = (?s, 0)" for t
    using assms(6,7,8) no_retries [of ?s]
    by (simp add: process_settlements_def process_retries_def settle_loop_unresolved st)
  then have "settle_stage cenv (exit_view w') = ((exit_view w')\<lparr>w_settle := s2,
      w_exec := (w_exec (exit_view w'))\<lparr>ee_balance := ss_balance s2\<rparr>\<rparr>, 0, m)"
    using rec by (simp add: settle_stage_def reconcile_external_def exit_view_def)
  ultimately show ?thesis using is_settledI [of s2] by (auto simp: rs)
qed

definition example_claim :: ClaimRecord where
  "example_claim = snd (create_claim ''c1'' ''p1'' ''BTC'' ''UP'' ''k1'' 50 (ss_claims (example_settle False)))"

definition example_outage :: CycleEnv where
  "example_outage = example_cycle_env\<lparr>cy_settle := example_settle_env\<lparr>se_resolution := (\<lambda>_.
     \<lparr>mr_closed = False, mr_resolved = False, mr_winning_side = []\<rparr>)\<rparr>\<rparr>"

definition example_live_bot :: Orchestrator where
  "example_live_bot = example_bot\<lparr>o_exit := example_world False example_open ((example_settle False)\<lparr>ss_has_clob := True\<rparr>)\<rparr>"

theorem pending_claim_won_after_restart_witness:
  "let w' = fst (restore_state example_restore_env (example_db\<lparr>db_claims := claim_rows_of [example_claim]\<rparr>) example_live_bot)
   in is_settled (w_settle (fst (settle_stage example_outage (exit_view w')))) ''p1''"
proof -
  let ?db = "example_db\<lparr>db_claims := claim_rows_of [example_claim]\<rparr>"
  have "claim_is_pending example_claim" "c_position_id example_claim = ''p1''"
    by (simp_all add: example_claim_def create_claim_def claim_is_pending_def Let_def)
  then show ?thesis
    using pending_claim_won_after_restart [of ?db "[example_claim]" example_claim example_restore_env example_live_bot example_outage]
    by (simp add: example_live_bot_def example_world_def example_settle_def example_outage_def example_restore_env_def
        Let_def case_prod_beta)
qed

section \<open>The clock\<close>

lemma pause_idem: "pause n1 n2 (pause m1 m2 w) = pause m1 m2 w"
  by (simp add: pause_def Let_def split: option.split)

lemma uptime_frozen:
  assumes "\<not> o_paused w"
  shows "bot_uptime_sec later (pause now now2 w) = bot_uptime_sec now w"
  using assms by (simp add: pause_def bot_uptime_sec_def Let_def split: option.split)

end
