(* ===== verification/Control.thy ===== *)
theory Control
  imports Wiring
begin

text \<open>
  The endpoints that change the bot, \<^verbatim>\<open>backend/api/bot.py\<close>, \<^verbatim>\<open>api/coin.py\<close>, \<^verbatim>\<open>api/settings.py\<close>, the status
  of \<^verbatim>\<open>api/health.py\<close> and the start-up of \<^verbatim>\<open>backend/main.py\<close>.

  A handler takes the orchestrator of the process, \<open>None\<close> before the start-up, and gives back the
  state and either the code of the \<^verbatim>\<open>HTTPException\<close> (\<open>Inl\<close>) or its response. Messages for the user
  are left out. A request body is a record of options, as pydantic builds it; its validators
  answer 422 before the handler runs. Numbers are finite.
\<close>

section \<open>Start, pause, stop\<close>

datatype BotState = BS_stopped | BS_paused | BS_running

record BotActionResponse =
  ba_success :: bool
  ba_state :: BotState

definition current_state :: "Orchestrator \<Rightarrow> BotState" where
  "current_state w = (if \<not> o_trading_enabled w then BS_stopped else if o_paused w then BS_paused else BS_running)"

definition done_as :: "BotState \<Rightarrow> int + BotActionResponse" where
  "done_as s = Inr \<lparr>ba_success = True, ba_state = s\<rparr>"

text \<open>\<open>running\<close> says whether the loops run, \<^verbatim>\<open>_exit_cycle_running\<close>; a start that raises answers 500.\<close>

definition api_bot_start ::
  "bool \<Rightarrow> num \<Rightarrow> RestoreEnv \<Rightarrow> Database \<Rightarrow> Orchestrator option \<Rightarrow> Orchestrator option \<times> (int + BotActionResponse)" where
  "api_bot_start running now env db orch =
     (case orch of None \<Rightarrow> (None, Inl 503)
      | Some w \<Rightarrow> (case current_state w of
            BS_running \<Rightarrow> (Some w, done_as BS_running)
          | BS_paused \<Rightarrow> (Some (resume now w), done_as BS_running)
          | BS_stopped \<Rightarrow> (case bot_start running now env db w of
                (w', Inl e) \<Rightarrow> (Some w', Inl 500)
              | (w', Inr _) \<Rightarrow> (Some w', done_as BS_running))))"

definition api_bot_pause :: "num \<Rightarrow> num \<Rightarrow> Orchestrator option \<Rightarrow> Orchestrator option \<times> (int + BotActionResponse)" where
  "api_bot_pause now now2 orch =
     (case orch of None \<Rightarrow> (None, Inl 503)
      | Some w \<Rightarrow> (case current_state w of
            BS_stopped \<Rightarrow> (Some w, Inl 409)
          | BS_paused \<Rightarrow> (Some w, done_as BS_paused)
          | BS_running \<Rightarrow> (Some (pause now now2 w), done_as BS_paused)))"

text \<open>\<^verbatim>\<open>stop\<close> never raises: its flushes catch what the stores raise.\<close>

definition api_bot_stop ::
  "(PositionRecord \<Rightarrow> bool) \<Rightarrow> (ClaimRecord \<Rightarrow> bool) \<Rightarrow> (CoinSettings \<Rightarrow> bool) \<Rightarrow> Database \<Rightarrow> Orchestrator option
    \<Rightarrow> (Orchestrator option \<times> Database) \<times> (int + BotActionResponse)" where
  "api_bot_stop okp okc oks db orch =
     (case orch of None \<Rightarrow> ((None, db), Inl 503)
      | Some w \<Rightarrow> (case current_state w of
            BS_stopped \<Rightarrow> ((Some w, db), done_as BS_stopped)
          | _ \<Rightarrow> (let (w', db') = bot_stop okp okc oks w db in ((Some w', db'), done_as BS_stopped))))"

section \<open>The status of the bot\<close>

datatype HealthLiteral = HL_healthy | HL_degraded | HL_critical | HL_unknown

record BotStatusContract =
  bt_running :: "bool option"
  bt_health :: "HealthLiteral option"
  bt_restore_phase :: "bool option"
  bt_shutdown_in_progress :: "bool option"
  bt_startup_guard_blocked :: "bool option"
  bt_paused :: "bool option"
  bt_uptime_sec :: "int option"
  bt_latency_ms :: "int option"
  bt_paper_mode :: "bool option"

text \<open>
  The orchestrator has no attributes \<^verbatim>\<open>restore_phase\<close>, \<^verbatim>\<open>shutdown_flag\<close>, \<^verbatim>\<open>degraded_mode\<close> and
  \<^verbatim>\<open>startup_guard\<close>, so \<^verbatim>\<open>getattr\<close> gives the defaults.
\<close>

definition build_bot_status :: "num \<Rightarrow> num \<Rightarrow> Orchestrator option \<Rightarrow> BotStatusContract" where
  "build_bot_status uptime now orch =
     (case orch of
        None \<Rightarrow> \<lparr>bt_running = Some False, bt_health = Some HL_unknown, bt_restore_phase = None, bt_shutdown_in_progress = None,
          bt_startup_guard_blocked = None, bt_paused = None, bt_uptime_sec = Some (py_int uptime), bt_latency_ms = None,
          bt_paper_mode = None\<rparr>
      | Some w \<Rightarrow> \<lparr>bt_running = Some (o_trading_enabled w), bt_health = Some HL_healthy, bt_restore_phase = None,
          bt_shutdown_in_progress = None, bt_startup_guard_blocked = None, bt_paused = Some (o_paused w),
          bt_uptime_sec = Some (bot_uptime_sec now w), bt_latency_ms = None, bt_paper_mode = Some (ew_paper_mode (o_eval w))\<rparr>)"

section \<open>Coin settings\<close>

record CoinSettingsRequest =
  rq_side_mode :: "string option"
  rq_delta_threshold :: "num option"
  rq_price_min :: "int option"
  rq_price_max :: "int option"
  rq_spread_max :: "num option"
  rq_time_min :: "int option"
  rq_time_max :: "int option"
  rq_event_max :: "int option"
  rq_order_amount :: "num option"
  rq_reactivate_on_return :: "bool option"

definition side_mode_of :: "string \<Rightarrow> exc + SideMode" where
  "side_mode_of = enum_of side_mode_value [DOMINANT_ONLY, UP_ONLY, DOWN_ONLY]"

definition validate_side_mode :: "string option \<Rightarrow> bool" where
  "validate_side_mode v = (case v of None \<Rightarrow> True | Some s \<Rightarrow> s \<in> set (map side_mode_value [DOMINANT_ONLY, UP_ONLY, DOWN_ONLY]))"

definition validate_positive_float :: "num option \<Rightarrow> bool" where
  "validate_positive_float v = (case v of None \<Rightarrow> True | Some x \<Rightarrow> \<not> x < 0)"

definition validate_order_amount :: "num option \<Rightarrow> bool" where
  "validate_order_amount v = (case v of None \<Rightarrow> True | Some x \<Rightarrow> \<not> x < 0 \<and> \<not> (0 < x \<and> x < 1))"

definition validate_non_negative_int :: "int option \<Rightarrow> bool" where
  "validate_non_negative_int v = (case v of None \<Rightarrow> True | Some n \<Rightarrow> \<not> n < 0)"

definition request_valid :: "CoinSettingsRequest \<Rightarrow> bool" where
  "request_valid b \<longleftrightarrow> validate_side_mode (rq_side_mode b) \<and> validate_positive_float (rq_delta_threshold b) \<and>
     validate_positive_float (rq_spread_max b) \<and> validate_order_amount (rq_order_amount b) \<and>
     list_all validate_non_negative_int [rq_price_min b, rq_price_max b, rq_time_min b, rq_time_max b, rq_event_max b]"

text \<open>The fields that are set, in the order of the class; a side mode that is no value raises.\<close>

definition opt_field :: "('a \<Rightarrow> SettingField) \<Rightarrow> 'a option \<Rightarrow> SettingField list" where
  "opt_field f v = (case v of None \<Rightarrow> [] | Some x \<Rightarrow> [f x])"

definition other_fields :: "CoinSettingsRequest \<Rightarrow> SettingField list" where
  "other_fields b = opt_field F_delta_threshold (rq_delta_threshold b) @ opt_field F_price_min (rq_price_min b) @
     opt_field F_price_max (rq_price_max b) @ opt_field F_spread_max (rq_spread_max b) @ opt_field F_time_min (rq_time_min b) @
     opt_field F_time_max (rq_time_max b) @ opt_field F_event_max (rq_event_max b) @
     opt_field F_order_amount (rq_order_amount b) @ opt_field F_reactivate_on_return (rq_reactivate_on_return b)"

definition request_fields :: "CoinSettingsRequest \<Rightarrow> exc + SettingField list" where
  "request_fields b = (case rq_side_mode b of None \<Rightarrow> Inr (other_fields b)
     | Some s \<Rightarrow> (case side_mode_of s of Inl e \<Rightarrow> Inl e | Inr m \<Rightarrow> Inr (F_side_mode m # other_fields b)))"

datatype MissingField = MF_delta_threshold | MF_price_min | MF_price_max | MF_price_range | MF_time_min | MF_time_max
  | MF_time_range | MF_order_amount

definition check_missing_fields :: "CoinSettings \<Rightarrow> MissingField list" where
  "check_missing_fields s =
     (if cs_delta_threshold s \<le> 0 then [MF_delta_threshold] else []) @
     (if cs_price_min s \<le> 0 then [MF_price_min] else []) @
     (if cs_price_max s \<le> 0 then [MF_price_max] else []) @
     (if cs_price_max s \<le> cs_price_min s \<and> 0 < cs_price_min s then [MF_price_range] else []) @
     (if cs_time_min s \<le> 0 then [MF_time_min] else []) @
     (if cs_time_max s \<le> 0 then [MF_time_max] else []) @
     (if cs_time_max s \<le> cs_time_min s \<and> 0 < cs_time_min s then [MF_time_range] else []) @
     (if cs_order_amount s \<le> 0 then [MF_order_amount] else [])"

record CoinSettingsResponse =
  sr_configured :: bool
  sr_missing :: "MissingField list"

definition or_else :: "'a option \<Rightarrow> 'a \<Rightarrow> 'a" where
  "or_else v d = (case v of None \<Rightarrow> d | Some x \<Rightarrow> x)"

definition bad_range :: "int \<Rightarrow> int \<Rightarrow> bool" where
  "bad_range lo hi \<longleftrightarrow> 0 < lo \<and> 0 < hi \<and> hi \<le> lo"

definition coin_settings_save ::
  "string \<Rightarrow> CoinSettingsRequest \<Rightarrow> SettingsStore \<Rightarrow> SettingsStore \<times> (int + CoinSettingsResponse)" where
  "coin_settings_save symbol body st =
     (if \<not> request_valid body then (st, Inl 422)
      else case request_fields body of Inl e \<Rightarrow> (st, Inl 500)
      | Inr upd \<Rightarrow>
          (let sym = str_upper symbol; existing = settings_get st sym;
               old = (\<lambda>f. case existing of None \<Rightarrow> 0 | Some s \<Rightarrow> f s)
           in if bad_range (or_else (rq_price_min body) (old cs_price_min)) (or_else (rq_price_max body) (old cs_price_max)) then (st, Inl 422)
              else if bad_range (or_else (rq_time_min body) (old cs_time_min)) (or_else (rq_time_max body) (old cs_time_max)) then (st, Inl 422)
              else (let (st', s) = update_settings sym upd st
                in (st', Inr \<lparr>sr_configured = is_configured s, sr_missing = check_missing_fields s\<rparr>))))"

definition coin_settings_read :: "string \<Rightarrow> SettingsStore \<Rightarrow> CoinSettings \<times> CoinSettingsResponse" where
  "coin_settings_read symbol st =
     (let sym = str_upper symbol; s = or_else (settings_get st sym) (new_coin_settings sym)
      in (s, \<lparr>sr_configured = is_configured s, sr_missing = check_missing_fields s\<rparr>))"

definition coin_toggle :: "string \<Rightarrow> SettingsStore \<Rightarrow> SettingsStore \<times> (int + bool)" where
  "coin_toggle symbol st = (case toggle_coin (str_upper symbol) st of
       (st', None) \<Rightarrow> (st', Inl 404) | (st', Some s) \<Rightarrow> (st', Inr (cs_coin_enabled s)))"

text \<open>The requests of a client, one after the other.\<close>

datatype CoinRequest = CR_Save string CoinSettingsRequest | CR_Toggle string

fun coin_request :: "CoinRequest \<Rightarrow> SettingsStore \<Rightarrow> SettingsStore" where
  "coin_request (CR_Save symbol body) st = fst (coin_settings_save symbol body st)"
| "coin_request (CR_Toggle symbol) st = fst (coin_toggle symbol st)"

section \<open>Global settings\<close>

text \<open>
  The part of the configuration the page shows. \<^verbatim>\<open>sl_jump_threshold\<close> is read-only: the request has no
  such field. The exit evaluator is one object, held by the exit orchestrator and the exit executor.
\<close>

record GlobalConfig =
  gc_auto_start :: bool
  gc_bot_max_positions :: int
  gc_wait_for_claim :: bool
  gc_tp_percentage :: num
  gc_tp_reevaluate :: bool
  gc_sl_enabled :: bool
  gc_sl_percentage :: num
  gc_sl_jump_threshold :: num
  gc_fs_time_enabled :: bool
  gc_fs_time_seconds :: int
  gc_fs_pnl_enabled :: bool
  gc_fs_pnl_pct :: num

record GlobalSettingsUpdateRequest =
  gq_auto_start :: "bool option"
  gq_bot_max_positions :: "int option"
  gq_block_new_entries :: "bool option"
  gq_tp_percentage :: "num option"
  gq_tp_reevaluate :: "bool option"
  gq_sl_enabled :: "bool option"
  gq_sl_percentage :: "num option"
  gq_fs_time_enabled :: "bool option"
  gq_fs_time_seconds :: "int option"
  gq_fs_pnl_enabled :: "bool option"
  gq_fs_pnl_pct :: "num option"

record GlobalSettingsUpdateResponse =
  gr_changed :: int
  gr_has_open_positions :: bool

definition update_config :: "GlobalSettingsUpdateRequest \<Rightarrow> GlobalConfig \<Rightarrow> GlobalConfig" where
  "update_config b c = c\<lparr>
     gc_auto_start := or_else (gq_auto_start b) (gc_auto_start c),
     gc_bot_max_positions := or_else (gq_bot_max_positions b) (gc_bot_max_positions c),
     gc_wait_for_claim := or_else (gq_block_new_entries b) (gc_wait_for_claim c),
     gc_tp_percentage := or_else (gq_tp_percentage b) (gc_tp_percentage c),
     gc_tp_reevaluate := or_else (gq_tp_reevaluate b) (gc_tp_reevaluate c),
     gc_sl_enabled := or_else (gq_sl_enabled b) (gc_sl_enabled c),
     gc_sl_percentage := or_else (gq_sl_percentage b) (gc_sl_percentage c),
     gc_fs_time_enabled := or_else (gq_fs_time_enabled b) (gc_fs_time_enabled c),
     gc_fs_time_seconds := or_else (gq_fs_time_seconds b) (gc_fs_time_seconds c),
     gc_fs_pnl_enabled := or_else (gq_fs_pnl_enabled b) (gc_fs_pnl_enabled c),
     gc_fs_pnl_pct := or_else (gq_fs_pnl_pct b) (gc_fs_pnl_pct c)\<rparr>"

definition update_evaluator :: "GlobalSettingsUpdateRequest \<Rightarrow> ExitEvaluator \<Rightarrow> ExitEvaluator" where
  "update_evaluator b v = v\<lparr>
     ev_tp_pct := or_else (gq_tp_percentage b) (ev_tp_pct v),
     ev_tp_reevaluate := or_else (gq_tp_reevaluate b) (ev_tp_reevaluate v),
     ev_sl_enabled := or_else (gq_sl_enabled b) (ev_sl_enabled v),
     ev_sl_pct := or_else (gq_sl_percentage b) (ev_sl_pct v),
     ev_fs_time_enabled := or_else (gq_fs_time_enabled b) (ev_fs_time_enabled v),
     ev_fs_time_seconds := or_else (gq_fs_time_seconds b) (ev_fs_time_seconds v),
     ev_fs_pnl_enabled := or_else (gq_fs_pnl_enabled b) (ev_fs_pnl_enabled v),
     ev_fs_pnl_pct := or_else (gq_fs_pnl_pct b) (ev_fs_pnl_pct v)\<rparr>"

definition update_runtime :: "GlobalSettingsUpdateRequest \<Rightarrow> Orchestrator \<Rightarrow> Orchestrator" where
  "update_runtime b w = (let x = o_exit w in
     w\<lparr>o_eval := (o_eval w)\<lparr>ew_bot_max_positions := or_else (gq_bot_max_positions b) (ew_bot_max_positions (o_eval w))\<rparr>,
       o_exit := x\<lparr>w_evaluator := update_evaluator b (w_evaluator x),
                   w_exec := (w_exec x)\<lparr>ee_evaluator := map_option (update_evaluator b) (ee_evaluator (w_exec x))\<rparr>\<rparr>\<rparr>)"

definition count_some :: "'a option \<Rightarrow> int" where
  "count_some v = (case v of None \<Rightarrow> 0 | Some _ \<Rightarrow> 1)"

definition count_changed :: "GlobalSettingsUpdateRequest \<Rightarrow> int" where
  "count_changed b = count_some (gq_auto_start b) + count_some (gq_bot_max_positions b) + count_some (gq_block_new_entries b) +
     count_some (gq_tp_percentage b) + count_some (gq_tp_reevaluate b) + count_some (gq_sl_enabled b) +
     count_some (gq_sl_percentage b) + count_some (gq_fs_time_enabled b) + count_some (gq_fs_time_seconds b) +
     count_some (gq_fs_pnl_enabled b) + count_some (gq_fs_pnl_pct b)"

definition global_settings_update ::
  "GlobalSettingsUpdateRequest \<Rightarrow> (GlobalConfig \<times> Orchestrator) option
    \<Rightarrow> (GlobalConfig \<times> Orchestrator) option \<times> (int + GlobalSettingsUpdateResponse)" where
  "global_settings_update b orch =
     (case orch of None \<Rightarrow> (None, Inl 503)
      | Some (c, w) \<Rightarrow> (Some (update_config b c, update_runtime b w),
          Inr \<lparr>gr_changed = count_changed b, gr_has_open_positions = 0 < open_position_count (o_tracker w)\<rparr>))"

text \<open>\<^verbatim>\<open>_read_global_settings\<close> copies the configuration.\<close>

definition global_settings_read :: "(GlobalConfig \<times> Orchestrator) option \<Rightarrow> int + GlobalConfig" where
  "global_settings_read orch = (case orch of None \<Rightarrow> Inl 503 | Some (c, w) \<Rightarrow> Inr c)"

section \<open>Start-up\<close>

text \<open>
  \<^verbatim>\<open>lifespan\<close> up to its \<^verbatim>\<open>yield\<close>: the orchestrator starts, then the encrypted credentials are loaded
  (\<open>su_has_key\<close>: they exist and have a private key; an exception counts as none) and the balance
  is fetched.
\<close>

record StartupEnv =
  su_now :: num
  su_restore :: RestoreEnv
  su_has_key :: bool
  su_fetch :: FetchReply
  su_fetch_now :: usec

definition lifespan_startup :: "StartupEnv \<Rightarrow> Database \<Rightarrow> Orchestrator \<Rightarrow> (Orchestrator, unit) outcome" where
  "lifespan_startup env db w =
     ebind (bot_start False (su_now env) (su_restore env) db w) (\<lambda>w1 _.
       if \<not> su_has_key env then (w1, Inr ())
       else (let (b, balance_ok) = fetch (su_fetch_now env) (su_fetch env) (o_balance w1); w2 = set_balance b w1
         in if balance_ok then (w2\<lparr>o_trading_enabled := True\<rparr>, Inr ()) else (start_verify_retry w2, Inr ())))"

section \<open>Saving coin settings\<close>

text \<open>What the page may store: no negative number, an amount of zero or at least one dollar, and ranges
  that are not reversed once both ends are given.\<close>

definition settings_sane :: "CoinSettings \<Rightarrow> bool" where
  "settings_sane s \<longleftrightarrow> 0 \<le> cs_delta_threshold s \<and> 0 \<le> cs_spread_max s \<and> 0 \<le> cs_price_min s \<and> 0 \<le> cs_price_max s \<and>
     0 \<le> cs_time_min s \<and> 0 \<le> cs_time_max s \<and> 0 \<le> cs_event_max s \<and> (cs_order_amount s = 0 \<or> 1 \<le> cs_order_amount s) \<and>
     \<not> bad_range (cs_price_min s) (cs_price_max s) \<and> \<not> bad_range (cs_time_min s) (cs_time_max s)"

lemma missing_empty: "check_missing_fields s = [] \<longleftrightarrow> is_configured s"
  by (auto simp: check_missing_fields_def is_configured_def)

lemma or_else_simps [simp]: "or_else None d = d" "or_else (Some x) d = x"
  by (simp_all add: or_else_def)

lemma opt_field_simps [simp]: "opt_field f None = []" "opt_field f (Some x) = [f x]"
  by (simp_all add: opt_field_def)

lemma side_mode_of_value [simp]: "side_mode_of (side_mode_value m) = Inr m"
  unfolding side_mode_of_def by (cases m) (simp_all add: enum_of_def)

lemma request_fields_valid:
  assumes "request_valid b"
  obtains (given) m where "rq_side_mode b = Some (side_mode_value m)" "request_fields b = Inr (F_side_mode m # other_fields b)"
  | (absent) "rq_side_mode b = None" "request_fields b = Inr (other_fields b)"
  using assms
  by (auto simp: request_valid_def validate_side_mode_def request_fields_def simp del: side_mode_value.simps split: option.splits)

lemma fold_opt_field:
  "foldl set_field s (opt_field f v @ fs) = foldl set_field (case v of None \<Rightarrow> s | Some x \<Rightarrow> set_field s (f x)) fs"
  "foldl set_field s (opt_field f v) = (case v of None \<Rightarrow> s | Some x \<Rightarrow> set_field s (f x))"
  by (cases v, simp_all)+

text \<open>The settings a request makes of the old ones.\<close>

definition requested :: "CoinSettingsRequest \<Rightarrow> CoinSettings \<Rightarrow> CoinSettings" where
  "requested b s = s\<lparr>
     cs_side_mode := (case rq_side_mode b of None \<Rightarrow> cs_side_mode s
        | Some v \<Rightarrow> (case side_mode_of v of Inl _ \<Rightarrow> cs_side_mode s | Inr m \<Rightarrow> m)),
     cs_delta_threshold := or_else (rq_delta_threshold b) (cs_delta_threshold s),
     cs_price_min := or_else (rq_price_min b) (cs_price_min s),
     cs_price_max := or_else (rq_price_max b) (cs_price_max s),
     cs_spread_max := or_else (rq_spread_max b) (cs_spread_max s),
     cs_time_min := or_else (rq_time_min b) (cs_time_min s),
     cs_time_max := or_else (rq_time_max b) (cs_time_max s),
     cs_event_max := or_else (rq_event_max b) (cs_event_max s),
     cs_order_amount := or_else (rq_order_amount b) (cs_order_amount s),
     cs_reactivate_on_return := or_else (rq_reactivate_on_return b) (cs_reactivate_on_return s)\<rparr>"

lemma opt_update:
  "(case v of None \<Rightarrow> s | Some x \<Rightarrow> set_field s (F_delta_threshold x)) = s\<lparr>cs_delta_threshold := or_else v (cs_delta_threshold s)\<rparr>"
  "(case n of None \<Rightarrow> s | Some x \<Rightarrow> set_field s (F_price_min x)) = s\<lparr>cs_price_min := or_else n (cs_price_min s)\<rparr>"
  "(case n of None \<Rightarrow> s | Some x \<Rightarrow> set_field s (F_price_max x)) = s\<lparr>cs_price_max := or_else n (cs_price_max s)\<rparr>"
  "(case v of None \<Rightarrow> s | Some x \<Rightarrow> set_field s (F_spread_max x)) = s\<lparr>cs_spread_max := or_else v (cs_spread_max s)\<rparr>"
  "(case n of None \<Rightarrow> s | Some x \<Rightarrow> set_field s (F_time_min x)) = s\<lparr>cs_time_min := or_else n (cs_time_min s)\<rparr>"
  "(case n of None \<Rightarrow> s | Some x \<Rightarrow> set_field s (F_time_max x)) = s\<lparr>cs_time_max := or_else n (cs_time_max s)\<rparr>"
  "(case n of None \<Rightarrow> s | Some x \<Rightarrow> set_field s (F_event_max x)) = s\<lparr>cs_event_max := or_else n (cs_event_max s)\<rparr>"
  "(case v of None \<Rightarrow> s | Some x \<Rightarrow> set_field s (F_order_amount x)) = s\<lparr>cs_order_amount := or_else v (cs_order_amount s)\<rparr>"
  "(case r of None \<Rightarrow> s | Some x \<Rightarrow> set_field s (F_reactivate_on_return x)) =
     s\<lparr>cs_reactivate_on_return := or_else r (cs_reactivate_on_return s)\<rparr>"
  by (simp_all split: option.split)

lemma fold_other_fields:
  "foldl set_field s (other_fields b) = requested (b\<lparr>rq_side_mode := None\<rparr>) s"
  unfolding other_fields_def by (simp only: append_assoc fold_opt_field opt_update) (simp add: requested_def)

lemma fold_request:
  assumes "request_valid b"
  obtains upd where "request_fields b = Inr upd" "\<And>s. foldl set_field s upd = requested b s"
  using assms
proof (cases rule: request_fields_valid)
  case (given m)
  then show thesis
    by (intro that [OF given(2)]) (simp add: fold_other_fields requested_def)
next
  case absent
  then show thesis
    by (intro that [OF absent(2)]) (simp add: fold_other_fields requested_def)
qed

lemma requested_frame [simp]: "cs_coin (requested b s) = cs_coin s" "cs_coin_enabled (requested b s) = cs_coin_enabled s"
  by (simp_all add: requested_def)

lemma save_cases:
  assumes "coin_settings_save symbol b st = (st', r)"
  obtains (refused) "r = Inl 422" "st' = st"
  | (saved) s where "s = or_else (settings_get st symbol) (new_coin_settings (str_upper symbol))" "request_valid b"
      "\<not> bad_range (cs_price_min (requested b s)) (cs_price_max (requested b s))"
      "\<not> bad_range (cs_time_min (requested b s)) (cs_time_max (requested b s))"
      "st' = settings_set (requested b s) st"
      "r = Inr \<lparr>sr_configured = is_configured (requested b s), sr_missing = check_missing_fields (requested b s)\<rparr>"
proof (cases "request_valid b")
  case False
  with assms show thesis by (intro refused) (auto simp: coin_settings_save_def)
next
  case True
  obtain upd where upd: "request_fields b = Inr upd" "\<And>s. foldl set_field s upd = requested b s"
    using fold_request [OF True] by blast
  define s where "s = or_else (settings_get st symbol) (new_coin_settings (str_upper symbol))"
  have key: "settings_get st (str_upper symbol) = settings_get st symbol" by (simp add: settings_get_def)
  have old: "(case settings_get st symbol of None \<Rightarrow> 0 | Some s \<Rightarrow> f s) = f s"
    if "f (new_coin_settings (str_upper symbol)) = 0" for f :: "CoinSettings \<Rightarrow> int"
    using that by (simp add: s_def or_else_def split: option.split)
  have ex: "(case settings_get st symbol of None \<Rightarrow> new_coin_settings (str_upper symbol) | Some s \<Rightarrow> s) = s"
    by (simp add: s_def or_else_def)
  have new0: "cs_price_min (new_coin_settings c) = 0" "cs_price_max (new_coin_settings c) = 0"
    "cs_time_min (new_coin_settings c) = 0" "cs_time_max (new_coin_settings c) = 0" for c
    by (simp_all add: new_coin_settings_def)
  have pr: "or_else (rq_price_min b) (cs_price_min s) = cs_price_min (requested b s)"
    "or_else (rq_price_max b) (cs_price_max s) = cs_price_max (requested b s)"
    "or_else (rq_time_min b) (cs_time_min s) = cs_time_min (requested b s)"
    "or_else (rq_time_max b) (cs_time_max s) = cs_time_max (requested b s)"
    by (simp_all add: requested_def)
  have up: "update_settings (str_upper symbol) upd st = (settings_set (requested b s) st, requested b s)"
    by (simp only: update_settings_def key ex upd Let_def str_upper_idem)
  have "(st', r) = (if bad_range (cs_price_min (requested b s)) (cs_price_max (requested b s)) then (st, Inl 422)
      else if bad_range (cs_time_min (requested b s)) (cs_time_max (requested b s)) then (st, Inl 422)
      else (settings_set (requested b s) st,
        Inr \<lparr>sr_configured = is_configured (requested b s), sr_missing = check_missing_fields (requested b s)\<rparr>))"
    using assms
    by (simp add: coin_settings_save_def True upd Let_def key old new0 pr up cong: if_cong)
  then show thesis using saved [OF s_def True] refused by (auto split: if_splits)
qed

lemma requested_sane:
  assumes "settings_sane s" and "request_valid b"
    and "\<not> bad_range (cs_price_min (requested b s)) (cs_price_max (requested b s))"
    and "\<not> bad_range (cs_time_min (requested b s)) (cs_time_max (requested b s))"
  shows "settings_sane (requested b s)"
proof -
  have n: "0 \<le> or_else v d" if "validate_non_negative_int v" "0 \<le> d" for v d
    using that by (auto simp: validate_non_negative_int_def split: option.splits)
  have f: "0 \<le> or_else v d" if "validate_positive_float v" "0 \<le> d" for v d
    using that by (auto simp: validate_positive_float_def split: option.splits)
  have a: "or_else v d = 0 \<or> 1 \<le> or_else v d" if "validate_order_amount v" "d = 0 \<or> 1 \<le> d" for v d
    using that by (auto simp: validate_order_amount_def split: option.splits)
  show ?thesis
    using assms unfolding settings_sane_def request_valid_def by (simp add: requested_def n f a)
qed

lemma new_sane: "settings_sane (new_coin_settings c)"
  by (simp add: settings_sane_def new_coin_settings_def bad_range_def)

lemma toggle_sane: "settings_sane s \<Longrightarrow> settings_sane (s\<lparr>cs_coin_enabled := e\<rparr>)"
  by (simp add: settings_sane_def)

definition store_sane :: "SettingsStore \<Rightarrow> bool" where
  "store_sane st \<longleftrightarrow> settings_inv st \<and> (\<forall>k s. dget (st_settings st) k = Some s \<longrightarrow> settings_sane s)"

lemma settings_set_sane: "store_sane st \<Longrightarrow> settings_sane s \<Longrightarrow> store_sane (settings_set s st)"
  by (auto simp: store_sane_def settings_set_inv)

lemma request_sane: "store_sane st \<Longrightarrow> store_sane (coin_request r st)"
proof (cases r)
  case (CR_Save symbol body)
  assume st: "store_sane st"
  obtain st' res where c: "coin_settings_save symbol body st = (st', res)" by fastforce
  then have "store_sane st'"
  proof (cases rule: save_cases)
    case (saved s)
    have "settings_sane s"
      using st saved(1) new_sane by (cases "settings_get st symbol") (auto simp: store_sane_def settings_get_def)
    with saved show ?thesis using st by (simp add: settings_set_sane requested_sane)
  qed (use st in simp)
  with c CR_Save show ?thesis by simp
next
  case (CR_Toggle symbol)
  assume st: "store_sane st"
  show ?thesis
  proof (cases "settings_get st symbol")
    case None
    with st CR_Toggle show ?thesis by (simp add: coin_toggle_def toggle_coin_def settings_get_def)
  next
    case (Some s)
    then have "settings_sane s" using st by (auto simp: store_sane_def settings_get_def)
    then have "store_sane (settings_set (s\<lparr>cs_coin_enabled := \<not> cs_coin_enabled s\<rparr>) st)"
      by (intro settings_set_sane st toggle_sane)
    with Some CR_Toggle show ?thesis by (simp add: coin_toggle_def toggle_coin_def settings_get_def Let_def)
  qed
qed

section \<open>Properties\<close>

text \<open>Saving the settings of a coin. A request that is refused answers 422, never an internal error, and
  changes nothing. One that is accepted leaves exactly the values it names changed, on the old
  settings or, for a new coin, on the disabled defaults; the switch and every other coin stay, and
  the answer reports no missing field exactly when the coin can be traded once enabled.\<close>

theorem coin_save_exact:
  assumes "settings_inv st" and "coin_settings_save symbol b st = (st', r)"
  shows "case r of Inl status \<Rightarrow> status = 422 \<and> st' = st
    | Inr resp \<Rightarrow> (let old = or_else (settings_get st symbol) (new_coin_settings (str_upper symbol))
        in settings_get st' symbol = Some (requested b old) \<and> cs_coin_enabled (requested b old) = cs_coin_enabled old \<and>
          (sr_missing resp = [] \<longleftrightarrow> is_configured (requested b old)) \<and> (sr_configured resp \<longleftrightarrow> sr_missing resp = []) \<and>
          (\<forall>other. str_upper other = str_upper symbol \<or> settings_get st' other = settings_get st other))"
  using assms(2)
proof (cases rule: save_cases)
  case (saved s)
  have name: "str_upper (cs_coin s) = str_upper symbol"
    using saved(1) settings_get_coin [OF assms(1)]
    by (cases "settings_get st symbol") (auto simp: new_coin_settings_def)
  show ?thesis
    by (auto simp: saved(5,6) saved(1) [symmetric] Let_def settings_get_set name missing_empty)
qed simp

definition example_request :: CoinSettingsRequest where
  "example_request = \<lparr>rq_side_mode = Some ''up_only'', rq_delta_threshold = Some 1, rq_price_min = Some 60, rq_price_max = Some 90,
     rq_spread_max = None, rq_time_min = Some 10, rq_time_max = Some 200, rq_event_max = None, rq_order_amount = Some 5,
     rq_reactivate_on_return = None\<rparr>"

definition empty_settings :: SettingsStore where
  "empty_settings = \<lparr>st_settings = [], st_db = False, st_outbox = []\<rparr>"

lemma empty_settings_sane: "store_sane empty_settings" "settings_inv empty_settings"
  by (simp_all add: store_sane_def settings_inv_def empty_settings_def wf_dict_def)

lemma example_request_saved:
  "(case snd (coin_settings_save ''btc'' example_request empty_settings) of Inl _ \<Rightarrow> False | Inr _ \<Rightarrow> True)"
  by code_simp

theorem coin_save_exact_witness:
  "settings_get (fst (coin_settings_save ''btc'' example_request empty_settings)) ''btc'' =
     Some (requested example_request (new_coin_settings ''BTC''))"
proof -
  obtain st' r where r: "coin_settings_save ''btc'' example_request empty_settings = (st', r)" by fastforce
  obtain resp where resp: "r = Inr resp" using example_request_saved r by (auto split: sum.splits)
  have none: "settings_get empty_settings ''btc'' = None" "str_upper ''btc'' = ''BTC''" by code_simp+
  show ?thesis
    using coin_save_exact [OF empty_settings_sane(2) r] by (simp add: r resp Let_def none)
qed



text \<open>The evaluator and the strategy work with the values of the configuration.\<close>

definition evaluator_in_sync :: "GlobalConfig \<Rightarrow> ExitEvaluator \<Rightarrow> bool" where
  "evaluator_in_sync c v \<longleftrightarrow> ev_tp_pct v = gc_tp_percentage c \<and> ev_tp_reevaluate v = gc_tp_reevaluate c \<and>
     ev_sl_enabled v = gc_sl_enabled c \<and> ev_sl_pct v = gc_sl_percentage c \<and> ev_sl_jump_threshold v = gc_sl_jump_threshold c \<and>
     ev_fs_time_enabled v = gc_fs_time_enabled c \<and> ev_fs_time_seconds v = gc_fs_time_seconds c \<and>
     ev_fs_pnl_enabled v = gc_fs_pnl_enabled c \<and> ev_fs_pnl_pct v = gc_fs_pnl_pct c"

definition runtime_in_sync :: "GlobalConfig \<Rightarrow> Orchestrator \<Rightarrow> bool" where
  "runtime_in_sync c w \<longleftrightarrow> evaluator_in_sync c (w_evaluator (o_exit w)) \<and>
     (case ee_evaluator (w_exec (o_exit w)) of None \<Rightarrow> True | Some v \<Rightarrow> evaluator_in_sync c v) \<and>
     ew_bot_max_positions (o_eval w) = gc_bot_max_positions c"

lemma update_evaluator_sync: "evaluator_in_sync c v \<Longrightarrow> evaluator_in_sync (update_config b c) (update_evaluator b v)"
  by (simp add: evaluator_in_sync_def update_config_def update_evaluator_def)

text \<open>C26. An update of the global settings reaches the running bot: the exit evaluator and the position limit
  of the strategy follow the configuration, the jump threshold stays, no position is touched. The
  limit of the order executor does not follow: an order is still filled only below the limit
  the process was started with, whatever number the page shows.\<close>

theorem global_update_effect:
  assumes "runtime_in_sync c w" and "global_settings_update b (Some (c, w)) = (Some (c', w'), r)"
  shows "runtime_in_sync c' w' \<and> global_settings_read (Some (c', w')) = Inr (update_config b c) \<and>
    gc_sl_jump_threshold c' = gc_sl_jump_threshold c \<and> o_tracker w' = o_tracker w \<and>
    (case execute env intent (ew_executor (o_eval w')) of (x, Inl e) \<Rightarrow> True
      | (x, Inr res) \<Rightarrow> er_result res \<in> {BALANCE_STALE, RES_REJECTED} \<or> open_position_count (o_tracker w) < x_bot_max (ew_executor (o_eval w)))"
proof -
  have c': "c' = update_config b c" and w': "w' = update_runtime b w"
    using assms(2) by (simp_all add: global_settings_update_def)
  have ex: "ew_executor (o_eval w') = ew_executor (o_eval w)" by (simp add: w' update_runtime_def Let_def)
  have limit: "gc_bot_max_positions (update_config b c) = or_else (gq_bot_max_positions b) (gc_bot_max_positions c)"
    by (simp add: update_config_def)
  have "runtime_in_sync c' w'"
    using assms(1) by (auto simp: c' w' runtime_in_sync_def update_runtime_def Let_def update_evaluator_sync limit split: option.splits)
  moreover have "case execute env intent (ew_executor (o_eval w)) of (x, Inl e) \<Rightarrow> True
      | (x, Inr res) \<Rightarrow> er_result res \<in> {BALANCE_STALE, RES_REJECTED} \<or> open_position_count (o_tracker w) < x_bot_max (ew_executor (o_eval w))"
  proof (cases "execute env intent (ew_executor (o_eval w))")
    case (Pair x r')
    then show ?thesis
      by (cases r') (auto elim!: execute_cases simp: validate_valid_iff)
  qed
  ultimately show ?thesis
    by (simp add: ex c' global_settings_read_def update_config_def)
qed

definition example_page_bot :: Orchestrator where
  "example_page_bot = (let x = o_exit example_bot in
     example_bot\<lparr>o_exit := x\<lparr>w_exec := (w_exec x)\<lparr>ee_evaluator := Some (w_evaluator x)\<rparr>\<rparr>\<rparr>)"

definition example_config :: GlobalConfig where
  "example_config = (let v = w_evaluator (o_exit example_bot) in
     \<lparr>gc_auto_start = False, gc_bot_max_positions = ew_bot_max_positions (o_eval example_bot), gc_wait_for_claim = True,
      gc_tp_percentage = ev_tp_pct v, gc_tp_reevaluate = ev_tp_reevaluate v, gc_sl_enabled = ev_sl_enabled v,
      gc_sl_percentage = ev_sl_pct v, gc_sl_jump_threshold = ev_sl_jump_threshold v, gc_fs_time_enabled = ev_fs_time_enabled v,
      gc_fs_time_seconds = ev_fs_time_seconds v, gc_fs_pnl_enabled = ev_fs_pnl_enabled v, gc_fs_pnl_pct = ev_fs_pnl_pct v\<rparr>)"

definition example_update :: GlobalSettingsUpdateRequest where
  "example_update = \<lparr>gq_auto_start = None, gq_bot_max_positions = Some 9, gq_block_new_entries = None, gq_tp_percentage = Some 8,
     gq_tp_reevaluate = None, gq_sl_enabled = Some True, gq_sl_percentage = Some 4, gq_fs_time_enabled = None,
     gq_fs_time_seconds = None, gq_fs_pnl_enabled = None, gq_fs_pnl_pct = None\<rparr>"

lemma example_page_in_sync: "runtime_in_sync example_config example_page_bot"
  by (simp add: runtime_in_sync_def evaluator_in_sync_def example_config_def example_page_bot_def Let_def)

theorem global_update_effect_witness:
  "runtime_in_sync (update_config example_update example_config) (update_runtime example_update example_page_bot) \<and>
   global_settings_read (Some (update_config example_update example_config, update_runtime example_update example_page_bot)) =
     Inr (update_config example_update example_config)"
proof -
  have u: "global_settings_update example_update (Some (example_config, example_page_bot)) =
    (Some (update_config example_update example_config, update_runtime example_update example_page_bot),
     Inr \<lparr>gr_changed = count_changed example_update, gr_has_open_positions = 0 < open_position_count (o_tracker example_page_bot)\<rparr>)"
    by (simp add: global_settings_update_def)
  show ?thesis using global_update_effect [OF example_page_in_sync u] by simp
qed

lemma start_verify_retry_simps [simp]:
  "o_verify_retry_running (start_verify_retry u)" "o_trading_enabled (start_verify_retry u) = o_trading_enabled u"
  "o_balance (start_verify_retry u) = o_balance u"
  by (simp_all add: start_verify_retry_def)

lemma trading_frames [simp]:
  "o_balance (u\<lparr>o_trading_enabled := e\<rparr>) = o_balance u" "o_trading_enabled (set_balance b u) = o_trading_enabled u"
  "o_verify_retry_running (set_balance b u) = o_verify_retry_running u"
  by (simp_all add: set_balance_def)

lemma restore_degraded:
  assumes "restore_state env db w = (w1, Inr rep)" and "\<not> re_initialized env"
  shows "\<not> o_trading_enabled w1 \<and> o_verify_retry_running w1 \<and> o_balance w1 = o_balance w"
proof -
  have v: "verify_balance (re_initialized env) rb rn u = (u, False)" for rb rn u
    using assms(2) by (simp add: verify_balance_def clob_get_balance_def)
  have stores: "o_balance (restore_stores env db w) = o_balance w" by (simp add: restore_stores_def Let_def)
  obtain t rp where p: "restore_positions (re_reject_now env) (position_load_all (re_positions_ok env) (db_positions db))
      (o_tracker (restore_stores env db w)) = (t, rp)" by fastforce
  show ?thesis
  proof (cases rp)
    case (Inr nc)
    obtain n c where "nc = (n, c)" by fastforce
    then show ?thesis using assms(1) by (auto simp: restore_state_def p Inr v stores Let_def)
  qed (use assms(1) p in \<open>auto simp: restore_state_def Let_def\<close>)
qed

text \<open>The guard of the start-up. The exchange wrapper has no credentials while the state is restored, so
  its balance check fails; after the start-up the bot trades exactly when a private key was loaded
  and the balance could be fetched with it, and otherwise the check is being retried. The balance
  is the fetched one.\<close>

theorem startup_guard:
  assumes "lifespan_startup env db w = (w', Inr ())" and "\<not> re_initialized (su_restore env)"
  shows "(o_trading_enabled w' \<longleftrightarrow> su_has_key env \<and> snd (fetch (su_fetch_now env) (su_fetch env) (o_balance w))) \<and>
    (o_trading_enabled w' \<or> o_verify_retry_running w') \<and>
    o_balance w' = (if su_has_key env then fst (fetch (su_fetch_now env) (su_fetch env) (o_balance w)) else o_balance w)"
proof -
  obtain w1 r1 where s: "bot_start False (su_now env) (su_restore env) db w = (w1, r1)" by fastforce
  with assms(1) obtain rep where r1: "r1 = Inr rep" by (cases r1) (auto simp: lifespan_startup_def ebind_def)
  let ?u = "w\<lparr>o_trading_enabled := True, o_paused := False, o_bot_start_time := Some (su_now env), o_bot_paused_at := None,
      o_bot_accumulated := 0\<rparr>"
  obtain rp where "restore_state (su_restore env) db (set_tracker (reset (o_tracker ?u)) ?u) = (w1, Inr rp)"
    using s r1 by (auto simp: bot_start_def ebind_def Let_def split: prod.splits sum.splits)
  from restore_degraded [OF this assms(2)]
  have w1: "\<not> o_trading_enabled w1" "o_verify_retry_running w1" "o_balance w1 = o_balance w" by simp_all
  obtain b ok where f: "fetch (su_fetch_now env) (su_fetch env) (o_balance w) = (b, ok)" by fastforce
  have after: "(if \<not> su_has_key env then (w1, Inr ())
       else if ok then ((set_balance b w1)\<lparr>o_trading_enabled := True\<rparr>, Inr ()) else (start_verify_retry (set_balance b w1), Inr ())) = (w', Inr ())"
    using assms(1) by (auto simp: lifespan_startup_def s r1 ebind_def f w1(3) Let_def split: if_splits)
  show ?thesis
  proof (cases "su_has_key env")
    case True
    then show ?thesis using after w1 by (cases ok) (auto simp: f)
  next
    case False
    then show ?thesis using after w1 by auto
  qed
qed

definition example_startup :: StartupEnv where
  "example_startup = \<lparr>su_now = 100, su_restore = example_restore_env, su_has_key = True, su_fetch = FR_Number 64, su_fetch_now = 101\<rparr>"

definition example_boot :: Orchestrator where
  "example_boot = set_balance ((o_balance example_bot)\<lparr>b_has_fetch_fn := True\<rparr>) example_bot"

lemma example_startup_run: "(case snd (lifespan_startup example_startup example_db example_boot) of Inl _ \<Rightarrow> False | Inr _ \<Rightarrow> True)"
  "snd (fetch 101 (FR_Number 64) (o_balance example_boot))"
  by code_simp+

theorem startup_guard_witness: "o_trading_enabled (fst (lifespan_startup example_startup example_db example_boot))"
proof -
  obtain w' r where r: "lifespan_startup example_startup example_db example_boot = (w', Inr r)"
    using example_startup_run(1) by (cases "lifespan_startup example_startup example_db example_boot") (auto split: sum.splits)
  show ?thesis
    using startup_guard [of example_startup example_db example_boot w'] r example_startup_run(2)
    by (simp add: example_startup_def example_restore_env_def)
qed

text \<open>A bot whose balance check failed is not in control of its owner: while it is degraded its loops run,
  but a stop is answered with success and does nothing, a pause is refused, a start lifts the
  degraded mode without a new balance check, and the health endpoint calls it healthy.\<close>

theorem degraded_bot_controls:
  assumes "\<not> o_trading_enabled w"
  shows "api_bot_stop okp okc oks db (Some w) = ((Some w, db), done_as BS_stopped) \<and>
    api_bot_pause t1 t2 (Some w) = (Some w, Inl 409) \<and>
    (\<exists>w'. api_bot_start True now env db (Some w) = (Some w', done_as BS_running) \<and> o_trading_enabled w' \<and> o_balance w' = o_balance w) \<and>
    bt_health (build_bot_status up now (Some w)) = Some HL_healthy"
  using assms
  by (simp add: api_bot_stop_def api_bot_pause_def api_bot_start_def current_state_def bot_start_def build_bot_status_def resume_def)

theorem degraded_bot_controls_witness:
  "api_bot_stop (\<lambda>_. True) (\<lambda>_. True) (\<lambda>_. True) example_db (Some (example_bot\<lparr>o_trading_enabled := False\<rparr>)) =
     ((Some (example_bot\<lparr>o_trading_enabled := False\<rparr>), example_db), done_as BS_stopped)"
  using degraded_bot_controls [of "example_bot\<lparr>o_trading_enabled := False\<rparr>" "\<lambda>_. True" "\<lambda>_. True" "\<lambda>_. True" example_db 0 0 0
      example_restore_env 0] by simp

end
