(* ===== verification/EventChain.thy ===== *)
theory EventChain
  imports Wiring
begin

text \<open>
  \<^verbatim>\<open>backend/orchestrator/wiring.py\<close>, \<^verbatim>\<open>_handle_discovered_events\<close>: what a discovery scan sets off. The
  events pass the eligibility gate, one event per coin is chosen (the one of the current slot if
  the scan has it), the scan's prices seed the pipeline, the subscriptions are brought up to date,
  and a task that fetches the price to beat is started for every current event that has none.

  \<open>ce_loads\<close> is \<^verbatim>\<open>json.loads\<close> on the text of the outcome prices. The tasks that are started run
  later; they are returned with their arguments (\<^verbatim>\<open>fetch_ptb_with_retry\<close> is in the theory of the
  price to beat).
\<close>

record ChainEnv =
  ce_now :: num
  ce_now2 :: num
  ce_gamma_now :: "string \<Rightarrow> usec"
  ce_loads :: "string \<Rightarrow> json option"
  ce_creds :: "bool option"
  ce_str :: "DiscoveredEvent \<Rightarrow> string"

record PTBTask =
  pt_condition_id :: string
  pt_asset :: string
  pt_slug :: string
  pt_event_end :: num

text \<open>The choice of one event per asset: the assets seen, the chosen events, the current events.\<close>

record Choice =
  ch_assets :: "string list"
  ch_event_map :: "(string, EventData) dict"
  ch_current :: "(string, string) dict"

definition event_data :: "DiscoveredEvent \<Rightarrow> EventData" where
  "event_data e = \<lparr>ed_condition_id = de_condition_id e, ed_token_ids = de_clob_token_ids e,
     ed_sides = de_outcomes e, ed_slug = de_slug e\<rparr>"

definition choose_event :: "int \<Rightarrow> Choice \<Rightarrow> DiscoveredEvent \<Rightarrow> Choice" where
  "choose_event now c e =
     (let asset = de_asset e
      in if asset = [] then c
         else let c1 = c\<lparr>ch_assets := ch_assets c @ [asset]\<rparr>
           in if in_slot now (de_slug e) then
                c1\<lparr>ch_event_map := dset asset (event_data e) (ch_event_map c),
                   ch_current := dset asset (de_condition_id e) (ch_current c)\<rparr>
              else if asset \<notin> set (dkeys (ch_event_map c)) then
                c1\<lparr>ch_event_map := dset asset (event_data e) (ch_event_map c)\<rparr>
              else c1)"

definition choose_events :: "int \<Rightarrow> DiscoveredEvent list \<Rightarrow> Choice" where
  "choose_events now es = foldl (choose_event now) \<lparr>ch_assets = [], ch_event_map = [], ch_current = []\<rparr> es"

definition gamma_seed :: "ChainEnv \<Rightarrow> LivePricePipeline \<Rightarrow> DiscoveredEvent \<Rightarrow> LivePricePipeline" where
  "gamma_seed env p e =
     (if de_condition_id e = [] \<or> de_asset e = [] \<or> de_outcome_prices e = [] then p
      else fst (update_from_gamma (ce_gamma_now env (de_condition_id e)) (de_condition_id e) (de_asset e)
        (Gamma_text (ce_loads env (de_outcome_prices e))) 0 p))"

definition ptb_task :: "int \<Rightarrow> (string, EventData) dict \<Rightarrow> PTBFetcher \<Rightarrow> string \<times> string \<Rightarrow> PTBTask option" where
  "ptb_task now_ts em f ac =
     (let (asset, cid) = ac; slug = ed_slug (dget_or em asset no_event_data)
      in if locked_now cid f then None
         else if slug = [] then None
         else Some \<lparr>pt_condition_id = cid, pt_asset = asset, pt_slug = slug,
           pt_event_end = (case slug_ts slug of Some start \<Rightarrow> fl (of_int (start + 300)) | None \<Rightarrow> fl (of_int (now_ts + 300)))\<rparr>)"

definition handle_discovered_events ::
  "ChainEnv \<Rightarrow> DiscoveredEvent list \<Rightarrow> Orchestrator \<Rightarrow> Orchestrator \<times> PTBTask list" where
  "handle_discovered_events env events w =
     (if o_paused w then (w, [])
      else let el = el_eligible (eligibility_filter (ce_creds env) (ew_paper_mode (o_eval w)) (ew_settings (o_eval w))
                      de_asset (ce_str env) events)
        in if el = [] then (w, [])
           else let c = choose_events (py_int (ce_now env)) el;
                  w1 = w\<lparr>o_eval := set_pipeline (foldl (gamma_seed env) (ew_pipeline (o_eval w)) el) (o_eval w)\<rparr>;
                  s = sub_view w1;
                  s1 = apply_diff (compute_diff (ch_assets c) s) (ch_event_map c) s;
                  s2 = s1\<lparr>sm_coin_client := set_coins (ch_assets c) (sm_coin_client s1)\<rparr>;
                  w2 = put_sub s2 w1
             in (w2, List.map_filter (ptb_task (py_int (ce_now2 env)) (ch_event_map c) (ew_ptb (o_eval w2))) (ch_current c)))"

section \<open>Which event a coin gets\<close>

definition current_of :: "int \<Rightarrow> string \<Rightarrow> DiscoveredEvent list \<Rightarrow> DiscoveredEvent option" where
  "current_of now a es = find (\<lambda>e. de_asset e = a \<and> in_slot now (de_slug e)) (rev es)"

definition chosen :: "int \<Rightarrow> string \<Rightarrow> DiscoveredEvent list \<Rightarrow> DiscoveredEvent option" where
  "chosen now a es = (case current_of now a es of Some e \<Rightarrow> Some e | None \<Rightarrow> find (\<lambda>e. de_asset e = a) es)"

lemma find_append: "find P (xs @ ys) = (case find P xs of Some x \<Rightarrow> Some x | None \<Rightarrow> find P ys)"
  by (induction xs) simp_all

lemma choose_events_snoc: "choose_events now (es @ [e]) = choose_event now (choose_events now es) e"
  by (simp add: choose_events_def)

lemma choose_events_exact:
  assumes "a \<noteq> []"
  shows "dget (ch_event_map (choose_events now es)) a = map_option event_data (chosen now a es)"
    and "dget (ch_current (choose_events now es)) a = map_option de_condition_id (current_of now a es)"
proof (induction es rule: rev_induct)
  case (snoc e es)
  let ?c = "choose_events now es"
  have dom: "de_asset e \<in> set (dkeys (ch_event_map ?c)) \<longleftrightarrow> dget (ch_event_map ?c) (de_asset e) \<noteq> None"
    by (simp add: map_of_eq_None_iff)
  { case 1
    show ?case
    proof (cases "de_asset e = a")
      case True
      with assms dom snoc(1) show ?thesis
        by (auto simp: choose_events_snoc choose_event_def Let_def chosen_def current_of_def find_append split: option.split)
    next
      case False
      with snoc(1) show ?thesis
        by (auto simp: choose_events_snoc choose_event_def Let_def chosen_def current_of_def find_append split: option.split)
    qed }
  { case 2
    with snoc(2) assms show ?case
      by (auto simp: choose_events_snoc choose_event_def Let_def current_of_def) }
qed (simp_all add: choose_events_def chosen_def current_of_def)

lemma choose_events_assets: "set (ch_assets (choose_events now es)) = {de_asset e |e. e \<in> set es \<and> de_asset e \<noteq> []}"
proof (induction es rule: rev_induct)
  case (snoc e es)
  then show ?case by (auto simp: choose_events_snoc choose_event_def Let_def)
qed (simp add: choose_events_def)

lemma current_of_SomeD:
  assumes "current_of now a es = Some e"
  shows "e \<in> set es" "de_asset e = a" "in_slot now (de_slug e)"
  using find_SomeD [OF assms [unfolded current_of_def]] by simp_all

section \<open>What the chain does to the subscriptions\<close>

definition passed :: "ChainEnv \<Rightarrow> DiscoveredEvent list \<Rightarrow> Orchestrator \<Rightarrow> DiscoveredEvent list" where
  "passed env events w = el_eligible (eligibility_filter (ce_creds env) (ew_paper_mode (o_eval w))
     (ew_settings (o_eval w)) de_asset (ce_str env) events)"

lemma handle_blocked: "o_paused w \<or> passed env events w = [] \<Longrightarrow> handle_discovered_events env events w = (w, [])"
  by (auto simp: handle_discovered_events_def passed_def Let_def)

lemma handle_active:
  assumes "\<not> o_paused w" "passed env events w \<noteq> []"
  shows "dget (o_active_events (fst (handle_discovered_events env events w))) =
    sub_spec (set (map str_upper (ch_assets (choose_events (py_int (ce_now env)) (passed env events w)))))
      (ch_event_map (choose_events (py_int (ce_now env)) (passed env events w))) (dget (o_active_events w))"
  using assms
  by (simp add: handle_discovered_events_def passed_def [symmetric] Let_def put_sub_def apply_diff_spec sub_view_def
      del: set_map)

lemma handle_tasks:
  assumes "\<not> o_paused w" "passed env events w \<noteq> []"
  shows "snd (handle_discovered_events env events w) = List.map_filter
    (ptb_task (py_int (ce_now2 env)) (ch_event_map (choose_events (py_int (ce_now env)) (passed env events w)))
      (ew_ptb (o_eval (fst (handle_discovered_events env events w)))))
    (ch_current (choose_events (py_int (ce_now env)) (passed env events w)))"
  using assms by (simp add: handle_discovered_events_def passed_def [symmetric] Let_def)

text \<open>C20. The chain follows the slot: when a scan that passes the gate holds an event of the current slot for
  a coin, the coin is subscribed to the last such event afterwards, whatever upcoming events of the
  coin the scan holds before or behind it, and the price to beat of that event is either locked or
  being fetched until the end of the slot. (A coin that was subscribed with an empty condition id
  keeps it.)\<close>

theorem chain_follows_the_slot:
  assumes "\<not> o_paused w" and "current_of (py_int (ce_now env)) a (passed env events w) = Some e"
    and "str_upper a = a" "a \<noteq> []" "de_condition_id e \<noteq> []"
  shows "let (w', tasks) = handle_discovered_events env events w
    in (dget (o_active_events w') a = Some (de_condition_id e) \<or> dget (o_active_events w) a = Some []) \<and>
      (locked_now (de_condition_id e) (ew_ptb (o_eval w')) \<or>
        (\<exists>start. slug_ts (de_slug e) = Some start \<and>
          \<lparr>pt_condition_id = de_condition_id e, pt_asset = a, pt_slug = de_slug e, pt_event_end = fl (of_int (start + 300))\<rparr>
            \<in> set tasks))"
proof -
  let ?now = "py_int (ce_now env)" and ?el = "passed env events w"
  let ?c = "choose_events ?now ?el"
  obtain w' tasks where h: "handle_discovered_events env events w = (w', tasks)" by fastforce
  note e = current_of_SomeD [OF assms(2)]
  have ne: "?el \<noteq> []" using e(1) by auto
  have em: "dget (ch_event_map ?c) a = Some (event_data e)" "dget (ch_current ?c) a = Some (de_condition_id e)"
    using choose_events_exact [OF assms(4)] assms(2) by (simp_all add: chosen_def)
  have "a \<in> set (ch_assets ?c)" using e(1,2) assms(4) by (auto simp: choose_events_assets)
  then have "str_upper a \<in> str_upper ` set (ch_assets ?c)" by (rule imageI)
  then have "a \<in> set (map str_upper (ch_assets ?c))" by (simp only: assms(3) set_map)
  then have act: "dget (o_active_events w') a = Some (de_condition_id e) \<or> dget (o_active_events w) a = Some []"
    using handle_active [OF assms(1) ne] h em assms(5)
    by (auto simp: sub_spec_def event_data_of_def dget_or_def event_data_def rotated_def Let_def
        split: option.split simp del: set_map)
  obtain start where start: "slug_ts (de_slug e) = Some start"
    using e(3) by (auto simp: in_slot_def split: option.splits)
  then have "de_slug e \<noteq> []" by (auto simp: slug_ts_def)
  then have "ptb_task (py_int (ce_now2 env)) (ch_event_map ?c) (ew_ptb (o_eval w')) (a, de_condition_id e) =
      (if locked_now (de_condition_id e) (ew_ptb (o_eval w')) then None
       else Some \<lparr>pt_condition_id = de_condition_id e, pt_asset = a, pt_slug = de_slug e, pt_event_end = fl (of_int (start + 300))\<rparr>)"
    using em start by (simp add: ptb_task_def dget_or_def event_data_def)
  moreover have "(a, de_condition_id e) \<in> set (ch_current ?c)" using em(2) by (rule map_of_SomeD)
  ultimately show ?thesis
    using act start handle_tasks [OF assms(1) ne] h by (force simp: List.map_filter_def split: if_splits)
qed

text \<open>A scan from which nothing passes the gate changes nothing at all: the coins that were subscribed
  stay subscribed with their routes, so a coin that was switched off goes on receiving quotes
  until some other coin is eligible in a scan.\<close>

theorem empty_scan_keeps_subscriptions:
  assumes "\<And>e. e \<in> set events \<Longrightarrow> de_asset e = [] \<or>
      (case settings_get (ew_settings (o_eval w)) (de_asset e) of None \<Rightarrow> True | Some cs \<Rightarrow> \<not> is_trade_eligible cs)"
  shows "handle_discovered_events env events w = (w, [])"
proof -
  have "check_event (ew_settings (o_eval w)) de_asset (ce_str env) e \<noteq> None" if "e \<in> set events" for e
    using assms [OF that] by (auto simp: check_event_def is_trade_eligible_def Let_def split: option.splits)
  then have "filter (\<lambda>e. check_event (ew_settings (o_eval w)) de_asset (ce_str env) e = None) events = []"
    by (auto simp: filter_empty_conv)
  then have "passed env events w = []"
    by (simp add: passed_def eligibility_filter_def gate_loop_lists)
  then show ?thesis by (simp add: handle_blocked)
qed

definition example_chain_env :: ChainEnv where
  "example_chain_env = \<lparr>ce_now = 1700000200, ce_now2 = 1700000200, ce_gamma_now = (\<lambda>_. 7), ce_loads = (\<lambda>_. None),
     ce_creds = None, ce_str = de_slug\<rparr>"

definition example_scan :: "DiscoveredEvent list" where
  "example_scan = [\<lparr>de_condition_id = ''c9'', de_question = [], de_slug = ''btc-updown-5m-1700000400'', de_asset = ''BTC'',
       de_duration = ''5m'', de_category = ''crypto'', de_end_date = 0, de_discovered_at = 0, de_clob_token_ids = [''t9''],
       de_outcomes = [''Up''], de_outcome_prices = []\<rparr>,
     \<lparr>de_condition_id = ''c7'', de_question = [], de_slug = ''btc-updown-5m-1700000100'', de_asset = ''BTC'',
       de_duration = ''5m'', de_category = ''crypto'', de_end_date = 0, de_discovered_at = 0, de_clob_token_ids = [''t7''],
       de_outcomes = [''Up''], de_outcome_prices = []\<rparr>]"

lemma example_passed: "passed example_chain_env example_scan example_bot = example_scan"
proof -
  have "check_event (ew_settings example_eval_world) de_asset de_slug e = None" if "e \<in> set example_scan" for e
    using that by (auto simp: example_scan_def example_eval_world_def) code_simp+
  then show ?thesis
    by (simp add: passed_def eligibility_filter_def gate_loop_lists example_chain_env_def example_bot_def filter_id_conv)
qed

theorem chain_follows_the_slot_witness:
  "dget (o_active_events (fst (handle_discovered_events example_chain_env example_scan example_bot))) ''BTC'' = Some ''c7''"
proof -
  have "current_of (py_int (ce_now example_chain_env)) ''BTC'' (passed example_chain_env example_scan example_bot)
      = Some (example_scan ! 1)"
    unfolding example_passed by code_simp
  moreover have "str_upper ''BTC'' = ''BTC''" by code_simp
  ultimately show ?thesis
    using chain_follows_the_slot [of example_bot example_chain_env "''BTC''" example_scan "example_scan ! 1"]
    by (simp add: example_bot_def example_scan_def Let_def case_prod_beta)
qed

theorem empty_scan_keeps_subscriptions_witness:
  "handle_discovered_events example_chain_env [(example_scan ! 0)\<lparr>de_asset := ''XRP''\<rparr>] example_bot = (example_bot, [])"
proof (rule empty_scan_keeps_subscriptions)
  fix e assume e: "e \<in> set [(example_scan ! 0)\<lparr>de_asset := ''XRP''\<rparr>]"
  have "settings_get (ew_settings (o_eval example_bot)) ''XRP'' = None"
    by (simp add: example_bot_def example_eval_world_def) code_simp
  with e show "de_asset e = [] \<or> (case settings_get (ew_settings (o_eval example_bot)) (de_asset e) of None \<Rightarrow> True
      | Some cs \<Rightarrow> \<not> is_trade_eligible cs)" by simp
qed

end
