(* ===== verification/Runtime.thy ===== *)
theory Runtime
  imports EventChain
begin

text \<open>
  \<^verbatim>\<open>backend/orchestrator/wiring.py\<close>, the running bot: the turn of the exit cycle loop with the prices
  it gathers, and the supervisor that restarts loops whose task has died.

  The clock readings of one turn are functions of the position id they are made for.
\<close>

section \<open>The turn of the exit cycle loop\<close>

record GatherEnv =
  ga_slot_now :: "string \<Rightarrow> num"
  ga_price_now :: "string \<Rightarrow> usec"
  ga_stale_now :: "string \<Rightarrow> usec"
  ga_end_now :: "string \<Rightarrow> num"
  ga_remaining_now :: "string \<Rightarrow> num"

definition held_bid :: "string \<Rightarrow> LivePriceRecord \<Rightarrow> num" where
  "held_bid side r = (if str_upper side = ''UP'' then l_up_bid r else l_down_bid r)"

definition gather_one ::
  "GatherEnv \<Rightarrow> EventRegistry \<Rightarrow> LivePricePipeline \<times> CycleInput \<Rightarrow> PositionRecord \<Rightarrow> LivePricePipeline \<times> CycleInput" where
  "gather_one env reg st pos =
     (let (p, inp) = st; pid = p_position_id pos; asset = p_asset pos
      in if \<not> is_open pos then (p, inp)
         else let (p', pr) = eval_price (ga_price_now env pid) (find_current_slot_cid (ga_slot_now env pid) asset reg) asset p;
                  inp1 = (case pr of None \<Rightarrow> inp
                    | Some r \<Rightarrow> inp\<lparr>ci_prices := dset asset (held_bid (p_side pos) r) (ci_prices inp),
                        ci_stale := (if price_is_stale (ga_stale_now env pid) r then List.insert asset (ci_stale inp) else ci_stale inp)\<rparr>);
                  event_end = slot_start_of (ga_end_now env pid) + SLOT_SECONDS
           in (p', inp1\<lparr>ci_remaining := dset asset (max 0 (fsub (of_int event_end) (ga_remaining_now env pid))) (ci_remaining inp1)\<rparr>))"

definition gather :: "GatherEnv \<Rightarrow> EventRegistry \<Rightarrow> PositionRecord list \<Rightarrow> LivePricePipeline \<Rightarrow> LivePricePipeline \<times> CycleInput" where
  "gather env reg ps p = foldl (gather_one env reg) (p, \<lparr>ci_prices = [], ci_remaining = [], ci_stale = []\<rparr>) ps"

text \<open>
  Settlement reads the prices to beat and the coin prices of the shared components. Reading a coin
  price also refreshes its status; the next reader refreshes it again, so that write is left out.
\<close>

definition settle_inputs :: "usec \<Rightarrow> Orchestrator \<Rightarrow> CycleEnv \<Rightarrow> CycleEnv" where
  "settle_inputs now w cenv = cenv\<lparr>cy_settle := (cy_settle cenv)
     \<lparr>se_ptb_value := (\<lambda>cid. case ptb_get_record cid (ew_ptb (o_eval w)) of None \<Rightarrow> None | Some r \<Rightarrow> q_ptb_value r),
      se_coin_usd := (\<lambda>asset. snd (get_usd_price now asset (ew_coin_client (o_eval w))))\<rparr>\<rparr>"

text \<open>The body of the loop up to the flush; an exception ends the cycle where it is and is logged.\<close>

definition exit_turn :: "GatherEnv \<Rightarrow> usec \<Rightarrow> CycleEnv \<Rightarrow> Orchestrator \<Rightarrow> (Orchestrator, CycleResult) outcome" where
  "exit_turn genv now cenv w =
     (let (p, inp) = gather genv (ew_registry (o_eval w)) (get_all_positions (o_tracker w)) (ew_pipeline (o_eval w));
          w1 = w\<lparr>o_eval := set_pipeline p (o_eval w)\<rparr>;
          (x, res) = run_cycle (settle_inputs now w1 cenv) inp (exit_view w1)
      in (put_exit x w1, res))"

text \<open>\<^verbatim>\<open>flush_every\<close> from the interval, and the flush of every so many turns.\<close>

definition flush_every :: "num \<Rightarrow> int" where
  "flush_every interval = max 1 (py_int (fdiv 30 interval))"

definition flush_turn ::
  "num \<Rightarrow> (PositionRecord \<Rightarrow> bool) \<Rightarrow> (ClaimRecord \<Rightarrow> bool) \<Rightarrow> Orchestrator \<Rightarrow> int \<times> Database \<Rightarrow> int \<times> Database" where
  "flush_turn interval okp okc w cd =
     (let (counter, db) = cd; counter = counter + 1
      in if flush_every interval \<le> counter then (0, periodic_flush okp okc w db) else (counter, db))"

section \<open>The supervisor\<close>

text \<open>
  A loop object has a flag and a task. \<open>loop_start\<close> is \<^verbatim>\<open>start\<close> of the discovery loop and of the
  evaluation loop; the coin client has its own.
\<close>

record LoopState =
  lp_running :: bool
  lp_task :: "task_state option"

definition loop_start :: "LoopState \<Rightarrow> LoopState" where
  "loop_start s = (if lp_running s \<and> lp_task s = Some CoinPrice.TaskAlive then s
     else s\<lparr>lp_running := True, lp_task := Some CoinPrice.TaskAlive\<rparr>)"

definition loop_stop :: "LoopState \<Rightarrow> LoopState" where
  "loop_stop s = s\<lparr>lp_running := False, lp_task := None\<rparr>"

record Supervised =
  sv_discovery :: LoopState
  sv_evaluation :: LoopState
  sv_coin :: CoinPriceClient
  sv_exit_running :: bool
  sv_exit_task :: "task_state option"
  sv_rtds_task :: "task_state option"
  sv_restarts :: "(string, int) dict"

definition record_restart :: "string \<Rightarrow> Supervised \<Rightarrow> Supervised" where
  "record_restart name s = s\<lparr>sv_restarts := dset name (dget_or (sv_restarts s) name 0 + 1) (sv_restarts s)\<rparr>"

text \<open>The warning of \<^verbatim>\<open>_record_restart\<close>.\<close>

definition rapid_restart :: "string \<Rightarrow> Supervised \<Rightarrow> bool" where
  "rapid_restart name s \<longleftrightarrow> 3 \<le> dget_or (sv_restarts s) name 0"

definition supervisor_reset_counter :: "string \<Rightarrow> Supervised \<Rightarrow> Supervised" where
  "supervisor_reset_counter name s = s\<lparr>sv_restarts := dset name 0 (sv_restarts s)\<rparr>"

definition check_and_restart_loop ::
  "string \<Rightarrow> bool \<Rightarrow> task_state option \<Rightarrow> (Supervised \<Rightarrow> Supervised) \<Rightarrow> Supervised \<Rightarrow> Supervised" where
  "check_and_restart_loop name running_flag task restart_fn s =
     (if \<not> running_flag then s
      else if task \<noteq> Some TaskEnded then s
      else restart_fn (record_restart name s))"

definition restart_exit_cycle :: "Supervised \<Rightarrow> Supervised" where
  "restart_exit_cycle s = (if sv_exit_running s \<and> sv_exit_task s = Some TaskEnded
     then (record_restart ''exit_cycle'' s)\<lparr>sv_exit_task := Some CoinPrice.TaskAlive\<rparr> else s)"

definition restart_rtds :: "Supervised \<Rightarrow> Supervised" where
  "restart_rtds s = (if sv_rtds_task s = Some TaskEnded
     then (record_restart ''rtds_ws'' s)\<lparr>sv_rtds_task := Some CoinPrice.TaskAlive\<rparr> else s)"

definition supervisor_turn :: "Supervised \<Rightarrow> Supervised" where
  "supervisor_turn s0 =
     (let s1 = check_and_restart_loop ''discovery_loop'' (lp_running (sv_discovery s0)) (lp_task (sv_discovery s0))
            (\<lambda>s. s\<lparr>sv_discovery := loop_start (sv_discovery s)\<rparr>) s0;
          s2 = check_and_restart_loop ''evaluation_loop'' (lp_running (sv_evaluation s1)) (lp_task (sv_evaluation s1))
            (\<lambda>s. s\<lparr>sv_evaluation := loop_start (sv_evaluation s)\<rparr>) s1;
          s3 = check_and_restart_loop ''coin_client'' (kc_running (sv_coin s2)) (kc_task (sv_coin s2))
            (\<lambda>s. s\<lparr>sv_coin := coin_start (sv_coin s)\<rparr>) s2
      in restart_rtds (restart_exit_cycle s3))"

section \<open>Lemmas\<close>

lemma record_restart_frame [simp]:
  "sv_discovery (record_restart n s) = sv_discovery s"
  "sv_evaluation (record_restart n s) = sv_evaluation s"
  "sv_coin (record_restart n s) = sv_coin s"
  "sv_exit_running (record_restart n s) = sv_exit_running s"
  "sv_exit_task (record_restart n s) = sv_exit_task s"
  "sv_rtds_task (record_restart n s) = sv_rtds_task s"
  by (simp_all add: record_restart_def)

lemma check_discovery_frame [simp]:
  "sv_evaluation (check_and_restart_loop n b t (\<lambda>s. s\<lparr>sv_discovery := loop_start (sv_discovery s)\<rparr>) s) = sv_evaluation s"
  "sv_coin (check_and_restart_loop n b t (\<lambda>s. s\<lparr>sv_discovery := loop_start (sv_discovery s)\<rparr>) s) = sv_coin s"
  "sv_exit_running (check_and_restart_loop n b t (\<lambda>s. s\<lparr>sv_discovery := loop_start (sv_discovery s)\<rparr>) s) = sv_exit_running s"
  "sv_exit_task (check_and_restart_loop n b t (\<lambda>s. s\<lparr>sv_discovery := loop_start (sv_discovery s)\<rparr>) s) = sv_exit_task s"
  "sv_rtds_task (check_and_restart_loop n b t (\<lambda>s. s\<lparr>sv_discovery := loop_start (sv_discovery s)\<rparr>) s) = sv_rtds_task s"
  by (simp_all add: check_and_restart_loop_def)

lemma check_discovery [simp]:
  "sv_discovery (check_and_restart_loop n b t (\<lambda>s. s\<lparr>sv_discovery := loop_start (sv_discovery s)\<rparr>) s)
     = (if b \<and> t = Some TaskEnded then loop_start (sv_discovery s) else sv_discovery s)"
  "dget_or (sv_restarts (check_and_restart_loop n b t (\<lambda>s. s\<lparr>sv_discovery := loop_start (sv_discovery s)\<rparr>) s)) k 0
     = dget_or (sv_restarts s) k 0 + (if b \<and> t = Some TaskEnded \<and> k = n then 1 else 0)"
  by (simp_all add: check_and_restart_loop_def record_restart_def)

lemma check_evaluation_frame [simp]:
  "sv_discovery (check_and_restart_loop n b t (\<lambda>s. s\<lparr>sv_evaluation := loop_start (sv_evaluation s)\<rparr>) s) = sv_discovery s"
  "sv_coin (check_and_restart_loop n b t (\<lambda>s. s\<lparr>sv_evaluation := loop_start (sv_evaluation s)\<rparr>) s) = sv_coin s"
  "sv_exit_running (check_and_restart_loop n b t (\<lambda>s. s\<lparr>sv_evaluation := loop_start (sv_evaluation s)\<rparr>) s) = sv_exit_running s"
  "sv_exit_task (check_and_restart_loop n b t (\<lambda>s. s\<lparr>sv_evaluation := loop_start (sv_evaluation s)\<rparr>) s) = sv_exit_task s"
  "sv_rtds_task (check_and_restart_loop n b t (\<lambda>s. s\<lparr>sv_evaluation := loop_start (sv_evaluation s)\<rparr>) s) = sv_rtds_task s"
  by (simp_all add: check_and_restart_loop_def)

lemma check_evaluation [simp]:
  "sv_evaluation (check_and_restart_loop n b t (\<lambda>s. s\<lparr>sv_evaluation := loop_start (sv_evaluation s)\<rparr>) s)
     = (if b \<and> t = Some TaskEnded then loop_start (sv_evaluation s) else sv_evaluation s)"
  "dget_or (sv_restarts (check_and_restart_loop n b t (\<lambda>s. s\<lparr>sv_evaluation := loop_start (sv_evaluation s)\<rparr>) s)) k 0
     = dget_or (sv_restarts s) k 0 + (if b \<and> t = Some TaskEnded \<and> k = n then 1 else 0)"
  by (simp_all add: check_and_restart_loop_def record_restart_def)

lemma check_coin_frame [simp]:
  "sv_discovery (check_and_restart_loop n b t (\<lambda>s. s\<lparr>sv_coin := coin_start (sv_coin s)\<rparr>) s) = sv_discovery s"
  "sv_evaluation (check_and_restart_loop n b t (\<lambda>s. s\<lparr>sv_coin := coin_start (sv_coin s)\<rparr>) s) = sv_evaluation s"
  "sv_exit_running (check_and_restart_loop n b t (\<lambda>s. s\<lparr>sv_coin := coin_start (sv_coin s)\<rparr>) s) = sv_exit_running s"
  "sv_exit_task (check_and_restart_loop n b t (\<lambda>s. s\<lparr>sv_coin := coin_start (sv_coin s)\<rparr>) s) = sv_exit_task s"
  "sv_rtds_task (check_and_restart_loop n b t (\<lambda>s. s\<lparr>sv_coin := coin_start (sv_coin s)\<rparr>) s) = sv_rtds_task s"
  by (simp_all add: check_and_restart_loop_def)

lemma check_coin [simp]:
  "sv_coin (check_and_restart_loop n b t (\<lambda>s. s\<lparr>sv_coin := coin_start (sv_coin s)\<rparr>) s)
     = (if b \<and> t = Some TaskEnded then coin_start (sv_coin s) else sv_coin s)"
  "dget_or (sv_restarts (check_and_restart_loop n b t (\<lambda>s. s\<lparr>sv_coin := coin_start (sv_coin s)\<rparr>) s)) k 0
     = dget_or (sv_restarts s) k 0 + (if b \<and> t = Some TaskEnded \<and> k = n then 1 else 0)"
  by (simp_all add: check_and_restart_loop_def record_restart_def)

lemma restart_exit_cycle_frame [simp]:
  "sv_discovery (restart_exit_cycle s) = sv_discovery s"
  "sv_evaluation (restart_exit_cycle s) = sv_evaluation s"
  "sv_coin (restart_exit_cycle s) = sv_coin s"
  "sv_exit_running (restart_exit_cycle s) = sv_exit_running s"
  "sv_rtds_task (restart_exit_cycle s) = sv_rtds_task s"
  by (simp_all add: restart_exit_cycle_def)

lemma restart_exit_cycle_simps [simp]:
  "sv_exit_task (restart_exit_cycle s) = (if sv_exit_running s \<and> sv_exit_task s = Some TaskEnded then Some CoinPrice.TaskAlive else sv_exit_task s)"
  "dget_or (sv_restarts (restart_exit_cycle s)) ''coin_client'' 0 = dget_or (sv_restarts s) ''coin_client'' 0"
  by (simp_all add: restart_exit_cycle_def record_restart_def)

lemma restart_rtds_frame [simp]:
  "sv_discovery (restart_rtds s) = sv_discovery s"
  "sv_evaluation (restart_rtds s) = sv_evaluation s"
  "sv_coin (restart_rtds s) = sv_coin s"
  "sv_exit_running (restart_rtds s) = sv_exit_running s"
  "sv_exit_task (restart_rtds s) = sv_exit_task s"
  by (simp_all add: restart_rtds_def)

lemma restart_rtds_simps [simp]:
  "sv_rtds_task (restart_rtds s) = (if sv_rtds_task s = Some TaskEnded then Some CoinPrice.TaskAlive else sv_rtds_task s)"
  "dget_or (sv_restarts (restart_rtds s)) ''coin_client'' 0 = dget_or (sv_restarts s) ''coin_client'' 0"
  by (simp_all add: restart_rtds_def record_restart_def)

lemma loop_start_ended: "lp_running l \<Longrightarrow> lp_task l = Some TaskEnded \<Longrightarrow> loop_start l = l\<lparr>lp_task := Some CoinPrice.TaskAlive\<rparr>"
  by (cases l) (simp add: loop_start_def)

section \<open>Properties\<close>

text \<open>The exit cycle prices a position by its coin alone: every open position of a coin is judged, and
  later closed, at the price of the side and of the event that the last open position of that coin
  in the tracker selects. An up and a down position of one coin share one price, and a position of
  an event that is over gets the price of the current event.\<close>

theorem exit_price_is_by_coin:
  assumes "is_open q" and "p_asset p = p_asset q"
    and "eval_price (ga_price_now env (p_position_id q)) (find_current_slot_cid (ga_slot_now env (p_position_id q)) (p_asset q) reg)
           (p_asset q) (fst (gather env reg ps p0)) = (p1, Some r)"
  shows "dget_or (ci_prices (snd (gather env reg (ps @ [q]) p0))) (p_asset p) 0 = held_bid (p_side q) r"
proof -
  obtain p' inp where g: "foldl (gather_one env reg) (p0, \<lparr>ci_prices = [], ci_remaining = [], ci_stale = []\<rparr>) ps = (p', inp)"
    by fastforce
  with assms show ?thesis by (simp add: gather_def gather_one_def Let_def)
qed

definition example_held :: "string \<Rightarrow> string \<Rightarrow> string \<Rightarrow> PositionRecord" where
  "example_held pid side cid = (new_position pid ''BTC'' side cid ''tok'' 4 5)\<lparr>p_state := PS_OPEN_CONFIRMED\<rparr>"

definition example_gather_env :: GatherEnv where
  "example_gather_env = \<lparr>ga_slot_now = (\<lambda>_. 1700000200), ga_price_now = (\<lambda>_. 1000000), ga_stale_now = (\<lambda>_. 1000000),
     ga_end_now = (\<lambda>_. 1700000200), ga_remaining_now = (\<lambda>_. 1700000200)\<rparr>"

text \<open>An up position of an event that is over, and a down position of the current one.\<close>

theorem exit_price_is_by_coin_witness:
  "dget_or (ci_prices (snd (gather example_gather_env (ew_registry example_eval_world)
       ([example_held ''p1'' ''UP'' ''c0''] @ [example_held ''p2'' ''DOWN'' ''c1'']) (ew_pipeline example_eval_world))))
     (p_asset (example_held ''p1'' ''UP'' ''c0'')) 0 = 1 / 4"
proof -
  let ?p = "example_held ''p1'' ''UP'' ''c0''" and ?q = "example_held ''p2'' ''DOWN'' ''c1''" and ?g = example_gather_env
  let ?reg = "ew_registry example_eval_world" and ?pl = "ew_pipeline example_eval_world"
  let ?e = "eval_price (ga_price_now ?g (p_position_id ?q)) (find_current_slot_cid (ga_slot_now ?g (p_position_id ?q)) (p_asset ?q) ?reg)
      (p_asset ?q) (fst (gather ?g ?reg [?p] ?pl))"
  have "case ?e of (_, None) \<Rightarrow> False | (_, Some r) \<Rightarrow> l_down_bid r = 1 / 4" by code_simp
  then obtain p1 r where r: "?e = (p1, Some r)" "l_down_bid r = 1 / 4" by (auto split: prod.splits option.splits)
  moreover have "is_open ?q" "p_asset ?p = p_asset ?q" "held_bid (p_side ?q) r = l_down_bid r"
    by (simp_all add: example_held_def is_open_def new_position_def held_bid_def) code_simp?
  ultimately show ?thesis using exit_price_is_by_coin [of ?q ?p ?g ?reg "[?p]" ?pl p1 r] by simp
qed

text \<open>C33. One turn of the supervisor brings every loop back whose task has ended without a stop, the
  discovery, evaluation, exit and WebSocket loops, counts the restart and leaves stopped loops
  alone; the coin price loop it only counts, because the client refuses to start while its flag
  is set.\<close>

theorem supervisor_revives_all_but_coin:
  "(let revived = \<lambda>l. if lp_running l \<and> lp_task l = Some TaskEnded then l\<lparr>lp_task := Some CoinPrice.TaskAlive\<rparr> else l;
        s' = supervisor_turn s
    in sv_discovery s' = revived (sv_discovery s) \<and> sv_evaluation s' = revived (sv_evaluation s) \<and>
      sv_exit_task s' = (if sv_exit_running s \<and> sv_exit_task s = Some TaskEnded then Some CoinPrice.TaskAlive else sv_exit_task s) \<and>
      sv_rtds_task s' = (if sv_rtds_task s = Some TaskEnded then Some CoinPrice.TaskAlive else sv_rtds_task s) \<and>
      sv_coin s' = sv_coin s \<and>
      dget_or (sv_restarts s') ''coin_client'' 0 = dget_or (sv_restarts s) ''coin_client'' 0
        + (if kc_running (sv_coin s) \<and> kc_task (sv_coin s) = Some TaskEnded then 1 else 0))"
proof -
  define s1 where "s1 = check_and_restart_loop ''discovery_loop'' (lp_running (sv_discovery s)) (lp_task (sv_discovery s))
    (\<lambda>s. s\<lparr>sv_discovery := loop_start (sv_discovery s)\<rparr>) s"
  define s2 where "s2 = check_and_restart_loop ''evaluation_loop'' (lp_running (sv_evaluation s1)) (lp_task (sv_evaluation s1))
    (\<lambda>s. s\<lparr>sv_evaluation := loop_start (sv_evaluation s)\<rparr>) s1"
  define s3 where "s3 = check_and_restart_loop ''coin_client'' (kc_running (sv_coin s2)) (kc_task (sv_coin s2))
    (\<lambda>s. s\<lparr>sv_coin := coin_start (sv_coin s)\<rparr>) s2"
  have turn: "supervisor_turn s = restart_rtds (restart_exit_cycle s3)"
    by (simp only: supervisor_turn_def Let_def s1_def s2_def s3_def)
  note frame = check_discovery_frame check_evaluation_frame check_coin_frame
  have e1: "sv_evaluation s1 = sv_evaluation s" "sv_coin s1 = sv_coin s" "sv_exit_running s1 = sv_exit_running s"
    "sv_exit_task s1 = sv_exit_task s" "sv_rtds_task s1 = sv_rtds_task s"
    by (simp_all only: s1_def frame)
  have e2: "sv_discovery s2 = sv_discovery s1" "sv_coin s2 = sv_coin s" "sv_exit_running s2 = sv_exit_running s"
    "sv_exit_task s2 = sv_exit_task s" "sv_rtds_task s2 = sv_rtds_task s"
    by (simp_all only: s2_def frame e1)
  have e3: "sv_discovery s3 = sv_discovery s1" "sv_evaluation s3 = sv_evaluation s2" "sv_exit_running s3 = sv_exit_running s"
    "sv_exit_task s3 = sv_exit_task s" "sv_rtds_task s3 = sv_rtds_task s"
    by (simp_all only: s3_def frame e2)
  have d: "sv_discovery s1 = (if lp_running (sv_discovery s) \<and> lp_task (sv_discovery s) = Some TaskEnded
      then loop_start (sv_discovery s) else sv_discovery s)"
    by (simp only: s1_def check_discovery)
  have e: "sv_evaluation s2 = (if lp_running (sv_evaluation s) \<and> lp_task (sv_evaluation s) = Some TaskEnded
      then loop_start (sv_evaluation s) else sv_evaluation s)"
    by (simp only: s2_def check_evaluation e1)
  have c: "sv_coin s3 = sv_coin s" by (simp only: s3_def check_coin e2) (simp add: coin_start_def)
  have r: "dget_or (sv_restarts s3) ''coin_client'' 0 = dget_or (sv_restarts s) ''coin_client'' 0
        + (if kc_running (sv_coin s) \<and> kc_task (sv_coin s) = Some TaskEnded then 1 else 0)"
    by (simp add: s3_def e2(2)) (simp add: s2_def s1_def)
  show ?thesis by (simp add: turn Let_def e3 d e c r loop_start_ended)
qed

end
