(* ===== verification/Bot.thy ===== *)
theory Bot
  imports Runtime
begin

text \<open>
  The whole bot as a transition system: every loop's turn, every incoming message and every
  operation of the user is one step on the shared state, in any order. A turn is atomic here; that
  another loop may run while a turn waits for the network is not modelled. The invariants of the components are carried through all steps, which gives the properties that
  hold of the bot as a whole.
\<close>

section \<open>The event counters through an order\<close>

lemma pending_then_fills:
  assumes "pending_then pid t t'" and "0 \<le> get_event_fill_count t e"
  shows "get_event_fill_count t' e \<le> get_event_fill_count t e"
  using assms unfolding pending_then_def
  by (auto elim!: confirm_fill_ok reject_fill_ok)

lemma execute_fills:
  assumes "execute env intent x = (x', out)" and nn: "\<And>e. 0 \<le> get_event_fill_count (x_tracker x) e"
  shows "get_event_fill_count (x_tracker x') e \<le> max (get_event_fill_count (x_tracker x) e) (oi_event_max intent)"
proof -
  let ?y = "x\<lparr>x_execution_count := x_execution_count x + 1\<rparr>"
  let ?v = "validate (x_min_order_usd x) intent (b_available (x_balance x))
      (get_event_fill_count (x_tracker x) (oi_condition_id intent)) (oi_event_max intent)
      (open_position_count (x_tracker x)) (x_bot_max x) False True"
  have "x_tracker x' = x_tracker x \<or>
      (execute_send env intent ?y = (x', out) \<and> get_event_fill_count (x_tracker x) (oi_condition_id intent) < oi_event_max intent)"
  proof (cases "is_valid ?v")
    case True
    then have "get_event_fill_count (x_tracker x) (oi_condition_id intent) < oi_event_max intent" by (simp add: validate_valid_iff)
    with True assms(1) show ?thesis
      by (auto simp: execute_def Let_def valid_iff_not_rejected split: if_splits option.splits)
  next
    case False
    with assms(1) show ?thesis
      by (auto simp: execute_def Let_def valid_iff_not_rejected split: if_splits option.splits)
  qed
  then show ?thesis
  proof (elim disjE conjE)
    assume send: "execute_send env intent ?y = (x', out)"
      and lt: "get_event_fill_count (x_tracker x) (oi_condition_id intent) < oi_event_max intent"
    from send show ?thesis
    proof (rule execute_send_then)
      fix t1 p
      assume cp: "create_pending (oi_asset intent) (side_value (oi_side intent)) (oi_condition_id intent)
          (oi_token_id intent) (oi_amount_usd intent) (xe_uuid env) (xe_clock env 1) (x_tracker ?y) = (t1, p)"
        and th: "pending_then (xe_uuid env) t1 (x_tracker x')"
      have t1: "get_event_fill_count t1 e = get_event_fill_count (x_tracker x) e + (if oi_condition_id intent = e then 1 else 0)" for e
        using cp by (auto simp: create_pending_def Let_def)
      have "0 \<le> get_event_fill_count t1 e" using nn [of e] by (simp add: t1)
      from pending_then_fills [OF th this] t1 [of e] lt show ?thesis by (auto split: if_splits)
    qed
  qed simp
qed

section \<open>A pass of the evaluation loop\<close>

lemma dispatch_frame:
  assumes "dispatch_entry env cs side w = (w', sent)"
  shows "br_token_routes (ew_bridge w') = br_token_routes (ew_bridge w) \<and> ew_settings w' = ew_settings w \<and>
    (pipeline_ok (ew_pipeline w) \<longrightarrow> pipeline_ok (ew_pipeline w')) \<and>
    (ew_executor w' = ew_executor w \<or> (\<exists>intent out. oi_event_max intent = cs_event_max cs \<and>
       execute (ee_exec env) intent (ew_executor w) = (ew_executor w', out)))"
proof (cases "find_current_slot_cid (ee_find_now env) (cs_coin cs) (ew_registry w) = []")
  case True
  with assms show ?thesis by (simp add: dispatch_entry_def)
next
  case False
  obtain p pr where p: "pipeline_get_record (ee_dispatch_price_now env)
      (find_current_slot_cid (ee_find_now env) (cs_coin cs) (ew_registry w)) (ew_pipeline w) = (p, pr)" by fastforce
  have ok: "pipeline_ok (ew_pipeline w) \<longrightarrow> pipeline_ok p"
    using pipeline_get_record_ok [of "ew_pipeline w"] p by (metis fst_conv)
  show ?thesis
  proof (cases pr)
    case None
    with assms p False ok show ?thesis by (auto simp: dispatch_entry_def Let_def)
  next
    case (Some r)
    with assms p False ok show ?thesis
      by (auto simp: dispatch_entry_def Let_def split: if_splits prod.splits)
  qed
qed

lemma eval_coin_frame:
  assumes "eval_coin env cs w = (w', sent)"
  shows "br_token_routes (ew_bridge w') = br_token_routes (ew_bridge w) \<and> ew_settings w' = ew_settings w \<and>
    (pipeline_ok (ew_pipeline w) \<longrightarrow> pipeline_ok (ew_pipeline w')) \<and>
    (ew_executor w' = ew_executor w \<or> (\<exists>intent out. oi_event_max intent = cs_event_max cs \<and>
       execute (ee_exec env) intent (ew_executor w) = (ew_executor w', out)))"
proof -
  obtain w1 ctx res where e: "evaluate_single env cs w = (w1, ctx, res)" by (cases "evaluate_single env cs w")
  note fr = evaluate_single_frame [OF e]
  have st: "ew_settings w1 = ew_settings w" using e by (auto simp: evaluate_single_def Let_def set_pipeline_def split: prod.splits)
  let ?w3 = "w1\<lparr>ew_eval_count := ew_eval_count w1 + 1, ew_entry_count := ew_entry_count w1 + 1\<rparr>"
  consider "w' = w1\<lparr>ew_eval_count := ew_eval_count w1 + 1\<rparr>" | "w' = ?w3" | "dispatch_entry env cs (evaluated_side ctx) ?w3 = (w', sent)"
    using assms by (auto simp: eval_coin_def e Let_def split: if_splits)
  then show ?thesis
  proof cases
    case 3
    from dispatch_frame [OF this] show ?thesis using fr st by auto
  qed (use fr st in auto)
qed

text \<open>What a pass keeps: the routes, the settings, sound prices, and the limit of every event.\<close>

definition fills_ok :: "int \<Rightarrow> PositionTracker \<Rightarrow> bool" where
  "fills_ok cap t \<longleftrightarrow> (\<forall>e. get_event_fill_count t e \<le> cap)"

definition settings_ok :: "int \<Rightarrow> SettingsStore \<Rightarrow> bool" where
  "settings_ok cap st \<longleftrightarrow> (\<forall>cs \<in> set (dvals (st_settings st)). cs_event_max cs \<le> cap)"

lemma trk_inv_nonneg: "trk_inv t \<Longrightarrow> 0 \<le> get_event_fill_count t e"
  using trk_inv_fills [of t e] by simp

lemma eval_coins_frame:
  assumes "eval_coins envs n css w = (w', sent)" and "trk_inv (x_tracker (ew_executor w))"
    and "inj (\<lambda>n. xe_uuid (ee_exec (envs n)))"
    and "\<And>m. n \<le> m \<Longrightarrow> get_position (x_tracker (ew_executor w)) (xe_uuid (ee_exec (envs m))) = None"
    and "\<forall>cs \<in> set css. cs_event_max cs \<le> cap" and "fills_ok cap (x_tracker (ew_executor w))"
  shows "br_token_routes (ew_bridge w') = br_token_routes (ew_bridge w) \<and> ew_settings w' = ew_settings w \<and>
    (pipeline_ok (ew_pipeline w) \<longrightarrow> pipeline_ok (ew_pipeline w')) \<and> fills_ok cap (x_tracker (ew_executor w'))"
  using assms(1,2,4,5,6)
proof (induction css arbitrary: n w w' sent)
  case (Cons cs css)
  let ?x = "ew_executor w"
  obtain w1 s1 where c: "eval_coin (envs n) cs w = (w1, s1)" by fastforce
  obtain w2 s2 where r: "eval_coins envs (Suc n) css w1 = (w2, s2)" by fastforce
  have w': "w' = w2" using Cons.prems(1) c r by simp
  note fr = eval_coin_frame [OF c]
  have one: "trk_steps (x_tracker ?x) (x_tracker (ew_executor w1)) \<and>
      (\<forall>k. k \<noteq> xe_uuid (ee_exec (envs n)) \<longrightarrow> get_position (x_tracker (ew_executor w1)) k = get_position (x_tracker ?x) k)"
    using eval_coin_executor [OF c] execute_tracker [OF _ Cons.prems(2) Cons.prems(3) [of n]] by auto
  have inv1: "trk_inv (x_tracker (ew_executor w1))" using one Cons.prems(2) trk_steps_inv by blast
  have fresh1: "get_position (x_tracker (ew_executor w1)) (xe_uuid (ee_exec (envs m))) = None" if "Suc n \<le> m" for m
  proof -
    have "xe_uuid (ee_exec (envs m)) \<noteq> xe_uuid (ee_exec (envs n))" using that injD [OF assms(3), of m n] by auto
    with one Cons.prems(3) [of m] that show ?thesis by auto
  qed
  have "fills_ok cap (x_tracker (ew_executor w1))"
    unfolding fills_ok_def
  proof
    fix e
    have le: "get_event_fill_count (x_tracker ?x) e \<le> cap" "cs_event_max cs \<le> cap"
      using Cons.prems(4,5) by (simp_all add: fills_ok_def)
    consider "ew_executor w1 = ?x" | intent out where "oi_event_max intent = cs_event_max cs"
      "execute (ee_exec (envs n)) intent ?x = (ew_executor w1, out)" using fr by blast
    then show "get_event_fill_count (x_tracker (ew_executor w1)) e \<le> cap"
    proof cases
      case (2 intent out)
      from execute_fills [OF 2(2) trk_inv_nonneg [OF Cons.prems(2)], of e] le 2(1) show ?thesis by simp
    qed (use le in simp)
  qed
  from Cons.IH [OF r inv1 fresh1 _ this] Cons.prems(4) fr w' show ?case by auto
qed simp

section \<open>The event counters through an exit cycle\<close>

lemma request_close_fills:
  "request_close pid reason trig rp now t = (t', res) \<Longrightarrow> t_event_fills t' = t_event_fills t"
  by (auto simp: request_close_def transition_to_def Let_def split: option.splits if_splits)

lemma execute_close_fills:
  assumes "execute_close env pid price e = (e', res)"
  shows "t_event_fills (ee_tracker e') = t_event_fills (ee_tracker e)"
proof (cases "get_position (ee_tracker e) pid")
  case None
  with assms show ?thesis by (auto simp: execute_close_def)
next
  case (Some r)
  then show ?thesis
    by (cases rule: execute_close_cases [where env = env and price = price]) (use assms in auto)
qed

lemma trigger_loop_fills:
  "trigger_loop env inp ps w = (w', res) \<Longrightarrow> t_event_fills (ee_tracker (w_exec w')) = t_event_fills (ee_tracker (w_exec w))"
proof (induction ps arbitrary: w w' res)
  case (Cons pos ps)
  obtain ev' dec where d: "decide_exit inp pos (w_evaluator w) = (ev', dec)" by fastforce
  show ?case
  proof (cases dec)
    case None
    with Cons.prems d Cons.IH [of "w\<lparr>w_evaluator := ev'\<rparr>" w' res] show ?thesis by simp
  next
    case (Some rt)
    obtain reason trigs where rt: "rt = (reason, trigs)" by fastforce
    obtain t' r' where rc: "request_close (p_position_id pos) reason trigs 0 (cy_close_clock env (p_position_id pos))
        (ee_tracker (w_exec w)) = (t', r')" by fastforce
    let ?w = "w\<lparr>w_evaluator := ev', w_exec := (w_exec w)\<lparr>ee_tracker := t'\<rparr>\<rparr>"
    obtain w2 r2 where tl: "trigger_loop env inp ps ?w = (w2, r2)" by fastforce
    from Cons.IH [OF tl] have ih: "t_event_fills (ee_tracker (w_exec w2)) = t_event_fills t'" by simp
    have "ee_tracker (w_exec w') = t' \<or> w' = w2"
      using Cons.prems d Some rt rc tl by (cases r'; cases r2) auto
    then show ?thesis using ih request_close_fills [OF rc] by auto
  qed
qed simp

lemma close_loop_fills:
  "close_loop env inp ps w = (w', res) \<Longrightarrow> t_event_fills (ee_tracker (w_exec w')) = t_event_fills (ee_tracker (w_exec w))"
proof (induction ps arbitrary: w w' res)
  case (Cons pos ps)
  let ?price = "dget_or (ci_prices inp) (p_asset pos) 0"
  obtain e' r where x: "execute_close (cy_close env (p_position_id pos)) (p_position_id pos) ?price (w_exec w) = (e', r)" by fastforce
  obtain w2 r2 where cl: "close_loop env inp ps (w\<lparr>w_exec := e'\<rparr>) = (w2, r2)" by fastforce
  have "w' = w\<lparr>w_exec := e'\<rparr> \<or> w' = w2"
    using Cons.prems x cl by (cases r; cases r2) (auto simp: Let_def)
  then show ?case using Cons.IH [OF cl] execute_close_fills [OF x] by auto
qed simp

lemma run_cycle_fills:
  assumes "run_cycle env inp w = (w', res)"
  shows "t_event_fills (ee_tracker (w_exec w')) = t_event_fills (ee_tracker (w_exec w))"
proof -
  let ?w = "w\<lparr>w_cycle_count := w_cycle_count w + 1\<rparr>"
  obtain w1 r1 where t: "trigger_loop env inp (get_open_positions (ee_tracker (w_exec w))) ?w = (w1, r1)" by fastforce
  obtain w2 r2 where c: "close_loop env inp (closing_positions (ee_tracker (w_exec w1))) w1 = (w2, r2)" by fastforce
  have "w' = w1 \<or> w' = w2 \<or> w' = fst (settle_stage env w2)"
    using assms t c by (cases r1; cases r2) (auto simp: run_cycle_def Let_def split: prod.splits)
  moreover have "ee_tracker (w_exec (fst (settle_stage env w2))) = ee_tracker (w_exec w2)"
    by (simp add: settle_stage_def Let_def split: prod.split)
  ultimately show ?thesis using trigger_loop_fills [OF t] close_loop_fills [OF c] by auto
qed

section \<open>Subscriptions leave prices alone\<close>

lemma register_tokens_pipeline [simp]: "br_pipeline (register_tokens cid a ts ss b) = br_pipeline b"
  by (induction cid a ts ss b rule: register_tokens.induct) (simp_all add: register_token_def)

lemma unregister_where_pipeline [simp]: "br_pipeline (unregister_where P b) = br_pipeline b"
proof -
  have "br_pipeline (foldl (\<lambda>b t. unregister_token t b) b ts) = br_pipeline b" for ts
    by (induction ts arbitrary: b) (simp_all add: unregister_token_def)
  then show ?thesis by (simp add: unregister_where_def)
qed

lemma subscribe_pipeline [simp]:
  "br_pipeline (sm_bridge (subscribe_asset a ed w)) = br_pipeline (sm_bridge w)"
  "br_pipeline (sm_bridge (unsubscribe_asset a w)) = br_pipeline (sm_bridge w)"
  by (simp_all add: subscribe_asset_def unsubscribe_asset_def Let_def)

lemma apply_diff_pipeline [simp]: "br_pipeline (sm_bridge (apply_diff d em w)) = br_pipeline (sm_bridge w)"
proof -
  have "br_pipeline (sm_bridge (fold (sub_new em) xs w)) = br_pipeline (sm_bridge w)"
    "br_pipeline (sm_bridge (fold sub_drop xs w)) = br_pipeline (sm_bridge w)"
    "br_pipeline (sm_bridge (fold (sub_rotate em) xs w)) = br_pipeline (sm_bridge w)" for xs w
    by (induction xs arbitrary: w) (simp_all add: sub_new_def sub_drop_def sub_rotate_def Let_def)
  then show ?thesis by (simp add: apply_diff_def Let_def)
qed

section \<open>The steps of the bot\<close>

text \<open>
  \<open>cap\<close> bounds the event limits that the settings may take; the ids of new positions are new.
\<close>

inductive bot_step :: "int \<Rightarrow> Orchestrator \<Rightarrow> Orchestrator \<Rightarrow> bool" for cap where
  bs_evaluate: "inj (\<lambda>n. xe_uuid (ee_exec (envs n))) \<Longrightarrow>
     (\<And>n. get_position (o_tracker w) (xe_uuid (ee_exec (envs n))) = None) \<Longrightarrow>
     bot_step cap w (w\<lparr>o_eval := fst (evaluate_all_eligible envs (o_eval w))\<rparr>)"
| bs_exit: "bot_step cap w (fst (exit_turn genv now cenv w))"
| bs_scan: "bot_step cap w (fst (handle_discovered_events env events w))"
| bs_sync: "sync ids clk events ((o_sync w)\<lparr>sy_registry := ew_registry (o_eval w)\<rparr>) = (s, res) \<Longrightarrow>
     bot_step cap w (w\<lparr>o_sync := s, o_eval := (o_eval w)\<lparr>ew_registry := sy_registry s\<rparr>\<rparr>)"
| bs_message: "on_ws_message now data (ew_bridge (o_eval w)) = (b, res) \<Longrightarrow>
     bot_step cap w (w\<lparr>o_eval := (o_eval w)\<lparr>ew_bridge := b\<rparr>\<rparr>)"
| bs_coin: "feed_message now msg (ew_coin_client (o_eval w)) = (c, cres) \<Longrightarrow>
     bot_step cap w (w\<lparr>o_eval := (o_eval w)\<lparr>ew_coin_client := c\<rparr>\<rparr>)"
| bs_ptb_begin: "ptb_begin cid asset (ew_ptb (o_eval w)) = (f, started) \<Longrightarrow>
     bot_step cap w (w\<lparr>o_eval := (o_eval w)\<lparr>ew_ptb := f\<rparr>\<rparr>)"
| bs_ptb_finish: "ptb_finish now cid reply (ew_ptb (o_eval w)) = (f, locked) \<Longrightarrow>
     bot_step cap w (w\<lparr>o_eval := (o_eval w)\<lparr>ew_ptb := f\<rparr>\<rparr>)"
| bs_settings: "update_settings symbol upd (ew_settings (o_eval w)) = (st, cs) \<Longrightarrow> cs_event_max cs \<le> cap \<Longrightarrow>
     bot_step cap w (w\<lparr>o_eval := (o_eval w)\<lparr>ew_settings := st\<rparr>\<rparr>)"
| bs_toggle: "toggle_coin symbol (ew_settings (o_eval w)) = (st, tres) \<Longrightarrow>
     bot_step cap w (w\<lparr>o_eval := (o_eval w)\<lparr>ew_settings := st\<rparr>\<rparr>)"
| bs_balance: "fetch now2 reply2 (o_balance w) = (b2, ok) \<Longrightarrow> bot_step cap w (set_balance b2 w)"
| bs_dispatch: "bot_step cap w (w\<lparr>o_eval := (if on then enable_order_dispatch else disable_order_dispatch) (o_eval w)\<rparr>)"
| bs_pause: "bot_step cap w (pause t1 t2 w)"
| bs_resume: "bot_step cap w (resume t1 w)"
| bs_verify: "bot_step cap w (fst (verify_retry_loop rounds w))"

definition bot_inv :: "int \<Rightarrow> Orchestrator \<Rightarrow> bool" where
  "bot_inv cap w \<longleftrightarrow> trk_inv (o_tracker w) \<and> fills_ok cap (o_tracker w) \<and> sub_inv (sub_view w) \<and>
     pipeline_ok (ew_pipeline (o_eval w)) \<and> settings_ok cap (ew_settings (o_eval w))"

section \<open>Every step keeps the invariant\<close>

lemma bot_inv_cong:
  assumes "bot_inv cap w" and "o_tracker w' = o_tracker w" "o_active_events w' = o_active_events w"
    and "ew_bridge (o_eval w') = ew_bridge (o_eval w)" "ew_settings (o_eval w') = ew_settings (o_eval w)"
  shows "bot_inv cap w'"
  using assms by (simp add: bot_inv_def sub_inv_def sub_view_def)

lemma evaluate_inv:
  assumes "bot_inv cap w" and "inj (\<lambda>n. xe_uuid (ee_exec (envs n)))"
    and "\<And>n. get_position (o_tracker w) (xe_uuid (ee_exec (envs n))) = None"
  shows "bot_inv cap (w\<lparr>o_eval := fst (evaluate_all_eligible envs (o_eval w))\<rparr>)"
proof -
  let ?e = "o_eval w"
  note inv = assms(1) [unfolded bot_inv_def]
  obtain e' sent where r: "eval_coins envs 0 (get_eligible_coins (ew_settings ?e)) ?e = (e', sent)" by fastforce
  have cap: "\<forall>cs \<in> set (get_eligible_coins (ew_settings ?e)). cs_event_max cs \<le> cap"
    using inv by (auto simp: settings_ok_def get_eligible_coins_def)
  have t: "trk_inv (x_tracker (ew_executor ?e))" using inv by simp
  from eval_coins_tracker [OF r t assms(2,3)] have "trk_inv (x_tracker (ew_executor e'))"
    using t trk_steps_inv by blast
  moreover from eval_coins_frame [OF r t assms(2,3) cap] inv
  have "br_token_routes (ew_bridge e') = br_token_routes (ew_bridge ?e)" "ew_settings e' = ew_settings ?e"
    "pipeline_ok (ew_pipeline e')" "fills_ok cap (x_tracker (ew_executor e'))" by simp_all
  ultimately show ?thesis using inv r by (simp add: bot_inv_def evaluate_all_eligible_def sub_inv_def sub_view_def)
qed

lemma gather_pipeline_ok: "pipeline_ok p \<Longrightarrow> pipeline_ok (fst (gather genv reg ps p))"
proof -
  have "pipeline_ok (fst (foldl (gather_one genv reg) st ps))" if "pipeline_ok (fst st)" for st
    using that
  proof (induction ps arbitrary: st)
    case (Cons pos ps)
    have "pipeline_ok (fst (gather_one genv reg st pos))"
      using Cons.prems eval_price_ok by (cases st) (auto simp: gather_one_def Let_def case_prod_beta)
    with Cons.IH show ?case by simp
  qed simp
  then show "pipeline_ok p \<Longrightarrow> ?thesis" by (simp add: gather_def)
qed

lemma put_exit_simps [simp]:
  "o_tracker (put_exit x w) = ee_tracker (w_exec x)" "o_active_events (put_exit x w) = o_active_events w"
  "ew_bridge (o_eval (put_exit x w)) = ew_bridge (o_eval w)" "ew_settings (o_eval (put_exit x w)) = ew_settings (o_eval w)"
  by (simp_all add: put_exit_def set_balance_def set_tracker_def)

lemma exit_view_tracker [simp]: "ee_tracker (w_exec (exit_view w)) = o_tracker w"
  by (simp add: exit_view_def)

lemma exit_turn_inv:
  assumes "bot_inv cap w"
  shows "bot_inv cap (fst (exit_turn genv now cenv w))"
proof -
  note inv = assms [unfolded bot_inv_def]
  obtain p inp where g: "gather genv (ew_registry (o_eval w)) (get_all_positions (o_tracker w)) (ew_pipeline (o_eval w)) = (p, inp)"
    by fastforce
  let ?w1 = "w\<lparr>o_eval := set_pipeline p (o_eval w)\<rparr>"
  have p: "pipeline_ok p" using gather_pipeline_ok inv g by (metis fst_conv)
  have t1: "o_tracker ?w1 = o_tracker w" by simp
  obtain x res where r: "run_cycle (settle_inputs now ?w1 cenv) inp (exit_view ?w1) = (x, res)" by fastforce
  have "trk_inv (ee_tracker (w_exec (exit_view ?w1)))" using inv by simp
  from run_cycle_ok [OF this, of "settle_inputs now ?w1 cenv" inp] r
  have "trk_inv (ee_tracker (w_exec x))" using inv trk_steps_inv by auto
  moreover have "t_event_fills (ee_tracker (w_exec x)) = t_event_fills (o_tracker w)"
    using run_cycle_fills [OF r] by simp
  then have "fills_ok cap (ee_tracker (w_exec x))" using inv by (simp add: fills_ok_def get_event_fill_count_def)
  moreover have "fst (exit_turn genv now cenv w) = put_exit x ?w1" using g r by (simp add: exit_turn_def)
  ultimately show ?thesis using inv p by (simp add: bot_inv_def sub_inv_def sub_view_def set_pipeline_def)
qed

lemma gamma_seed_ok: "pipeline_ok p \<Longrightarrow> pipeline_ok (foldl (gamma_seed env) p es)"
proof (induction es arbitrary: p)
  case (Cons e es)
  have "pipeline_ok (gamma_seed env p e)"
    using Cons.prems update_from_gamma_ok by (simp add: gamma_seed_def)
  with Cons.IH show ?case by simp
qed simp

lemma scan_inv:
  assumes "bot_inv cap w"
  shows "bot_inv cap (fst (handle_discovered_events env events w))"
proof (cases "o_paused w \<or> passed env events w = []")
  case True
  with assms show ?thesis by (simp add: handle_blocked)
next
  case False
  note inv = assms [unfolded bot_inv_def]
  let ?el = "passed env events w"
  let ?c = "choose_events (py_int (ce_now env)) ?el"
  let ?w1 = "w\<lparr>o_eval := set_pipeline (foldl (gamma_seed env) (ew_pipeline (o_eval w)) ?el) (o_eval w)\<rparr>"
  let ?s = "sub_view ?w1"
  let ?s1 = "apply_diff (compute_diff (ch_assets ?c) ?s) (ch_event_map ?c) ?s"
  let ?s2 = "?s1\<lparr>sm_coin_client := set_coins (ch_assets ?c) (sm_coin_client ?s1)\<rparr>"
  have h: "fst (handle_discovered_events env events w) = put_sub ?s2 ?w1"
    using False by (simp add: handle_discovered_events_def passed_def [symmetric] Let_def)
  have "sub_inv ?s" using inv by (simp add: sub_inv_def sub_view_def set_pipeline_def)
  then have "sub_inv ?s1" by (rule apply_diff_inv)
  then have "sub_inv (sub_view (put_sub ?s2 ?w1))" by (simp add: sub_inv_def sub_view_def put_sub_def)
  moreover have "pipeline_ok (ew_pipeline (o_eval (put_sub ?s2 ?w1)))"
    using inv gamma_seed_ok by (simp add: put_sub_def sub_view_def set_pipeline_def)
  ultimately show ?thesis using inv by (simp add: h bot_inv_def put_sub_def set_pipeline_def)
qed

lemma verify_retry_frame:
  "o_tracker (fst (verify_retry_loop rounds w)) = o_tracker w \<and> o_active_events (fst (verify_retry_loop rounds w)) = o_active_events w \<and>
   ew_bridge (o_eval (fst (verify_retry_loop rounds w))) = ew_bridge (o_eval w) \<and>
   ew_settings (o_eval (fst (verify_retry_loop rounds w))) = ew_settings (o_eval w)"
proof (induction rounds arbitrary: w)
  case (Cons r rs)
  obtain w1 ok where v: "verify_balance (vr_initialized r) (vr_reply r) (vr_now r) w = (w1, ok)" by fastforce
  then have "o_tracker w1 = o_tracker w \<and> o_active_events w1 = o_active_events w \<and>
      ew_bridge (o_eval w1) = ew_bridge (o_eval w) \<and> ew_settings (o_eval w1) = ew_settings (o_eval w)"
    by (auto simp: verify_balance_def set_balance_def split: option.splits)
  with Cons.IH [of w1] v show ?case by (cases ok) simp_all
qed simp

lemma settings_ok_set:
  "settings_ok cap st \<Longrightarrow> cs_event_max cs \<le> cap \<Longrightarrow> settings_ok cap (settings_set cs st)"
proof -
  assume st: "settings_ok cap st" and cs: "cs_event_max cs \<le> cap"
  have "set (dvals (dset k v d)) \<subseteq> insert v (set (dvals d))" for k :: string and v :: CoinSettings and d
    by (induction d) auto
  with st cs show ?thesis by (fastforce simp: settings_ok_def)
qed

lemma bot_step_inv: "bot_step cap w w' \<Longrightarrow> bot_inv cap w \<Longrightarrow> bot_inv cap w'"
proof (induction rule: bot_step.induct)
  case (bs_evaluate envs w)
  then show ?case by (intro evaluate_inv)
next
  case (bs_exit w genv now cenv)
  then show ?case by (rule exit_turn_inv)
next
  case (bs_scan w env events)
  then show ?case by (rule scan_inv)
next
  case (bs_message now data w b res)
  have "br_token_routes b = br_token_routes (ew_bridge (o_eval w))"
    using on_ws_message_routes [of now data "ew_bridge (o_eval w)"] bs_message.hyps by simp
  moreover have "pipeline_ok (br_pipeline b)"
    using feed_step_ok [OF feed_step.message [OF bs_message.hyps]] bs_message.prems by (simp add: bot_inv_def)
  ultimately show ?case using bs_message.prems by (simp add: bot_inv_def sub_inv_def sub_view_def)
next
  case (bs_settings symbol upd w st cs)
  then have "st = settings_set cs (ew_settings (o_eval w))" by (auto simp: update_settings_def Let_def)
  with bs_settings show ?case by (simp add: bot_inv_def settings_ok_set sub_inv_def sub_view_def)
next
  case (bs_toggle symbol w st tres)
  have "settings_ok cap st"
  proof (cases "settings_get (ew_settings (o_eval w)) symbol")
    case None
    with bs_toggle show ?thesis by (simp add: toggle_coin_def bot_inv_def)
  next
    case (Some cs)
    then have "cs \<in> set (dvals (st_settings (ew_settings (o_eval w))))"
      by (force simp: settings_get_def dest: map_of_SomeD)
    moreover have old: "settings_ok cap (ew_settings (o_eval w))" using bs_toggle.prems by (simp add: bot_inv_def)
    ultimately have "cs_event_max (cs\<lparr>cs_coin_enabled := \<not> cs_coin_enabled cs\<rparr>) \<le> cap" by (auto simp: settings_ok_def)
    from settings_ok_set [OF old this] bs_toggle.hyps Some show ?thesis by (simp add: toggle_coin_def Let_def)
  qed
  with bs_toggle.prems show ?case by (simp add: bot_inv_def sub_inv_def sub_view_def)
next
  case (bs_dispatch w on)
  show ?case by (rule bot_inv_cong [OF bs_dispatch]) (simp_all add: enable_order_dispatch_def disable_order_dispatch_def)
next
  case (bs_pause w t1 t2)
  show ?case by (rule bot_inv_cong [OF bs_pause]) (simp_all add: pause_def Let_def split: option.split)
next
  case (bs_resume w t1)
  show ?case by (rule bot_inv_cong [OF bs_resume]) (simp_all add: resume_def)
next
  case (bs_balance now2 reply2 w b2 ok)
  show ?case by (rule bot_inv_cong [OF bs_balance(2)]) (simp_all add: set_balance_def)
next
  case (bs_verify w rounds)
  show ?case by (rule bot_inv_cong [OF bs_verify]) (simp_all add: verify_retry_frame)
qed (simp_all add: bot_inv_def sub_inv_def sub_view_def)

lemma bot_steps_inv: "(bot_step cap)\<^sup>*\<^sup>* w w' \<Longrightarrow> bot_inv cap w \<Longrightarrow> bot_inv cap w'"
  by (induction rule: rtranclp_induct) (auto intro: bot_step_inv)

text \<open>The bot as a start without stored positions leaves it.\<close>

definition bot_initial :: "Orchestrator \<Rightarrow> bool" where
  "bot_initial w \<longleftrightarrow> (\<exists>t. o_tracker w = reset t) \<and> o_active_events w = [] \<and>
     br_token_routes (ew_bridge (o_eval w)) = [] \<and> pl_records (ew_pipeline (o_eval w)) = []"

lemma bot_initial_inv:
  assumes "bot_initial w" "settings_ok cap (ew_settings (o_eval w))" "0 \<le> cap"
  shows "bot_inv cap w"
proof -
  from assms(1) obtain t where "o_tracker w = reset t" by (auto simp: bot_initial_def)
  then have "trk_inv (o_tracker w)" "fills_ok cap (o_tracker w)"
    using assms(3) by (simp_all add: trk_inv_reset) (simp add: fills_ok_def get_event_fill_count_def reset_def)
  with assms show ?thesis by (auto simp: bot_initial_def bot_inv_def sub_inv_def sub_view_def pipeline_ok_def)
qed

section \<open>Properties\<close>

text \<open>C1. The limit of an event holds for the bot as a whole: from a start without stored positions,
  in every interleaving of all its loops, messages and user actions in which no setting allows
  more than \<open>cap\<close> entries per event, no event ever has more than \<open>cap\<close> positions that are
  being opened, open, closing or were open.\<close>

theorem bot_event_limit:
  assumes "(bot_step cap)\<^sup>*\<^sup>* w w'" and "bot_initial w" and "settings_ok cap (ew_settings (o_eval w))" and "0 \<le> cap"
  shows "int (length (filter (\<lambda>p. p_condition_id p = e \<and> \<not> (p_state p = PS_CLOSED \<and> p_opened_at p = None))
      (get_all_positions (o_tracker w')))) \<le> cap"
proof -
  have inv: "bot_inv cap w'" using assms bot_steps_inv bot_initial_inv by blast
  then have t: "trk_inv (o_tracker w')" "get_event_fill_count (o_tracker w') e \<le> cap"
    by (simp_all add: bot_inv_def fills_ok_def)
  have "counted_in e = (\<lambda>p. p_condition_id p = e \<and> \<not> (p_state p = PS_CLOSED \<and> p_opened_at p = None))"
    by (simp add: fun_eq_iff counted_in_def counted_def)
  with trk_inv_fills [OF t(1), of e] t(2) show ?thesis by (simp add: dcount_def get_all_positions_def)
qed


text \<open>A run: a scan subscribes the bot, then an evaluation pass enters the event.\<close>

definition example_start :: Orchestrator where
  "example_start = example_bot\<lparr>o_eval := example_eval_world\<lparr>ew_bridge := example_bridge
     \<lparr>br_pipeline := \<lparr>pl_records = [], pl_stale_threshold = 30\<rparr>, br_token_routes := []\<rparr>\<rparr>\<rparr>"

definition example_run :: Orchestrator where
  "example_run = (let w1 = fst (handle_discovered_events example_chain_env example_scan example_start)
     in w1\<lparr>o_eval := fst (evaluate_all_eligible
          (\<lambda>n. example_eval_env\<lparr>ee_exec := example_exec_env\<lparr>xe_uuid := replicate n CHR ''p''\<rparr>\<rparr>) (o_eval w1))\<rparr>)"

lemma example_run_steps: "(bot_step 3)\<^sup>*\<^sup>* example_start example_run"
proof -
  let ?envs = "\<lambda>n. example_eval_env\<lparr>ee_exec := example_exec_env\<lparr>xe_uuid := replicate n CHR ''p''\<rparr>\<rparr>"
  let ?w1 = "fst (handle_discovered_events example_chain_env example_scan example_start)"
  have "inj (\<lambda>n. xe_uuid (ee_exec (?envs n)))" by (rule injI, drule arg_cong [of _ _ length]) simp
  moreover have "o_tracker ?w1 = o_tracker example_start"
    by (simp add: handle_discovered_events_def put_sub_def Let_def)
  then have "get_position (o_tracker ?w1) (xe_uuid (ee_exec (?envs n))) = None" for n
    by (simp add: example_start_def example_eval_world_def example_executor_def new_tracker_def get_position_def)
  ultimately have "bot_step 3 ?w1 example_run" unfolding example_run_def Let_def by (rule bs_evaluate)
  moreover have "bot_step 3 example_start ?w1" by (rule bs_scan)
  ultimately show ?thesis by (meson converse_rtranclp_into_rtranclp r_into_rtranclp)
qed

lemma example_start_initial: "bot_initial example_start" "settings_ok 3 (ew_settings (o_eval example_start))"
proof -
  have "o_tracker example_start = reset (o_tracker example_start)"
    by (simp add: example_start_def example_eval_world_def example_executor_def reset_new)
  then show "bot_initial example_start"
    unfolding bot_initial_def by (intro conjI exI) (assumption, simp_all add: example_start_def example_bot_def)
  show "settings_ok 3 (ew_settings (o_eval example_start))"
    by (simp add: settings_ok_def example_start_def example_eval_world_def example_settings_def new_coin_settings_def)
qed

theorem bot_event_limit_witness:
  "length (filter (\<lambda>p. p_condition_id p = ''c1'' \<and> \<not> (p_state p = PS_CLOSED \<and> p_opened_at p = None))
      (get_all_positions (o_tracker example_run))) \<le> 3"
  using bot_event_limit [OF example_run_steps example_start_initial, of "''c1''"] by simp


end
