(* ===== verification/Discovery.thy ===== *)
theory Discovery
  imports EventChain
begin

text \<open>
  \<^verbatim>\<open>backend/discovery/models.py\<close>, \<^verbatim>\<open>backend/discovery/engine.py\<close> and
  \<^verbatim>\<open>backend/orchestrator/discovery_loop.py\<close>: reading an event of the Gamma API, the scan with its
  pages and filters, and the loop that scans until a slot has its events.

  \<open>DiscoverEnv\<close> holds the conversions of the standard library that are taken as they are:
  \<^verbatim>\<open>json.loads\<close> (\<open>None\<close>: it raises), \<^verbatim>\<open>json.dumps\<close>, \<^verbatim>\<open>datetime.fromisoformat\<close> and \<^verbatim>\<open>str\<close> of a value that is
  not a string. Identifiers, titles and outcomes are strings in the API; where it sends another
  type there, the event counts as one that does not parse.
\<close>

record DiscoverEnv =
  de_loads :: "string \<Rightarrow> json option"
  de_dumps :: "json list \<Rightarrow> string"
  de_fromiso :: "string \<Rightarrow> usec option"
  de_str :: "json \<Rightarrow> string"
  de_now :: usec

section \<open>Reading an event\<close>

fun json_text :: "json \<Rightarrow> exc + string" where
  "json_text (JStr s) = Inr s"
| "json_text j = Inl TypeError"

text \<open>The slug of a tag: of a dictionary its \<^verbatim>\<open>slug\<close> entry, of a string the string.\<close>

definition tag_slug :: "json \<Rightarrow> exc + string option" where
  "tag_slug tag = (case tag of
      JObj kvs \<Rightarrow> (case dget_or kvs ''slug'' (JStr []) of JStr s \<Rightarrow> Inr (Some (str_lower s)) | _ \<Rightarrow> Inl AttributeError)
    | JStr s \<Rightarrow> Inr (Some (str_lower s))
    | _ \<Rightarrow> Inr None)"

fun tag_slugs :: "json list \<Rightarrow> exc + string list" where
  "tag_slugs [] = Inr []"
| "tag_slugs (t # ts) = (case tag_slug t of Inl e \<Rightarrow> Inl e
     | Inr s \<Rightarrow> (case tag_slugs ts of Inl e \<Rightarrow> Inl e
         | Inr ss \<Rightarrow> Inr (case s of None \<Rightarrow> ss | Some x \<Rightarrow> x # ss)))"

definition extract_category_from_tags :: "json \<Rightarrow> exc + string" where
  "extract_category_from_tags tags =
     (if \<not> truthy tags then Inr ''unknown''
      else case json_items tags of Inl e \<Rightarrow> Inl e
        | Inr ts \<Rightarrow> (case tag_slugs ts of Inl e \<Rightarrow> Inl e
            | Inr ss \<Rightarrow> Inr (if ''crypto'' \<in> set ss \<or> ''crypto-prices'' \<in> set ss then ''crypto'' else ''unknown'')))"

text \<open>The first tag that names a duration decides; tags behind it are not read.\<close>

fun first_duration :: "json list \<Rightarrow> exc + string" where
  "first_duration [] = Inr ''unknown''"
| "first_duration (t # ts) = (case tag_slug t of Inl e \<Rightarrow> Inl e
     | Inr s \<Rightarrow> if s \<in> {Some ''5m'', Some ''15m'', Some ''1h'', Some ''4h''} then Inr (the s) else first_duration ts)"

definition extract_duration_from_tags :: "json \<Rightarrow> exc + string" where
  "extract_duration_from_tags tags =
     (if \<not> truthy tags then Inr ''unknown''
      else case json_items tags of Inl e \<Rightarrow> Inl e | Inr ts \<Rightarrow> first_duration ts)"

definition SLUG_ASSETS :: "string list" where
  "SLUG_ASSETS = [''BTC'', ''ETH'', ''SOL'', ''DOGE'', ''XRP'', ''BNB'', ''HYPE'', ''ADA'', ''AVAX'', ''DOT'', ''SHIB'',
     ''LTC'', ''UNI'', ''ATOM'']"

definition TITLE_NAMES :: "(string \<times> string) list" where
  "TITLE_NAMES = [(''BITCOIN'', ''BTC''), (''ETHEREUM'', ''ETH''), (''SOLANA'', ''SOL''), (''DOGECOIN'', ''DOGE''),
     (''HYPERLIQUID'', ''HYPE'')]"

definition TITLE_ASSETS :: "string list" where
  "TITLE_ASSETS = [''BTC'', ''ETH'', ''SOL'', ''DOGE'', ''XRP'', ''BNB'']"

definition extract_asset_from_slug :: "string \<Rightarrow> string \<Rightarrow> string" where
  "extract_asset_from_slug slug title =
     (case find (\<lambda>a. starts_with (a @ ''-'') (str_upper slug)) SLUG_ASSETS of
        Some a \<Rightarrow> a
      | None \<Rightarrow> (case find (\<lambda>(n, a). contains n (str_upper title)) TITLE_NAMES of
          Some (n, a) \<Rightarrow> a
        | None \<Rightarrow> (case find (\<lambda>a. contains a (str_upper title)) TITLE_ASSETS of
            Some a \<Rightarrow> a | None \<Rightarrow> ''UNKNOWN'')))"

text \<open>A field that is a list or the JSON text of one.\<close>

definition json_list_field :: "DiscoverEnv \<Rightarrow> json \<Rightarrow> exc + json list" where
  "json_list_field env raw =
     (let v = (case raw of JStr s \<Rightarrow> (case de_loads env s of None \<Rightarrow> JList [] | Some j \<Rightarrow> j) | _ \<Rightarrow> raw)
      in if truthy v then json_items v else Inr [])"

fun all_text :: "json list \<Rightarrow> exc + string list" where
  "all_text [] = Inr []"
| "all_text (j # js) = (case json_text j of Inl e \<Rightarrow> Inl e
     | Inr s \<Rightarrow> (case all_text js of Inl e \<Rightarrow> Inl e | Inr ss \<Rightarrow> Inr (s # ss)))"

definition str_of_json :: "DiscoverEnv \<Rightarrow> json \<Rightarrow> string" where
  "str_of_json env j = (case j of JStr s \<Rightarrow> s | _ \<Rightarrow> de_str env j)"

definition bind_exc :: "exc + 'a \<Rightarrow> ('a \<Rightarrow> exc + 'b) \<Rightarrow> exc + 'b" where
  "bind_exc r f = (case r of Inl e \<Rightarrow> Inl e | Inr x \<Rightarrow> f x)"

text \<open>The market part: condition id, question, token ids, outcomes and the text of the prices.\<close>

definition market_fields ::
  "DiscoverEnv \<Rightarrow> string \<Rightarrow> json \<Rightarrow> exc + (string \<times> string \<times> string list \<times> string list \<times> string)" where
  "market_fields env title m =
     bind_exc (jget m ''conditionId'' (JStr [])) (\<lambda>c.
     bind_exc (jget m ''question'' (JStr title)) (\<lambda>q.
     bind_exc (jget m ''clobTokenIds'' (JList [])) (\<lambda>raw_clob.
     bind_exc (json_list_field env raw_clob) (\<lambda>clob.
     bind_exc (jget m ''outcomes'' (JList [])) (\<lambda>raw_outcomes.
     bind_exc (json_list_field env raw_outcomes) (\<lambda>outcomes.
     bind_exc (jget m ''outcomePrices'' (JStr [])) (\<lambda>raw_op.
     bind_exc (if truthy c then json_text c else Inr []) (\<lambda>cid.
     bind_exc (json_text q) (\<lambda>question.
     bind_exc (all_text outcomes) (\<lambda>sides.
       Inr (cid, question, map (str_of_json env) clob, sides,
         (case raw_op of JList js \<Rightarrow> de_dumps env js | JStr s \<Rightarrow> s | _ \<Rightarrow> []))))))))))))"

definition first_market :: "json \<Rightarrow> exc + json" where
  "first_market markets = (case markets of
      JList (m # ms) \<Rightarrow> Inr m | JStr (c # cs) \<Rightarrow> Inr (JStr [c]) | JObj kvs \<Rightarrow> Inl KeyError | _ \<Rightarrow> Inl TypeError)"

definition parse_event :: "DiscoverEnv \<Rightarrow> json \<Rightarrow> exc + DiscoveredEvent option" where
  "parse_event env ev =
     bind_exc (jget ev ''title'' (JStr [])) (\<lambda>t.
     bind_exc (jget ev ''slug'' (JStr [])) (\<lambda>s.
     bind_exc (jget ev ''tags'' (JList [])) (\<lambda>tags.
     bind_exc (extract_category_from_tags tags) (\<lambda>category.
     bind_exc (extract_duration_from_tags tags) (\<lambda>dur.
     bind_exc (json_text s) (\<lambda>slug.
     bind_exc (json_text t) (\<lambda>title.
     bind_exc (jget ev ''endDate'' (JStr [])) (\<lambda>ed.
     bind_exc (if truthy ed then bind_exc (json_text ed) (\<lambda>x. case de_fromiso env x of None \<Rightarrow> Inl ValueError | Some d \<Rightarrow> Inr d)
               else Inr (de_now env)) (\<lambda>end_date.
     bind_exc (jget ev ''markets'' (JList [])) (\<lambda>markets.
     bind_exc (if truthy markets then bind_exc (first_market markets) (market_fields env title)
               else Inr ([], title, [], [], [])) (\<lambda>(cid, question, toks, sides, op).
       Inr (if cid = [] then None
            else Some \<lparr>de_condition_id = cid, de_question = question, de_slug = slug,
              de_asset = extract_asset_from_slug slug title, de_duration = dur, de_category = category,
              de_end_date = end_date, de_discovered_at = de_now env, de_clob_token_ids = toks, de_outcomes = sides,
              de_outcome_prices = op\<rparr>))))))))))))"

definition from_api_event :: "DiscoverEnv \<Rightarrow> json \<Rightarrow> DiscoveredEvent option" where
  "from_api_event env ev = (case parse_event env ev of Inl e \<Rightarrow> None | Inr r \<Rightarrow> r)"

section \<open>The scan\<close>

definition PAGE_SIZE :: nat where "PAGE_SIZE = 100"
definition MAX_PAGES :: nat where "MAX_PAGES = 5"

definition page_events :: "json \<Rightarrow> json" where
  "page_events data = (case data of JList xs \<Rightarrow> data
     | JObj kvs \<Rightarrow> (case dget kvs ''data'' of None \<Rightarrow> JList [] | Some v \<Rightarrow> v) | _ \<Rightarrow> JList [])"

text \<open>\<open>resp n\<close> is the answer for page \<open>n\<close>, or the error of the request or of its JSON.\<close>

fun fetch_pages :: "(nat \<Rightarrow> exc + json) \<Rightarrow> nat \<Rightarrow> nat \<Rightarrow> exc + json list" where
  "fetch_pages resp page 0 = Inr []"
| "fetch_pages resp page (Suc left) = (case resp page of Inl e \<Rightarrow> Inl e
     | Inr data \<Rightarrow> (let v = page_events data
         in if \<not> truthy v then Inr []
            else case json_items v of Inl e \<Rightarrow> Inl e
              | Inr xs \<Rightarrow> if length xs < PAGE_SIZE then Inr xs
                  else (case fetch_pages resp (Suc page) left of Inl e \<Rightarrow> Inl e | Inr ys \<Rightarrow> Inr (xs @ ys))))"

definition fetch_events :: "(nat \<Rightarrow> exc + json) \<Rightarrow> exc + json list" where
  "fetch_events resp = fetch_pages resp 0 MAX_PAGES"

definition is_current_or_upcoming :: "int \<Rightarrow> string \<Rightarrow> bool" where
  "is_current_or_upcoming now slug = (case slug_ts slug of None \<Rightarrow> True
     | Some start \<Rightarrow> start \<le> now + 1800 \<and> now \<le> start + 300)"

definition matches_criteria :: "int \<Rightarrow> DiscoveredEvent \<Rightarrow> bool" where
  "matches_criteria now e \<longleftrightarrow> de_category e = ''crypto'' \<and> de_duration e = ''5m'' \<and>
     contains ''up or down'' (str_lower (de_question e)) \<and> is_current_or_upcoming now (de_slug e)"

record DiscoveryResult =
  dr_events :: "DiscoveredEvent list"
  dr_total_scanned :: int
  dr_total_matched :: int
  dr_parse_failures :: int
  dr_success :: bool

definition failed_scan :: DiscoveryResult where
  "failed_scan = \<lparr>dr_events = [], dr_total_scanned = 0, dr_total_matched = 0, dr_parse_failures = 0, dr_success = False\<rparr>"

definition scan_one :: "DiscoverEnv \<Rightarrow> int \<Rightarrow> DiscoveredEvent list \<times> int \<Rightarrow> json \<Rightarrow> DiscoveredEvent list \<times> int" where
  "scan_one env now mf raw = (let (matched, failures) = mf
     in case from_api_event env raw of
          None \<Rightarrow> (matched, failures + 1)
        | Some e \<Rightarrow> if matches_criteria now e then (matched @ [e], failures) else (matched, failures))"

definition scan :: "DiscoverEnv \<Rightarrow> int \<Rightarrow> (nat \<Rightarrow> exc + json) \<Rightarrow> DiscoveryResult" where
  "scan env now resp = (case fetch_events resp of
      Inl e \<Rightarrow> failed_scan
    | Inr raws \<Rightarrow> (let (matched, failures) = foldl (scan_one env now) ([], 0) raws
        in \<lparr>dr_events = matched, dr_total_scanned = int (length raws), dr_total_matched = int (length matched),
            dr_parse_failures = failures, dr_success = True\<rparr>))"

section \<open>The loop\<close>

record DiscoveryLoop =
  dl_retry_schedule :: "int list"
  dl_retry_steady :: int
  dl_current_slot :: int
  dl_events_found :: int
  dl_scan_count :: int
  dl_retry_count :: int

definition DISCOVERY_RETRY_SCHEDULE :: "int list" where "DISCOVERY_RETRY_SCHEDULE = [2, 4, 8, 16]"
definition DISCOVERY_RETRY_STEADY :: int where "DISCOVERY_RETRY_STEADY = 10"

text \<open>
  One pass: the clock at its head, the result of the scan, the clock after the wait. The loop looks
  at the clock after every second of the wait and returns when the slot is over; as the clock does
  not run backwards, that is decided by its last reading. \<open>sn_stopped\<close> says whether \<^verbatim>\<open>stop\<close> ran
  during the wait. (\<^verbatim>\<open>scan\<close> catches every error, so the loop's own handler never runs.)
\<close>

record scan_round =
  sn_head :: num
  sn_result :: DiscoveryResult
  sn_after :: num
  sn_stopped :: bool

text \<open>The loop over the passes that are given: the state with the events found, or \<open>None\<close> so far.\<close>

fun scan_with_retry ::
  "int \<Rightarrow> nat \<Rightarrow> scan_round list \<Rightarrow> DiscoveryLoop \<Rightarrow> (DiscoveryLoop \<times> DiscoveredEvent list) option" where
  "scan_with_retry slot n [] d = None"
| "scan_with_retry slot n (r # rs) d =
     (if slot_start_of (sn_head r) \<noteq> slot then Some (d, [])
      else let d1 = d\<lparr>dl_scan_count := dl_scan_count d + 1\<rparr>; events = dr_events (sn_result r)
        in if events \<noteq> [] then Some (d1\<lparr>dl_events_found := int (length events), dl_retry_count := 0\<rparr>, events)
           else let d2 = d1\<lparr>dl_retry_count := dl_retry_count d1 + 1\<rparr>
             in if sn_stopped r \<or> slot_start_of (sn_after r) \<noteq> slot then Some (d2, [])
                else scan_with_retry slot (Suc n) rs d2)"

definition discovery_wait :: "DiscoveryLoop \<Rightarrow> nat \<Rightarrow> int" where
  "discovery_wait d attempt = retry_wait (dl_retry_schedule d) (dl_retry_steady d) attempt"

text \<open>What happens to the events that were found: registry sync, then the event chain.\<close>

definition events_found ::
  "(string \<Rightarrow> string) \<Rightarrow> (string \<Rightarrow> usec) \<Rightarrow> ChainEnv \<Rightarrow> DiscoveredEvent list \<Rightarrow> Orchestrator \<Rightarrow> Orchestrator \<times> PTBTask list" where
  "events_found ids clk env events w =
     (let s = fst (sync ids clk events ((o_sync w)\<lparr>sy_registry := ew_registry (o_eval w)\<rparr>))
      in handle_discovered_events env events (w\<lparr>o_sync := s, o_eval := (o_eval w)\<lparr>ew_registry := sy_registry s\<rparr>\<rparr>))"

text \<open>A clock that advances at least by each wait.\<close>

fun scan_timed :: "(nat \<Rightarrow> int) \<Rightarrow> nat \<Rightarrow> num \<Rightarrow> scan_round list \<Rightarrow> bool" where
  "scan_timed wait n t [] = True"
| "scan_timed wait n t (r # rs) = (t \<le> sn_head r \<and> sn_head r + of_int (wait n) \<le> sn_after r \<and> scan_timed wait (Suc n) (sn_after r) rs)"

section \<open>Lemmas\<close>

lemma scan_one_exact:
  "foldl (scan_one env now) (m, f) raws =
     (m @ filter (matches_criteria now) (List.map_filter (from_api_event env) raws),
      f + int (length (filter (\<lambda>r. from_api_event env r = None) raws)))"
  by (induction raws arbitrary: m f) (auto simp: scan_one_def List.map_filter_simps split: option.split)

interpretation discovery_retry: retry_policy "retry_wait DISCOVERY_RETRY_SCHEDULE DISCOVERY_RETRY_STEADY" 4 10
proof
  fix n
  show "0 < retry_wait DISCOVERY_RETRY_SCHEDULE DISCOVERY_RETRY_STEADY n"
    by (rule retry_wait_pos) (simp_all add: DISCOVERY_RETRY_SCHEDULE_def DISCOVERY_RETRY_STEADY_def)
  show "4 \<le> n \<Longrightarrow> retry_wait DISCOVERY_RETRY_SCHEDULE DISCOVERY_RETRY_STEADY n = 10"
    by (simp add: retry_wait_steady DISCOVERY_RETRY_SCHEDULE_def DISCOVERY_RETRY_STEADY_def)
qed

lemma discovery_elapsed_31: "discovery_retry.elapsed 31 = 300"
proof -
  have "discovery_retry.elapsed 4 = 30"
    unfolding discovery_retry.elapsed_def by (simp add: retry_wait_def DISCOVERY_RETRY_SCHEDULE_def numeral_eq_Suc)
  then show ?thesis using discovery_retry.elapsed_steady [of 27] by simp
qed

lemma scan_unfinished:
  assumes "scan_with_retry slot n rs d = None" and "scan_timed wait n t rs" and "rs \<noteq> []" and "of_int slot \<le> t" "0 \<le> t"
    and "\<And>n. 0 < wait n"
  shows "t + of_int (\<Sum>i<length rs. wait (n + i)) < of_int (slot + SLOT_SECONDS)"
  using assms(1,2,3,4,5)
proof (induction rs arbitrary: d n t)
  case (Cons r rs)
  have after: "slot_start_of (sn_after r) = slot"
    using Cons.prems(1) by (auto simp: Let_def split: if_splits)
  obtain d' where rest: "scan_with_retry slot (Suc n) rs d' = None"
    using Cons.prems(1) by (auto simp: Let_def split: if_splits)
  have step: "t + of_int (wait n) \<le> sn_after r" and timed: "scan_timed wait (Suc n) (sn_after r) rs"
    using Cons.prems(2) by auto
  have t': "0 \<le> sn_after r" "of_int slot \<le> sn_after r"
    using step Cons.prems(4,5) assms(6) [of n] by linarith+
  have now: "sn_after r < of_int (slot + SLOT_SECONDS)" using slot_start_bounds(2) [OF t'(1)] after by simp
  have sum: "(\<Sum>i<length (r # rs). wait (n + i)) = wait n + (\<Sum>i<length rs. wait (Suc n + i))"
    by (simp add: sum.lessThan_Suc_shift del: sum.lessThan_Suc)
  show ?case
  proof (cases "rs = []")
    case False
    from Cons.IH [OF rest timed False t'(2,1)] step show ?thesis unfolding sum by simp
  qed (use now step in simp)
qed simp

section \<open>Properties\<close>


text \<open>The scan loop ends with its slot: with the default delays and a clock that advances at least by
  each wait, it returns within 31 passes, with events or because the slot is over, whatever the
  scans answer.\<close>

theorem discovery_returns:
  assumes "dl_retry_schedule d = DISCOVERY_RETRY_SCHEDULE" and "dl_retry_steady d = DISCOVERY_RETRY_STEADY"
    and timed: "scan_timed (discovery_wait d) 0 t rs" and len: "length rs = 31" and slot: "of_int slot \<le> t" "0 \<le> slot"
  shows "scan_with_retry slot 0 rs d \<noteq> None"
proof
  let ?wait = "retry_wait DISCOVERY_RETRY_SCHEDULE DISCOVERY_RETRY_STEADY"
  have "discovery_wait d = ?wait" using assms(1,2) by (simp add: fun_eq_iff discovery_wait_def)
  with timed have timed: "scan_timed ?wait 0 t rs" by simp
  assume none: "scan_with_retry slot 0 rs d = None"
  have ne: "rs \<noteq> []" using len by auto
  have t0: "0 \<le> t" using slot by (meson of_int_0_le_iff order_trans)
  have "t + of_int (\<Sum>i<31. ?wait (0 + i)) < of_int (slot + SLOT_SECONDS)"
    using scan_unfinished [OF none timed ne slot(1) t0 discovery_retry.delay_pos] len by simp
  moreover have "(\<Sum>i<31. ?wait (0 + i)) = 300" using discovery_elapsed_31 by (simp add: discovery_retry.elapsed_def)
  ultimately show False using slot(1) by (simp add: SLOT_SECONDS_def del: of_int_sum)
qed

definition example_discover_env :: DiscoverEnv where
  "example_discover_env = \<lparr>de_loads = (\<lambda>_. None), de_dumps = (\<lambda>_. []), de_fromiso = (\<lambda>_. None), de_str = (\<lambda>_. []), de_now = 5\<rparr>"

definition example_raw :: json where
  "example_raw = JObj [(''title'', JStr ''Bitcoin Up or Down''), (''slug'', JStr ''btc-updown-5m-1700000100''),
     (''tags'', JList [JObj [(''slug'', JStr ''crypto'')], JStr ''5M'']),
     (''markets'', JList [JObj [(''conditionId'', JStr ''c1''), (''clobTokenIds'', JList [JStr ''t1'', JStr ''t2'']),
        (''outcomes'', JList [JStr ''Up'', JStr ''Down''])]])]"

lemma example_scan_matches:
  "(case fetch_events (\<lambda>_. Inr (JList [example_raw, JNull])) of Inl _ \<Rightarrow> False
    | Inr raws \<Rightarrow> length raws = 2 \<and> map de_asset (filter (matches_criteria 1700000200)
        (List.map_filter (from_api_event example_discover_env) raws)) = [''BTC''] \<and>
        length (filter (\<lambda>r. case from_api_event example_discover_env r of None \<Rightarrow> True | Some _ \<Rightarrow> False) raws) = 1)"
  by code_simp


definition example_scan_rounds :: "scan_round list" where
  "example_scan_rounds = map (\<lambda>n. \<lparr>sn_head = of_int (discovery_retry.elapsed n), sn_result = failed_scan,
     sn_after = of_int (discovery_retry.elapsed (Suc n)), sn_stopped = False\<rparr>) [0..<31]"

lemma example_scan_rounds_timed:
  "n \<le> m \<Longrightarrow> scan_timed (retry_wait DISCOVERY_RETRY_SCHEDULE DISCOVERY_RETRY_STEADY) n (of_int (discovery_retry.elapsed n))
     (map (\<lambda>n. \<lparr>sn_head = of_int (discovery_retry.elapsed n), sn_result = r,
        sn_after = of_int (discovery_retry.elapsed (Suc n)), sn_stopped = b\<rparr>) [n..<m])"
proof (induction "m - n" arbitrary: n)
  case (Suc k)
  then have "[n..<m] = n # [Suc n..<m]" by (simp add: upt_conv_Cons)
  with Suc.hyps(1) [of "Suc n"] Suc.hyps(2) show ?case by (simp add: discovery_retry.elapsed_Suc)
qed simp

definition example_loop :: DiscoveryLoop where
  "example_loop = \<lparr>dl_retry_schedule = DISCOVERY_RETRY_SCHEDULE, dl_retry_steady = DISCOVERY_RETRY_STEADY,
     dl_current_slot = 0, dl_events_found = 0, dl_scan_count = 0, dl_retry_count = 0\<rparr>"

theorem discovery_returns_witness: "scan_with_retry 0 0 example_scan_rounds example_loop \<noteq> None"
proof (rule discovery_returns [where t = 0])
  have "discovery_retry.elapsed 0 = 0" by (simp add: discovery_retry.elapsed_def)
  moreover have "discovery_wait example_loop = retry_wait DISCOVERY_RETRY_SCHEDULE DISCOVERY_RETRY_STEADY"
    by (simp add: fun_eq_iff discovery_wait_def example_loop_def)
  ultimately show "scan_timed (discovery_wait example_loop) 0 0 example_scan_rounds"
    using example_scan_rounds_timed [of 0 31 failed_scan False] by (simp only: example_scan_rounds_def of_int_0 le0)
qed (simp_all add: example_scan_rounds_def example_loop_def)

end
