(* ===== verification/Rtds.thy ===== *)
theory Rtds
  imports Prelude
begin

text \<open>
  \<^verbatim>\<open>backend/market_data/rtds_client.py\<close>: the WebSocket client of the outcome prices, its connection
  states, the token list it keeps for reconnects, the backoff and the main loop.

  The socket is outside: whether a connect or a send succeeds is an argument. \<open>rt_sent\<close> records the
  token list of the last subscribe message on the current socket, which is what the server
  delivers. Health incidents are counted.
\<close>

datatype ConnectionState = RT_DISCONNECTED | RT_CONNECTING | RT_CONNECTED | RT_RECONNECTING | RT_FAILED

record RTDSClient =
  rt_backoff_base :: num
  rt_backoff_max :: num
  rt_state :: ConnectionState
  rt_ws :: bool
  rt_sent :: "string list option"
  rt_tokens :: "string list"
  rt_reconnect_attempts :: int
  rt_total_messages :: int
  rt_incidents :: int
  rt_shutdown :: bool

definition rtds_connected :: "RTDSClient \<Rightarrow> bool" where
  "rtds_connected c \<longleftrightarrow> rt_state c = RT_CONNECTED"

definition rtds_connect :: "bool \<Rightarrow> RTDSClient \<Rightarrow> RTDSClient \<times> bool" where
  "rtds_connect ok c =
     (if ok then (c\<lparr>rt_ws := True, rt_sent := None, rt_state := RT_CONNECTED, rt_reconnect_attempts := 0\<rparr>, True)
      else (c\<lparr>rt_state := RT_FAILED, rt_incidents := rt_incidents c + 1\<rparr>, False))"

definition rtds_disconnect :: "RTDSClient \<Rightarrow> RTDSClient" where
  "rtds_disconnect c = c\<lparr>rt_shutdown := True, rt_ws := False, rt_sent := None, rt_state := RT_DISCONNECTED\<rparr>"

text \<open>The tokens are remembered before the message is sent.\<close>

definition rtds_subscribe :: "bool \<Rightarrow> string list \<Rightarrow> RTDSClient \<Rightarrow> RTDSClient \<times> bool" where
  "rtds_subscribe send_ok token_ids c =
     (if \<not> rtds_connected c \<or> \<not> rt_ws c then (c, False)
      else if token_ids = [] then (c, False)
      else let c1 = c\<lparr>rt_tokens := token_ids\<rparr>
        in if send_ok then (c1\<lparr>rt_sent := Some token_ids\<rparr>, True) else (c1, False))"

definition rtds_resubscribe :: "bool \<Rightarrow> RTDSClient \<Rightarrow> RTDSClient \<times> bool" where
  "rtds_resubscribe send_ok c = (if rt_tokens c = [] then (c, True) else rtds_subscribe send_ok (rt_tokens c) c)"

definition update_subscription :: "string list \<Rightarrow> RTDSClient \<Rightarrow> RTDSClient" where
  "update_subscription token_ids c = c\<lparr>rt_tokens := token_ids\<rparr>"

text \<open>The receive loop: \<open>n\<close> messages, then the socket closes or fails.\<close>

definition receive_loop :: "nat \<Rightarrow> RTDSClient \<Rightarrow> RTDSClient" where
  "receive_loop n c =
     (if \<not> rt_ws c then c
      else let c1 = c\<lparr>rt_total_messages := rt_total_messages c + int n\<rparr>
        in if rt_state c1 = RT_CONNECTED then c1\<lparr>rt_state := RT_DISCONNECTED\<rparr> else c1)"

text \<open>\<^verbatim>\<open>min(base ** min(attempt, 5), max)\<close>; the power is taken to be correctly rounded.\<close>

definition backoff_wait :: "RTDSClient \<Rightarrow> nat \<Rightarrow> num" where
  "backoff_wait c attempt = min (fl (rt_backoff_base c ^ min attempt 5)) (rt_backoff_max c)"

text \<open>One attempt: the deadline before and after the sleep, a shutdown during it, and the socket.\<close>

record reconnect_round =
  rc_deadline_before :: bool
  rc_shutdown :: bool
  rc_deadline_after :: bool
  rc_connect :: bool
  rc_send :: bool

definition reconnect_failed :: "RTDSClient \<Rightarrow> RTDSClient" where
  "reconnect_failed c = c\<lparr>rt_state := RT_FAILED, rt_incidents := rt_incidents c + 1\<rparr>"

fun reconnect_loop :: "nat \<Rightarrow> reconnect_round list \<Rightarrow> RTDSClient \<Rightarrow> (RTDSClient \<times> bool) option" where
  "reconnect_loop attempt [] c = None"
| "reconnect_loop attempt (r # rs) c =
     (let c1 = c\<lparr>rt_reconnect_attempts := int (Suc attempt)\<rparr>
      in if rc_deadline_before r then Some (reconnect_failed c1, False)
         else if rc_shutdown r then Some (c1\<lparr>rt_shutdown := True\<rparr>, False)
         else if rc_deadline_after r then Some (reconnect_failed c1, False)
         else if rc_connect r then
           Some (fst (rtds_resubscribe (rc_send r) (c1\<lparr>rt_ws := True, rt_sent := None, rt_state := RT_CONNECTED\<rparr>)), True)
         else reconnect_loop (Suc attempt) rs c1)"

definition reconnect :: "reconnect_round list \<Rightarrow> RTDSClient \<Rightarrow> (RTDSClient \<times> bool) option" where
  "reconnect rs c = reconnect_loop 0 rs (c\<lparr>rt_state := RT_RECONNECTING\<rparr>)"

text \<open>
  One pass of the main loop: \<open>None\<close> while a reconnect is still trying after the attempts given.
\<close>

record run_round =
  rn_connect :: bool
  rn_reconnect :: "reconnect_round list"
  rn_send :: bool
  rn_messages :: nat

definition run_turn :: "run_round \<Rightarrow> RTDSClient \<Rightarrow> RTDSClient option" where
  "run_turn r c =
     (if rt_shutdown c then Some c
      else if rtds_connected c then Some (receive_loop (rn_messages r) c)
      else case (if rt_state c = RT_DISCONNECTED then Some (rtds_connect (rn_connect r) c)
                 else if rt_state c = RT_FAILED \<or> rt_state c = RT_RECONNECTING then reconnect (rn_reconnect r) c
                 else Some (c, False)) of
             None \<Rightarrow> None
           | Some (c1, False) \<Rightarrow> Some c1
           | Some (c1, True) \<Rightarrow> Some (receive_loop (rn_messages r)
               (if rt_tokens c1 \<noteq> [] then fst (rtds_resubscribe (rn_send r) c1) else c1)))"

section \<open>Backoff\<close>

definition RTDS_SCHEDULE :: "int list" where "RTDS_SCHEDULE = [2, 4, 8, 16]"

lemma powers_exact: "fl 2 = 2" "fl 4 = 4" "fl 8 = 8" "fl 16 = 16" "fl 32 = 32"
  by code_simp+

text \<open>The exponential backoff is the retry schedule of the other loops: with the default base 2 and
  maximum 30, the waits before the first, second, third \<dots> attempt are 2, 4, 8, 16 seconds and then
  always 30.\<close>

theorem backoff_is_schedule:
  assumes "rt_backoff_base c = 2" and "rt_backoff_max c = 30"
  shows "backoff_wait c (Suc n) = of_int (retry_wait RTDS_SCHEDULE 30 n)"
proof -
  consider "n = 0" | "n = 1" | "n = 2" | "n = 3" | "4 \<le> n" by linarith
  then show ?thesis
    by cases (simp_all add: assms backoff_wait_def retry_wait_def RTDS_SCHEDULE_def powers_exact numeral_eq_Suc)
qed

definition example_rtds :: RTDSClient where
  "example_rtds = \<lparr>rt_backoff_base = 2, rt_backoff_max = 30, rt_state = RT_DISCONNECTED, rt_ws = True, rt_sent = None,
     rt_tokens = [''tok-up'', ''tok-down''], rt_reconnect_attempts = 0, rt_total_messages = 7, rt_incidents = 0, rt_shutdown = False\<rparr>"

theorem backoff_is_schedule_witness: "backoff_wait example_rtds 3 = 8 \<and> backoff_wait example_rtds 9 = 30"
  using backoff_is_schedule [of example_rtds 2] backoff_is_schedule [of example_rtds 8]
  by (simp add: example_rtds_def retry_wait_def RTDS_SCHEDULE_def)

interpretation rtds_retry: retry_policy "retry_wait RTDS_SCHEDULE 30" 4 30
  by unfold_locales (simp_all add: retry_wait_pos retry_wait_steady RTDS_SCHEDULE_def)

section \<open>Recovery\<close>

definition refused :: "reconnect_round \<Rightarrow> bool" where
  "refused r \<longleftrightarrow> \<not> rc_deadline_before r \<and> \<not> rc_shutdown r \<and> \<not> rc_deadline_after r \<and> \<not> rc_connect r"

definition accepted :: "reconnect_round \<Rightarrow> bool" where
  "accepted r \<longleftrightarrow> \<not> rc_deadline_before r \<and> \<not> rc_shutdown r \<and> \<not> rc_deadline_after r \<and> rc_connect r \<and> rc_send r"

lemma reconnect_loop_accepted:
  assumes "list_all refused rs" and "accepted r" and "rt_tokens c \<noteq> []"
  shows "reconnect_loop n (rs @ r # rest) c =
    Some (c\<lparr>rt_reconnect_attempts := int (Suc (n + length rs)), rt_ws := True, rt_sent := Some (rt_tokens c),
            rt_state := RT_CONNECTED\<rparr>, True)"
  using assms(1,3)
proof (induction rs arbitrary: n c)
  case Nil
  with assms(2) show ?case
    by (simp add: accepted_def rtds_resubscribe_def rtds_subscribe_def rtds_connected_def)
next
  case (Cons a rs)
  then show ?case by (simp add: refused_def)
qed

text \<open>C35. The client recovers: whatever the number of refused attempts, the first accepted one
  reconnects, the server is asked again for exactly the tokens remembered, and nothing but the
  connection fields has changed; an attempt is never abandoned without a deadline or a shutdown,
  and \<open>n\<close> attempts take \<open>30 (n - 4)\<close> seconds after the first four, 30 seconds in all.\<close>

theorem rtds_recovers:
  assumes "list_all refused rs" and "accepted r" and "rt_tokens c \<noteq> []"
  shows "reconnect (rs @ r # rest) c =
      Some (c\<lparr>rt_reconnect_attempts := int (length rs + 1), rt_ws := True, rt_sent := Some (rt_tokens c),
              rt_state := RT_CONNECTED\<rparr>, True)
    \<and> reconnect rs c = None
    \<and> rtds_retry.elapsed (4 + m) = 30 + int m * 30"
proof (intro conjI)
  show "reconnect (rs @ r # rest) c =
      Some (c\<lparr>rt_reconnect_attempts := int (length rs + 1), rt_ws := True, rt_sent := Some (rt_tokens c),
              rt_state := RT_CONNECTED\<rparr>, True)"
    by (simp add: reconnect_def reconnect_loop_accepted assms add.commute)
  have "reconnect_loop n rs d = None" for n d
    using assms(1) by (induction rs arbitrary: n d) (simp_all add: refused_def)
  then show "reconnect rs c = None" by (simp add: reconnect_def)
  have "rtds_retry.elapsed 4 = 30"
    unfolding rtds_retry.elapsed_def by (simp add: retry_wait_def RTDS_SCHEDULE_def numeral_eq_Suc)
  then show "rtds_retry.elapsed (4 + m) = 30 + int m * 30"
    using rtds_retry.elapsed_steady [of m] by simp
qed

theorem rtds_recovers_witness:
  "reconnect [\<lparr>rc_deadline_before = False, rc_shutdown = False, rc_deadline_after = False, rc_connect = False, rc_send = False\<rparr>,
      \<lparr>rc_deadline_before = False, rc_shutdown = False, rc_deadline_after = False, rc_connect = True, rc_send = True\<rparr>] example_rtds =
    Some (example_rtds\<lparr>rt_reconnect_attempts := 2, rt_ws := True, rt_sent := Some [''tok-up'', ''tok-down''], rt_state := RT_CONNECTED\<rparr>, True)"
  using rtds_recovers [of
      "[\<lparr>rc_deadline_before = False, rc_shutdown = False, rc_deadline_after = False, rc_connect = False, rc_send = False\<rparr>]"
      "\<lparr>rc_deadline_before = False, rc_shutdown = False, rc_deadline_after = False, rc_connect = True, rc_send = True\<rparr>"
      example_rtds "[]" 0]
  by (simp add: refused_def accepted_def example_rtds_def)

end
