(* ===== verification/Build.thy ===== *)
theory Build
  imports Config Control Bot Discovery Rtds
begin

text \<open>
  The constructor of \<^verbatim>\<open>backend/orchestrator/wiring.py\<close>: every component built from the configuration.
  The results about the bot hold for what it builds, and the loops it configures end.
\<close>

section \<open>The components\<close>

definition discovery_schedule :: "AppConfig \<Rightarrow> int list" where
  "discovery_schedule c = (let d = ap_discovery c in
     [di_retry_initial_seconds d, di_retry_schedule_2 d, di_retry_schedule_3 d, di_retry_schedule_4 d])"

definition ptb_schedule :: "AppConfig \<Rightarrow> int list" where
  "ptb_schedule c = (let m = ap_market_data c in
     [md_ptb_retry_initial_seconds m, md_ptb_retry_schedule_2 m, md_ptb_retry_schedule_3 m, md_ptb_retry_schedule_4 m])"

definition build_evaluator :: "ExitRulesConfig \<Rightarrow> ExitEvaluator" where
  "build_evaluator x = (let tp = ex_take_profit x; sl = ex_stop_loss x; fs = ex_force_sell x in
     \<lparr>ev_tp_pct = tp_percentage tp, ev_sl_enabled = sl_enabled sl, ev_sl_pct = sl_percentage sl,
      ev_sl_jump_threshold = sl_jump_threshold sl, ev_tp_reevaluate = tp_reevaluate_on_retry tp, ev_sl_reevaluate = False,
      ev_fs_time_enabled = ft_enabled (fs_time fs), ev_fs_time_seconds = ft_remaining_seconds (fs_time fs),
      ev_fs_pnl_enabled = fp_enabled (fs_pnl_loss fs), ev_fs_pnl_pct = fp_loss_percentage (fs_pnl_loss fs), ev_last_prices = []\<rparr>)"

definition build_claims :: "TradingConfig \<Rightarrow> ClaimManager" where
  "build_claims t = (let k = tr_claim t in
     new_claim_manager (tr_paper_mode t) (cl_retry_initial_seconds k) (cl_retry_second_seconds k) (cl_retry_steady_seconds k)
       (nat (cl_max_retry_attempts k)) True)"

definition build_balance :: "AppConfig \<Rightarrow> BalanceManager" where
  "build_balance c = set_fetch_function (new_balance (of_int (md_balance_stale_threshold_seconds (ap_market_data c))))"

definition build_tracker :: PositionTracker where
  "build_tracker = new_tracker \<lparr>fc_fee_rate = DEFAULT_CRYPTO_FEE_RATE\<rparr> True"

definition build_executor :: "AppConfig \<Rightarrow> OrderExecutor" where
  "build_executor c = (let t = ap_trading c in
     \<lparr>x_tracker = build_tracker, x_balance = build_balance c, x_min_order_usd = tr_min_amount_usd t,
      x_mode = (if tr_paper_mode t then PAPER else LIVE), x_has_clob_wrapper = True,
      x_bot_max = bm_max_positions (en_bot_max (tr_entry_rules t)), x_execution_count = 0, x_fill_count = 0, x_reject_count = 0\<rparr>)"

definition build_evaluation :: "AppConfig \<Rightarrow> EvalWorld" where
  "build_evaluation c = (let t = ap_trading c; m = ap_market_data c in
     \<lparr>ew_bridge = \<lparr>br_pipeline = \<lparr>pl_records = [], pl_stale_threshold = md_stale_threshold_seconds m\<rparr>, br_token_routes = [],
        br_last_message_at = [], br_total_routed = 0, br_total_skipped = 0\<rparr>,
      ew_coin_client = \<lparr>kc_stale_threshold = of_int (md_coin_price_stale_threshold_seconds m), kc_records = [], kc_coins = [],
        kc_total_updates = 0, kc_running = False, kc_task = None, kc_reconnect_count = 0\<rparr>,
      ew_ptb = new_fetcher (Some (ptb_schedule c)) (md_ptb_retry_steady_seconds m),
      ew_settings = \<lparr>st_settings = [], st_db = True, st_outbox = []\<rparr>, ew_registry = [], ew_executor = build_executor c,
      ew_rules = engine_rules None, ew_bot_max_positions = bm_max_positions (en_bot_max (tr_entry_rules t)),
      ew_paper_mode = tr_paper_mode t, ew_dispatch_enabled = False, ew_last_results = [], ew_eval_count = 0, ew_entry_count = 0\<rparr>)"

definition build_exit :: "AppConfig \<Rightarrow> ExitWorld" where
  "build_exit c = (let t = ap_trading c; x = tr_exit_rules t; ev = build_evaluator x in
     \<lparr>w_exec = \<lparr>ee_tracker = build_tracker, ee_balance = build_balance c, ee_evaluator = Some ev, ee_has_clob_wrapper = True,
        ee_paper_mode = tr_paper_mode t,
        ee_retry_intervals = retry_intervals (tp_retry_interval_ms (ex_take_profit x)) (sl_retry_interval_ms (ex_stop_loss x))
          (fs_retry_interval_ms (ex_force_sell x)) (ex_manual_close_retry_interval_ms x) (ex_expiry_retry_interval_ms x)
          (ex_shutdown_retry_interval_ms x),
        ee_max_close_retries = nat (ex_max_close_retries x), ee_close_count = 0, ee_retry_count = 0,
        ee_close_fail_cooldown = tr_order_reject_cooldown_sec t, ee_last_close_fail_at = []\<rparr>,
      w_evaluator = ev,
      w_settle = \<lparr>ss_paper_mode = tr_paper_mode t, ss_has_clob = True, ss_settlement_count = 0, ss_retry_states = [],
        ss_winner_cache = [], ss_last_method = NoMethod, ss_claims = build_claims t, ss_balance = build_balance c\<rparr>,
      w_cycle_count = 0\<rparr>)"

definition new_orchestrator :: "AppConfig \<Rightarrow> Orchestrator" where
  "new_orchestrator c =
     \<lparr>o_eval = build_evaluation c, o_exit = build_exit c,
      o_sync = \<lparr>sy_registry = [], sy_delist_threshold = di_delist_threshold (ap_discovery c), sy_miss_counts = []\<rparr>,
      o_active_events = [], o_rtds_tokens = Some [], o_cleaned_count = 0, o_trading_enabled = True, o_paused = False,
      o_verify_retry_running = False, o_bot_start_time = None, o_bot_paused_at = None, o_bot_accumulated = 0\<rparr>"

definition build_discovery_loop :: "AppConfig \<Rightarrow> DiscoveryLoop" where
  "build_discovery_loop c = \<lparr>dl_retry_schedule = discovery_schedule c, dl_retry_steady = di_retry_steady_seconds (ap_discovery c),
     dl_current_slot = 0, dl_events_found = 0, dl_scan_count = 0, dl_retry_count = 0\<rparr>"

definition build_rtds :: "AppConfig \<Rightarrow> RTDSClient" where
  "build_rtds c = \<lparr>rt_backoff_base = md_ws_reconnect_backoff_base (ap_market_data c),
     rt_backoff_max = md_ws_reconnect_backoff_max (ap_market_data c), rt_state = RT_DISCONNECTED, rt_ws = False, rt_sent = None,
     rt_tokens = [], rt_reconnect_attempts = 0, rt_total_messages = 0, rt_incidents = 0, rt_shutdown = False\<rparr>"

definition exit_cycle_interval_sec :: "AppConfig \<Rightarrow> num" where
  "exit_cycle_interval_sec c = fdiv (of_int (md_exit_cycle_interval_ms (ap_market_data c))) 1000"

text \<open>The part of the configuration the settings page shows.\<close>

definition global_view :: "AppConfig \<Rightarrow> GlobalConfig" where
  "global_view c = (let t = ap_trading c; x = tr_exit_rules t; fs = ex_force_sell x in
     \<lparr>gc_auto_start = tr_auto_start_bot_on_startup t, gc_bot_max_positions = bm_max_positions (en_bot_max (tr_entry_rules t)),
      gc_wait_for_claim = cl_wait_for_claim_before_new_trade (tr_claim t),
      gc_tp_percentage = tp_percentage (ex_take_profit x), gc_tp_reevaluate = tp_reevaluate_on_retry (ex_take_profit x),
      gc_sl_enabled = sl_enabled (ex_stop_loss x), gc_sl_percentage = sl_percentage (ex_stop_loss x),
      gc_sl_jump_threshold = sl_jump_threshold (ex_stop_loss x), gc_fs_time_enabled = ft_enabled (fs_time fs),
      gc_fs_time_seconds = ft_remaining_seconds (fs_time fs), gc_fs_pnl_enabled = fp_enabled (fs_pnl_loss fs),
      gc_fs_pnl_pct = fp_loss_percentage (fs_pnl_loss fs)\<rparr>)"

section \<open>The bounds of the settings page\<close>

text \<open>The bounds the schema puts on the values the page can change, and the values of a request.\<close>

definition page_in_schema :: "GlobalConfig \<Rightarrow> bool" where
  "page_in_schema g \<longleftrightarrow> 1 \<le> gc_bot_max_positions g \<and> gc_bot_max_positions g \<le> 50 \<and>
     lit (1 / 10) \<le> gc_tp_percentage g \<and> gc_tp_percentage g \<le> 100 \<and> lit (1 / 10) \<le> gc_sl_percentage g \<and> gc_sl_percentage g \<le> 100 \<and>
     1 \<le> gc_fs_time_seconds g \<and> gc_fs_time_seconds g \<le> 299 \<and> lit (1 / 10) \<le> gc_fs_pnl_pct g \<and> gc_fs_pnl_pct g \<le> 100"

definition request_in_schema :: "GlobalSettingsUpdateRequest \<Rightarrow> bool" where
  "request_in_schema b \<longleftrightarrow>
     (case gq_bot_max_positions b of None \<Rightarrow> True | Some n \<Rightarrow> 1 \<le> n \<and> n \<le> 50) \<and>
     (case gq_tp_percentage b of None \<Rightarrow> True | Some x \<Rightarrow> lit (1 / 10) \<le> x \<and> x \<le> 100) \<and>
     (case gq_sl_percentage b of None \<Rightarrow> True | Some x \<Rightarrow> lit (1 / 10) \<le> x \<and> x \<le> 100) \<and>
     (case gq_fs_time_seconds b of None \<Rightarrow> True | Some n \<Rightarrow> 1 \<le> n \<and> n \<le> 299) \<and>
     (case gq_fs_pnl_pct b of None \<Rightarrow> True | Some x \<Rightarrow> lit (1 / 10) \<le> x \<and> x \<le> 100)"

lemma valid_config_page: "valid_app_config c \<Longrightarrow> page_in_schema (global_view c)"
  by (simp add: valid_app_config_def valid_trading_config_def valid_entry_rules_config_def valid_bot_max_config_def
      valid_exit_rules_config_def valid_take_profit_config_def valid_stop_loss_config_def valid_force_sell_config_def
      valid_force_sell_time_condition_def valid_force_sell_pnl_condition_def page_in_schema_def global_view_def Let_def)

section \<open>Delays of a valid configuration\<close>

lemma valid_schedules:
  assumes "valid_app_config c"
  shows "0 < retry_wait (discovery_schedule c) (di_retry_steady_seconds (ap_discovery c)) n"
    and "0 < retry_wait (ptb_schedule c) (md_ptb_retry_steady_seconds (ap_market_data c)) n"
  using assms
  by (auto intro!: retry_wait_pos simp: valid_app_config_def valid_discovery_config_def valid_market_data_config_def
      discovery_schedule_def ptb_schedule_def Let_def)

lemma sum_waits: "(\<And>n. 0 < wait n) \<Longrightarrow> int m \<le> (\<Sum>i<m. wait i)" for wait :: "nat \<Rightarrow> int"
proof (induction m)
  case (Suc m)
  then have "int m \<le> (\<Sum>i<m. wait i)" by blast
  with Suc.prems [of m] show ?case by simp
qed simp

lemma build_waits:
  "discovery_wait (build_discovery_loop c) = retry_wait (discovery_schedule c) (di_retry_steady_seconds (ap_discovery c))"
  "ptb_wait (ew_ptb (o_eval (new_orchestrator c))) = retry_wait (ptb_schedule c) (md_ptb_retry_steady_seconds (ap_market_data c))"
  by (simp_all add: fun_eq_iff discovery_wait_def build_discovery_loop_def ptb_wait_def new_orchestrator_def build_evaluation_def
      new_fetcher_def Let_def ptb_schedule_def)

section \<open>Properties\<close>

lemma constructed_initial: "bot_initial (new_orchestrator c)" "settings_ok cap (ew_settings (o_eval (new_orchestrator c)))"
proof -
  have "o_tracker (new_orchestrator c) = reset build_tracker"
    by (simp add: new_orchestrator_def build_evaluation_def build_executor_def build_tracker_def reset_new Let_def)
  then show "bot_initial (new_orchestrator c)"
    unfolding bot_initial_def by (intro conjI exI) (assumption, simp_all add: new_orchestrator_def build_evaluation_def Let_def)
  show "settings_ok cap (ew_settings (o_eval (new_orchestrator c)))"
    by (simp add: settings_ok_def new_orchestrator_def build_evaluation_def Let_def)
qed


text \<open>C34. Whatever valid configuration the bot is given, its retry loops end: the discovery loop of a slot
  and the fetch of a price to beat return within 300 rounds, and a reconnect waits between one
  second and two minutes.\<close>

theorem valid_config_loops_end:
  assumes "valid_app_config c"
    and "scan_timed (discovery_wait (build_discovery_loop c)) 0 t rs" "length rs = 300" "of_int slot \<le> t" "0 \<le> slot"
    and "timed (ptb_wait (ew_ptb (o_eval (new_orchestrator c)))) 0 u ds" "length ds = 300" "end_ts \<le> u + 300"
  shows "scan_with_retry slot 0 rs (build_discovery_loop c) \<noteq> None \<and>
    ptb_retry_loop cid asset end_ts ds (ew_ptb (o_eval (new_orchestrator c))) \<noteq> None \<and>
    1 \<le> backoff_wait (build_rtds c) k \<and> backoff_wait (build_rtds c) k \<le> 120"
proof (intro conjI)
  note pos = valid_schedules [OF assms(1)]
  have sums: "300 \<le> (\<Sum>i<300. retry_wait (discovery_schedule c) (di_retry_steady_seconds (ap_discovery c)) i)"
    "300 \<le> (\<Sum>i<300. retry_wait (ptb_schedule c) (md_ptb_retry_steady_seconds (ap_market_data c)) i)"
    using sum_waits [OF pos(1), of 300] sum_waits [OF pos(2), of 300] by simp_all
  show "scan_with_retry slot 0 rs (build_discovery_loop c) \<noteq> None"
  proof
    assume none: "scan_with_retry slot 0 rs (build_discovery_loop c) = None"
    have t0: "0 \<le> t" using assms(4,5) by (meson of_int_0_le_iff order_trans)
    have "rs \<noteq> []" using assms(3) by auto
    from scan_unfinished [OF none assms(2) this assms(4) t0]
    have "t + of_int (\<Sum>i<300. retry_wait (discovery_schedule c) (di_retry_steady_seconds (ap_discovery c)) i) < of_int (slot + SLOT_SECONDS)"
      by (simp add: build_waits pos assms(3) del: of_int_sum)
    moreover have "(300::rat) \<le> of_int (\<Sum>i<300. retry_wait (discovery_schedule c) (di_retry_steady_seconds (ap_discovery c)) i)"
      using sums(1) by (metis of_int_le_iff of_int_numeral)
    ultimately show False using assms(4) by (simp add: SLOT_SECONDS_def del: of_int_sum)
  qed
  show "ptb_retry_loop cid asset end_ts ds (ew_ptb (o_eval (new_orchestrator c))) \<noteq> None"
  proof
    assume none: "ptb_retry_loop cid asset end_ts ds (ew_ptb (o_eval (new_orchestrator c))) = None"
    have "ds \<noteq> []" using assms(7) by auto
    from retry_loop_unfinished [OF none assms(6) this]
    have "u + of_int (\<Sum>i<300. retry_wait (ptb_schedule c) (md_ptb_retry_steady_seconds (ap_market_data c)) i) < end_ts"
      by (simp add: build_waits assms(7) del: of_int_sum)
    moreover have "(300::rat) \<le> of_int (\<Sum>i<300. retry_wait (ptb_schedule c) (md_ptb_retry_steady_seconds (ap_market_data c)) i)"
      using sums(2) by (metis of_int_le_iff of_int_numeral)
    ultimately show False using assms(8) by (simp del: of_int_sum)
  qed
  have md: "1 \<le> md_ws_reconnect_backoff_base (ap_market_data c)" "5 \<le> md_ws_reconnect_backoff_max (ap_market_data c)"
    "md_ws_reconnect_backoff_max (ap_market_data c) \<le> 120"
    using assms(1) by (simp_all add: valid_app_config_def valid_market_data_config_def)
  then have "1 \<le> md_ws_reconnect_backoff_base (ap_market_data c) ^ min k 5" by (simp add: one_le_power)
  then have "1 \<le> fl (md_ws_reconnect_backoff_base (ap_market_data c) ^ min k 5)" using fl_mono [of 1] by simp
  with md show "1 \<le> backoff_wait (build_rtds c) k" "backoff_wait (build_rtds c) k \<le> 120"
    by (simp_all add: backoff_wait_def build_rtds_def)
qed

lemma or_else_bounds: "lo \<le> d \<Longrightarrow> d \<le> hi \<Longrightarrow>
   (lo \<le> or_else v d \<and> or_else v d \<le> hi) = (case v of None \<Rightarrow> True | Some x \<Rightarrow> lo \<le> x \<and> x \<le> hi)" for d :: "'a :: order"
  by (cases v) (simp_all add: or_else_def)

lemma update_in_schema:
  assumes "page_in_schema c"
  shows "page_in_schema (update_config b c) = request_in_schema b"
proof -
  have "(1 \<le> gc_bot_max_positions (update_config b c) \<and> gc_bot_max_positions (update_config b c) \<le> 50) =
      (case gq_bot_max_positions b of None \<Rightarrow> True | Some n \<Rightarrow> 1 \<le> n \<and> n \<le> 50)"
    "(lit (1 / 10) \<le> gc_tp_percentage (update_config b c) \<and> gc_tp_percentage (update_config b c) \<le> 100) =
      (case gq_tp_percentage b of None \<Rightarrow> True | Some x \<Rightarrow> lit (1 / 10) \<le> x \<and> x \<le> 100)"
    "(lit (1 / 10) \<le> gc_sl_percentage (update_config b c) \<and> gc_sl_percentage (update_config b c) \<le> 100) =
      (case gq_sl_percentage b of None \<Rightarrow> True | Some x \<Rightarrow> lit (1 / 10) \<le> x \<and> x \<le> 100)"
    "(1 \<le> gc_fs_time_seconds (update_config b c) \<and> gc_fs_time_seconds (update_config b c) \<le> 299) =
      (case gq_fs_time_seconds b of None \<Rightarrow> True | Some n \<Rightarrow> 1 \<le> n \<and> n \<le> 299)"
    "(lit (1 / 10) \<le> gc_fs_pnl_pct (update_config b c) \<and> gc_fs_pnl_pct (update_config b c) \<le> 100) =
      (case gq_fs_pnl_pct b of None \<Rightarrow> True | Some x \<Rightarrow> lit (1 / 10) \<le> x \<and> x \<le> 100)"
    using assms by (simp_all add: page_in_schema_def update_config_def or_else_bounds)
  then show ?thesis unfolding page_in_schema_def request_in_schema_def by blast
qed

text \<open>C23. The settings page bypasses the schema: an update is always answered with success, and the
  configuration stays within the bounds of the schema exactly when every value of the request was.\<close>

theorem page_bypasses_schema:
  assumes "page_in_schema c" and "global_settings_update b (Some (c, w)) = (Some (c', w'), r)"
  shows "(\<exists>resp. r = Inr resp) \<and> (page_in_schema c' \<longleftrightarrow> request_in_schema b)"
  using assms
  by (auto simp: global_settings_update_def update_in_schema)

text \<open>Settings the constructor does not read, replaced by other values.\<close>

definition with_ignored :: "bool \<Rightarrow> bool \<Rightarrow> EntryRulesConfig \<Rightarrow> AppConfig \<Rightarrow> AppConfig" where
  "with_ignored wait tp rules c = (let t = ap_trading c; x = tr_exit_rules t in
     c\<lparr>ap_trading := t\<lparr>tr_entry_rules := rules\<lparr>en_bot_max := en_bot_max (tr_entry_rules t)\<rparr>,
       tr_exit_rules := x\<lparr>ex_take_profit := (ex_take_profit x)\<lparr>tp_enabled := tp\<rparr>\<rparr>,
       tr_claim := (tr_claim t)\<lparr>cl_wait_for_claim_before_new_trade := wait\<rparr>\<rparr>\<rparr>)"

text \<open>C27. Some settings have no effect: whether a pending claim blocks new trades, whether take profit is enabled,
  and every entry rule but the position limit of the bot. The bot that is built is the same, while the
  settings page shows the blocking as it was set.\<close>

theorem ignored_settings:
  "new_orchestrator (with_ignored wait tp rules c) = new_orchestrator c \<and>
   build_discovery_loop (with_ignored wait tp rules c) = build_discovery_loop c \<and>
   build_rtds (with_ignored wait tp rules c) = build_rtds c \<and>
   exit_cycle_interval_sec (with_ignored wait tp rules c) = exit_cycle_interval_sec c \<and>
   gc_wait_for_claim (global_view (with_ignored wait tp rules c)) = wait"
  by (simp add: with_ignored_def new_orchestrator_def build_evaluation_def build_exit_def build_executor_def build_balance_def
      build_claims_def build_evaluator_def ptb_schedule_def discovery_schedule_def build_discovery_loop_def build_rtds_def
      exit_cycle_interval_sec_def global_view_def Let_def)


theorem page_bypasses_schema_witness:
  "\<not> page_in_schema (update_config (example_update\<lparr>gq_bot_max_positions := Some (- 3)\<rparr>) (global_view default_app_config))"
proof -
  let ?b = "example_update\<lparr>gq_bot_max_positions := Some (- 3)\<rparr>"
  have "\<not> request_in_schema ?b" by (simp add: request_in_schema_def)
  then show ?thesis
    using page_bypasses_schema [OF valid_config_page [OF default_valid], of ?b "new_orchestrator default_app_config"]
    by (simp add: global_settings_update_def)
qed

text \<open>The loops of the default configuration, each with 300 rounds that find nothing.\<close>

lemma default_schedules:
  "discovery_schedule default_app_config = DISCOVERY_RETRY_SCHEDULE"
  "di_retry_steady_seconds (ap_discovery default_app_config) = DISCOVERY_RETRY_STEADY"
  "ptb_schedule default_app_config = DEFAULT_PTB_RETRY_SCHEDULE"
  "md_ptb_retry_steady_seconds (ap_market_data default_app_config) = DEFAULT_PTB_RETRY_STEADY"
  by (simp_all add: discovery_schedule_def ptb_schedule_def config_defaults Let_def DISCOVERY_RETRY_SCHEDULE_def
      DISCOVERY_RETRY_STEADY_def DEFAULT_PTB_RETRY_SCHEDULE_def DEFAULT_PTB_RETRY_STEADY_def)

theorem valid_config_loops_end_witness:
  "scan_with_retry 0 0 (map (\<lambda>n. \<lparr>sn_head = of_int (discovery_retry.elapsed n), sn_result = failed_scan,
     sn_after = of_int (discovery_retry.elapsed (Suc n)), sn_stopped = False\<rparr>) [0..<300]) (build_discovery_loop default_app_config) \<noteq> None"
proof -
  have scans: "scan_timed (discovery_wait (build_discovery_loop default_app_config)) 0 0
     (map (\<lambda>n. \<lparr>sn_head = of_int (discovery_retry.elapsed n), sn_result = failed_scan,
        sn_after = of_int (discovery_retry.elapsed (Suc n)), sn_stopped = False\<rparr>) [0..<300])"
    using example_scan_rounds_timed [of 0 300 failed_scan False]
    by (simp only: build_waits default_schedules le0) (simp add: discovery_retry.elapsed_def)
  have fetches: "timed (ptb_wait (ew_ptb (o_eval (new_orchestrator default_app_config)))) 0 0
     (map (\<lambda>n. \<lparr>pd_before = of_int (ptb_retry.elapsed n), pd_after = of_int (ptb_retry.elapsed (Suc n)),
        pd_now = 0, pd_result = ptb_failure ''Timeout''\<rparr>) [0..<300])"
    using example_rounds_timed [of 0 300 "ptb_failure ''Timeout''"]
    by (simp only: build_waits default_schedules le0) (simp add: ptb_retry.elapsed_def)
  show ?thesis
    using valid_config_loops_end [OF default_valid scans _ _ _ fetches, of 0 300] by simp
qed

end
