(* ===== verification/Clients.thy ===== *)
theory Clients
  imports Discovery
begin

text \<open>
  The credentials and the clients that use them: \<^verbatim>\<open>backend/auth_clients\<close> (store, error classes, the
  HTTP client with its retries), the life cycle of the two wrappers of \<^verbatim>\<open>backend/execution\<close> and
  their requests for a fee rate.

  The network and the exchange SDK are parameters: the reply to each attempt, and whether the
  SDK's constructor accepts the keys it is given.
\<close>

section \<open>Credentials\<close>

record Credentials =
  c_api_key :: string
  c_api_secret :: string
  c_api_passphrase :: string
  c_private_key :: string
  c_funder_address :: string
  c_relayer_key :: string

definition no_credentials :: Credentials where
  "no_credentials = \<lparr>c_api_key = [], c_api_secret = [], c_api_passphrase = [], c_private_key = [],
     c_funder_address = [], c_relayer_key = []\<rparr>"

definition has_trading_credentials :: "Credentials \<Rightarrow> bool" where
  "has_trading_credentials c \<longleftrightarrow> c_api_key c \<noteq> [] \<and> c_api_secret c \<noteq> [] \<and> c_api_passphrase c \<noteq> []"

definition has_relayer_credentials :: "Credentials \<Rightarrow> bool" where
  "has_relayer_credentials c \<longleftrightarrow> c_relayer_key c \<noteq> []"

definition has_signing_credentials :: "Credentials \<Rightarrow> bool" where
  "has_signing_credentials c \<longleftrightarrow> c_private_key c \<noteq> [] \<and> c_funder_address c \<noteq> []"

record CredentialStore =
  s_credentials :: Credentials
  s_version :: int

definition new_store :: CredentialStore where
  "new_store = \<lparr>s_credentials = no_credentials, s_version = 0\<rparr>"

definition store_load_credentials :: "Credentials \<Rightarrow> CredentialStore \<Rightarrow> CredentialStore" where
  "store_load_credentials c s = \<lparr>s_credentials = c, s_version = s_version s + 1\<rparr>"

definition load_from_dict :: "(string, string) dict \<Rightarrow> CredentialStore \<Rightarrow> CredentialStore" where
  "load_from_dict d s =
     \<lparr>s_credentials = \<lparr>c_api_key = dget_or d ''API_KEY'' [], c_api_secret = dget_or d ''SECRET'' [],
        c_api_passphrase = dget_or d ''PASSPHRASE'' [], c_private_key = dget_or d ''PRIVATE_KEY'' [],
        c_funder_address = dget_or d ''FUNDER'' [], c_relayer_key = dget_or d ''RELAYER_KEY'' []\<rparr>,
      s_version = s_version s + 1\<rparr>"

type_synonym headers = "(string, string) dict"

definition get_trading_headers :: "CredentialStore \<Rightarrow> headers" where
  "get_trading_headers s = (let c = s_credentials s in
     [(''POLY_API_KEY'', c_api_key c), (''POLY_SIGNATURE'', c_api_secret c), (''POLY_PASSPHRASE'', c_api_passphrase c)])"

section \<open>Errors\<close>

datatype ErrorCategory = EC_NETWORK | EC_AUTH | EC_RATE_LIMIT | EC_SERVER | EC_VALIDATION | EC_TIMEOUT | EC_UNKNOWN

record ClientError =
  ce_category :: ErrorCategory
  ce_status_code :: "int option"
  ce_retryable :: bool
  ce_source :: string

definition classify_http_error :: "int \<Rightarrow> string \<Rightarrow> ClientError" where
  "classify_http_error status source =
     (let err = (\<lambda>cat retry. \<lparr>ce_category = cat, ce_status_code = Some status, ce_retryable = retry, ce_source = source\<rparr>)
      in if status = 401 \<or> status = 403 then err EC_AUTH False
         else if status = 429 then err EC_RATE_LIMIT True
         else if status = 400 then err EC_VALIDATION False
         else if 500 \<le> status \<and> status < 600 then err EC_SERVER True
         else err EC_UNKNOWN False)"

section \<open>The HTTP client\<close>

text \<open>
  The three clients share the class and differ in their headers and their name. \<open>bc_client\<close> holds the
  headers of the open connection, \<open>None\<close> when there is none or it was closed: the headers are built when
  a connection is opened.
\<close>

datatype ClientKind = PublicMarket | Trading | Relayer

record BaseClient =
  bc_kind :: ClientKind
  bc_retry_max :: int
  bc_backoff_base :: num
  bc_client :: "headers option"

definition source_name :: "ClientKind \<Rightarrow> string" where
  "source_name k = (case k of PublicMarket \<Rightarrow> ''public_market'' | Trading \<Rightarrow> ''trading'' | Relayer \<Rightarrow> ''relayer'')"

definition new_client :: "ClientKind \<Rightarrow> int \<Rightarrow> BaseClient" where
  "new_client k retry_max = \<lparr>bc_kind = k, bc_retry_max = retry_max, bc_backoff_base = 1, bc_client = None\<rparr>"

definition base_headers :: headers where
  "base_headers = [(''Content-Type'', ''application/json''), (''Accept'', ''application/json'')]"

definition trading_headers :: "CredentialStore \<Rightarrow> ClientError + headers" where
  "trading_headers s =
     (if \<not> has_trading_credentials (s_credentials s)
      then Inl \<lparr>ce_category = EC_AUTH, ce_status_code = None, ce_retryable = False, ce_source = source_name Trading\<rparr>
      else Inr (foldl (\<lambda>h (k, v). dset k v h) base_headers (get_trading_headers s)))"

definition relayer_headers :: "CredentialStore \<Rightarrow> ClientError + headers" where
  "relayer_headers s =
     (if \<not> has_relayer_credentials (s_credentials s)
      then Inl \<lparr>ce_category = EC_AUTH, ce_status_code = None, ce_retryable = False, ce_source = source_name Relayer\<rparr>
      else Inr (dset ''Authorization'' (''Bearer '' @ c_relayer_key (s_credentials s)) base_headers))"

definition build_headers :: "ClientKind \<Rightarrow> CredentialStore \<Rightarrow> ClientError + headers" where
  "build_headers k s = (case k of PublicMarket \<Rightarrow> Inr base_headers | Trading \<Rightarrow> trading_headers s | Relayer \<Rightarrow> relayer_headers s)"

definition get_client :: "CredentialStore \<Rightarrow> BaseClient \<Rightarrow> BaseClient \<times> (ClientError + headers)" where
  "get_client s c = (case bc_client c of
       Some h \<Rightarrow> (c, Inr h)
     | None \<Rightarrow> (case build_headers (bc_kind c) s of
           Inl e \<Rightarrow> (c, Inl e)
         | Inr h \<Rightarrow> (c\<lparr>bc_client := Some h\<rparr>, Inr h)))"

definition client_close :: "BaseClient \<Rightarrow> BaseClient" where
  "client_close c = c\<lparr>bc_client := None\<rparr>"

datatype HttpReply = HT_Status int | HT_Timeout | HT_ConnectError | HT_Raise

definition reply_status :: "HttpReply \<Rightarrow> int" where
  "reply_status r = (case r of HT_Status st \<Rightarrow> st | _ \<Rightarrow> 0)"

definition attempt_error :: "string \<Rightarrow> HttpReply \<Rightarrow> ClientError option" where
  "attempt_error source r =
     (let err = (\<lambda>cat retry. Some \<lparr>ce_category = cat, ce_status_code = None, ce_retryable = retry, ce_source = source\<rparr>)
      in case r of
        HT_Status st \<Rightarrow> if 200 \<le> st \<and> st < 300 then None else Some (classify_http_error st source)
      | HT_Timeout \<Rightarrow> err EC_TIMEOUT True
      | HT_ConnectError \<Rightarrow> err EC_NETWORK True
      | HT_Raise \<Rightarrow> err EC_UNKNOWN False)"

text \<open>
  The attempts of one request. \<open>env n\<close> gives the credential store at attempt \<open>n\<close> and the reply to it. The
  result holds the headers of every request that was sent, the waits between them and the status of
  the response or the error raised.
\<close>

type_synonym attempt_env = "nat \<Rightarrow> CredentialStore \<times> HttpReply"

fun request_loop :: "attempt_env \<Rightarrow> nat \<Rightarrow> nat \<Rightarrow> ClientError option \<Rightarrow> BaseClient \<Rightarrow>
    BaseClient \<times> headers list \<times> num list \<times> (ClientError + int)" where
  "request_loop env attempt 0 last_error c =
     (c, [], [], Inl (case last_error of Some e \<Rightarrow> e
        | None \<Rightarrow> \<lparr>ce_category = EC_UNKNOWN, ce_status_code = None, ce_retryable = False, ce_source = source_name (bc_kind c)\<rparr>))"
| "request_loop env attempt (Suc left) last_error c =
     (case get_client (fst (env attempt)) c of
        (c1, Inl e) \<Rightarrow> (c1, [], [], Inl e)
      | (c1, Inr h) \<Rightarrow>
          (case attempt_error (source_name (bc_kind c)) (snd (env attempt)) of
             None \<Rightarrow> (c1, [h], [], Inr (reply_status (snd (env attempt))))
           | Some e \<Rightarrow>
               if \<not> ce_retryable e \<or> int attempt = bc_retry_max c then (c1, [h], [], Inl e)
               else (case request_loop env (Suc attempt) left (Some e) c1 of
                   (c2, hs, ws, r) \<Rightarrow> (c2, h # hs, fmul (bc_backoff_base c) (2 ^ (attempt - 1)) # ws, r))))"

definition request :: "attempt_env \<Rightarrow> BaseClient \<Rightarrow> BaseClient \<times> headers list \<times> num list \<times> (ClientError + int)" where
  "request env c = request_loop env 1 (nat (bc_retry_max c)) None c"

section \<open>The wrapper of the exchange SDK\<close>

text \<open>What the SDK client is built from; it keeps these values for its life.\<close>

record SdkClient =
  sdk_key :: string
  sdk_creds :: "string \<times> string \<times> string"
  sdk_signature_type :: int
  sdk_funder :: "string option"

record ClobWrapper =
  cw_private_key :: string
  cw_api_key :: string
  cw_api_secret :: string
  cw_api_passphrase :: string
  cw_signature_type :: int
  cw_client :: "SdkClient option"
  cw_initialized :: bool
  cw_last_cred_version :: int

definition new_clob_wrapper :: "int \<Rightarrow> ClobWrapper" where
  "new_clob_wrapper sig = \<lparr>cw_private_key = [], cw_api_key = [], cw_api_secret = [], cw_api_passphrase = [],
     cw_signature_type = sig, cw_client = None, cw_initialized = False, cw_last_cred_version = - 1\<rparr>"

definition hex_key :: "string \<Rightarrow> string" where
  "hex_key k = (if k \<noteq> [] \<and> \<not> starts_with ''0x'' k then ''0x'' @ k else k)"

text \<open>\<open>accepts\<close> says whether the constructor of the SDK returns.\<close>

definition clob_initialize :: "(SdkClient \<Rightarrow> bool) \<Rightarrow> CredentialStore option \<Rightarrow> ClobWrapper \<Rightarrow> ClobWrapper \<times> bool" where
  "clob_initialize accepts store w =
     (if cw_private_key w \<noteq> [] \<and> cw_api_key w \<noteq> [] then
        (let funder = (case store of None \<Rightarrow> None
               | Some s \<Rightarrow> if c_funder_address (s_credentials s) = [] then None else Some (c_funder_address (s_credentials s)));
             client = \<lparr>sdk_key = cw_private_key w, sdk_creds = (cw_api_key w, cw_api_secret w, cw_api_passphrase w),
               sdk_signature_type = cw_signature_type w, sdk_funder = funder\<rparr>
         in if accepts client then (w\<lparr>cw_client := Some client, cw_initialized := True\<rparr>, True)
            else (w\<lparr>cw_initialized := False\<rparr>, False))
      else (w\<lparr>cw_initialized := False\<rparr>, False))"

definition clob_ensure_initialized :: "(SdkClient \<Rightarrow> bool) \<Rightarrow> CredentialStore option \<Rightarrow> ClobWrapper \<Rightarrow> ClobWrapper" where
  "clob_ensure_initialized accepts store w =
     (case store of None \<Rightarrow> w
      | Some s \<Rightarrow>
          if s_version s = cw_last_cred_version w then w
          else (let c = s_credentials s in
            fst (clob_initialize accepts store
              (w\<lparr>cw_private_key := hex_key (c_private_key c), cw_api_key := c_api_key c, cw_api_secret := c_api_secret c,
                cw_api_passphrase := c_api_passphrase c, cw_last_cred_version := s_version s\<rparr>))))"

definition clob_is_initialized :: "(SdkClient \<Rightarrow> bool) \<Rightarrow> CredentialStore option \<Rightarrow> ClobWrapper \<Rightarrow> ClobWrapper \<times> bool" where
  "clob_is_initialized accepts store w = (let w1 = clob_ensure_initialized accepts store w in (w1, cw_initialized w1))"

section \<open>The wrapper of the relayer\<close>

record RelayerWrapper =
  rw_private_key :: string
  rw_relayer_api_key :: string
  rw_relayer_address :: string
  rw_initialized :: bool
  rw_redeem_count :: int
  rw_last_cred_version :: int

definition new_relayer_wrapper :: RelayerWrapper where
  "new_relayer_wrapper = \<lparr>rw_private_key = [], rw_relayer_api_key = [], rw_relayer_address = [], rw_initialized = False,
     rw_redeem_count = 0, rw_last_cred_version = - 1\<rparr>"

definition relayer_ensure_initialized :: "CredentialStore option \<Rightarrow> RelayerWrapper \<Rightarrow> RelayerWrapper" where
  "relayer_ensure_initialized store w =
     (case store of None \<Rightarrow> w
      | Some s \<Rightarrow>
          if s_version s = rw_last_cred_version w then w
          else (let c = s_credentials s in
            w\<lparr>rw_private_key := c_private_key c, rw_relayer_api_key := c_relayer_key c, rw_relayer_address := c_funder_address c,
              rw_initialized := c_private_key c \<noteq> [] \<and> c_relayer_key c \<noteq> [] \<and> c_funder_address c \<noteq> [],
              rw_last_cred_version := s_version s\<rparr>))"

section \<open>Fee rates\<close>

text \<open>\<^verbatim>\<open>int(x)\<close> on a JSON value\<close>

fun json_int :: "json \<Rightarrow> exc + int" where
  "json_int (JNum x) = Inr (py_int x)"
| "json_int (JBool b) = Inr (if b then 1 else 0)"
| "json_int (JStr s) =
     (let (neg, r) = take_sign (str_strip s); (ds, rest) = digit_run r
      in if ds = [] \<or> rest \<noteq> [] then Inl ValueError else Inr (if neg then - digits_val ds else digits_val ds))"
| "json_int j = Inl TypeError"

text \<open>An answer of the market data server: none, or a status with a body that may not parse.\<close>

datatype FeeReply = FE_Raise | FE_Reply int "exc + json"

definition bps_rate :: "json \<Rightarrow> exc + num option" where
  "bps_rate data = bind_exc (jget data ''fee_rate_bps'' JNull) (\<lambda>bps.
     if bps = JNull then Inr None else bind_exc (json_int bps) (\<lambda>n. Inr (Some (fdiv (of_int n) 10000))))"

text \<open>\<^verbatim>\<open>ClobClientWrapper.get_fee_rate\<close>: the first rate of the two answers, and nothing when one raises.\<close>

definition ok_body :: "FeeReply \<Rightarrow> exc + json option" where
  "ok_body r = (case r of FE_Raise \<Rightarrow> Inl RuntimeError
     | FE_Reply st body \<Rightarrow> if st = 200 then bind_exc body (\<lambda>j. Inr (Some j)) else Inr None)"

definition wrapper_rate :: "json \<Rightarrow> exc + flt option" where
  "wrapper_rate data = bind_exc (jget data ''neg_risk_fee_rate'' JNull) (\<lambda>rate.
     if rate \<noteq> JNull then bind_exc (py_float rate) (\<lambda>x. Inr (Some x))
     else bind_exc (bps_rate data) (\<lambda>r. Inr (map_option Fin r)))"

definition get_fee_rate :: "bool \<Rightarrow> FeeReply \<Rightarrow> FeeReply \<Rightarrow> flt option" where
  "get_fee_rate initialized neg_risk market =
     (if \<not> initialized then None
      else case bind_exc (ok_body neg_risk) (\<lambda>b. case b of None \<Rightarrow> Inr None | Some data \<Rightarrow> wrapper_rate data) of
          Inl _ \<Rightarrow> None
        | Inr (Some x) \<Rightarrow> Some x
        | Inr None \<Rightarrow>
            (case bind_exc (ok_body market) (\<lambda>b. case b of None \<Rightarrow> Inr None | Some data \<Rightarrow> bps_rate data) of
               Inl _ \<Rightarrow> None | Inr r \<Rightarrow> map_option Fin r))"

text \<open>\<^verbatim>\<open>FeeRateFetcher.fetch_fee_rate\<close>: the rate of the first answer must be positive, that of the second need not be.\<close>

record FeeRateFetcher =
  ff_last_rate :: "num option"
  ff_last_fetched_at :: "usec option"
  ff_fetch_count :: int
  ff_fail_count :: int

definition new_fee_fetcher :: FeeRateFetcher where
  "new_fee_fetcher = \<lparr>ff_last_rate = None, ff_last_fetched_at = None, ff_fetch_count = 0, ff_fail_count = 0\<rparr>"

definition positive_rate :: "json \<Rightarrow> exc + num option" where
  "positive_rate j = (case j of
       JNum x \<Rightarrow> Inr (if 0 < x then Some (fl x) else None)
     | JBool b \<Rightarrow> Inr (if b then Some 1 else None)
     | JNull \<Rightarrow> Inr None
     | _ \<Rightarrow> Inl TypeError)"

definition fetcher_rate :: "json \<Rightarrow> exc + num option" where
  "fetcher_rate data = bind_exc (jget data ''neg_risk_fee_rate'' JNull) (\<lambda>rate.
     if rate = JNull then bind_exc (bps_rate data) (\<lambda>r. Inr (case r of None \<Rightarrow> None | Some x \<Rightarrow> if 0 < x then Some x else None))
     else positive_rate rate)"

definition fetch_fee_rate :: "usec \<Rightarrow> FeeReply \<Rightarrow> FeeReply \<Rightarrow> FeeRateFetcher \<Rightarrow> FeeRateFetcher \<times> num option" where
  "fetch_fee_rate now neg_risk market f =
     (let found = (\<lambda>r. (f\<lparr>ff_last_rate := Some r, ff_last_fetched_at := Some now, ff_fetch_count := ff_fetch_count f + 1\<rparr>, Some r));
          missed = (\<lambda>n. (f\<lparr>ff_fail_count := ff_fail_count f + n\<rparr>, None))
      in case bind_exc (ok_body neg_risk) (\<lambda>b. case b of None \<Rightarrow> Inr None | Some data \<Rightarrow> fetcher_rate data) of
          Inl _ \<Rightarrow> missed 2
        | Inr (Some x) \<Rightarrow> found x
        | Inr None \<Rightarrow>
            (case bind_exc (ok_body market) (\<lambda>b. case b of None \<Rightarrow> Inr None | Some data \<Rightarrow> bps_rate data) of
               Inl _ \<Rightarrow> missed 2 | Inr None \<Rightarrow> missed 1 | Inr (Some x) \<Rightarrow> found x))"

section \<open>Requests\<close>

lemma get_client_again: "get_client s c = (c1, Inr h) \<Longrightarrow> get_client s' c1 = (c1, Inr h)"
  by (auto simp: get_client_def split: option.splits sum.splits)

lemma get_client_frame: "get_client s c = (c1, r) \<Longrightarrow>
   bc_kind c1 = bc_kind c \<and> bc_retry_max c1 = bc_retry_max c \<and> bc_backoff_base c1 = bc_backoff_base c"
  by (auto simp: get_client_def split: option.splits sum.splits)

text \<open>A reply after which the client tries again.\<close>

definition retried :: "HttpReply \<Rightarrow> bool" where
  "retried r \<longleftrightarrow> r = HT_Timeout \<or> r = HT_ConnectError \<or> (\<exists>st. r = HT_Status st \<and> (st = 429 \<or> (500 \<le> st \<and> st < 600)))"

lemma retried_iff: "retried r \<longleftrightarrow> (\<exists>e. attempt_error src r = Some e \<and> ce_retryable e)"
  by (cases r) (auto simp: retried_def attempt_error_def classify_http_error_def Let_def)

definition outcome_of :: "string \<Rightarrow> HttpReply \<Rightarrow> ClientError + int" where
  "outcome_of src r = (case attempt_error src r of None \<Rightarrow> Inr (reply_status r) | Some e \<Rightarrow> Inl e)"

lemma request_loop_exact:
  assumes "get_client (fst (env a)) c = (c1, Inr h)" and "int a + int left = bc_retry_max c"
    and "k = a + length (takeWhile (\<lambda>i. retried (snd (env i))) [a..<a + left])"
  shows "request_loop env a (Suc left) e c =
    (c1, replicate (Suc k - a) h, map (\<lambda>i. fmul (bc_backoff_base c) (2 ^ (i - 1))) [a..<k],
     outcome_of (source_name (bc_kind c)) (snd (env k)))"
  using assms
proof (induction left arbitrary: a c e)
  case 0
  then show ?case
    by (auto simp: outcome_of_def split: option.splits)
next
  case (Suc left)
  let ?src = "source_name (bc_kind c)"
  have upt: "[a..<a + Suc left] = a # [Suc a..<Suc a + left]" by (simp add: upt_conv_Cons del: upt_Suc)
  note frame = get_client_frame [OF Suc.prems(1)]
  show ?case
  proof (cases "retried (snd (env a))")
    case False
    with Suc.prems(3) have "k = a" unfolding upt by simp
    moreover have "attempt_error ?src (snd (env a)) = Some x \<Longrightarrow> \<not> ce_retryable x" for x
      using False retried_iff [of "snd (env a)" ?src] by auto
    ultimately show ?thesis
      using Suc.prems(1) by (auto simp: outcome_of_def split: option.splits)
  next
    case True
    then obtain x where x: "attempt_error ?src (snd (env a)) = Some x" "ce_retryable x"
      using retried_iff by blast
    have k: "k = Suc a + length (takeWhile (\<lambda>i. retried (snd (env i))) [Suc a..<Suc a + left])"
      using Suc.prems(3) True unfolding upt by simp
    have next_client: "get_client (fst (env (Suc a))) c1 = (c1, Inr h)"
      using Suc.prems(1) by (rule get_client_again)
    have "int (Suc a) + int left = bc_retry_max c1" using Suc.prems(2) frame by simp
    from Suc.IH [OF next_client this k]
    have IH: "request_loop env (Suc a) (Suc left) (Some x) c1 =
        (c1, replicate (Suc k - Suc a) h, map (\<lambda>i. fmul (bc_backoff_base c1) (2 ^ (i - 1))) [Suc a..<k],
         outcome_of (source_name (bc_kind c1)) (snd (env k)))" .
    have "int a \<noteq> bc_retry_max c" using Suc.prems(2) by simp
    moreover have "Suc a \<le> k" using k by simp
    then have "replicate (Suc k - a) h = h # replicate (Suc k - Suc a) h" "[a..<k] = a # [Suc a..<k]"
      by (simp_all add: Suc_diff_le upt_conv_Cons)
    moreover have "int a \<noteq> bc_retry_max c \<Longrightarrow> request_loop env a (Suc (Suc left)) e c =
        (case request_loop env (Suc a) (Suc left) (Some x) c1 of
           (c2, hs, ws, r) \<Rightarrow> (c2, h # hs, fmul (bc_backoff_base c) (2 ^ (a - 1)) # ws, r))"
      by (subst request_loop.simps(2)) (simp add: Suc.prems(1) x del: request_loop.simps)
    ultimately show ?thesis by (simp add: IH frame del: request_loop.simps)
  qed
qed

lemma request_exact_lemma:
  assumes "get_client (fst (env 1)) c = (c1, Inr h)" and "1 \<le> bc_retry_max c"
    and "k = 1 + length (takeWhile (\<lambda>i. retried (snd (env i))) [1..<nat (bc_retry_max c)])"
  shows "request env c = (c1, replicate k h, map (\<lambda>i. fmul (bc_backoff_base c) (2 ^ (i - 1))) [1..<k],
      outcome_of (source_name (bc_kind c)) (snd (env k)))"
proof -
  define n where "n = nat (bc_retry_max c) - 1"
  have n: "nat (bc_retry_max c) = Suc n" "int 1 + int n = bc_retry_max c" using assms(2) by (simp_all add: n_def)
  have "k = 1 + length (takeWhile (\<lambda>i. retried (snd (env i))) [1..<1 + n])" using assms(3) n(1) by simp
  from request_loop_exact [OF assms(1) n(2) this, of None] show ?thesis
    by (simp only: request_def n(1)) simp
qed

text \<open>A request is tried again exactly after time-outs, refused connections and the statuses 429 and 5xx, at
  most \<open>retry_max\<close> times in all; the outcome is that of the last attempt, the waits double, and every
  attempt is sent with the headers of the first one, even when the credentials change in between.\<close>

theorem request_exact:
  assumes "get_client (fst (env 1)) c = (c1, Inr h)" and "1 \<le> bc_retry_max c"
    and "k = 1 + length (takeWhile (\<lambda>i. retried (snd (env i))) [1..<nat (bc_retry_max c)])"
  shows "request env c = (c1, replicate k h, map (\<lambda>i. fmul (bc_backoff_base c) (2 ^ (i - 1))) [1..<k],
      outcome_of (source_name (bc_kind c)) (snd (env k))) \<and> k \<le> nat (bc_retry_max c)"
proof -
  have "length (takeWhile (\<lambda>i. retried (snd (env i))) [1..<nat (bc_retry_max c)]) \<le> nat (bc_retry_max c) - 1"
    using length_takeWhile_le [of "\<lambda>i. retried (snd (env i))" "[1..<nat (bc_retry_max c)]"] by simp
  with request_exact_lemma [OF assms] assms(2,3) show ?thesis by simp
qed

section \<open>Credentials in use\<close>

text \<open>
  The bot's store with the two wrappers: credentials are loaded, and the wrappers check the version before
  they use theirs. The exchange SDK may refuse the keys at any time.
\<close>

inductive cred_step :: "CredentialStore \<times> ClobWrapper \<times> RelayerWrapper \<Rightarrow> CredentialStore \<times> ClobWrapper \<times> RelayerWrapper \<Rightarrow> bool" where
  cs_load: "cred_step (s, w, r) (store_load_credentials c s, w, r)"
| cs_dict: "cred_step (s, w, r) (load_from_dict d s, w, r)"
| cs_clob: "cred_step (s, w, r) (s, clob_ensure_initialized accepts (Some s) w, r)"
| cs_relayer: "cred_step (s, w, r) (s, w, relayer_ensure_initialized (Some s) r)"

text \<open>The SDK client that belongs to the credentials of the store.\<close>

definition sdk_of_store :: "int \<Rightarrow> CredentialStore \<Rightarrow> SdkClient" where
  "sdk_of_store sig s = (let c = s_credentials s in
     \<lparr>sdk_key = hex_key (c_private_key c), sdk_creds = (c_api_key c, c_api_secret c, c_api_passphrase c),
      sdk_signature_type = sig, sdk_funder = (if c_funder_address c = [] then None else Some (c_funder_address c))\<rparr>)"

definition clob_current :: "int \<Rightarrow> CredentialStore \<Rightarrow> ClobWrapper \<Rightarrow> bool" where
  "clob_current sig s w \<longleftrightarrow> cw_signature_type w = sig \<and> cw_last_cred_version w = s_version s \<and>
     (cw_initialized w \<longrightarrow> cw_client w = Some (sdk_of_store sig s) \<and> c_private_key (s_credentials s) \<noteq> [] \<and> c_api_key (s_credentials s) \<noteq> [])"

definition relayer_current :: "CredentialStore \<Rightarrow> RelayerWrapper \<Rightarrow> bool" where
  "relayer_current s r \<longleftrightarrow> (let c = s_credentials s in
     rw_last_cred_version r = s_version s \<and> rw_private_key r = c_private_key c \<and> rw_relayer_api_key r = c_relayer_key c \<and>
     rw_relayer_address r = c_funder_address c \<and>
     rw_initialized r = (c_private_key c \<noteq> [] \<and> c_relayer_key c \<noteq> [] \<and> c_funder_address c \<noteq> []))"

definition cred_inv :: "int \<Rightarrow> CredentialStore \<times> ClobWrapper \<times> RelayerWrapper \<Rightarrow> bool" where
  "cred_inv sig = (\<lambda>(s, w, r). 0 \<le> s_version s \<and> cw_signature_type w = sig \<and>
     (cw_last_cred_version w < s_version s \<or> clob_current sig s w) \<and>
     (rw_last_cred_version r < s_version s \<or> relayer_current s r))"

lemma hex_key_Nil [simp]: "hex_key k = [] \<longleftrightarrow> k = []"
  by (simp add: hex_key_def)

lemma clob_ensure_current:
  assumes "cw_signature_type w = sig" and "cw_last_cred_version w < s_version s \<or> clob_current sig s w"
  shows "clob_current sig s (clob_ensure_initialized accepts (Some s) w)"
  using assms
  by (auto simp: clob_ensure_initialized_def clob_initialize_def clob_current_def sdk_of_store_def Let_def)

lemma relayer_ensure_current:
  assumes "rw_last_cred_version r < s_version s \<or> relayer_current s r"
  shows "relayer_current s (relayer_ensure_initialized (Some s) r)"
  using assms by (auto simp: relayer_ensure_initialized_def relayer_current_def Let_def)

lemma cred_step_inv: "cred_step x y \<Longrightarrow> cred_inv sig x \<Longrightarrow> cred_inv sig y"
proof (induction rule: cred_step.induct)
  case (cs_clob s w r accepts)
  then have "clob_current sig s (clob_ensure_initialized accepts (Some s) w)"
    by (intro clob_ensure_current) (simp_all add: cred_inv_def)
  with cs_clob show ?case by (auto simp: cred_inv_def clob_current_def)
next
  case (cs_relayer s w r)
  then have "relayer_current s (relayer_ensure_initialized (Some s) r)"
    by (intro relayer_ensure_current) (simp add: cred_inv_def)
  with cs_relayer show ?case by (auto simp: cred_inv_def)
qed (auto simp: cred_inv_def store_load_credentials_def load_from_dict_def clob_current_def relayer_current_def Let_def)

lemma cred_steps_inv: "cred_step\<^sup>*\<^sup>* x y \<Longrightarrow> cred_inv sig x \<Longrightarrow> cred_inv sig y"
  by (induction rule: rtranclp_induct) (auto dest: cred_step_inv)

text \<open>C18. No wrapper works with old credentials: whatever was loaded and used before, a wrapper that has checked its
  version holds the credentials of the store, and an initialised SDK client was built from them.\<close>

theorem no_stale_credentials:
  assumes "cred_step\<^sup>*\<^sup>* (new_store, new_clob_wrapper sig, new_relayer_wrapper) (s, w, r)"
    and "clob_is_initialized accepts (Some s) w = (w', True)"
    and "relayer_ensure_initialized (Some s) r = r'"
  shows "cw_client w' = Some (sdk_of_store sig s) \<and> rw_private_key r' = c_private_key (s_credentials s) \<and>
    rw_relayer_api_key r' = c_relayer_key (s_credentials s) \<and> rw_relayer_address r' = c_funder_address (s_credentials s)"
proof -
  have "cred_inv sig (new_store, new_clob_wrapper sig, new_relayer_wrapper)"
    by (simp add: cred_inv_def new_store_def new_clob_wrapper_def new_relayer_wrapper_def)
  from cred_steps_inv [OF assms(1) this]
  have "clob_current sig s (clob_ensure_initialized accepts (Some s) w)" "relayer_current s (relayer_ensure_initialized (Some s) r)"
    by (simp_all add: cred_inv_def clob_ensure_current relayer_ensure_current)
  then show ?thesis
    using assms(2,3) by (auto simp: clob_is_initialized_def clob_current_def relayer_current_def Let_def)
qed

text \<open>What a fee rate request leaves behind: a rate that is found is remembered and counted, and is not negative
  unless it is that of the market answer; otherwise the last rate stays, and an exception counts as two failures.\<close>

theorem fee_fetch_effect:
  assumes "fetch_fee_rate now neg market f = (f', r)"
  shows "(case r of
      Some x \<Rightarrow> f' = f\<lparr>ff_last_rate := Some x, ff_last_fetched_at := Some now, ff_fetch_count := ff_fetch_count f + 1\<rparr> \<and>
        (0 \<le> x \<or> (\<exists>data. ok_body market = Inr (Some data) \<and> bps_rate data = Inr (Some x)))
    | None \<Rightarrow> f' = f\<lparr>ff_fail_count := ff_fail_count f + 1\<rparr> \<or> f' = f\<lparr>ff_fail_count := ff_fail_count f + 2\<rparr>)"
  using assms
  by (auto simp: fetch_fee_rate_def Let_def bind_exc_def fetcher_rate_def positive_rate_def
      split: sum.splits option.splits if_splits json.splits intro: fl_nonneg)

section \<open>Witnesses\<close>

definition example_replies :: attempt_env where
  "example_replies n = (new_store, if n = 1 then HT_Timeout else if n = 2 then HT_Status 503 else HT_Status 200)"

theorem request_exact_witness:
  "snd (request example_replies (new_client PublicMarket 3)) = (replicate 3 base_headers, [fmul 1 1, fmul 1 2], Inr 200)"
proof -
  have "get_client (fst (example_replies 1)) (new_client PublicMarket 3) =
      ((new_client PublicMarket 3)\<lparr>bc_client := Some base_headers\<rparr>, Inr base_headers)"
    by (simp add: get_client_def new_client_def build_headers_def)
  moreover have "3 = 1 + length (takeWhile (\<lambda>i. retried (snd (example_replies i))) [1..<nat (bc_retry_max (new_client PublicMarket 3))])"
    by (simp add: new_client_def example_replies_def retried_def upt_rec)
  ultimately show ?thesis
    using request_exact [of example_replies "new_client PublicMarket 3" _ base_headers 3]
    by (simp add: new_client_def example_replies_def outcome_of_def attempt_error_def reply_status_def upt_rec)
qed

definition example_credentials :: Credentials where
  "example_credentials = \<lparr>c_api_key = ''key'', c_api_secret = ''sec'', c_api_passphrase = ''pass'', c_private_key = ''ab'',
     c_funder_address = ''0xf'', c_relayer_key = ''rel''\<rparr>"

theorem no_stale_credentials_witness:
  "cw_client (clob_ensure_initialized (\<lambda>_. True)
      (Some (store_load_credentials (example_credentials\<lparr>c_private_key := ''cd''\<rparr>) (store_load_credentials example_credentials new_store)))
      (clob_ensure_initialized (\<lambda>_. True) (Some (store_load_credentials example_credentials new_store)) (new_clob_wrapper 2))) =
   Some \<lparr>sdk_key = ''0xcd'', sdk_creds = (''key'', ''sec'', ''pass''), sdk_signature_type = 2, sdk_funder = Some ''0xf''\<rparr>"
proof -
  let ?s = "store_load_credentials example_credentials new_store"
  let ?s' = "store_load_credentials (example_credentials\<lparr>c_private_key := ''cd''\<rparr>) ?s"
  let ?w = "clob_ensure_initialized (\<lambda>_. True) (Some ?s) (new_clob_wrapper 2)"
  have "cred_step (new_store, new_clob_wrapper 2, new_relayer_wrapper) (?s, new_clob_wrapper 2, new_relayer_wrapper)"
    "cred_step (?s, new_clob_wrapper 2, new_relayer_wrapper) (?s, ?w, new_relayer_wrapper)"
    "cred_step (?s, ?w, new_relayer_wrapper) (?s', ?w, new_relayer_wrapper)"
    by (rule cs_load cs_clob)+
  then have "cred_step\<^sup>*\<^sup>* (new_store, new_clob_wrapper 2, new_relayer_wrapper) (?s', ?w, new_relayer_wrapper)"
    by (meson rtranclp.rtrancl_refl rtranclp.rtrancl_into_rtrancl)
  moreover have "clob_is_initialized (\<lambda>_. True) (Some ?s') ?w = (clob_ensure_initialized (\<lambda>_. True) (Some ?s') ?w, True)"
    by code_simp
  moreover have "sdk_of_store 2 ?s' =
     \<lparr>sdk_key = ''0xcd'', sdk_creds = (''key'', ''sec'', ''pass''), sdk_signature_type = 2, sdk_funder = Some ''0xf''\<rparr>"
    by code_simp
  ultimately show ?thesis using no_stale_credentials by metis
qed

theorem fee_fetch_effect_witness:
  "ff_fail_count (fst (fetch_fee_rate 5 FE_Raise FE_Raise new_fee_fetcher)) = 2"
  using fee_fetch_effect [of 5 FE_Raise FE_Raise new_fee_fetcher]
  by (simp add: fetch_fee_rate_def ok_body_def bind_exc_def new_fee_fetcher_def)

end
