(* ===== verification/JsonText.thy ===== *)
theory JsonText
  imports Json
begin

text \<open>
  JSON texts as the standard library writes and reads them: \<^verbatim>\<open>json.dumps\<close> on dictionaries and lists of
  strings (ASCII output, the separators \<^verbatim>\<open>', '\<close> and \<^verbatim>\<open>': '\<close>) and \<^verbatim>\<open>json.loads\<close>. Characters are those up to 255;
  a text with a code point above, or with \<^verbatim>\<open>NaN\<close> or an infinity, is outside the model and refused.
\<close>

section \<open>Writing\<close>

definition hex_digit :: "nat \<Rightarrow> char" where
  "hex_digit n = char_of (if n < 10 then 48 + n else 87 + n)"

definition esc_char :: "char \<Rightarrow> string" where
  "esc_char c = (let n = of_char c :: nat in
     if n = 34 then [CHR 0x5C, CHR 0x22] else if n = 92 then [CHR 0x5C, CHR 0x5C]
     else if n = 10 then [CHR 0x5C, CHR ''n''] else if n = 13 then [CHR 0x5C, CHR ''r'']
     else if n = 9 then [CHR 0x5C, CHR ''t''] else if n = 12 then [CHR 0x5C, CHR ''f'']
     else if n = 8 then [CHR 0x5C, CHR ''b'']
     else if n < 32 \<or> 126 < n then [CHR 0x5C, CHR ''u'', CHR ''0'', CHR ''0'', hex_digit (n div 16), hex_digit (n mod 16)]
     else [c])"

definition dumps_str :: "string \<Rightarrow> string" where
  "dumps_str s = CHR 0x22 # concat (map esc_char s) @ [CHR 0x22]"

fun joined :: "string list \<Rightarrow> string" where
  "joined [] = []"
| "joined [x] = x"
| "joined (x # xs) = x @ '', '' @ joined xs"

definition dumps_list :: "string list \<Rightarrow> string" where
  "dumps_list xs = ''['' @ joined (map dumps_str xs) @ '']''"

definition member_text :: "string \<times> string \<Rightarrow> string" where
  "member_text = (\<lambda>(k, v). dumps_str k @ '': '' @ v)"

text \<open>An object whose values are already texts.\<close>

definition dumps_obj :: "(string \<times> string) list \<Rightarrow> string" where
  "dumps_obj kvs = ''{'' @ joined (map member_text kvs) @ ''}''"

section \<open>Reading\<close>

definition json_space :: "char \<Rightarrow> bool" where
  "json_space c \<longleftrightarrow> c = CHR '' '' \<or> c = CHR 0x09 \<or> c = CHR 0x0A \<or> c = CHR 0x0D"

abbreviation skip :: "string \<Rightarrow> string" where
  "skip s \<equiv> dropWhile json_space s"

definition hex_value :: "char \<Rightarrow> nat option" where
  "hex_value c = (let n = of_char c :: nat in
     if 48 \<le> n \<and> n \<le> 57 then Some (n - 48) else if 97 \<le> n \<and> n \<le> 102 then Some (n - 87)
     else if 65 \<le> n \<and> n \<le> 70 then Some (n - 55) else None)"

definition hex4 :: "char \<Rightarrow> char \<Rightarrow> char \<Rightarrow> char \<Rightarrow> nat option" where
  "hex4 a b c d = (case (hex_value a, hex_value b, hex_value c, hex_value d) of
     (Some w, Some x, Some y, Some z) \<Rightarrow> Some (((w * 16 + x) * 16 + y) * 16 + z) | _ \<Rightarrow> None)"

definition unesc :: "char \<Rightarrow> char option" where
  "unesc e = (if e = CHR 0x22 \<or> e = CHR 0x5C \<or> e = CHR ''/'' then Some e
     else if e = CHR ''n'' then Some CHR 0x0A else if e = CHR ''r'' then Some CHR 0x0D
     else if e = CHR ''t'' then Some CHR 0x09 else if e = CHR ''f'' then Some CHR 0x0C
     else if e = CHR ''b'' then Some CHR 0x08 else None)"

definition prepend :: "char \<Rightarrow> (string \<times> string) option \<Rightarrow> (string \<times> string) option" where
  "prepend c r = (case r of None \<Rightarrow> None | Some (s, rest) \<Rightarrow> Some (c # s, rest))"

text \<open>The characters of a string up to its closing quote.\<close>

function parse_string :: "string \<Rightarrow> (string \<times> string) option" where
  "parse_string [] = None"
| "parse_string (c # cs) =
     (if c = CHR 0x22 then Some ([], cs)
      else if c = CHR 0x5C then
        (case cs of [] \<Rightarrow> None
         | e # r \<Rightarrow>
             if e = CHR ''u'' then
               (case r of a1 # a2 # a3 # a4 # r' \<Rightarrow>
                   (case hex4 a1 a2 a3 a4 of None \<Rightarrow> None
                    | Some n \<Rightarrow> if n < 256 then prepend (char_of n) (parse_string r') else None)
                | _ \<Rightarrow> None)
             else (case unesc e of None \<Rightarrow> None | Some ch \<Rightarrow> prepend ch (parse_string r)))
      else if (of_char c :: nat) < 32 then None
      else prepend c (parse_string cs))"
  by pat_completeness auto
termination by (relation "measure length") auto

text \<open>A number: \<^verbatim>\<open>-?(0|[1-9][0-9]*)(.[0-9]+)?([eE][-+]?[0-9]+)?\<close>\<close>

definition int_part :: "string \<Rightarrow> string \<times> string" where
  "int_part s = (if starts_with ''0'' s then (''0'', drop 1 s) else (takeWhile is_digit s, dropWhile is_digit s))"

definition parse_number :: "string \<Rightarrow> (json \<times> string) option" where
  "parse_number s =
     (let (neg, r) = (if starts_with ''-'' s then (True, drop 1 s) else (False, s));
          (ip, r1) = int_part r;
          (fp, r2) = (let t = drop 1 r1 in
              if \<not> starts_with ''.'' r1 \<or> takeWhile is_digit t = [] then ([], r1) else (takeWhile is_digit t, dropWhile is_digit t));
          (ex, r3) = (case r2 of c # t \<Rightarrow>
              if c = CHR ''e'' \<or> c = CHR ''E'' then
                (let (eneg, t1) = take_sign t; ds = takeWhile is_digit t1
                 in if ds = [] then (None, r2) else (Some (if eneg then - digits_val ds else digits_val ds), dropWhile is_digit t1))
              else (None, r2) | [] \<Rightarrow> (None, r2));
          v = of_int (digits_val (ip @ fp)) * 10 powi ((case ex of None \<Rightarrow> 0 | Some e \<Rightarrow> e) - int (length fp));
          x = (if neg then - v else v)
      in if ip = [] then None
         else Some (JNum (if fp = [] \<and> ex = None then x else fl x), r3))"

definition literal :: "string \<Rightarrow> (json \<times> string) option" where
  "literal s = (if starts_with ''null'' s then Some (JNull, drop 4 s)
     else if starts_with ''true'' s then Some (JBool True, drop 4 s)
     else if starts_with ''false'' s then Some (JBool False, drop 5 s) else None)"

text \<open>
  Values. An object keeps the last value of a repeated key. The fuel bounds the nesting and the number of
  members together; the length of the text is enough, since every step reads at least one character.
\<close>

fun parse_value :: "nat \<Rightarrow> string \<Rightarrow> (json \<times> string) option"
  and parse_members :: "nat \<Rightarrow> (string, json) dict \<Rightarrow> string \<Rightarrow> (json \<times> string) option"
  and parse_items :: "nat \<Rightarrow> json list \<Rightarrow> string \<Rightarrow> (json \<times> string) option" where
  "parse_value 0 s = None"
| "parse_value (Suc n) s = (case s of [] \<Rightarrow> None
     | c # cs \<Rightarrow>
         if c = CHR 0x22 then map_option (\<lambda>(t, r). (JStr t, r)) (parse_string cs)
         else if c = CHR ''{'' then
           (case skip cs of [] \<Rightarrow> None | d # ds \<Rightarrow> if d = CHR ''}'' then Some (JObj [], ds) else parse_members n [] (d # ds))
         else if c = CHR ''['' then
           (case skip cs of [] \<Rightarrow> None | d # ds \<Rightarrow> if d = CHR '']'' then Some (JList [], ds) else parse_items n [] (d # ds))
         else (case literal s of Some r \<Rightarrow> Some r | None \<Rightarrow> parse_number s))"
| "parse_members 0 acc s = None"
| "parse_members (Suc n) acc s = (case s of [] \<Rightarrow> None
     | q # cs \<Rightarrow> if q \<noteq> CHR 0x22 then None
         else (case parse_string cs of None \<Rightarrow> None
           | Some (k, r) \<Rightarrow> (case skip r of [] \<Rightarrow> None
               | c # r1 \<Rightarrow> if c \<noteq> CHR '':'' then None
                   else (case parse_value n (skip r1) of None \<Rightarrow> None
                     | Some (v, r2) \<Rightarrow> (case skip r2 of [] \<Rightarrow> None
                         | d # r3 \<Rightarrow> if d = CHR ''}'' then Some (JObj (dset k v acc), r3)
                             else if d = CHR '','' then parse_members n (dset k v acc) (skip r3) else None)))))"
| "parse_items 0 acc s = None"
| "parse_items (Suc n) acc s = (case parse_value n s of None \<Rightarrow> None
     | Some (v, r) \<Rightarrow> (case skip r of [] \<Rightarrow> None
         | d # r1 \<Rightarrow> if d = CHR '']'' then Some (JList (acc @ [v]), r1)
             else if d = CHR '','' then parse_items n (acc @ [v]) (skip r1) else None))"

definition json_loads :: "string \<Rightarrow> exc + json" where
  "json_loads s = (case parse_value (Suc (length s)) (skip s) of
     Some (v, r) \<Rightarrow> if skip r = [] then Inr v else Inl ValueError | None \<Rightarrow> Inl ValueError)"

lemma json_loads_examples:
  "json_loads '' {} '' = Inr (JObj [])"
  "json_loads ''{''  = Inl ValueError"
  by code_simp+

lemma json_loads_numbers:
  "json_loads ''[1, null]'' = Inr (JList [JNum 1, JNull])"
  "json_loads ''01'' = Inl ValueError"
  by code_simp+

section \<open>What is written is read back\<close>

lemma hex_value_digit: "n < 16 \<Longrightarrow> hex_value (hex_digit n) = Some n"
  by (simp add: hex_value_def hex_digit_def Let_def)

lemma escaped_chars:
  "char_of (34 :: nat) = CHR 0x22" "char_of (92 :: nat) = CHR 0x5C" "char_of (10 :: nat) = CHR 0x0A" "char_of (13 :: nat) = CHR 0x0D"
  "char_of (9 :: nat) = CHR 0x09" "char_of (12 :: nat) = CHR 0x0C" "char_of (8 :: nat) = CHR 0x08"
  by code_simp+

lemma parse_esc: "parse_string (esc_char c @ r) = prepend c (parse_string r)"
proof -
  define n where "n = (of_char c :: nat)"
  have c: "c = char_of n" "n < 256" by (simp_all add: n_def)
  show ?thesis
  proof (cases "esc_char c = [c]")
    case True
    then have "c \<noteq> CHR 0x22" "c \<noteq> CHR 0x5C" "\<not> n < 32"
      by (auto simp: esc_char_def Let_def n_def split: if_splits)
    with True show ?thesis by (simp add: n_def)
  next
    case False
    have d: "n div 16 < 16" "n mod 16 < 16" using c(2) by simp_all
    have "hex4 (CHR ''0'') (CHR ''0'') (hex_digit (n div 16)) (hex_digit (n mod 16)) = Some (n div 16 * 16 + n mod 16)"
      by (simp add: hex4_def hex_value_digit d) (simp add: hex_value_def)
    then have h: "hex4 (CHR ''0'') (CHR ''0'') (hex_digit (n div 16)) (hex_digit (n mod 16)) = Some n" by simp
    consider "n = 34" | "n = 92" | "n = 10" | "n = 13" | "n = 9" | "n = 12" | "n = 8"
      | "esc_char c = [CHR 0x5C, CHR ''u'', CHR ''0'', CHR ''0'', hex_digit (n div 16), hex_digit (n mod 16)]"
      using False by (auto simp: esc_char_def Let_def n_def split: if_splits)
    then show ?thesis
    proof cases
      case 8
      then show ?thesis using h c by simp
    qed (simp_all add: esc_char_def unesc_def c(1) escaped_chars)
  qed
qed

lemma parse_string_dumps: "parse_string (concat (map esc_char s) @ CHR 0x22 # r) = Some (s, r)"
  by (induction s) (simp_all add: parse_esc prepend_def del: parse_string.simps(2), simp)

text \<open>\<open>reads m t v\<close>: the text \<open>t\<close> is read as the value \<open>v\<close> whatever follows it, with fuel \<open>m\<close> or more.\<close>

definition reads :: "nat \<Rightarrow> string \<Rightarrow> json \<Rightarrow> bool" where
  "reads m t v \<longleftrightarrow> t \<noteq> [] \<and> \<not> json_space (hd t) \<and> (\<forall>n \<ge> m. \<forall>r. parse_value n (t @ r) = Some (v, r))"

lemma reads_skip: "reads m t v \<Longrightarrow> skip (t @ r) = t @ r"
  by (cases t) (simp_all add: reads_def)

lemma reads_mono: "reads m t v \<Longrightarrow> m \<le> m' \<Longrightarrow> reads m' t v"
  by (auto simp: reads_def)

lemma quote_no_space [simp]: "\<not> json_space CHR 0x22"
  by (simp add: json_space_def)

lemma reads_str: "reads 1 (dumps_str s) (JStr s)"
  unfolding reads_def
proof (intro conjI allI impI)
  fix n :: nat and r assume "1 \<le> n"
  then obtain m where "n = Suc m" by (cases n) auto
  then show "parse_value n (dumps_str s @ r) = Some (JStr s, r)"
    by (simp add: dumps_str_def parse_string_dumps)
qed (simp_all add: dumps_str_def)

lemma key_read: "parse_string (concat (map esc_char k) @ CHR 0x22 # CHR '':'' # CHR '' '' # r) = Some (k, CHR '':'' # CHR '' '' # r)"
  by (rule parse_string_dumps)

lemma members_read:
  assumes "kvs \<noteq> []" and "\<forall>(k, t, v) \<in> set kvs. reads m t v" and "distinct (dkeys acc @ map fst kvs)"
  shows "m + length kvs \<le> n \<Longrightarrow>
    parse_members n acc (joined (map (\<lambda>(k, t, v). member_text (k, t)) kvs) @ CHR ''}'' # r) =
      Some (JObj (acc @ map (\<lambda>(k, t, v). (k, v)) kvs), r)"
  using assms
proof (induction kvs arbitrary: n acc)
  case (Cons kv kvs)
  obtain k t v where kv: "kv = (k, t, v)" by (cases kv)
  from Cons.prems(1) obtain n' where n: "n = Suc n'" "m + length kvs \<le> n'" by (cases n) auto
  have rd: "reads m t v" using Cons.prems(3) by (simp add: kv)
  have val: "parse_value n' (skip (t @ r')) = Some (v, r')" for r'
    using rd n(2) reads_skip [OF rd, of r'] by (simp add: reads_def)
  have new: "dset k v acc = acc @ [(k, v)]" using Cons.prems(4) by (intro dset_new) (auto simp: kv)
  show ?case
  proof (cases kvs)
    case Nil
    then show ?thesis
      by (simp add: n kv member_text_def dumps_str_def key_read) (simp add: json_space_def val new)
  next
    case (Cons kv' kvs')
    let ?rest = "joined (map (\<lambda>(k, t, v). member_text (k, t)) kvs) @ CHR ''}'' # r"
    have "hd ?rest = CHR 0x22" "?rest \<noteq> []"
      using Cons by (cases kv'; cases "map (\<lambda>(k, t, v). member_text (k, t)) kvs'"; simp add: member_text_def dumps_str_def)+
    then have sk: "skip (CHR '' '' # ?rest) = ?rest" by (cases ?rest) (simp_all add: json_space_def)
    have "parse_members n' (acc @ [(k, v)]) ?rest = Some (JObj ((acc @ [(k, v)]) @ map (\<lambda>(k, t, v). (k, v)) kvs), r)"
      using Cons.IH [of n' "acc @ [(k, v)]"] Cons.prems n(2) Cons by (auto simp: kv)
    moreover have "joined (map (\<lambda>(k, t, v). member_text (k, t)) (kv # kvs)) =
        CHR 0x22 # concat (map esc_char k) @ CHR 0x22 # CHR '':'' # CHR '' '' # t @ CHR '','' # CHR '' '' # joined (map (\<lambda>(k, t, v). member_text (k, t)) kvs)"
      using Cons by (simp add: kv member_text_def dumps_str_def)
    ultimately show ?thesis using sk
      by (simp add: n kv key_read) (simp add: json_space_def val new)
  qed
qed simp

lemma items_read:
  assumes "xs \<noteq> []"
  shows "1 + length xs \<le> n \<Longrightarrow> parse_items n acc (joined (map dumps_str xs) @ CHR '']'' # r) = Some (JList (acc @ map JStr xs), r)"
  using assms
proof (induction xs arbitrary: n acc)
  case (Cons x xs)
  from Cons.prems(1) obtain n' where n: "n = Suc n'" "1 + length xs \<le> n'" by (cases n) auto
  have val: "parse_value n' (dumps_str x @ r') = Some (JStr x, r')" for r'
    using reads_str [of x] n(2) by (simp add: reads_def)
  show ?case
  proof (cases xs)
    case Nil
    then show ?thesis by (simp add: n val json_space_def)
  next
    case (Cons x' xs')
    let ?rest = "joined (map dumps_str xs) @ CHR '']'' # r"
    have "hd ?rest = CHR 0x22" "?rest \<noteq> []"
      using Cons by (cases "map dumps_str xs'"; simp add: dumps_str_def)+
    then have sk: "skip (CHR '' '' # ?rest) = ?rest" by (cases ?rest) (simp_all add: json_space_def)
    have "parse_items n' (acc @ [JStr x]) ?rest = Some (JList ((acc @ [JStr x]) @ map JStr xs), r)"
      using Cons.IH [of n' "acc @ [JStr x]"] n(2) Cons by simp
    moreover have "joined (map dumps_str (x # xs)) = dumps_str x @ CHR '','' # CHR '' '' # joined (map dumps_str xs)"
      using Cons by simp
    ultimately show ?thesis using sk by (simp add: n val) (simp add: json_space_def)
  qed
qed simp

lemma joined_length: "(\<And>x. x \<in> set xs \<Longrightarrow> 1 \<le> length x) \<Longrightarrow> length xs \<le> length (joined xs)"
proof (induction xs rule: joined.induct)
  case (3 x y ys)
  then have "length (y # ys) \<le> length (joined (y # ys))" "1 \<le> length x" by auto
  then show ?case by simp
qed (auto simp: Suc_le_eq)

lemma dumps_str_length [simp]: "2 \<le> length (dumps_str s)" "1 \<le> length (dumps_str s)" "0 < length (dumps_str s)"
  by (simp_all add: dumps_str_def)

lemma reads_list: "reads (3 + length xs) (dumps_list xs) (JList (map JStr xs))"
  unfolding reads_def
proof (intro conjI allI impI)
  fix n :: nat and r assume "3 + length xs \<le> n"
  then obtain m where m: "n = Suc m" "1 + length xs \<le> m" by (cases n) auto
  show "parse_value n (dumps_list xs @ r) = Some (JList (map JStr xs), r)"
  proof (cases xs)
    case Nil
    then show ?thesis by (simp add: m dumps_list_def json_space_def)
  next
    case (Cons x xs')
    let ?t = "joined (map dumps_str xs) @ CHR '']'' # r"
    have "hd ?t = CHR 0x22" "?t \<noteq> []"
      using Cons by (cases "map dumps_str xs'"; simp add: dumps_str_def)+
    then obtain t where t: "?t = CHR 0x22 # t" by (cases ?t) auto
    have "parse_items m [] ?t = Some (JList (map JStr xs), r)"
      using items_read [of xs m "[]" r] m(2) Cons by simp
    then show ?thesis by (simp add: m dumps_list_def) (simp only: t, simp)
  qed
qed (simp_all add: dumps_list_def json_space_def)

text \<open>An object of members whose texts are read as their values is read as the object of these values.\<close>

lemma object_read:
  assumes "\<forall>(k, t, v) \<in> set kvs. reads m t v" and "distinct (map fst kvs)" and "m + length kvs \<le> length (dumps_obj (map (\<lambda>(k, t, v). (k, t)) kvs))"
  shows "json_loads (dumps_obj (map (\<lambda>(k, t, v). (k, t)) kvs)) = Inr (JObj (map (\<lambda>(k, t, v). (k, v)) kvs))"
proof (cases kvs)
  case Nil
  then show ?thesis by (simp add: dumps_obj_def json_loads_def json_space_def)
next
  case (Cons kv kvs')
  let ?o = "dumps_obj (map (\<lambda>(k, t, v). (k, t)) kvs)"
  let ?t = "joined (map (\<lambda>(k, t, v). member_text (k, t)) kvs) @ CHR ''}'' # []"
  have o: "?o = CHR ''{'' # ?t" by (simp add: dumps_obj_def comp_def case_prod_unfold)
  have "hd ?t = CHR 0x22" "?t \<noteq> []"
    using Cons by (cases kv; cases "map (\<lambda>(k, t, v). member_text (k, t)) kvs'"; simp add: member_text_def dumps_str_def)+
  then obtain t where t: "?t = CHR 0x22 # t" by (cases ?t) auto
  have "parse_members (length ?o) [] ?t = Some (JObj (map (\<lambda>(k, t, v). (k, v)) kvs), [])"
    using members_read [of kvs m "[]" "length ?o" "[]"] assms Cons by simp
  then have "parse_value (Suc (length ?o)) ?o = Some (JObj (map (\<lambda>(k, t, v). (k, v)) kvs), [])"
    by (simp add: o t)
  moreover have "skip ?o = ?o" by (simp add: o json_space_def)
  ultimately show ?thesis by (simp add: json_loads_def)
qed

lemma string_object_read:
  assumes "distinct (map fst kvs)"
  shows "json_loads (dumps_obj (map (\<lambda>(k, s). (k, dumps_str s)) kvs)) = Inr (JObj (map (\<lambda>(k, s). (k, JStr s)) kvs))"
proof -
  let ?f = "\<lambda>(k, s). (k, dumps_str s, JStr s)"
  have f: "map (\<lambda>(k, t, v). (k, t)) (map ?f kvs) = map (\<lambda>(k, s). (k, dumps_str s)) kvs"
    "map (\<lambda>(k, t, v). (k, v)) (map ?f kvs) = map (\<lambda>(k, s). (k, JStr s)) kvs" "map fst (map ?f kvs) = map fst kvs"
    by (auto simp: case_prod_unfold)
  have "length kvs \<le> length (joined (map member_text (map (\<lambda>(k, s). (k, dumps_str s)) kvs)))"
    using joined_length [of "map member_text (map (\<lambda>(k, s). (k, dumps_str s)) kvs)"]
    by (force simp: member_text_def dumps_str_def)
  then have "1 + length (map ?f kvs) \<le> length (dumps_obj (map (\<lambda>(k, t, v). (k, t)) (map ?f kvs)))"
    unfolding f by (simp add: dumps_obj_def)
  then have "json_loads (dumps_obj (map (\<lambda>(k, t, v). (k, t)) (map ?f kvs))) = Inr (JObj (map (\<lambda>(k, t, v). (k, v)) (map ?f kvs)))"
    using assms by (intro object_read [where m = 1]) (auto simp: comp_def case_prod_unfold reads_str [simplified])
  then show ?thesis by (simp only: f)
qed

end
