(* ===== verification/Session.thy ===== *)
theory Session
  imports Clients JsonText
begin

text \<open>
  The accounting of a session: the balance snapshot and the session record of \<^verbatim>\<open>backend/accounting\<close>, the
  start-up check of \<^verbatim>\<open>backend/domain/startup_guard.py\<close>, and the tables of \<^verbatim>\<open>balance_store.py\<close>,
  \<^verbatim>\<open>checkpoint_store.py\<close> and \<^verbatim>\<open>migrations.py\<close> in \<^verbatim>\<open>backend/persistence\<close>.

  As in the other stores a time column holds the instant its ISO text denotes, and a table is the list
  of its rows in the order of their row ids.
\<close>

section \<open>Balance snapshots\<close>

record BalanceSnapshot =
  bs_total :: flt
  bs_available :: flt
  bs_fetched_at :: usec

definition from_api_response :: "usec \<Rightarrow> json \<Rightarrow> exc + BalanceSnapshot" where
  "from_api_response now data =
     bind_exc (jget data ''balance'' (JStr ''0'')) (\<lambda>b. bind_exc (py_float b) (\<lambda>t.
     bind_exc (jget data ''available'' (JStr ''0'')) (\<lambda>a. bind_exc (py_float a) (\<lambda>av.
       Inr \<lparr>bs_total = t, bs_available = av, bs_fetched_at = now\<rparr>))))"

section \<open>The start-up guard\<close>

datatype StartupStatus = SU_PASSED | SU_FAILED | SU_NOT_RUN

record StartupResult =
  sr_status :: StartupStatus
  sr_balance :: "BalanceSnapshot option"
  sr_trading_allowed :: bool
  sr_critical_incidents :: nat
  sr_checked_at :: usec

record StartupGuard =
  sg_client :: BaseClient
  sg_result :: StartupResult

definition new_guard :: "usec \<Rightarrow> BaseClient \<Rightarrow> StartupGuard" where
  "new_guard now c = \<lparr>sg_client = c, sg_result = \<lparr>sr_status = SU_NOT_RUN, sr_balance = None, sr_trading_allowed = False,
     sr_critical_incidents = 0, sr_checked_at = now\<rparr>\<rparr>"

text \<open>\<open>body\<close>: the JSON value of the response, or the exception that reading it raises.\<close>

definition fetch_balance_snapshot :: "attempt_env \<Rightarrow> exc + json \<Rightarrow> usec \<Rightarrow> BaseClient \<Rightarrow> BaseClient \<times> BalanceSnapshot option" where
  "fetch_balance_snapshot env body now c = (case request env c of
       (c', hs, ws, Inl e) \<Rightarrow> (c', None)
     | (c', hs, ws, Inr st) \<Rightarrow> (c', case bind_exc body (from_api_response now) of Inl _ \<Rightarrow> None | Inr b \<Rightarrow> Some b))"

definition guard_run :: "CredentialStore \<Rightarrow> attempt_env \<Rightarrow> exc + json \<Rightarrow> usec \<Rightarrow> usec \<Rightarrow> StartupGuard \<Rightarrow> StartupGuard \<times> StartupResult" where
  "guard_run store env body now checked g =
     (let (c, balance) = (if \<not> has_trading_credentials (s_credentials store) then (sg_client g, None)
            else fetch_balance_snapshot env body now (sg_client g));
          incidents = (if balance = None then 1 else 0);
          trading_allowed = (balance \<noteq> None \<and> incidents = 0);
          r = \<lparr>sr_status = (if trading_allowed then SU_PASSED else SU_FAILED), sr_balance = balance,
            sr_trading_allowed = trading_allowed, sr_critical_incidents = incidents, sr_checked_at = checked\<rparr>
      in (\<lparr>sg_client = c, sg_result = r\<rparr>, r))"

definition is_trading_allowed :: "StartupGuard \<Rightarrow> bool" where
  "is_trading_allowed g = sr_trading_allowed (sg_result g)"

section \<open>Sessions\<close>

datatype SessionStatus = SS_ACTIVE | SS_FAILED_START

definition session_status_value :: "SessionStatus \<Rightarrow> string" where
  "session_status_value s = (case s of SS_ACTIVE \<Rightarrow> ''active'' | SS_FAILED_START \<Rightarrow> ''failed_start'')"

definition session_status_of :: "string \<Rightarrow> exc + SessionStatus" where
  "session_status_of t = (if t = ''active'' then Inr SS_ACTIVE else if t = ''failed_start'' then Inr SS_FAILED_START else Inl ValueError)"

record SessionAccounting =
  sa_session_id :: string
  sa_start_balance :: flt
  sa_available_balance :: flt
  sa_started_at :: usec
  sa_status :: SessionStatus
  sa_balance_fetched_at :: usec

definition from_balance_snapshot :: "string \<Rightarrow> usec \<Rightarrow> BalanceSnapshot \<Rightarrow> SessionAccounting" where
  "from_balance_snapshot uuid now b = \<lparr>sa_session_id = uuid, sa_start_balance = bs_total b, sa_available_balance = bs_available b,
     sa_started_at = now, sa_status = SS_ACTIVE, sa_balance_fetched_at = bs_fetched_at b\<rparr>"

text \<open>The dictionary that is written as JSON and read back.\<close>

record SessionDict =
  sd_session_id :: string
  sd_start_balance :: flt
  sd_available_balance :: flt
  sd_started_at :: usec
  sd_status :: string
  sd_balance_fetched_at :: usec

definition session_to_dict :: "SessionAccounting \<Rightarrow> SessionDict" where
  "session_to_dict s = \<lparr>sd_session_id = sa_session_id s, sd_start_balance = sa_start_balance s,
     sd_available_balance = sa_available_balance s, sd_started_at = sa_started_at s,
     sd_status = session_status_value (sa_status s), sd_balance_fetched_at = sa_balance_fetched_at s\<rparr>"

definition session_from_dict :: "SessionDict \<Rightarrow> exc + SessionAccounting" where
  "session_from_dict d = bind_exc (session_status_of (sd_status d)) (\<lambda>st.
     Inr \<lparr>sa_session_id = sd_session_id d, sa_start_balance = sd_start_balance d, sa_available_balance = sd_available_balance d,
       sa_started_at = sd_started_at d, sa_status = st, sa_balance_fetched_at = sd_balance_fetched_at d\<rparr>)"

record SessionRow =
  sw_session_id :: string
  sw_data :: SessionDict
  sw_created_at :: usec

record SessionManager =
  sm_db :: "SessionRow list"
  sm_current :: "SessionAccounting option"

definition has_active_session :: "SessionManager \<Rightarrow> bool" where
  "has_active_session m = (case sm_current m of None \<Rightarrow> False | Some s \<Rightarrow> sa_status s = SS_ACTIVE)"

definition create_session :: "string \<Rightarrow> usec \<Rightarrow> BalanceSnapshot \<Rightarrow> SessionManager \<Rightarrow> (SessionManager, SessionAccounting) outcome" where
  "create_session uuid now b m =
     (if has_active_session m then (m, Inl DuplicateSessionError)
      else (let s = from_balance_snapshot uuid now b in (m\<lparr>sm_current := Some s\<rparr>, Inr s)))"

definition save_session :: "SessionManager \<Rightarrow> (SessionManager, unit) outcome" where
  "save_session m = (case sm_current m of None \<Rightarrow> (m, Inl RuntimeError)
     | Some s \<Rightarrow> (let d = session_to_dict s;
           rows = filter (\<lambda>r. sw_session_id r \<noteq> sd_session_id d) (sm_db m)
         in (m\<lparr>sm_db := rows @ [\<lparr>sw_session_id = sd_session_id d, sw_data = d, sw_created_at = sd_started_at d\<rparr>]\<rparr>, Inr ())))"

text \<open>A row with the latest start; which of several is not determined by the query, here the first.\<close>

fun latest_row :: "SessionRow list \<Rightarrow> SessionRow option" where
  "latest_row [] = None"
| "latest_row (r # rs) = (case latest_row rs of None \<Rightarrow> Some r
     | Some q \<Rightarrow> if sw_created_at r < sw_created_at q then Some q else Some r)"

definition load_latest_session :: "SessionManager \<Rightarrow> (SessionManager, SessionAccounting option) outcome" where
  "load_latest_session m = (case latest_row (sm_db m) of None \<Rightarrow> (m, Inr None)
     | Some r \<Rightarrow> (case session_from_dict (sw_data r) of Inl e \<Rightarrow> (m, Inl e)
         | Inr s \<Rightarrow> (m\<lparr>sm_current := Some s\<rparr>, Inr (Some s))))"

section \<open>Balance history\<close>

record BalanceRow =
  br_id :: nat
  br_total_balance :: flt
  br_available_balance :: flt
  br_fetched_at :: usec
  br_session_id :: "string option"
  br_created_at :: usec

text \<open>A NaN is stored as NULL, which the columns refuse. \<open>now\<close> is the clock of the database.\<close>

definition save_balance_snapshot :: "usec \<Rightarrow> flt \<Rightarrow> flt \<Rightarrow> usec \<Rightarrow> string option \<Rightarrow> BalanceRow list \<Rightarrow> (BalanceRow list, nat) outcome" where
  "save_balance_snapshot now tot available fetched sid db =
     (if tot = NaN \<or> available = NaN then (db, Inl RuntimeError)
      else (let n = (if db = [] then 1 else Suc (br_id (last db))) in
        (db @ [\<lparr>br_id = n, br_total_balance = tot, br_available_balance = available, br_fetched_at = fetched,
           br_session_id = sid, br_created_at = now\<rparr>], Inr n)))"

definition load_latest_balance_snapshot :: "BalanceRow list \<Rightarrow> BalanceRow option" where
  "load_latest_balance_snapshot db = (if db = [] then None else Some (last db))"

definition load_balance_snapshots_by_session :: "string \<Rightarrow> BalanceRow list \<Rightarrow> BalanceRow list" where
  "load_balance_snapshots_by_session sid db = sort_key br_created_at (filter (\<lambda>r. br_session_id r = Some sid) db)"

section \<open>Discovery checkpoints\<close>

record CheckpointRow =
  ck_id :: nat
  ck_scan_data_json :: string
  ck_total_scanned :: int
  ck_total_matched :: int
  ck_parse_failures :: int
  ck_success :: int
  ck_scanned_at :: usec

definition save_discovery_checkpoint :: "int \<Rightarrow> int \<Rightarrow> int \<Rightarrow> bool \<Rightarrow> string list \<Rightarrow> usec option \<Rightarrow> usec \<Rightarrow> CheckpointRow list \<Rightarrow> CheckpointRow list \<times> nat" where
  "save_discovery_checkpoint scanned matched failures success ids scanned_at now db =
     (let n = (if db = [] then 1 else Suc (ck_id (last db))) in
      (db @ [\<lparr>ck_id = n, ck_scan_data_json = dumps_obj [(''matched_condition_ids'', dumps_list ids)], ck_total_scanned = scanned,
         ck_total_matched = matched, ck_parse_failures = failures, ck_success = (if success then 1 else 0),
         ck_scanned_at = (case scanned_at of None \<Rightarrow> now | Some t \<Rightarrow> t)\<rparr>], n))"

record Checkpoint =
  cp_id :: nat
  cp_scan_data :: json
  cp_total_scanned :: int
  cp_total_matched :: int
  cp_parse_failures :: int
  cp_success :: bool
  cp_scanned_at :: usec

definition load_latest_checkpoint :: "CheckpointRow list \<Rightarrow> exc + Checkpoint option" where
  "load_latest_checkpoint db = (if db = [] then Inr None
     else (let r = last db in bind_exc (json_loads (ck_scan_data_json r)) (\<lambda>j.
       Inr (Some \<lparr>cp_id = ck_id r, cp_scan_data = j, cp_total_scanned = ck_total_scanned r, cp_total_matched = ck_total_matched r,
         cp_parse_failures = ck_parse_failures r, cp_success = (ck_success r \<noteq> 0), cp_scanned_at = ck_scanned_at r\<rparr>))))"

section \<open>Migrations\<close>

text \<open>
  The stems of the migration files in the order of their names, and the versions the database has recorded
  (\<open>None\<close>: there is no table yet). Running a script is a parameter: it may fail and leaves the table there.
\<close>

definition stem_version :: "string \<Rightarrow> exc + int" where
  "stem_version stem = json_int (JStr (takeWhile (\<lambda>c. c \<noteq> CHR ''_'') stem))"

definition get_current_version :: "int list option \<Rightarrow> int" where
  "get_current_version db = (case db of None \<Rightarrow> 0 | Some [] \<Rightarrow> 0 | Some vs \<Rightarrow> Max (set vs))"

fun apply_migrations :: "(string \<Rightarrow> bool) \<Rightarrow> int \<Rightarrow> string list \<Rightarrow> int list option \<Rightarrow> (int list option, int list) outcome" where
  "apply_migrations runs current [] db = (db, Inr [])"
| "apply_migrations runs current (f # fs) db = (case stem_version f of Inl e \<Rightarrow> (db, Inl e)
     | Inr v \<Rightarrow>
         if v \<le> current then apply_migrations runs current fs db
         else if \<not> runs f then (db, Inl RuntimeError)
         else (let vs = (case db of None \<Rightarrow> [] | Some vs \<Rightarrow> vs) in
           if v \<in> set vs then (Some vs, Inl RuntimeError)
           else ebind (apply_migrations runs current fs (Some (vs @ [v]))) (\<lambda>db' applied. (db', Inr (v # applied)))))"

definition run_migrations :: "(string \<Rightarrow> bool) \<Rightarrow> string list \<Rightarrow> int list option \<Rightarrow> (int list option, int list) outcome" where
  "run_migrations runs files db = (if files = [] then (db, Inr []) else apply_migrations runs (get_current_version db) files db)"

section \<open>Results\<close>

text \<open>The start-up guard allows trading exactly when the trading credentials are there, one of the first
  \<open>retry_max\<close> attempts is answered with success after failures that are tried again only, and the answer
  parses as a balance; otherwise there is a critical incident and no balance.\<close>

theorem guard_exact:
  assumes "guard_run store env body now checked g = (g', r)" and "get_client (fst (env 1)) (sg_client g) = (c1, Inr h)"
    and "1 \<le> bc_retry_max (sg_client g)"
    and "k = 1 + length (takeWhile (\<lambda>i. retried (snd (env i))) [1..<nat (bc_retry_max (sg_client g))])"
  shows "(is_trading_allowed g' \<longleftrightarrow> has_trading_credentials (s_credentials store) \<and>
      attempt_error (source_name (bc_kind (sg_client g))) (snd (env k)) = None \<and> (\<exists>b. bind_exc body (from_api_response now) = Inr b)) \<and>
    (is_trading_allowed g' \<longleftrightarrow> sr_balance r \<noteq> None) \<and> sr_critical_incidents r = (if is_trading_allowed g' then 0 else 1)"
proof -
  have "fetch_balance_snapshot env body now (sg_client g) =
      (c1, if attempt_error (source_name (bc_kind (sg_client g))) (snd (env k)) = None
        then (case bind_exc body (from_api_response now) of Inl _ \<Rightarrow> None | Inr b \<Rightarrow> Some b) else None)"
    unfolding fetch_balance_snapshot_def request_exact_lemma [OF assms(2,3,4)] by (simp add: outcome_of_def split: option.split)
  then show ?thesis
    using assms(1) by (auto simp: guard_run_def is_trading_allowed_def Let_def split: sum.splits if_splits)
qed

lemma status_value_of [simp]: "session_status_of (session_status_value s) = Inr s"
  by (cases s) (simp_all add: session_status_of_def session_status_value_def)

lemma session_dict [simp]: "session_from_dict (session_to_dict s) = Inr s"
  by (simp add: session_from_dict_def session_to_dict_def bind_exc_def)

lemma latest_row_append: "(\<And>r. r \<in> set rs \<Longrightarrow> sw_created_at r < sw_created_at q) \<Longrightarrow> latest_row (rs @ [q]) = Some q"
  by (induction rs) (simp_all split: option.split)

text \<open>A session that is created after all stored ones and saved is the one a new manager loads, with every field;
  and while it is active, before and after, no other session can be created.\<close>

theorem session_roundtrip:
  assumes "create_session uuid now b m = (m1, Inr s)" and "save_session m1 = (m2, Inr ())"
    and "load_latest_session \<lparr>sm_db = sm_db m2, sm_current = None\<rparr> = (m3, r)"
    and "\<And>q. q \<in> set (sm_db m) \<Longrightarrow> sw_session_id q \<noteq> uuid \<Longrightarrow> sw_created_at q < now"
  shows "r = Inr (Some s) \<and> sa_start_balance s = bs_total b \<and> sm_current m3 = Some s \<and>
    create_session uuid' now' b' m2 = (m2, Inl DuplicateSessionError) \<and>
    create_session uuid' now' b' m3 = (m3, Inl DuplicateSessionError)"
proof -
  have s: "s = from_balance_snapshot uuid now b" "m1 = m\<lparr>sm_current := Some s\<rparr>"
    using assms(1) by (auto simp: create_session_def Let_def split: if_splits)
  define row where "row = \<lparr>sw_session_id = sa_session_id s, sw_data = session_to_dict s, sw_created_at = sa_started_at s\<rparr>"
  have m2: "m2 = m\<lparr>sm_current := Some s, sm_db := filter (\<lambda>r. sw_session_id r \<noteq> uuid) (sm_db m) @ [row]\<rparr>"
    using assms(2) s by (auto simp: save_session_def Let_def session_to_dict_def row_def from_balance_snapshot_def)
  have "latest_row (sm_db m2) = Some row"
    using latest_row_append [of "filter (\<lambda>r. sw_session_id r \<noteq> uuid) (sm_db m)" row] assms(4)
    by (simp add: m2 row_def s(1) from_balance_snapshot_def)
  then have "r = Inr (Some s)" "m3 = \<lparr>sm_db = sm_db m2, sm_current = Some s\<rparr>"
    using assms(3) by (auto simp: load_latest_session_def row_def)
  then show ?thesis
    by (simp add: m2 create_session_def has_active_session_def s(1) from_balance_snapshot_def)
qed

text \<open>The checkpoint loaded after a save is the one saved: the condition ids come back through their JSON text
  unchanged, whatever characters they hold, with the counts and the time of the scan.\<close>

theorem checkpoint_roundtrip:
  assumes "save_discovery_checkpoint scanned matched failures success ids (Some t) now db = (db', n)"
  shows "load_latest_checkpoint db' = Inr (Some \<lparr>cp_id = n, cp_scan_data = JObj [(''matched_condition_ids'', JList (map JStr ids))],
    cp_total_scanned = scanned, cp_total_matched = matched, cp_parse_failures = failures, cp_success = success, cp_scanned_at = t\<rparr>)"
proof -
  let ?kvs = "[(''matched_condition_ids'', dumps_list ids, JList (map JStr ids))]"
  have "length (map dumps_str ids) \<le> length (joined (map dumps_str ids))"
    by (rule joined_length) (auto simp: dumps_str_def)
  then have "3 + length ids + length ?kvs \<le> length (dumps_obj (map (\<lambda>(k, t, v). (k, t)) ?kvs))"
    by (simp add: dumps_obj_def member_text_def dumps_str_def dumps_list_def)
  then have "json_loads (dumps_obj (map (\<lambda>(k, t, v). (k, t)) ?kvs)) = Inr (JObj (map (\<lambda>(k, t, v). (k, v)) ?kvs))"
    by (intro object_read [where m = "3 + length ids"]) (auto simp: reads_list)
  then show ?thesis
    using assms by (auto simp: save_discovery_checkpoint_def load_latest_checkpoint_def Let_def bind_exc_def)
qed

lemma apply_migrations_effect:
  "apply_migrations runs current fs db = (db', Inr vs) \<Longrightarrow>
     (\<forall>f \<in> set fs. \<exists>v. stem_version f = Inr v \<and> (v \<le> current \<or> v \<in> set vs)) \<and> (\<forall>v \<in> set vs. current < v) \<and>
     (if vs = [] then db' = db else db' = Some ((case db of None \<Rightarrow> [] | Some xs \<Rightarrow> xs) @ vs))"
proof (induction fs arbitrary: db db' vs)
  case (Cons f fs)
  from Cons.prems obtain v where v: "stem_version f = Inr v" by (auto split: sum.splits)
  show ?case
  proof (cases "v \<le> current")
    case True
    with Cons v show ?thesis by auto
  next
    case False
    let ?xs = "case db of None \<Rightarrow> [] | Some xs \<Rightarrow> xs"
    from Cons.prems v False obtain ws where
      ws: "apply_migrations runs current fs (Some (?xs @ [v])) = (db', Inr ws)" "vs = v # ws"
      by (auto simp: Let_def ebind_Inr_iff split: if_splits)
    from Cons.IH [OF ws(1)] ws(2) v False show ?thesis by (auto split: if_splits)
  qed
qed simp

lemma apply_migrations_none:
  "\<forall>f \<in> set fs. \<exists>v. stem_version f = Inr v \<and> v \<le> current \<Longrightarrow> apply_migrations runs current fs db = (db, Inr [])"
  by (induction fs) auto

text \<open>Migrations run once: after a start-up that applied them, with whatever versions the database had before, every
  later start-up applies none and leaves the database as it is.\<close>

theorem migrations_idempotent:
  assumes "run_migrations runs files db = (db', Inr vs)"
  shows "run_migrations runs' files db' = (db', Inr []) \<and> (\<forall>v \<in> set vs. get_current_version db < v)"
proof (cases "files = []")
  case False
  then have run: "apply_migrations runs (get_current_version db) files db = (db', Inr vs)"
    using assms by (simp add: run_migrations_def)
  note eff = apply_migrations_effect [OF run]
  have "v \<le> get_current_version db'" if "v \<le> get_current_version db \<or> v \<in> set vs" for v
  proof (cases "vs = []")
    case True
    with eff that show ?thesis by auto
  next
    case nonempty: False
    let ?xs = "case db of None \<Rightarrow> [] | Some xs \<Rightarrow> xs"
    have db': "get_current_version db' = Max (set (?xs @ vs))"
    proof -
      obtain y ys where "?xs @ vs = y # ys" using nonempty by (cases "?xs @ vs") auto
      moreover have "db' = Some (?xs @ vs)" using eff nonempty by simp
      ultimately show ?thesis by (simp add: get_current_version_def)
    qed
    have upper: "u \<in> set (?xs @ vs) \<Longrightarrow> u \<le> get_current_version db'" for u
      unfolding db' by (rule Max_ge [OF finite_set])
    have "get_current_version db \<le> get_current_version db'"
    proof (cases "?xs = []")
      case True
      obtain u where "u \<in> set vs" using nonempty by (cases vs) auto
      with eff upper [of u] show ?thesis by fastforce
    next
      case False
      then have "get_current_version db = Max (set ?xs)"
        by (auto simp: get_current_version_def split: option.splits list.splits)
      moreover have "Max (set ?xs) \<in> set ?xs" using False by (intro Max_in) (simp_all only: finite_set set_empty not_False_eq_True)
      ultimately have "get_current_version db \<in> set (?xs @ vs)" by (metis Un_iff set_append)
      then show ?thesis by (rule upper)
    qed
    with that upper [of v] show ?thesis by auto
  qed
  then have "apply_migrations runs' (get_current_version db') files db' = (db', Inr [])"
    using eff by (intro apply_migrations_none) blast
  then show ?thesis using eff False by (simp add: run_migrations_def)
qed (use assms in \<open>simp add: run_migrations_def\<close>)

section \<open>Witnesses\<close>

theorem guard_exact_witness:
  "\<not> is_trading_allowed (fst (guard_run (store_load_credentials example_credentials new_store) example_replies (Inr (JList [])) 5 6
      (new_guard 0 (new_client PublicMarket 3))))"
proof -
  let ?store = "store_load_credentials example_credentials new_store" and ?g = "new_guard 0 (new_client PublicMarket 3)"
  obtain g' r where run: "guard_run ?store example_replies (Inr (JList [])) 5 6 ?g = (g', r)" by fastforce
  have "get_client (fst (example_replies 1)) (sg_client ?g) = ((new_client PublicMarket 3)\<lparr>bc_client := Some base_headers\<rparr>, Inr base_headers)"
    by (simp add: get_client_def new_client_def build_headers_def new_guard_def)
  moreover have "1 \<le> bc_retry_max (sg_client ?g)" by (simp add: new_guard_def new_client_def)
  ultimately have "is_trading_allowed g' \<longrightarrow> (\<exists>b. bind_exc (Inr (JList [])) (from_api_response 5) = Inr b)"
    using guard_exact [OF run] by blast
  then show ?thesis by (simp add: run from_api_response_def bind_exc_def)
qed

theorem session_roundtrip_witness:
  "snd (load_latest_session \<lparr>sm_db = sm_db (fst (save_session (fst (create_session ''u'' 9
      \<lparr>bs_total = Fin 10, bs_available = Fin 8, bs_fetched_at = 8\<rparr> \<lparr>sm_db = [], sm_current = None\<rparr>)))), sm_current = None\<rparr>) =
   Inr (Some (from_balance_snapshot ''u'' 9 \<lparr>bs_total = Fin 10, bs_available = Fin 8, bs_fetched_at = 8\<rparr>))"
proof -
  let ?b = "\<lparr>bs_total = Fin 10, bs_available = Fin 8, bs_fetched_at = 8\<rparr>"
  let ?m1 = "\<lparr>sm_db = [], sm_current = Some (from_balance_snapshot ''u'' 9 ?b)\<rparr>"
  have create: "create_session ''u'' 9 ?b \<lparr>sm_db = [], sm_current = None\<rparr> = (?m1, Inr (from_balance_snapshot ''u'' 9 ?b))"
    by (simp add: create_session_def has_active_session_def Let_def)
  obtain m2 where save: "save_session ?m1 = (m2, Inr ())" by (simp add: save_session_def Let_def)
  obtain m3 r where load: "load_latest_session \<lparr>sm_db = sm_db m2, sm_current = None\<rparr> = (m3, r)" by fastforce
  have "r = Inr (Some (from_balance_snapshot ''u'' 9 ?b))"
    using session_roundtrip [OF create save load] by simp
  then show ?thesis by (simp only: create save load fst_conv snd_conv)
qed

theorem checkpoint_roundtrip_witness:
  "load_latest_checkpoint (fst (save_discovery_checkpoint 4 1 0 True [''a'' @ [CHR 0x22]] (Some 7) 8 [])) =
     Inr (Some \<lparr>cp_id = 1, cp_scan_data = JObj [(''matched_condition_ids'', JList [JStr (''a'' @ [CHR 0x22])])],
       cp_total_scanned = 4, cp_total_matched = 1, cp_parse_failures = 0, cp_success = True, cp_scanned_at = 7\<rparr>)"
proof -
  obtain db' where save: "save_discovery_checkpoint 4 1 0 True [''a'' @ [CHR 0x22]] (Some 7) 8 [] = (db', 1)"
    by (simp add: save_discovery_checkpoint_def)
  from checkpoint_roundtrip [OF save] show ?thesis by (simp only: save fst_conv list.map)
qed

lemma example_migrated: "run_migrations (\<lambda>_. True) [''001_initial'', ''002_session''] None = (Some [1, 2], Inr [1, 2])"
  by code_simp

theorem migrations_idempotent_witness:
  "run_migrations (\<lambda>_. False) [''001_initial'', ''002_session''] (fst (run_migrations (\<lambda>_. True) [''001_initial'', ''002_session''] None)) =
     (Some [1, 2], Inr [])"
  using migrations_idempotent [OF example_migrated, of "\<lambda>_. False"] by (simp add: example_migrated)

end
