(* ===== verification/Credential.thy ===== *)
theory Credential
  imports Control Clients JsonText
begin

text \<open>
  Saving, loading, updating and checking the credentials: \<^verbatim>\<open>backend/persistence/credential_persistence.py\<close> and
  \<^verbatim>\<open>backend/api/credential.py\<close>.

  The cipher, the key derivation, the derivation of a wallet address and of API keys and the exchange
  SDK are parameters. Messages shown to the user are left out.
\<close>

section \<open>The encrypted file\<close>

definition KEY_NAMESPACE :: string where "KEY_NAMESPACE = ''polyfast-credential-v1''"

text \<open>The host name, the login name (or none when it cannot be read) and the two environment variables.\<close>

record Machine =
  mc_node :: string
  mc_login :: "string option"
  mc_username :: "string option"
  mc_user :: "string option"

definition or_text :: "string option \<Rightarrow> string \<Rightarrow> string" where
  "or_text v d = (case v of None \<Rightarrow> d | Some s \<Rightarrow> if s = [] then d else s)"

definition get_machine_identity :: "Machine \<Rightarrow> string" where
  "get_machine_identity m =
     (let hostname = (if mc_node m = [] then ''unknown-host'' else mc_node m);
          username = (case mc_login m of Some u \<Rightarrow> u | None \<Rightarrow> or_text (mc_username m) (or_text (mc_user m) ''unknown-user''))
      in hostname @ ''|'' @ username @ ''|'' @ KEY_NAMESPACE)"

definition credentials_to_json :: "Credentials \<Rightarrow> string" where
  "credentials_to_json c = dumps_obj (map (\<lambda>(k, s). (k, dumps_str s))
     [(''api_key'', c_api_key c), (''api_secret'', c_api_secret c), (''api_passphrase'', c_api_passphrase c),
      (''private_key'', c_private_key c), (''funder_address'', c_funder_address c), (''relayer_key'', c_relayer_key c)])"

text \<open>A field that is not a text would be kept as it is; the files hold texts only, and the model refuses it.\<close>

definition text_field :: "json \<Rightarrow> string \<Rightarrow> exc + string" where
  "text_field d k = bind_exc (jget d k (JStr [])) (\<lambda>v. case v of JStr s \<Rightarrow> Inr s | _ \<Rightarrow> Inl TypeError)"

definition json_to_credentials :: "string \<Rightarrow> exc + Credentials" where
  "json_to_credentials s =
     bind_exc (json_loads s) (\<lambda>d.
     bind_exc (text_field d ''api_key'') (\<lambda>a.
     bind_exc (text_field d ''api_secret'') (\<lambda>b.
     bind_exc (text_field d ''api_passphrase'') (\<lambda>p.
     bind_exc (text_field d ''private_key'') (\<lambda>k.
     bind_exc (text_field d ''funder_address'') (\<lambda>f.
     bind_exc (text_field d ''relayer_key'') (\<lambda>r.
       Inr \<lparr>c_api_key = a, c_api_secret = b, c_api_passphrase = p, c_private_key = k, c_funder_address = f, c_relayer_key = r\<rparr>)))))))"

text \<open>
  The cipher (\<^verbatim>\<open>Fernet\<close>): encryption takes a fresh nonce, decryption fails on a token of another key. The
  file system may refuse the write.
\<close>

record ('k, 't) Cipher =
  ci_derive :: "string \<Rightarrow> 'k"
  ci_encrypt :: "'k \<Rightarrow> nat \<Rightarrow> string \<Rightarrow> 't"
  ci_decrypt :: "'k \<Rightarrow> 't \<Rightarrow> string option"

definition save_encrypted :: "('k, 't) Cipher \<Rightarrow> Machine \<Rightarrow> nat \<Rightarrow> bool \<Rightarrow> Credentials \<Rightarrow> 't option \<Rightarrow> 't option \<times> bool" where
  "save_encrypted ci m nonce writable c file =
     (if writable then (Some (ci_encrypt ci (ci_derive ci (get_machine_identity m)) nonce (credentials_to_json c)), True)
      else (file, False))"

definition load_encrypted :: "('k, 't) Cipher \<Rightarrow> Machine \<Rightarrow> 't option \<Rightarrow> Credentials option" where
  "load_encrypted ci m file = (case file of None \<Rightarrow> None
     | Some t \<Rightarrow> (case ci_decrypt ci (ci_derive ci (get_machine_identity m)) t of None \<Rightarrow> None
         | Some plaintext \<Rightarrow> (case json_to_credentials plaintext of Inl _ \<Rightarrow> None | Inr c \<Rightarrow> Some c)))"

definition has_encrypted_file :: "'t option \<Rightarrow> bool" where
  "has_encrypted_file file \<longleftrightarrow> file \<noteq> None"

section \<open>Updating\<close>

record CredentialUpdateRequest =
  cu_private_key :: "string option"
  cu_relayer_key :: "string option"

record CredentialUpdateResponse =
  ur_has_trading_api :: bool
  ur_has_signing :: bool
  ur_has_relayer :: bool
  ur_can_place_orders :: bool
  ur_can_auto_claim :: bool
  ur_is_fully_ready :: bool
  ur_validated :: bool
  ur_validation_status :: string
  ur_missing_fields :: "string list"

definition compute_missing_input :: "string \<Rightarrow> string \<Rightarrow> string list" where
  "compute_missing_input pk rk = (if pk = [] then [''private_key''] else []) @ (if rk = [] then [''relayer_key''] else [])"

definition build_response :: "Credentials \<Rightarrow> string list \<Rightarrow> CredentialUpdateResponse" where
  "build_response c missing =
     (let has_trading_api = has_trading_credentials c; has_signing = has_signing_credentials c; has_relayer = has_relayer_credentials c;
          can_place_orders = has_trading_api \<and> has_signing
      in \<lparr>ur_has_trading_api = has_trading_api, ur_has_signing = has_signing, ur_has_relayer = has_relayer,
          ur_can_place_orders = can_place_orders, ur_can_auto_claim = can_place_orders \<and> has_relayer,
          ur_is_fully_ready = False, ur_validated = False, ur_validation_status = ''not_run'', ur_missing_fields = missing\<rparr>)"

text \<open>\<^verbatim>\<open>int(s, 16)\<close> returns: an optional sign and prefix, then digits between which single underscores may stand.\<close>

definition is_hex :: "char \<Rightarrow> bool" where
  "is_hex c \<longleftrightarrow> hex_value c \<noteq> None"

fun hex_tail :: "string \<Rightarrow> bool" where
  "hex_tail [] = True"
| "hex_tail [c] = is_hex c"
| "hex_tail (c # d # cs) = (if c = CHR ''_'' then is_hex d \<and> hex_tail cs else is_hex c \<and> hex_tail (d # cs))"

definition hex_literal :: "string \<Rightarrow> bool" where
  "hex_literal s =
     (let r = snd (take_sign (str_strip s));
          r1 = (if starts_with ''0x'' r \<or> starts_with ''0X'' r
                then (if starts_with ''_'' (drop 2 r) then drop 3 r else drop 2 r) else r)
      in case r1 of [] \<Rightarrow> False | c # cs \<Rightarrow> is_hex c \<and> hex_tail cs)"

text \<open>
  What an update meets outside: the wallet address of a key and the API keys of an address (\<open>None\<close> when the
  library raises), the file, whether the SDK accepts the keys and its reply to the balance request.
\<close>

record ('k, 't) UpdateEnv =
  ue_funder :: "string \<Rightarrow> string option"
  ue_api :: "string \<Rightarrow> string \<Rightarrow> (string \<times> string \<times> string) option"
  ue_cipher :: "('k, 't) Cipher"
  ue_machine :: Machine
  ue_nonce :: nat
  ue_writable :: bool
  ue_accepts :: "SdkClient \<Rightarrow> bool"
  ue_balance :: SdkBalance
  ue_now :: usec

record 't CredWorld =
  cr_store :: CredentialStore
  cr_clob :: ClobWrapper
  cr_file :: "'t option"
  cr_bot :: Orchestrator

text \<open>The reply the balance manager gets from the wrapper.\<close>

definition clob_fetch :: "bool \<Rightarrow> SdkBalance \<Rightarrow> FetchReply" where
  "clob_fetch initialized reply = (case clob_get_balance initialized reply of
     None \<Rightarrow> FR_None | Some (a, t) \<Rightarrow> FR_Dict (Some (Inr a)) (Some (Inr t)))"

definition update_fetch :: "('k, 't) UpdateEnv \<Rightarrow> 't CredWorld \<Rightarrow> 't CredWorld \<times> bool" where
  "update_fetch env w =
     (let b = o_balance (cr_bot w) in
      if \<not> b_has_fetch_fn b then (w, False)
      else (let (cw, initialized) = clob_is_initialized (ue_accepts env) (Some (cr_store w)) (cr_clob w);
                (b', ok) = fetch (ue_now env) (clob_fetch initialized (ue_balance env)) b
            in (w\<lparr>cr_clob := cw, cr_bot := set_balance b' (cr_bot w)\<rparr>, ok)))"

definition with_0x :: "string \<Rightarrow> string" where
  "with_0x pk = (if starts_with ''0x'' pk then pk else ''0x'' @ pk)"

text \<open>
  The endpoint: the world it leaves and the response, or the status it answers with. After a successful
  balance fetch the code reads a name that is not defined there, and the request fails.
\<close>

definition update_credentials :: "('k, 't) UpdateEnv \<Rightarrow> CredentialUpdateRequest \<Rightarrow> 't CredWorld \<Rightarrow>
    't CredWorld \<times> (int + CredentialUpdateResponse)" where
  "update_credentials env b w =
     (let existing = s_credentials (cr_store w);
          pk = or_else (cu_private_key b) (c_private_key existing); rk = or_else (cu_relayer_key b) (c_relayer_key existing);
          missing = compute_missing_input pk rk; pk_clean = with_0x pk
      in if pk = [] then (w, Inr (build_response existing missing))
         else if \<not> hex_literal (drop 2 pk_clean) then (w, Inl 422)
         else if length pk_clean \<noteq> 66 then (w, Inl 422)
         else case ue_funder env pk_clean of None \<Rightarrow> (w, Inl 422)
           | Some funder \<Rightarrow>
               (case ue_api env pk_clean funder of
                  None \<Rightarrow> (let c = no_credentials\<lparr>c_private_key := pk, c_funder_address := funder, c_relayer_key := rk\<rparr>
                    in (w\<lparr>cr_store := store_load_credentials c (cr_store w)\<rparr>, Inr (build_response c missing)))
                | Some (key, secret, passphrase) \<Rightarrow>
                    (let c = \<lparr>c_api_key = key, c_api_secret = secret, c_api_passphrase = passphrase, c_private_key = pk,
                           c_funder_address = funder, c_relayer_key = rk\<rparr>;
                         w1 = w\<lparr>cr_store := store_load_credentials c (cr_store w),
                           cr_file := fst (save_encrypted (ue_cipher env) (ue_machine env) (ue_nonce env) (ue_writable env) c (cr_file w))\<rparr>;
                         (w2, balance_ok) = update_fetch env w1
                     in if balance_ok then (w2, Inl 500) else (w2, Inr (build_response c missing)))))"

definition credential_update :: "('k, 't) UpdateEnv \<Rightarrow> CredentialUpdateRequest \<Rightarrow> 't CredWorld option \<Rightarrow>
    't CredWorld option \<times> (int + CredentialUpdateResponse)" where
  "credential_update env b world = (case world of None \<Rightarrow> (None, Inl 503)
     | Some w \<Rightarrow> (case update_credentials env b w of (w', r) \<Rightarrow> (Some w', r)))"

section \<open>Status\<close>

definition mask :: "nat \<Rightarrow> nat \<Rightarrow> string \<Rightarrow> string" where
  "mask p q v = (if v = [] then [] else if length v \<le> p + q + 4 then ''****''
     else take p v @ ''****'' @ drop (length v - q) v)"

definition mask_private_key :: "string \<Rightarrow> string" where
  "mask_private_key pk = (if pk = [] then []
     else (let c = with_0x pk in if length c \<le> 8 then ''0x****'' else ''0x****'' @ drop (length c - 4) c))"

definition mask_credentials :: "Credentials \<Rightarrow> (string, string) dict" where
  "mask_credentials c =
     [(''api_key'', mask 4 4 (c_api_key c)), (''api_secret'', if c_api_secret c = [] then [] else ''****''),
      (''api_passphrase'', if c_api_passphrase c = [] then [] else ''****''), (''private_key'', mask_private_key (c_private_key c)),
      (''funder_address'', mask 6 4 (c_funder_address c)), (''relayer_key'', mask 4 4 (c_relayer_key c))]"

record CredentialStatusResponse =
  cs_has_any :: bool
  cs_has_trading_api :: bool
  cs_has_signing :: bool
  cs_has_relayer :: bool
  cs_can_place_orders :: bool
  cs_can_auto_claim :: bool
  cs_validated :: bool
  cs_validation_status :: string
  cs_failed_checks :: "string list"
  cs_is_fully_ready :: bool
  cs_missing_fields :: "string list"
  cs_masked_fields :: "(string, string) dict"

definition credential_status :: "(CredentialStore \<times> Orchestrator) option \<Rightarrow> int + CredentialStatusResponse" where
  "credential_status world = (case world of None \<Rightarrow> Inl 503
     | Some (s, w) \<Rightarrow>
         (let c = s_credentials s; has_trading_api = has_trading_credentials c; has_signing = has_signing_credentials c;
              has_relayer = has_relayer_credentials c; can_place_orders = has_trading_api \<and> has_signing;
              can_auto_claim = can_place_orders \<and> has_relayer;
              missing = compute_missing_input (c_private_key c) (c_relayer_key c);
              balance_ok = 0 < b_available (o_balance w);
              is_ready = can_place_orders \<and> can_auto_claim \<and> balance_ok \<and> missing = []
          in Inr \<lparr>cs_has_any = c_private_key c \<noteq> [], cs_has_trading_api = has_trading_api, cs_has_signing = has_signing,
               cs_has_relayer = has_relayer, cs_can_place_orders = can_place_orders, cs_can_auto_claim = can_auto_claim,
               cs_validated = balance_ok, cs_validation_status = (if is_ready then ''passed'' else ''not_run''), cs_failed_checks = [],
               cs_is_fully_ready = is_ready, cs_missing_fields = missing, cs_masked_fields = mask_credentials c\<rparr>))"

section \<open>Checking\<close>

text \<open>
  What the trading check gets from the SDK, which it asks to derive API keys of its own: a balance, an
  answer without one, an exception.
\<close>

datatype SdkCheck = CK_Balance "exc + int" | CK_NoBalance | CK_Raise

datatype CheckStatus = CK_Passed | CK_Failed

record CheckResult =
  ck_name :: string
  ck_status :: CheckStatus

definition check_trading_api :: "SdkCheck \<Rightarrow> Credentials \<Rightarrow> CheckResult" where
  "check_trading_api reply c = \<lparr>ck_name = ''trading_api'', ck_status =
     (if c_private_key c = [] then CK_Failed
      else case reply of CK_Balance (Inr _) \<Rightarrow> CK_Passed | _ \<Rightarrow> CK_Failed)\<rparr>"

definition check_relayer :: "Credentials \<Rightarrow> CheckResult" where
  "check_relayer c = \<lparr>ck_name = ''relayer'', ck_status = (if has_relayer_credentials c then CK_Passed else CK_Failed)\<rparr>"

record CredentialValidateResponse =
  cv_validation_status :: string
  cv_checks :: "CheckResult list"
  cv_failed_checks :: "string list"
  cv_has_trading_api :: bool
  cv_has_signing :: bool
  cv_has_relayer :: bool
  cv_can_place_orders :: bool
  cv_can_auto_claim :: bool
  cv_is_fully_ready :: bool

definition credential_validate :: "SdkCheck \<Rightarrow> CredentialStore option \<Rightarrow> int + CredentialValidateResponse" where
  "credential_validate reply store = (case store of None \<Rightarrow> Inl 503
     | Some s \<Rightarrow>
         (let c = s_credentials s; trading_check = check_trading_api reply c; relayer_check = check_relayer c;
              checks = [trading_check, relayer_check];
              failed = map ck_name (filter (\<lambda>k. ck_status k = CK_Failed) checks);
              passed_count = length (filter (\<lambda>k. ck_status k = CK_Passed) checks);
              validation_status = (if passed_count = 2 then ''passed'' else if passed_count = 0 then ''failed'' else ''partial'');
              can_place_orders = has_trading_credentials c \<and> has_signing_credentials c \<and> ck_status trading_check = CK_Passed
          in Inr \<lparr>cv_validation_status = validation_status, cv_checks = checks, cv_failed_checks = failed,
               cv_has_trading_api = has_trading_credentials c, cv_has_signing = has_signing_credentials c,
               cv_has_relayer = has_relayer_credentials c, cv_can_place_orders = can_place_orders,
               cv_can_auto_claim = can_place_orders \<and> has_relayer_credentials c \<and> ck_status relayer_check = CK_Passed,
               cv_is_fully_ready = validation_status = ''passed''\<rparr>))"

section \<open>Lemmas\<close>

lemma text_field_obj: "text_field (JObj (map (\<lambda>(k, s). (k, JStr s)) kvs)) k = Inr (dget_or kvs k [])"
proof -
  have "dget (map (\<lambda>(k, s). (k, JStr s)) kvs) k = map_option JStr (dget kvs k)"
    by (induction kvs) auto
  then show ?thesis by (simp add: text_field_def bind_exc_def dget_or_def split: option.split)
qed

lemma credentials_json: "json_to_credentials (credentials_to_json c) = Inr c"
proof -
  let ?kvs = "[(''api_key'', c_api_key c), (''api_secret'', c_api_secret c), (''api_passphrase'', c_api_passphrase c),
      (''private_key'', c_private_key c), (''funder_address'', c_funder_address c), (''relayer_key'', c_relayer_key c)]"
  have "json_loads (credentials_to_json c) = Inr (JObj (map (\<lambda>(k, s). (k, JStr s)) ?kvs))"
    unfolding credentials_to_json_def by (rule string_object_read) simp
  then show ?thesis
    unfolding json_to_credentials_def by (simp only: bind_exc_def sum.case text_field_obj) (simp add: dget_or_def)
qed

text \<open>C31. Saved credentials are loaded back exactly on the machine that saved them and not at all on a machine whose
  key differs, whatever the file held before.\<close>

theorem credentials_roundtrip:
  assumes "\<And>k n m. ci_decrypt ci k (ci_encrypt ci k n m) = Some m"
    and "\<And>k k' n m. k' \<noteq> k \<Longrightarrow> ci_decrypt ci k' (ci_encrypt ci k n m) = None"
    and "save_encrypted ci machine nonce True c file = (file', ok)"
  shows "load_encrypted ci other file' =
    (if ci_derive ci (get_machine_identity other) = ci_derive ci (get_machine_identity machine) then Some c else None)"
  using assms(3)
  by (auto simp: save_encrypted_def load_encrypted_def assms(1,2) credentials_json)

lemma update_fetch_effect:
  assumes "update_fetch env w = (w', ok)"
  shows "cr_store w' = cr_store w" and "o_trading_enabled (cr_bot w') = o_trading_enabled (cr_bot w)"
    and "ok \<Longrightarrow> b_updated_at (o_balance (cr_bot w')) = Some (ue_now env)"
    and "\<not> ok \<Longrightarrow> o_balance (cr_bot w') = o_balance (cr_bot w)"
  using assms
  by (auto simp: update_fetch_def Let_def fetch_def clob_fetch_def float_field_def set_balance_def
      split: if_splits prod.splits option.splits)

lemma load_new_store: "store_load_credentials c s \<noteq> s" "s \<noteq> store_load_credentials c s"
  by (cases s; simp add: store_load_credentials_def)+

lemma update_cases:
  assumes pk: "pk = or_else (cu_private_key b) (c_private_key (s_credentials (cr_store w)))"
    and run: "update_credentials env b w = (w', r)"
  obtains (nothing) "w' = w" "pk = []" "r = Inr (build_response (s_credentials (cr_store w)) (compute_missing_input pk (or_else (cu_relayer_key b) (c_relayer_key (s_credentials (cr_store w))))))"
  | (refused) "w' = w" "pk \<noteq> []" "r = Inl 422"
  | (partial) c missing where "pk \<noteq> []" "w' = w\<lparr>cr_store := store_load_credentials c (cr_store w)\<rparr>" "r = Inr (build_response c missing)"
      "c_private_key c = pk" "ue_funder env (with_0x pk) = Some (c_funder_address c)"
  | (stored) c w1 missing ok where "pk \<noteq> []" "cr_store w1 = store_load_credentials c (cr_store w)" "cr_bot w1 = cr_bot w"
      "update_fetch env w1 = (w', ok)" "r = (if ok then Inl 500 else Inr (build_response c missing))"
      "c_private_key c = pk" "ue_funder env (with_0x pk) = Some (c_funder_address c)"
proof (cases "pk = []")
  case True
  then have "w' = w" "r = Inr (build_response (s_credentials (cr_store w)) (compute_missing_input pk (or_else (cu_relayer_key b) (c_relayer_key (s_credentials (cr_store w))))))"
    using run by (auto simp: update_credentials_def Let_def pk [symmetric])
  with True show thesis using that(1) by blast
next
  case False
  note nonempty = this
  show thesis
  proof (cases "\<not> hex_literal (drop 2 (with_0x pk)) \<or> length (with_0x pk) \<noteq> 66 \<or> ue_funder env (with_0x pk) = None")
    case True
    then have "w' = w" "r = Inl 422"
      using run nonempty by (auto simp: update_credentials_def Let_def pk [symmetric] split: if_splits)
    with nonempty show thesis using that(2) by blast
  next
    case False
    then obtain f where f: "ue_funder env (with_0x pk) = Some f" by blast
    note run = run [unfolded update_credentials_def Let_def pk [symmetric]]
    show thesis
    proof (cases "ue_api env (with_0x pk) f")
      case None
      with run nonempty False f show thesis by (intro partial) auto
    next
      case (Some api)
      obtain key secret passphrase where api: "api = (key, secret, passphrase)" by (cases api)
      define c where "c = \<lparr>c_api_key = key, c_api_secret = secret, c_api_passphrase = passphrase, c_private_key = pk,
          c_funder_address = f, c_relayer_key = or_else (cu_relayer_key b) (c_relayer_key (s_credentials (cr_store w)))\<rparr>"
      define w1 where "w1 = w\<lparr>cr_store := store_load_credentials c (cr_store w),
          cr_file := fst (save_encrypted (ue_cipher env) (ue_machine env) (ue_nonce env) (ue_writable env) c (cr_file w))\<rparr>"
      obtain w2 ok where f2: "update_fetch env w1 = (w2, ok)" by fastforce
      from run nonempty False f Some
      have "w' = w2" "r = (if ok then Inl 500 else Inr (build_response c (compute_missing_input pk
          (or_else (cu_relayer_key b) (c_relayer_key (s_credentials (cr_store w)))))))"
        by (simp_all add: api c_def [symmetric] w1_def [symmetric] f2 split: if_splits)
      with f2 have "update_fetch env w1 = (w', ok)" by simp
      moreover have "cr_store w1 = store_load_credentials c (cr_store w)" "cr_bot w1 = cr_bot w" "c_private_key c = pk"
        "ue_funder env (with_0x pk) = Some (c_funder_address c)"
        by (simp_all add: w1_def c_def f)
      ultimately show thesis using that(4) nonempty \<open>r = _\<close> by blast
    qed
  qed
qed

text \<open>C19. What an update of the credentials does: without a key, or with one that is refused, nothing changes; else
  the key is stored next to the address derived from it and the version grows. The answer is an
  internal error exactly when the balance was fetched with the new keys. Trading is never enabled.\<close>

theorem credential_update_effect:
  assumes "update_credentials env b w = (w', r)" and "pk = or_else (cu_private_key b) (c_private_key (s_credentials (cr_store w)))"
  shows "o_trading_enabled (cr_bot w') = o_trading_enabled (cr_bot w) \<and>
    (if pk = [] \<or> r = Inl 422 then w' = w
     else s_version (cr_store w') = s_version (cr_store w) + 1 \<and> c_private_key (s_credentials (cr_store w')) = pk \<and>
       ue_funder env (with_0x pk) = Some (c_funder_address (s_credentials (cr_store w'))) \<and>
       (case r of
          Inl st \<Rightarrow> st = 500 \<and> b_updated_at (o_balance (cr_bot w')) = Some (ue_now env)
        | Inr resp \<Rightarrow> o_balance (cr_bot w') = o_balance (cr_bot w) \<and>
            (ur_can_place_orders resp \<longleftrightarrow>
              has_trading_credentials (s_credentials (cr_store w')) \<and> has_signing_credentials (s_credentials (cr_store w')))))"
  using assms(2,1)
proof (cases rule: update_cases)
  case (stored c w1 missing ok)
  with update_fetch_effect [OF stored(4)] assms(2) show ?thesis
    by (auto simp: store_load_credentials_def build_response_def Let_def)
qed (use assms(2) in \<open>auto simp: store_load_credentials_def build_response_def Let_def\<close>)

text \<open>Two values of which the mask shows the same.\<close>

definition same_ends :: "nat \<Rightarrow> nat \<Rightarrow> string \<Rightarrow> string \<Rightarrow> bool" where
  "same_ends p q v v' \<longleftrightarrow> (v = [] \<longleftrightarrow> v' = []) \<and> (length v \<le> p + q + 4 \<longleftrightarrow> length v' \<le> p + q + 4) \<and>
     (p + q + 4 < length v \<longrightarrow> take p v = take p v' \<and> drop (length v - q) v = drop (length v' - q) v')"

text \<open>The status shows no secret: two sets of credentials of which the same fields are given, and whose keys have
  the same shown ends, have the same status.\<close>

theorem status_hides_secrets:
  assumes "same_ends 4 4 (c_api_key c) (c_api_key c')" and "c_api_secret c = [] \<longleftrightarrow> c_api_secret c' = []"
    and "c_api_passphrase c = [] \<longleftrightarrow> c_api_passphrase c' = []"
    and "same_ends 0 4 (with_0x (c_private_key c)) (with_0x (c_private_key c'))" and "c_private_key c = [] \<longleftrightarrow> c_private_key c' = []"
    and "same_ends 6 4 (c_funder_address c) (c_funder_address c')" and "same_ends 4 4 (c_relayer_key c) (c_relayer_key c')"
  shows "credential_status (Some (\<lparr>s_credentials = c, s_version = v\<rparr>, w)) = credential_status (Some (\<lparr>s_credentials = c', s_version = v'\<rparr>, w))"
proof -
  have m: "same_ends p q x y \<Longrightarrow> mask p q x = mask p q y" for p q x y
    by (auto simp: same_ends_def mask_def)
  have "mask_credentials c = mask_credentials c'"
    using m [OF assms(1)] m [OF assms(6)] m [OF assms(7)] assms(2,3,4,5)
    by (auto simp: mask_credentials_def mask_private_key_def same_ends_def Let_def)
  moreover have "(c_api_key c = []) = (c_api_key c' = [])" "(c_funder_address c = []) = (c_funder_address c' = [])"
    "(c_relayer_key c = []) = (c_relayer_key c' = [])"
    using assms(1,6,7) by (simp_all add: same_ends_def)
  ultimately show ?thesis
    using assms(2,3,5)
    by (simp add: credential_status_def has_trading_credentials_def has_signing_credentials_def has_relayer_credentials_def
        compute_missing_input_def Let_def)
qed

text \<open>The check calls the credentials ready when the trading check passes and a relayer key is given; this can hold
  although no order can be placed, since the check derives API keys of its own.\<close>

theorem ready_without_orders:
  assumes "credential_validate reply (Some s) = Inr v"
  shows "(cv_is_fully_ready v \<longleftrightarrow> c_private_key (s_credentials s) \<noteq> [] \<and> (\<exists>n. reply = CK_Balance (Inr n)) \<and> has_relayer_credentials (s_credentials s)) \<and>
    (cv_can_auto_claim v \<longleftrightarrow> cv_is_fully_ready v \<and> has_trading_credentials (s_credentials s) \<and> has_signing_credentials (s_credentials s)) \<and>
    (cv_is_fully_ready v \<and> \<not> cv_can_place_orders v \<longleftrightarrow>
       cv_is_fully_ready v \<and> \<not> (has_trading_credentials (s_credentials s) \<and> has_signing_credentials (s_credentials s)))"
  using assms
  by (auto simp: credential_validate_def check_trading_api_def check_relayer_def Let_def split: if_splits SdkCheck.splits sum.splits)

section \<open>Witnesses\<close>

definition example_cipher :: "(string, string \<times> string) Cipher" where
  "example_cipher = \<lparr>ci_derive = (\<lambda>s. s), ci_encrypt = (\<lambda>k n m. (k, m)), ci_decrypt = (\<lambda>k (k', m). if k = k' then Some m else None)\<rparr>"

definition example_machine :: Machine where
  "example_machine = \<lparr>mc_node = ''host'', mc_login = None, mc_username = Some [], mc_user = Some ''me''\<rparr>"

theorem credentials_roundtrip_witness:
  "load_encrypted example_cipher example_machine (fst (save_encrypted example_cipher example_machine 0 True example_credentials None)) =
     Some example_credentials \<and>
   load_encrypted example_cipher (example_machine\<lparr>mc_node := ''other''\<rparr>)
     (fst (save_encrypted example_cipher example_machine 0 True example_credentials None)) = None"
proof -
  obtain fl ok where save: "save_encrypted example_cipher example_machine 0 True example_credentials None = (fl, ok)" by fastforce
  have dec: "ci_decrypt example_cipher k (ci_encrypt example_cipher k n m) = Some m"
    "k' \<noteq> k \<Longrightarrow> ci_decrypt example_cipher k' (ci_encrypt example_cipher k n m) = None" for k k' n m
    by (simp_all add: example_cipher_def)
  have "ci_derive example_cipher (get_machine_identity (example_machine\<lparr>mc_node := ''other''\<rparr>)) \<noteq>
      ci_derive example_cipher (get_machine_identity example_machine)"
    by (simp add: example_cipher_def example_machine_def get_machine_identity_def)
  then show ?thesis
    using credentials_roundtrip [OF dec save, of example_machine]
      credentials_roundtrip [OF dec save, of "example_machine\<lparr>mc_node := ''other''\<rparr>"]
    by (simp add: save)
qed

definition example_key :: string where
  "example_key = replicate 64 CHR ''a''"

definition example_update_env :: "(string, string \<times> string) UpdateEnv" where
  "example_update_env = \<lparr>ue_funder = (\<lambda>_. Some ''0xf''), ue_api = (\<lambda>_ _. Some (''k'', ''s'', ''p'')), ue_cipher = example_cipher,
     ue_machine = example_machine, ue_nonce = 0, ue_writable = True, ue_accepts = (\<lambda>_. True), ue_balance = SB_Raw 5000000, ue_now = 7\<rparr>"

definition example_cred_world :: "(string \<times> string) CredWorld" where
  "example_cred_world = \<lparr>cr_store = new_store, cr_clob = new_clob_wrapper 2, cr_file = None,
     cr_bot = set_balance (set_fetch_function (o_balance example_bot)) example_bot\<rparr>"

theorem credential_update_effect_witness:
  "(case update_credentials example_update_env \<lparr>cu_private_key = Some example_key, cu_relayer_key = None\<rparr> example_cred_world of
     (w', r) \<Rightarrow> r = Inl 500 \<and> c_funder_address (s_credentials (cr_store w')) = ''0xf'' \<and> o_trading_enabled (cr_bot w') = o_trading_enabled example_bot)"
proof -
  let ?b = "\<lparr>cu_private_key = Some example_key, cu_relayer_key = None\<rparr>"
  obtain w' r where run: "update_credentials example_update_env ?b example_cred_world = (w', r)" by fastforce
  have key: "hex_literal (drop 2 (with_0x example_key)) \<and> length (with_0x example_key) = 66" by code_simp
  have init: "snd (clob_is_initialized (\<lambda>_. True) (Some (store_load_credentials \<lparr>c_api_key = ''k'', c_api_secret = ''s'',
      c_api_passphrase = ''p'', c_private_key = example_key, c_funder_address = ''0xf'',
      c_relayer_key = c_relayer_key (s_credentials new_store)\<rparr> new_store)) (new_clob_wrapper 2))"
    by code_simp
  have paid: "clob_get_balance True (SB_Raw 5000000) \<noteq> None" by code_simp
  have "example_key \<noteq> []" by (simp add: example_key_def)
  with key run init paid have r: "r = Inl 500"
    by (auto simp: update_credentials_def or_else_def Let_def example_update_env_def example_cred_world_def update_fetch_def
        fetch_def set_fetch_function_def set_balance_def clob_fetch_def float_field_def
        split: prod.splits if_splits option.splits)
  have pk: "example_key = or_else (cu_private_key ?b) (c_private_key (s_credentials (cr_store example_cred_world)))"
    by (simp add: or_else_def)
  have "example_key \<noteq> []" by (simp add: example_key_def)
  with credential_update_effect [OF run pk] r
  have "o_trading_enabled (cr_bot w') = o_trading_enabled (cr_bot example_cred_world)"
    "ue_funder example_update_env (with_0x example_key) = Some (c_funder_address (s_credentials (cr_store w')))" by simp_all
  then show ?thesis
    using r unfolding run by (simp add: example_update_env_def example_cred_world_def set_balance_def)
qed

theorem status_hides_secrets_witness:
  "credential_status (Some (\<lparr>s_credentials = example_credentials, s_version = 1\<rparr>, example_bot)) =
   credential_status (Some (\<lparr>s_credentials = example_credentials\<lparr>c_api_secret := ''other''\<rparr>, s_version = 2\<rparr>, example_bot))"
  by (rule status_hides_secrets) (simp_all add: example_credentials_def same_ends_def)

theorem ready_without_orders_witness:
  "(case credential_validate (CK_Balance (Inr 5)) (Some \<lparr>s_credentials = example_credentials\<lparr>c_api_key := []\<rparr>, s_version = 1\<rparr>) of
     Inl _ \<Rightarrow> False | Inr v \<Rightarrow> cv_is_fully_ready v \<and> \<not> cv_can_place_orders v)"
proof -
  let ?s = "\<lparr>s_credentials = example_credentials\<lparr>c_api_key := []\<rparr>, s_version = 1\<rparr>"
  obtain v where v: "credential_validate (CK_Balance (Inr 5)) (Some ?s) = Inr v"
    by (simp add: credential_validate_def Let_def)
  have "cv_is_fully_ready v" "\<not> has_trading_credentials (s_credentials ?s)"
    using v ready_without_orders [OF v]
    by (simp_all add: example_credentials_def has_relayer_credentials_def has_trading_credentials_def)
  with ready_without_orders [OF v] v show ?thesis by simp
qed

end
