(* ===== verification/Lifespan.thy ===== *)
theory Lifespan
  imports Build Session Credential
begin

text \<open>
  The life of the process: \<^verbatim>\<open>backend/main.py\<close> with everything it opens and closes, the connection of
  \<^verbatim>\<open>persistence/database.py\<close> and the loader of \<^verbatim>\<open>config_loader/service.py\<close>.

  The start-up puts the parts together: the connection, the migrations, the constructor, the restore with
  a wrapper that has no keys yet, the encrypted file, and the balance fetched with its keys. What the
  tasks do that run while it waits are steps of the bot. A step of a library that may raise is given by
  the exception it raises, if any.
\<close>

section \<open>The configuration file\<close>

text \<open>What \<^verbatim>\<open>yaml.safe_load\<close> returns for a file: nothing, a mapping or something else.\<close>

datatype RawYaml = RY_None | RY_Mapping "(string, json) dict" | RY_Other

text \<open>\<open>read\<close> opens and parses a file (\<open>None\<close>: there is no such file), \<open>check\<close> is the one of the model
  classes. A missing file is reported by \<^verbatim>\<open>FileNotFoundError\<close>, here the outcome \<open>None\<close>.\<close>

definition DEFAULT_CONFIG_PATH :: string where "DEFAULT_CONFIG_PATH = ''config/default.yaml''"

definition load_config ::
  "(string \<Rightarrow> (exc + RawYaml) option) \<Rightarrow> ((string, json) dict \<Rightarrow> exc + AppConfig) \<Rightarrow> string option \<Rightarrow> AppConfig option
    \<Rightarrow> AppConfig option \<times> (exc + AppConfig) option" where
  "load_config read check path current =
     (case read (case path of None \<Rightarrow> DEFAULT_CONFIG_PATH | Some p \<Rightarrow> p) of
        None \<Rightarrow> (current, None)
      | Some file \<Rightarrow>
          (case bind_exc file (\<lambda>raw. case raw of RY_None \<Rightarrow> check [] | RY_Mapping kvs \<Rightarrow> check kvs | RY_Other \<Rightarrow> Inl TypeError) of
             Inl e \<Rightarrow> (current, Some (Inl e))
           | Inr c \<Rightarrow> (Some c, Some (Inr c))))"

definition get_config :: "AppConfig option \<Rightarrow> exc + AppConfig" where
  "get_config current = (case current of None \<Rightarrow> Inl RuntimeError | Some c \<Rightarrow> Inr c)"

definition reset_config :: "AppConfig option \<Rightarrow> AppConfig option" where
  "reset_config current = None"

section \<open>The connection\<close>

definition raised :: "exc option \<Rightarrow> 's \<Rightarrow> ('s, unit) outcome" where
  "raised e s = (s, case e of None \<Rightarrow> Inr () | Some x \<Rightarrow> Inl x)"

record DbModule =
  dm_conn :: bool
  dm_path :: string

definition new_db_module :: DbModule where
  "new_db_module = \<lparr>dm_conn = False, dm_path = ''data/polyfast.db''\<rparr>"

text \<open>The steps of opening a file: its directory, the connection, the two pragmas.\<close>

record InitEnv =
  ie_mkdir :: "string \<Rightarrow> exc option"
  ie_connect :: "string \<Rightarrow> exc option"
  ie_pragma :: "exc option"

definition init_db :: "InitEnv \<Rightarrow> string option \<Rightarrow> DbModule \<Rightarrow> (DbModule, unit) outcome" where
  "init_db env path d =
     (let d1 = (case path of None \<Rightarrow> d | Some p \<Rightarrow> if p = [] then d else d\<lparr>dm_path := p\<rparr>)
      in ebind (raised (ie_mkdir env (dm_path d1)) d1) (\<lambda>d2 _.
         ebind (raised (ie_connect env (dm_path d2)) d2) (\<lambda>d3 _. raised (ie_pragma env) (d3\<lparr>dm_conn := True\<rparr>))))"

definition get_db :: "DbModule \<Rightarrow> (DbModule, unit) outcome" where
  "get_db d = (d, if dm_conn d then Inr () else Inl RuntimeError)"

definition close_db :: "exc option \<Rightarrow> DbModule \<Rightarrow> (DbModule, unit) outcome" where
  "close_db closes d = (if dm_conn d then ebind (raised closes d) (\<lambda>d1 _. (d1\<lparr>dm_conn := False\<rparr>, Inr ())) else (d, Inr ()))"

section \<open>The process\<close>

text \<open>What outlives the process: the encrypted file, the versions of the migrations, the tables.\<close>

record 't Disk =
  dk_file :: "'t option"
  dk_migrations :: "int list option"
  dk_db :: Database

text \<open>What the module holds: the time of its start, the orchestrator with its credential store and exchange
  wrapper, the connection.\<close>

record MainModule =
  mn_start_time :: num
  mn_orch :: "(CredentialStore \<times> ClobWrapper \<times> Orchestrator) option"
  mn_db :: DbModule

definition new_main :: MainModule where
  "new_main = \<lparr>mn_start_time = 0, mn_orch = None, mn_db = new_db_module\<rparr>"

definition get_uptime :: "num \<Rightarrow> MainModule \<Rightarrow> num" where
  "get_uptime now m = fsub now (mn_start_time m)"

definition get_orchestrator :: "MainModule \<Rightarrow> Orchestrator option" where
  "get_orchestrator m = map_option (snd \<circ> snd) (mn_orch m)"

record ('k, 't) LifeEnv =
  lv_start :: num
  lv_init :: InitEnv
  lv_scripts :: "string list"
  lv_runs :: "string \<Rightarrow> bool"
  lv_bot_start :: num
  lv_restore :: RestoreEnv
  lv_cipher :: "('k, 't) Cipher"
  lv_machine :: Machine
  lv_accepts :: "SdkClient \<Rightarrow> bool"
  lv_reply :: SdkBalance
  lv_fetch_now :: usec

text \<open>The messages of the start-up that tell how it went.\<close>

datatype StartLog = SL_migrations "int list" | SL_restored | SL_trading | SL_degraded | SL_no_credential
  | SL_auto_running | SL_auto_degraded | SL_auto_skipped

text \<open>\<^verbatim>\<open>balance_manager.fetch()\<close> through the wrapper.\<close>

definition fetch_with :: "('k, 't) LifeEnv \<Rightarrow> CredentialStore \<times> ClobWrapper \<times> Orchestrator \<Rightarrow>
    (CredentialStore \<times> ClobWrapper \<times> Orchestrator) \<times> bool" where
  "fetch_with env x = (case x of (s, cw, w) \<Rightarrow>
     let b = o_balance w in
     if \<not> b_has_fetch_fn b then (x, False)
     else (let (cw', initialized) = clob_is_initialized (lv_accepts env) (Some s) cw;
               (b', ok) = fetch (lv_fetch_now env) (clob_fetch initialized (lv_reply env)) b
           in ((s, cw', set_balance b' w), ok)))"

definition restored_credentials :: "('k, 't) LifeEnv \<Rightarrow> 't Disk \<Rightarrow> Credentials option" where
  "restored_credentials env disk = (case load_encrypted (lv_cipher env) (lv_machine env) (dk_file disk) of
     None \<Rightarrow> None | Some c \<Rightarrow> if c_private_key c = [] then None else Some c)"

definition auto_start_log :: "bool \<Rightarrow> bool \<Rightarrow> bool \<Rightarrow> StartLog list" where
  "auto_start_log auto_start credential_ok balance_ok =
     (if auto_start \<and> credential_ok \<and> balance_ok then [SL_auto_running]
      else if auto_start \<and> credential_ok \<and> \<not> balance_ok then [SL_auto_degraded]
      else if auto_start \<and> \<not> credential_ok then [SL_auto_skipped] else [])"

definition restore_and_guard :: "('k, 't) LifeEnv \<Rightarrow> 't Disk \<Rightarrow> CredentialStore \<times> ClobWrapper \<times> Orchestrator \<Rightarrow>
    (CredentialStore \<times> ClobWrapper \<times> Orchestrator) \<times> bool \<times> bool \<times> StartLog list" where
  "restore_and_guard env disk x = (case x of (s, cw, w) \<Rightarrow>
     case restored_credentials env disk of
       None \<Rightarrow> (x, False, False, [SL_no_credential])
     | Some c \<Rightarrow>
         (case fetch_with env (store_load_credentials c s, cw, w) of ((s1, cw1, w1), ok) \<Rightarrow>
            if ok then ((s1, cw1, w1\<lparr>o_trading_enabled := True\<rparr>), True, True, [SL_restored, SL_trading])
            else ((s1, cw1, start_verify_retry w1), True, False, [SL_restored, SL_degraded])))"

text \<open>The start-up up to its \<^verbatim>\<open>yield\<close>, for an orchestrator built from a configuration.\<close>

definition lifespan_enter :: "AppConfig \<Rightarrow> ('k, 't) LifeEnv \<Rightarrow> 't Disk \<Rightarrow> MainModule \<Rightarrow>
    ('t Disk \<times> MainModule, StartLog list) outcome" where
  "lifespan_enter c env disk m =
     (case init_db (lv_init env) None (mn_db m) of
        (d, Inl e) \<Rightarrow> ((disk, m\<lparr>mn_start_time := lv_start env, mn_db := d\<rparr>), Inl e)
      | (d, Inr _) \<Rightarrow>
        (let m1 = m\<lparr>mn_start_time := lv_start env, mn_db := d\<rparr> in
         case run_migrations (lv_runs env) (lv_scripts env) (dk_migrations disk) of
           (v, Inl e) \<Rightarrow> ((disk\<lparr>dk_migrations := v\<rparr>, m1), Inl e)
         | (v, Inr applied) \<Rightarrow>
           (let disk1 = disk\<lparr>dk_migrations := v\<rparr>;
                cw = new_clob_wrapper (tr_signature_type (ap_trading c));
                (cw1, initialized) = clob_is_initialized (lv_accepts env) (Some new_store) cw in
            case bot_start False (lv_bot_start env) ((lv_restore env)\<lparr>re_initialized := initialized\<rparr>) (dk_db disk) (new_orchestrator c) of
              (w, Inl e) \<Rightarrow> ((disk1, m1\<lparr>mn_orch := Some (new_store, cw, w)\<rparr>), Inl e)
            | (w, Inr _) \<Rightarrow>
                (case restore_and_guard env disk1 (new_store, cw1, w) of (x, credential_ok, balance_ok, logs) \<Rightarrow>
                   ((disk1, m1\<lparr>mn_orch := Some x\<rparr>),
                    Inr ((if applied = [] then [] else [SL_migrations applied]) @ logs @
                      auto_start_log (tr_auto_start_bot_on_startup (ap_trading c)) credential_ok balance_ok))))))"

text \<open>\<^verbatim>\<open>Orchestrator()\<close> takes the default values.\<close>

definition lifespan_start :: "('k, 't) LifeEnv \<Rightarrow> 't Disk \<Rightarrow> MainModule \<Rightarrow> ('t Disk \<times> MainModule, StartLog list) outcome" where
  "lifespan_start env = lifespan_enter default_app_config env"

definition lifespan_exit :: "(PositionRecord \<Rightarrow> bool) \<Rightarrow> (ClaimRecord \<Rightarrow> bool) \<Rightarrow> (CoinSettings \<Rightarrow> bool) \<Rightarrow> exc option \<Rightarrow>
    't Disk \<Rightarrow> MainModule \<Rightarrow> ('t Disk \<times> MainModule, unit) outcome" where
  "lifespan_exit okp okc oks closes disk m =
     (let (disk1, m1) = (case mn_orch m of None \<Rightarrow> (disk, m)
            | Some (s, cw, w) \<Rightarrow> (disk\<lparr>dk_db := snd (bot_stop okp okc oks w (dk_db disk))\<rparr>, m\<lparr>mn_orch := None\<rparr>));
          (d, r) = close_db closes (mn_db m1)
      in ((disk1, m1\<lparr>mn_db := d\<rparr>), r))"

section \<open>Results\<close>

text \<open>A load that fails leaves the configuration in use, and the one in use is always the last that was accepted.\<close>

theorem load_config_effect:
  assumes "load_config read check path current = (current', r)"
  shows "(case r of Some (Inr c) \<Rightarrow> get_config current' = Inr c \<and> (\<exists>kvs. check kvs = Inr c) | _ \<Rightarrow> current' = current)"
  using assms
  by (auto simp: load_config_def get_config_def bind_exc_def split: option.splits sum.splits RawYaml.splits)

lemma new_wrapper_off: "clob_is_initialized accepts (Some new_store) (new_clob_wrapper sig) = (cw, i) \<Longrightarrow> \<not> i"
  by (auto simp: clob_is_initialized_def clob_ensure_initialized_def clob_initialize_def new_store_def new_clob_wrapper_def
      no_credentials_def hex_key_def Let_def)

text \<open>The wrapper after the restore: it has seen the empty store.\<close>

lemma seen_wrapper:
  "clob_is_initialized accepts (Some new_store) (new_clob_wrapper sig) = (cw, i) \<Longrightarrow> cw = (new_clob_wrapper sig)\<lparr>cw_last_cred_version := 0\<rparr>"
  by (auto simp: clob_is_initialized_def clob_ensure_initialized_def clob_initialize_def new_store_def new_clob_wrapper_def
      no_credentials_def hex_key_def Let_def)

lemma init_db_open:
  assumes "init_db env None d = (d', r)"
  shows "d' = d\<lparr>dm_conn := dm_conn d'\<rparr>" "r = Inr () \<Longrightarrow> dm_conn d'"
    "ie_mkdir env (dm_path d) = None \<and> ie_connect env (dm_path d) = None \<Longrightarrow> dm_conn d'"
    "\<not> (ie_mkdir env (dm_path d) = None \<and> ie_connect env (dm_path d) = None) \<Longrightarrow> d' = d \<and> r \<noteq> Inr ()"
  using assms by (auto simp: init_db_def raised_def ebind_def Let_def split: option.splits)

text \<open>The SDK client of a set of keys.\<close>

definition client_of :: "int \<Rightarrow> Credentials \<Rightarrow> SdkClient" where
  "client_of sig c = sdk_of_store sig (store_load_credentials c new_store)"

definition keys_work :: "('k, 't) LifeEnv \<Rightarrow> int \<Rightarrow> Credentials \<Rightarrow> bool" where
  "keys_work env sig c \<longleftrightarrow> c_api_key c \<noteq> [] \<and> lv_accepts env (client_of sig c)"

lemma fetch_loaded:
  assumes "fetch_with env (store_load_credentials c new_store, (new_clob_wrapper sig)\<lparr>cw_last_cred_version := 0\<rparr>, w) = (x, ok)"
    and "c_private_key c \<noteq> []" and "b_has_fetch_fn (o_balance w)"
  obtains s cw b where "x = (s, cw, set_balance b w)"
    and "ok \<longleftrightarrow> keys_work env sig c \<and> (\<exists>raw. lv_reply env = SB_Raw raw)"
    and "ok \<Longrightarrow> \<exists>raw. lv_reply env = SB_Raw raw \<and> b_available b = fdiv (of_int raw) 1000000"
    and "\<not> ok \<Longrightarrow> b = o_balance w"
proof -
  let ?s = "store_load_credentials c new_store" and ?w = "(new_clob_wrapper sig)\<lparr>cw_last_cred_version := 0\<rparr>"
  obtain cw i where run: "clob_is_initialized (lv_accepts env) (Some ?s) ?w = (cw, i)" by fastforce
  then have i: "i \<longleftrightarrow> keys_work env sig c"
    using assms(2)
    by (auto simp: clob_is_initialized_def clob_ensure_initialized_def clob_initialize_def store_load_credentials_def new_store_def
        new_clob_wrapper_def keys_work_def client_of_def sdk_of_store_def hex_key_def Let_def split: if_splits)
  obtain b ok' where f: "fetch (lv_fetch_now env) (clob_fetch i (lv_reply env)) (o_balance w) = (b, ok')" by fastforce
  then have x: "x = (?s, cw, set_balance b w)" "ok' = ok"
    using assms(1,3) run by (auto simp: fetch_with_def)
  show ?thesis
    by (rule that [OF x(1)])
      (use f assms(3) i x(2) in \<open>auto simp: fetch_def clob_fetch_def clob_get_balance_def float_field_def Let_def split: SdkBalance.splits if_splits\<close>)
qed

lemma fresh_balance: "b_has_fetch_fn (o_balance (new_orchestrator c))"
  by (simp add: new_orchestrator_def build_evaluation_def build_executor_def build_balance_def set_fetch_function_def Let_def)

lemma bot_start_degraded:
  assumes "bot_start False now env db w = (w1, Inr r)" and "\<not> re_initialized env"
  shows "\<not> o_trading_enabled w1" "o_verify_retry_running w1" "o_balance w1 = o_balance w"
proof -
  let ?u = "w\<lparr>o_trading_enabled := True, o_paused := False, o_bot_start_time := Some now, o_bot_paused_at := None, o_bot_accumulated := 0\<rparr>"
  obtain rp where "restore_state env db (set_tracker (reset (o_tracker ?u)) ?u) = (w1, Inr rp)"
    using assms(1) by (auto simp: bot_start_def ebind_def Let_def split: prod.splits sum.splits)
  from restore_degraded [OF this assms(2)]
  show "\<not> o_trading_enabled w1" "o_verify_retry_running w1" "o_balance w1 = o_balance w" by simp_all
qed


text \<open>The connection is open exactly from the third step of \<^verbatim>\<open>init_db\<close> on: a start-up that fails later leaves it open,
  since nothing closes it; one that fails before leaves neither connection nor orchestrator.\<close>

theorem failed_start_keeps_connection:
  assumes "lifespan_enter c env disk m = ((disk', m'), Inl e)" and "\<not> dm_conn (mn_db m)" and "mn_orch m = None"
  shows "(dm_conn (mn_db m') \<longleftrightarrow> ie_mkdir (lv_init env) (dm_path (mn_db m)) = None \<and> ie_connect (lv_init env) (dm_path (mn_db m)) = None) \<and>
    (mn_orch m' \<noteq> None \<longrightarrow> dm_conn (mn_db m')) \<and> dk_file disk' = dk_file disk \<and> dk_db disk' = dk_db disk"
proof (cases "init_db (lv_init env) None (mn_db m)")
  case (Pair d r)
  let ?opens = "ie_mkdir (lv_init env) (dm_path (mn_db m)) = None \<and> ie_connect (lv_init env) (dm_path (mn_db m)) = None"
  have opens: "dm_conn d \<longleftrightarrow> ?opens" and finished: "r = Inr () \<Longrightarrow> dm_conn d"
    using init_db_open(2-4) [OF Pair] assms(2) by (cases ?opens; simp)+
  have m': "mn_db m' = d" "dk_file disk' = dk_file disk" "dk_db disk' = dk_db disk" "mn_orch m' \<noteq> None \<longrightarrow> r = Inr ()"
    using assms(1,3) Pair by (auto simp: lifespan_enter_def Let_def split: prod.splits sum.splits)
  with finished show ?thesis unfolding opens [symmetric] by simp
qed

text \<open>A shutdown lets go of orchestrator and connection and writes the tables as a stop of the bot does; the next
  start-up finds its migrations done and applies none.\<close>

theorem shutdown_exact:
  assumes "lifespan_enter c env disk m = ((disk1, m1), Inr logs)" and "mn_orch m1 = Some (s, cw, w)"
    and "lifespan_exit okp okc oks closes disk2 m1 = ((disk3, m3), r)" and "dk_migrations disk2 = dk_migrations disk1"
  shows "mn_orch m3 = None \<and> (dm_conn (mn_db m3) \<longleftrightarrow> closes \<noteq> None) \<and> dk_db disk3 = snd (bot_stop okp okc oks w (dk_db disk2)) \<and>
    dk_file disk3 = dk_file disk2 \<and> run_migrations runs (lv_scripts env) (dk_migrations disk3) = (dk_migrations disk3, Inr [])"
proof -
  have "\<exists>vs. run_migrations (lv_runs env) (lv_scripts env) (dk_migrations disk) = (dk_migrations disk1, Inr vs) \<and> dm_conn (mn_db m1)"
    using assms(1) init_db_open(2)
    by (auto simp: lifespan_enter_def Let_def split: prod.splits sum.splits)
  then have "run_migrations runs (lv_scripts env) (dk_migrations disk1) = (dk_migrations disk1, Inr [])" and "dm_conn (mn_db m1)"
    using migrations_idempotent by blast+
  with assms(2-4) show ?thesis
    by (auto simp: lifespan_exit_def close_db_def raised_def Let_def split: option.splits)
qed

section \<open>Witnesses\<close>

definition example_disk :: "(string \<times> string) Disk" where
  "example_disk = \<lparr>dk_file = fst (save_encrypted example_cipher example_machine 0 True example_credentials None), dk_migrations = None,
     dk_db = example_db\<rparr>"

definition example_life :: "(string, string \<times> string) LifeEnv" where
  "example_life = \<lparr>lv_start = 99, lv_init = \<lparr>ie_mkdir = \<lambda>_. None, ie_connect = \<lambda>_. None, ie_pragma = None\<rparr>,
     lv_scripts = [''001_initial'', ''002_session''], lv_runs = \<lambda>_. True, lv_bot_start = 100, lv_restore = example_restore_env,
     lv_cipher = example_cipher, lv_machine = example_machine, lv_accepts = \<lambda>_. True, lv_reply = SB_Raw 5000000, lv_fetch_now = 7\<rparr>"

definition broken_life :: "(string, string \<times> string) LifeEnv" where
  "broken_life = example_life\<lparr>lv_init := (lv_init example_life)\<lparr>ie_pragma := Some RuntimeError\<rparr>\<rparr>"

lemma enter_returns:
  assumes "init_db (lv_init env) None (mn_db m) = (d, Inr ())" and "run_migrations (lv_runs env) (lv_scripts env) (dk_migrations disk) = (v, Inr vs)"
    and "position_load_all (re_positions_ok (lv_restore env)) (db_positions (dk_db disk)) = []"
  obtains disk' m' logs s cw w where "lifespan_enter c env disk m = ((disk', m'), Inr logs)" and "mn_orch m' = Some (s, cw, w)"
proof -
  let ?cw = "clob_is_initialized (lv_accepts env) (Some new_store) (new_clob_wrapper (tr_signature_type (ap_trading c)))"
  let ?re = "(lv_restore env)\<lparr>re_initialized := snd ?cw\<rparr>" and ?w = "new_orchestrator c"
  obtain w rep where "bot_start False (lv_bot_start env) ?re (dk_db disk) ?w = (w, Inr rep)"
    using restore_state_tracker [of ?re "dk_db disk" "set_tracker (reset (o_tracker ?w)) (?w\<lparr>o_trading_enabled := True, o_paused := False,
      o_bot_start_time := Some (lv_bot_start env), o_bot_paused_at := None, o_bot_accumulated := 0\<rparr>)"] assms(3)
    by (auto simp: bot_start_def Let_def)
  moreover obtain x ok1 ok2 ls where "restore_and_guard env (disk\<lparr>dk_migrations := v\<rparr>) (new_store, fst ?cw, w) = (x, ok1, ok2, ls)"
    by (metis prod_cases4)
  ultimately show ?thesis
    using assms(1,2) by (cases x) (auto intro!: that simp: lifespan_enter_def Let_def case_prod_beta)
qed

lemma example_parts:
  "init_db (lv_init example_life) None (mn_db new_main) = (new_db_module\<lparr>dm_conn := True\<rparr>, Inr ())"
  "position_load_all (re_positions_ok (lv_restore example_life)) (db_positions (dk_db example_disk)) = []"
  by (simp_all add: init_db_def raised_def example_life_def new_main_def example_disk_def example_db_def position_load_all_def store_load_def)

lemma example_file: "load_encrypted example_cipher example_machine (dk_file example_disk) = Some example_credentials"
  by (simp add: load_encrypted_def save_encrypted_def example_disk_def example_cipher_def credentials_json)

lemma example_starts:
  obtains disk' m' logs s cw w where "lifespan_start example_life example_disk new_main = ((disk', m'), Inr logs)" and "mn_orch m' = Some (s, cw, w)"
proof (rule enter_returns [OF example_parts(1) _ example_parts(2)])
  show "run_migrations (lv_runs example_life) (lv_scripts example_life) (dk_migrations example_disk) = (Some [1, 2], Inr [1, 2])"
    by (simp add: example_life_def example_disk_def example_migrated)
qed (auto intro: that simp: lifespan_start_def)


theorem load_config_effect_witness:
  "(case load_config (\<lambda>_. None) (\<lambda>_. Inr default_app_config) None (Some default_app_config) of (cur, _) \<Rightarrow> cur = Some default_app_config)"
  using load_config_effect [of "\<lambda>_. None" "\<lambda>_. Inr default_app_config" None "Some default_app_config" _ None]
  by (simp add: load_config_def)

theorem failed_start_keeps_connection_witness:
  "dm_conn (mn_db (snd (fst (lifespan_start broken_life example_disk new_main))))"
proof -
  obtain disk' m' where "lifespan_start broken_life example_disk new_main = ((disk', m'), Inl RuntimeError)"
    by (simp add: lifespan_start_def lifespan_enter_def broken_life_def init_db_def raised_def example_life_def)
  with failed_start_keeps_connection [OF this [unfolded lifespan_start_def]] show ?thesis
    by (simp add: new_main_def new_db_module_def broken_life_def example_life_def)
qed

theorem shutdown_exact_witness:
  "case lifespan_start example_life example_disk new_main of ((disk', m'), _) \<Rightarrow>
     (case lifespan_exit (\<lambda>_. True) (\<lambda>_. True) (\<lambda>_. True) None disk' m' of ((_, m3), _) \<Rightarrow> mn_orch m3 = None \<and> \<not> dm_conn (mn_db m3))"
proof -
  obtain disk' m' logs s cw w where run: "lifespan_start example_life example_disk new_main = ((disk', m'), Inr logs)" "mn_orch m' = Some (s, cw, w)"
    by (rule example_starts)
  obtain disk3 m3 r where ex: "lifespan_exit (\<lambda>_. True) (\<lambda>_. True) (\<lambda>_. True) None disk' m' = ((disk3, m3), r)"
    by (metis surjective_pairing)
  from shutdown_exact [OF run(1) [unfolded lifespan_start_def] run(2) ex refl] show ?thesis
    by (simp add: run ex)
qed

end
