(* ===== verification/Dashboard.thy ===== *)
theory Dashboard
  imports Control
begin

text \<open>
  What the user sees: the two tile lists of \<^verbatim>\<open>backend/orchestrator/wiring.py\<close> (\<^verbatim>\<open>build_search_snapshot\<close>,
  \<^verbatim>\<open>build_idle_snapshot\<close>) and the records of \<^verbatim>\<open>backend/api/dashboard.py\<close>.

  Texts are left to Tiles: a number stands for its formatted form and \<open>None\<close> for the dash, an event URL
  is given by the slug in it, and the message of an idle tile by a constructor. The price pipeline
  and the coin client check freshness when they are read, so the lists come with the new state.
\<close>

section \<open>Search tiles\<close>

datatype PnlTone = TN_profit | TN_loss | TN_neutral | TN_pending | TN_off

record SearchTile =
  sx_tile_id :: string
  sx_coin :: string
  sx_slug :: string
  sx_pass :: int
  sx_total :: int
  sx_tone :: PnlTone
  sx_ptb :: "num option"
  sx_live :: "num option"
  sx_delta :: "num option"
  sx_rules :: "(string \<times> RuleState) list"
  sx_signal_ready :: bool

record SnapshotEnv =
  sp_price_now :: "string \<Rightarrow> usec"
  sp_coin_now :: "string \<Rightarrow> usec"

definition positive :: "num \<Rightarrow> num option" where
  "positive x = (if 0 < x then Some x else None)"

definition tile_tone :: "EvaluationResult \<Rightarrow> PnlTone" where
  "tile_tone res =
     (let total = state_count PASS res + state_count FAIL res + state_count WAITING res
      in if total \<le> state_count PASS res \<and> 0 < total then TN_profit
         else if 0 < state_count FAIL res then TN_loss
         else if 0 < state_count WAITING res then TN_pending else TN_neutral)"

definition search_tile :: "SnapshotEnv \<Rightarrow> string \<Rightarrow> EvaluationResult \<Rightarrow> EvalWorld \<Rightarrow> EvalWorld \<times> SearchTile" where
  "search_tile env asset res e =
     (let (p, pr) = pipeline_get_by_asset (sp_price_now env asset) asset (ew_pipeline e);
          cid = (case pr of None \<Rightarrow> [] | Some r \<Rightarrow> l_condition_id r);
          (c, cr) = coin_get_price (sp_coin_now env asset) asset (ew_coin_client e);
          coin_usd = (case cr of None \<Rightarrow> 0 | Some r \<Rightarrow> k_usd_price r);
          ptb = (if cid = [] then 0 else case ptb_get_record cid (ew_ptb e) of None \<Rightarrow> 0
                 | Some q \<Rightarrow> if is_locked q then (case q_ptb_value q of None \<Rightarrow> 0 | Some v \<Rightarrow> v) else 0);
          slug = (if cid = [] then [] else case get_by_condition_id (ew_registry e) cid of None \<Rightarrow> [] | Some g \<Rightarrow> g_slug g);
          delta = (if 0 < ptb \<and> 0 < coin_usd then \<bar>fsub coin_usd ptb\<bar> else 0)
      in ((set_pipeline p e)\<lparr>ew_coin_client := c\<rparr>,
          \<lparr>sx_tile_id = ''search-'' @ str_lower asset, sx_coin = asset, sx_slug = slug, sx_pass = state_count PASS res,
           sx_total = state_count PASS res + state_count FAIL res + state_count WAITING res, sx_tone = tile_tone res,
           sx_ptb = positive ptb, sx_live = positive coin_usd, sx_delta = positive delta,
           sx_rules = map (\<lambda>r. (rr_rule_name r, rr_state r)) (ev_rule_results res),
           sx_signal_ready = (ev_decision res = OD_ENTRY)\<rparr>))"

fun search_tiles :: "SnapshotEnv \<Rightarrow> (string, EvaluationResult) dict \<Rightarrow> CoinSettings list \<Rightarrow> EvalWorld \<Rightarrow> EvalWorld \<times> SearchTile list" where
  "search_tiles env cached [] e = (e, [])"
| "search_tiles env cached (cs # css) e =
     (case dget cached (cs_coin cs) of
        None \<Rightarrow> search_tiles env cached css e
      | Some res \<Rightarrow> (let (e1, t) = search_tile env (cs_coin cs) res e; (e2, ts) = search_tiles env cached css e1 in (e2, t # ts)))"

definition build_search_snapshot :: "SnapshotEnv \<Rightarrow> Orchestrator \<Rightarrow> Orchestrator \<times> SearchTile list" where
  "build_search_snapshot env w =
     (let e = o_eval w; (e', ts) = search_tiles env (ew_last_results e) (get_eligible_coins (ew_settings e)) e
      in (w\<lparr>o_eval := e'\<rparr>, ts))"

section \<open>Idle tiles\<close>

datatype IdleKind = IK_no_events | IK_waiting_rules | IK_bot_stopped | IK_cooldown | IK_error

datatype IdleMsg = IM_enter_credentials | IM_bot_not_running | IM_settings_incomplete | IM_coin_disabled | IM_stale_price
  | IM_waiting_for_event

record IdleTile =
  ix_tile_id :: string
  ix_coin :: "string option"
  ix_kind :: IdleKind
  ix_msg :: IdleMsg
  ix_slug :: "string option"

definition idle_kind :: "bool \<Rightarrow> CoinSettings \<Rightarrow> bool \<Rightarrow> bool \<Rightarrow> (IdleKind \<times> IdleMsg) option" where
  "idle_kind working cs cached stale =
     (if \<not> working then Some (IK_bot_stopped, IM_bot_not_running)
      else if cs_coin_enabled cs \<and> \<not> is_configured cs then Some (IK_waiting_rules, IM_settings_incomplete)
      else if \<not> cs_coin_enabled cs then Some (IK_bot_stopped, IM_coin_disabled)
      else if cached then (if stale then Some (IK_error, IM_stale_price) else None)
      else if is_trade_eligible cs then Some (IK_no_events, IM_waiting_for_event) else None)"

text \<open>The price is read only where the code reads it: a running bot, an eligible coin in the cache.\<close>

definition reads_price :: "bool \<Rightarrow> CoinSettings \<Rightarrow> bool \<Rightarrow> bool" where
  "reads_price working cs cached \<longleftrightarrow> working \<and> cs_coin_enabled cs \<and> is_configured cs \<and> cached"

definition event_slug :: "string \<Rightarrow> EventRegistry \<Rightarrow> string option" where
  "event_slug asset reg = (case find (\<lambda>g. str_upper (g_asset g) = str_upper asset) (dvals reg) of
       None \<Rightarrow> None | Some g \<Rightarrow> if g_slug g = [] then None else Some (g_slug g))"

definition idle_tile :: "SnapshotEnv \<Rightarrow> bool \<Rightarrow> CoinSettings \<Rightarrow> EvalWorld \<Rightarrow> EvalWorld \<times> IdleTile option" where
  "idle_tile env working cs e =
     (let asset = cs_coin cs; cached = (asset \<in> set (dkeys (ew_last_results e)));
          now = sp_price_now env asset;
          (p, pr) = (if reads_price working cs cached then pipeline_get_by_asset now asset (ew_pipeline e) else (ew_pipeline e, None));
          stale = (case pr of None \<Rightarrow> False | Some r \<Rightarrow> price_is_stale now r)
      in (set_pipeline p e,
          map_option (\<lambda>(k, m). \<lparr>ix_tile_id = ''idle-'' @ str_lower asset, ix_coin = Some asset, ix_kind = k, ix_msg = m,
            ix_slug = event_slug asset (ew_registry e)\<rparr>) (idle_kind working cs cached stale)))"

fun idle_tiles :: "SnapshotEnv \<Rightarrow> bool \<Rightarrow> CoinSettings list \<Rightarrow> EvalWorld \<Rightarrow> EvalWorld \<times> IdleTile list" where
  "idle_tiles env working [] e = (e, [])"
| "idle_tiles env working (cs # css) e =
     (let (e1, t) = idle_tile env working cs e; (e2, ts) = idle_tiles env working css e1
      in (e2, (case t of None \<Rightarrow> ts | Some x \<Rightarrow> x # ts)))"

text \<open>\<open>creds\<close>: the credential store, if any, seen through \<^verbatim>\<open>has_trading_credentials()\<close>.\<close>

definition build_idle_snapshot :: "bool option \<Rightarrow> SnapshotEnv \<Rightarrow> Orchestrator \<Rightarrow> Orchestrator \<times> IdleTile list" where
  "build_idle_snapshot creds env w =
     (if creds = Some False then
        (w, [\<lparr>ix_tile_id = ''idle-global-credential'', ix_coin = None, ix_kind = IK_error, ix_msg = IM_enter_credentials, ix_slug = None\<rparr>])
      else (let (e', ts) = idle_tiles env (o_trading_enabled w \<and> \<not> o_paused w) (settings_get_all (ew_settings (o_eval w))) (o_eval w)
        in (w\<lparr>o_eval := e'\<rparr>, ts)))"

section \<open>Claims, positions, overview\<close>

datatype ClaimStatusContract = CC_RETRY | CC_OK | CC_FAIL

definition CLAIM_STATUS_MAPPING :: "(string \<times> ClaimStatusContract) list" where
  "CLAIM_STATUS_MAPPING = [(''pending'', CC_RETRY), (''success'', CC_OK), (''failed'', CC_FAIL)]"

definition map_claim_status_to_contract :: "string \<Rightarrow> ClaimStatusContract" where
  "map_claim_status_to_contract s = (case map_of CLAIM_STATUS_MAPPING (str_lower s) of None \<Rightarrow> CC_RETRY | Some c \<Rightarrow> c)"

definition claim_next_retry_sec :: "nat \<Rightarrow> int list \<Rightarrow> int \<Rightarrow> int" where
  "claim_next_retry_sec retry_count schedule steady = (if retry_count < length schedule then schedule ! retry_count else steady)"

record ClaimSummary =
  cv_claim_id :: string
  cv_asset :: string
  cv_position_id :: string
  cv_claim_status :: string
  cv_outcome :: string
  cv_claimed_amount_usdc :: num
  cv_status :: ClaimStatusContract
  cv_retry :: int
  cv_max_retry :: nat
  cv_next_sec :: int
  cv_payout :: "num option"

definition build_claim_contract :: "ClaimRecord \<Rightarrow> ClaimManager \<Rightarrow> ClaimSummary" where
  "build_claim_contract c m =
     \<lparr>cv_claim_id = c_claim_id c, cv_asset = c_asset c, cv_position_id = c_position_id c,
      cv_claim_status = claim_status_value (c_claim_status c), cv_outcome = claim_outcome_value (c_outcome c),
      cv_claimed_amount_usdc = c_claimed_amount_usdc c, cv_status = map_claim_status_to_contract (claim_status_value (c_claim_status c)),
      cv_retry = c_retry_count c, cv_max_retry = cm_max_retries m,
      cv_next_sec = claim_next_retry_sec (nat (c_retry_count c)) (cm_retry_schedule m) (cm_retry_steady m),
      cv_payout = positive (c_claimed_amount_usdc c)\<rparr>"

definition get_claims :: "Orchestrator \<Rightarrow> ClaimSummary list" where
  "get_claims w = map (\<lambda>c. build_claim_contract c (o_claims w)) (get_pending_claims (o_claims w))"

datatype PositionVariant = PV_open | PV_claim

definition derive_position_variant :: "PositionRecord \<Rightarrow> PositionVariant" where
  "derive_position_variant p = (if is_closed p \<and> needs_redeem p then PV_claim else PV_open)"

definition derive_pnl_tone :: "num \<Rightarrow> PnlTone" where
  "derive_pnl_tone x = (if 0 < x then TN_profit else if x < 0 then TN_loss else TN_neutral)"

record PositionSummary =
  pv_position_id :: string
  pv_asset :: string
  pv_side :: string
  pv_state :: string
  pv_fill_price :: num
  pv_requested_amount_usd :: num
  pv_net_position_shares :: num
  pv_close_reason :: "string option"
  pv_net_realized_pnl :: num
  pv_created_at :: usec
  pv_variant :: PositionVariant
  pv_pnl_big :: "num option"
  pv_pnl_amount :: "num option"
  pv_pnl_tone :: "PnlTone option"

text \<open>The orchestrator builds no live context, so a position that is not closed has no P&L line.\<close>

definition build_position_contract :: "PositionRecord \<Rightarrow> PositionSummary" where
  "build_position_contract p =
     \<lparr>pv_position_id = p_position_id p, pv_asset = p_asset p, pv_side = p_side p, pv_state = state_value (p_state p),
      pv_fill_price = p_fill_price p, pv_requested_amount_usd = p_requested_amount_usd p,
      pv_net_position_shares = p_net_position_shares p, pv_close_reason = map_option reason_value (p_close_reason p),
      pv_net_realized_pnl = p_net_realized_pnl p, pv_created_at = p_created_at p, pv_variant = derive_position_variant p,
      pv_pnl_big = (if is_closed p \<and> 0 < p_requested_amount_usd p
        then Some (fmul (fdiv (p_net_realized_pnl p) (p_requested_amount_usd p)) 100) else None),
      pv_pnl_amount = (if is_closed p then Some (p_net_realized_pnl p) else None),
      pv_pnl_tone = (if is_closed p then Some (derive_pnl_tone (p_net_realized_pnl p)) else None)\<rparr>"

definition get_positions :: "Orchestrator \<Rightarrow> PositionSummary list" where
  "get_positions w = map build_position_contract (get_all_positions (o_tracker w))"

text \<open>The tracker has no session P&L and no win counters: those fields of the overview are \<^verbatim>\<open>None\<close>.\<close>

record DashboardOverview =
  ov_trading_enabled :: bool
  ov_available :: num
  ov_total :: num
  ov_is_stale :: bool
  ov_age_seconds :: num
  ov_open_positions :: int
  ov_pending_claims :: int
  ov_session_trade_count :: int
  ov_configured_coins :: nat
  ov_eligible_coins :: nat
  ov_bot_status :: BotStatusContract

definition get_overview :: "num \<Rightarrow> num \<Rightarrow> usec \<Rightarrow> Orchestrator \<Rightarrow> DashboardOverview" where
  "get_overview uptime now t w =
     \<lparr>ov_trading_enabled = o_trading_enabled w, ov_available = b_available (o_balance w), ov_total = b_total (o_balance w),
      ov_is_stale = balance_is_stale t (o_balance w),
      ov_age_seconds = (case balance_age_seconds t (o_balance w) of None \<Rightarrow> 0 | Some a \<Rightarrow> py_round 1 a),
      ov_open_positions = open_position_count (o_tracker w), ov_pending_claims = claims_pending_count (o_claims w),
      ov_session_trade_count = t_session_trade_count (o_tracker w),
      ov_configured_coins = length (get_configured_coins (ew_settings (o_eval w))),
      ov_eligible_coins = length (get_eligible_coins (ew_settings (o_eval w))), ov_bot_status = build_bot_status uptime now (Some w)\<rparr>"

section \<open>Reading a price keeps what staleness depends on\<close>

definition price_view :: "LivePricePipeline \<Rightarrow> (string \<times> string \<times> usec option \<times> int) list" where
  "price_view p = map (\<lambda>(c, r). (c, l_asset r, l_updated_at r, l_stale_threshold_sec r)) (pl_records p)"

definition stale_price :: "usec \<Rightarrow> string \<Rightarrow> LivePricePipeline \<Rightarrow> bool" where
  "stale_price now asset p = (case find (\<lambda>(c, r). str_upper (l_asset r) = str_upper asset) (pl_records p) of
       None \<Rightarrow> False | Some (c, r) \<Rightarrow> price_is_stale now r)"

lemma map_dset_same:
  "wf_dict d \<Longrightarrow> (k, v) \<in> set d \<Longrightarrow> g k v' = g k v \<Longrightarrow> map (\<lambda>(k, v). g k v) (dset k v' d) = map (\<lambda>(k, v). g k v) d"
  by (induction d) (auto simp: wf_dict_def image_iff)

lemma check_freshness_view [simp]:
  "l_asset (check_freshness now r) = l_asset r" "l_updated_at (check_freshness now r) = l_updated_at r"
  "l_stale_threshold_sec (check_freshness now r) = l_stale_threshold_sec r"
  "price_is_stale t (check_freshness now r) = price_is_stale t r"
  by (simp_all add: check_freshness_def price_is_stale_def split: option.split)

lemma stale_price_view: "price_view p = price_view q \<Longrightarrow> stale_price now asset p = stale_price now asset q"
proof -
  have "stale_price now asset p = (case find (\<lambda>(c, a, u, t). str_upper a = str_upper asset) (price_view p) of None \<Rightarrow> False
      | Some (c, a, u, t) \<Rightarrow> (case u of None \<Rightarrow> False | Some x \<Rightarrow> of_int t < total_seconds (now - x)))" for p
  proof -
    have "(case find (\<lambda>(c, r). str_upper (l_asset r) = str_upper asset) d of None \<Rightarrow> False | Some (c, r) \<Rightarrow> price_is_stale now r) =
       (case find (\<lambda>(c, a, u, t). str_upper a = str_upper asset)
          (map (\<lambda>(c, r). (c, l_asset r, l_updated_at r, l_stale_threshold_sec r)) d) of None \<Rightarrow> False
        | Some (c, a, u, t) \<Rightarrow> (case u of None \<Rightarrow> False | Some x \<Rightarrow> of_int t < total_seconds (now - x)))" for d
      by (induction d) (auto simp: price_is_stale_def)
    then show ?thesis by (simp add: stale_price_def price_view_def)
  qed
  then show "price_view p = price_view q \<Longrightarrow> ?thesis" by simp
qed

lemma pipeline_get_by_asset_view:
  assumes "wf_dict (pl_records p)" and "pipeline_get_by_asset now asset p = (p', pr)"
  shows "price_view p' = price_view p \<and> wf_dict (pl_records p') \<and>
     (case pr of None \<Rightarrow> False | Some r \<Rightarrow> price_is_stale t r) = stale_price t asset p"
proof (cases "find (\<lambda>(c, r). str_upper (l_asset r) = str_upper asset) (pl_records p)")
  case None
  then show ?thesis using assms by (simp add: pipeline_get_by_asset_def stale_price_def)
next
  case (Some x)
  obtain cid r where x: "x = (cid, r)" by fastforce
  have "(cid, r) \<in> set (pl_records p)" using find_SomeD [OF Some] x by auto
  then have "price_view (put_price cid (check_freshness now r) p) = price_view p"
    unfolding price_view_def put_price_def
    using map_dset_same [OF assms(1), of cid r "\<lambda>c r. (c, l_asset r, l_updated_at r, l_stale_threshold_sec r)" "check_freshness now r"]
    by simp
  then show ?thesis
    using assms Some x by (auto simp: pipeline_get_by_asset_def stale_price_def Let_def put_price_def)
qed

section \<open>The two lists\<close>

lemma search_tiles_coins:
  "map sx_coin (snd (search_tiles env cached css e)) = map cs_coin (filter (\<lambda>cs. cs_coin cs \<in> set (dkeys cached)) css)"
proof (induction css arbitrary: e)
  case (Cons cs css)
  show ?case
  proof (cases "dget cached (cs_coin cs)")
    case None
    then have "cs_coin cs \<notin> set (dkeys cached)" by (simp add: map_of_eq_None_iff)
    with None show ?thesis using Cons.IH by simp
  next
    case (Some res)
    then have "cs_coin cs \<in> set (dkeys cached)" by (metis domI dom_map_of_conv_image_fst list.set_map)
    moreover have "sx_coin (snd (search_tile env (cs_coin cs) res e)) = cs_coin cs"
      by (simp add: search_tile_def Let_def case_prod_beta)
    ultimately show ?thesis using Some Cons.IH by (simp add: Let_def case_prod_beta)
  qed
qed simp

text \<open>Whether the idle list shows a coin: its switch, its settings and its price.\<close>

definition shown_idle :: "SnapshotEnv \<Rightarrow> Orchestrator \<Rightarrow> CoinSettings \<Rightarrow> bool" where
  "shown_idle env w cs \<longleftrightarrow> \<not> o_trading_enabled w \<or> o_paused w \<or> \<not> is_trade_eligible cs \<or>
     cs_coin cs \<notin> set (dkeys (ew_last_results (o_eval w))) \<or>
     stale_price (sp_price_now env (cs_coin cs)) (cs_coin cs) (ew_pipeline (o_eval w))"

lemma idle_tile_exact:
  assumes "wf_dict (pl_records (ew_pipeline e))" and "idle_tile env working cs e = (e', t)"
  shows "price_view (ew_pipeline e') = price_view (ew_pipeline e) \<and> wf_dict (pl_records (ew_pipeline e')) \<and>
    ew_last_results e' = ew_last_results e \<and>
    (case t of None \<Rightarrow> working \<and> is_trade_eligible cs \<and> cs_coin cs \<in> set (dkeys (ew_last_results e)) \<and>
         \<not> stale_price (sp_price_now env (cs_coin cs)) (cs_coin cs) (ew_pipeline e)
     | Some x \<Rightarrow> ix_coin x = Some (cs_coin cs) \<and> (\<not> working \<or> \<not> is_trade_eligible cs \<or>
         cs_coin cs \<notin> set (dkeys (ew_last_results e)) \<or> stale_price (sp_price_now env (cs_coin cs)) (cs_coin cs) (ew_pipeline e)))"
proof -
  let ?a = "cs_coin cs" and ?p0 = "ew_pipeline e"
  let ?c = "?a \<in> set (dkeys (ew_last_results e))" and ?now = "sp_price_now env ?a"
  obtain p pr where r: "(if reads_price working cs ?c then pipeline_get_by_asset ?now ?a ?p0 else (?p0, None)) = (p, pr)"
    by fastforce
  define stale where "stale = (case pr of None \<Rightarrow> False | Some r \<Rightarrow> price_is_stale ?now r)"
  have view: "price_view p = price_view ?p0 \<and> wf_dict (pl_records p)"
    using r assms(1) pipeline_get_by_asset_view [OF assms(1), of ?now ?a p pr] by (auto split: if_splits)
  have st: "reads_price working cs ?c \<longrightarrow> stale = stale_price ?now ?a ?p0"
    using r pipeline_get_by_asset_view [OF assms(1), of ?now ?a p pr ?now] by (auto simp: stale_def)
  have e': "e' = set_pipeline p e" and t: "t = map_option (\<lambda>(k, m). \<lparr>ix_tile_id = ''idle-'' @ str_lower ?a, ix_coin = Some ?a,
      ix_kind = k, ix_msg = m, ix_slug = event_slug ?a (ew_registry e)\<rparr>) (idle_kind working cs ?c stale)"
    using assms(2) unfolding idle_tile_def Let_def r stale_def by simp_all
  have "ew_pipeline e' = p" "ew_last_results e' = ew_last_results e" by (simp_all add: e' set_pipeline_def)
  moreover have "(case t of None \<Rightarrow> working \<and> is_trade_eligible cs \<and> ?c \<and> \<not> stale_price ?now ?a ?p0
      | Some x \<Rightarrow> ix_coin x = Some ?a \<and> (\<not> working \<or> \<not> is_trade_eligible cs \<or> \<not> ?c \<or> stale_price ?now ?a ?p0))"
    using st unfolding t by (auto simp: idle_kind_def reads_price_def is_trade_eligible_def)
  ultimately show ?thesis using view by simp
qed

lemma idle_tiles_coins:
  assumes "wf_dict (pl_records (ew_pipeline e))"
  shows "map ix_coin (snd (idle_tiles env working css e)) =
    map (\<lambda>cs. Some (cs_coin cs)) (filter (\<lambda>cs. \<not> working \<or> \<not> is_trade_eligible cs \<or> cs_coin cs \<notin> set (dkeys (ew_last_results e)) \<or>
      stale_price (sp_price_now env (cs_coin cs)) (cs_coin cs) (ew_pipeline e)) css)"
  using assms
proof (induction css arbitrary: e)
  case (Cons cs css)
  obtain e1 t where t: "idle_tile env working cs e = (e1, t)" by fastforce
  obtain e2 ts where ts: "idle_tiles env working css e1 = (e2, ts)" by fastforce
  note x = idle_tile_exact [OF Cons.prems t]
  have "\<And>now a. stale_price now a (ew_pipeline e1) = stale_price now a (ew_pipeline e)" using stale_price_view x by blast
  then show ?case using Cons.IH [of e1] x by (auto simp: t ts split: option.splits)
qed simp

section \<open>Properties\<close>

text \<open>C36. Every coin is on the dashboard: of a bot that has its credentials, the search list shows, in the
  order of the settings, exactly the coins that may be traded and have been evaluated, and the
  idle list exactly those that are not of that kind or whose price is stale; when the bot does not
  run, the idle list shows all of them.\<close>

theorem every_coin_is_shown:
  assumes "creds \<noteq> Some False" and "wf_dict (pl_records (ew_pipeline (o_eval w)))"
  shows "map sx_coin (snd (build_search_snapshot env w)) =
      map cs_coin (filter (\<lambda>cs. is_trade_eligible cs \<and> cs_coin cs \<in> set (dkeys (ew_last_results (o_eval w))))
        (settings_get_all (ew_settings (o_eval w)))) \<and>
    map ix_coin (snd (build_idle_snapshot creds env w)) =
      map (\<lambda>cs. Some (cs_coin cs)) (filter (shown_idle env w) (settings_get_all (ew_settings (o_eval w))))"
proof
  show "map sx_coin (snd (build_search_snapshot env w)) =
      map cs_coin (filter (\<lambda>cs. is_trade_eligible cs \<and> cs_coin cs \<in> set (dkeys (ew_last_results (o_eval w))))
        (settings_get_all (ew_settings (o_eval w))))"
    using search_tiles_coins [of env "ew_last_results (o_eval w)" "get_eligible_coins (ew_settings (o_eval w))" "o_eval w"]
    by (simp add: build_search_snapshot_def Let_def case_prod_beta get_eligible_coins_def settings_get_all_def conj_commute)
  have "shown_idle env w = (\<lambda>cs. \<not> (o_trading_enabled w \<and> \<not> o_paused w) \<or> \<not> is_trade_eligible cs \<or>
      cs_coin cs \<notin> set (dkeys (ew_last_results (o_eval w))) \<or>
      stale_price (sp_price_now env (cs_coin cs)) (cs_coin cs) (ew_pipeline (o_eval w)))"
    by (auto simp: shown_idle_def fun_eq_iff)
  then show "map ix_coin (snd (build_idle_snapshot creds env w)) =
      map (\<lambda>cs. Some (cs_coin cs)) (filter (shown_idle env w) (settings_get_all (ew_settings (o_eval w))))"
    using assms(1) idle_tiles_coins [OF assms(2), of env "o_trading_enabled w \<and> \<not> o_paused w" "settings_get_all (ew_settings (o_eval w))"]
    by (simp add: build_idle_snapshot_def Let_def case_prod_beta)
qed

text \<open>The colour of a search tile is the decision of the engine: green exactly for an entry, red for a
  failed rule, pending when a rule waits for data, neutral when every rule is disabled.\<close>

theorem tile_tone_is_decision:
  "tile_tone (engine_evaluate rules c) = (case ev_decision (engine_evaluate rules c) of OD_ENTRY \<Rightarrow> TN_profit
     | OD_NO_ENTRY \<Rightarrow> TN_loss | OD_WAITING \<Rightarrow> TN_pending | OD_NO_RULES \<Rightarrow> TN_neutral)"
proof -
  let ?rs = "map (run_rule c) rules"
  let ?n = "\<lambda>s. length (filter (\<lambda>r. rr_state r = s) ?rs)"
  have pos: "0 < ?n s \<longleftrightarrow> (\<exists>r \<in> set ?rs. rr_state r = s)" for s
    by (auto simp: filter_empty_conv)
  have count: "state_count s (engine_evaluate rules c) = int (?n s)" for s
    by (simp add: state_count_def engine_evaluate_def Let_def)
  define f w p where n: "f = ?n FAIL" "w = ?n WAITING" "p = ?n PASS"
  have "ev_decision (engine_evaluate rules c) = (if 0 < ?n FAIL then OD_NO_ENTRY else if 0 < ?n WAITING then OD_WAITING
      else if 0 < ?n PASS then OD_ENTRY else OD_NO_RULES)"
    by (simp only: engine_evaluate_def Let_def EvaluationResult.simps merge_decision_iff pos)
  then show ?thesis unfolding tile_tone_def count Let_def n [symmetric]
    by (cases "f = 0"; cases "w = 0"; cases "p = 0") simp_all
qed

text \<open>An outage of the relayer does not show: after a live redemption that failed, the claim is listed
  exactly as before, with the retry count and the delay of a claim that was never tried.\<close>

theorem failed_redeem_is_not_shown:
  assumes "get_claim (ss_claims s) cid = Some c" and "\<not> ss_paper_mode s"
    and "se_relayer env ph (p_position_id pos) = RL_Fail err"
  shows "(case execute_redeem_for_claim env ph pos cid s of (s', ok) \<Rightarrow>
     \<not> ok \<and> (case get_claim (ss_claims s') cid of None \<Rightarrow> False
       | Some c' \<Rightarrow> c_last_error c' = err \<and> build_claim_contract c' (ss_claims s') = build_claim_contract c (ss_claims s)))"
  using assms by (simp add: execute_redeem_for_claim_def build_claim_contract_def put_claim_def get_claim_def)

definition example_dash_bot :: Orchestrator where
  "example_dash_bot = example_bot\<lparr>o_eval := (o_eval example_bot)\<lparr>ew_settings :=
     fold coin_request [CR_Save ''eth'' example_request, CR_Toggle ''eth'', CR_Save ''sol'' example_request] empty_settings\<rparr>\<rparr>"

definition example_snapshot_env :: SnapshotEnv where
  "example_snapshot_env = \<lparr>sp_price_now = (\<lambda>_. 0), sp_coin_now = (\<lambda>_. 0)\<rparr>"

theorem every_coin_is_shown_witness:
  "map ix_coin (snd (build_idle_snapshot (Some True) example_snapshot_env example_dash_bot)) = [Some ''ETH'', Some ''SOL'']"
proof -
  have wf: "wf_dict (pl_records (ew_pipeline (o_eval example_dash_bot)))"
    by (simp add: wf_dict_def example_dash_bot_def example_bot_def example_eval_world_def example_bridge_def)
  have "map cs_coin (settings_get_all (fold coin_request [CR_Save ''eth'' example_request, CR_Toggle ''eth'', CR_Save ''sol'' example_request]
      empty_settings)) = [''ETH'', ''SOL'']"
    by code_simp
  then have "map cs_coin (settings_get_all (ew_settings (o_eval example_dash_bot))) = [''ETH'', ''SOL'']"
    by (simp add: example_dash_bot_def)
  moreover have "dkeys (ew_last_results (o_eval example_dash_bot)) = []"
    by (simp add: example_dash_bot_def example_bot_def example_eval_world_def)
  ultimately show ?thesis
    using every_coin_is_shown [of "Some True" example_dash_bot example_snapshot_env] wf
    by (auto simp: shown_idle_def map_eq_Cons_conv)
qed

definition example_unredeemed :: SettleState where
  "example_unredeemed = (example_settle False)\<lparr>ss_claims := fst (create_claim ''c1'' ''p1'' ''BTC'' ''UP'' ''k1'' 50 (ss_claims (example_settle False)))\<rparr>"

theorem failed_redeem_is_not_shown_witness:
  "(case execute_redeem_for_claim (example_settle_env\<lparr>se_relayer := (\<lambda>_ _. RL_Fail ''timeout'')\<rparr>) RetryPhase (new_position ''p1'' ''BTC'' ''UP'' ''c1'' ''t1'' 5 50) ''k1'' example_unredeemed of
     (s', ok) \<Rightarrow> \<not> ok \<and> (case get_claim (ss_claims s') ''k1'' of None \<Rightarrow> False
       | Some c' \<Rightarrow> c_last_error c' = ''timeout'' \<and> build_claim_contract c' (ss_claims s') = build_claim_contract example_claim (ss_claims example_unredeemed)))"
proof (rule failed_redeem_is_not_shown)
  show "get_claim (ss_claims example_unredeemed) ''k1'' = Some example_claim"
    by (simp add: example_unredeemed_def example_claim_def create_claim_def get_claim_def claim_persist_def put_claim_def Let_def)
  show "\<not> ss_paper_mode example_unredeemed"
    by (simp add: example_unredeemed_def example_settle_def)
qed simp

end
