(* ===== verification/MarketMap.thy ===== *)
theory MarketMap
  imports Discovery JsonText
begin

text \<open>
  \<^verbatim>\<open>backend/market_data/mapping.py\<close>, which reads the tokens and sides of an event, and
  \<^verbatim>\<open>backend/discovery/live_validator.py\<close>, which asks whether an event is live.

  \<open>str_of\<close> is Python's \<^verbatim>\<open>str\<close> on numbers, lists and dictionaries; an answer of the API is a JSON value.
\<close>

section \<open>Records\<close>

datatype MarketSide = MS_UP | MS_DOWN

datatype MappingStatus = MAPPED | UNMAPPABLE

record TokenMapping =
  tm_token_id :: string
  tm_side :: MarketSide
  tm_outcome :: string

record MarketMap =
  mm_condition_id :: string
  mm_asset :: string
  mm_tokens :: "TokenMapping list"
  mm_status :: MappingStatus

definition get_token_by_side :: "MarketSide \<Rightarrow> MarketMap \<Rightarrow> TokenMapping option" where
  "get_token_by_side side m = find (\<lambda>t. tm_side t = side) (mm_tokens m)"

definition is_complete :: "MarketMap \<Rightarrow> bool" where
  "is_complete m \<longleftrightarrow> get_token_by_side MS_UP m \<noteq> None \<and> get_token_by_side MS_DOWN m \<noteq> None"

section \<open>Reading tokens\<close>

definition py_str :: "(json \<Rightarrow> string) \<Rightarrow> json \<Rightarrow> string" where
  "py_str str_of j = (case j of JStr s \<Rightarrow> s | JNull \<Rightarrow> ''None'' | JBool True \<Rightarrow> ''True'' | JBool False \<Rightarrow> ''False'' | _ \<Rightarrow> str_of j)"

definition classify_side :: "json \<Rightarrow> exc + MarketSide" where
  "classify_side outcome = (case outcome of
       JStr s \<Rightarrow> Inr (if str_lower s \<in> {''up'', ''yes'', ''higher'', ''above''} then MS_UP else MS_DOWN)
     | _ \<Rightarrow> Inl AttributeError)"

fun parse_token_dicts :: "(json \<Rightarrow> string) \<Rightarrow> json list \<Rightarrow> exc + TokenMapping list" where
  "parse_token_dicts str_of [] = Inr []"
| "parse_token_dicts str_of (t # ts) =
     bind_exc (jget t ''tokenId'' (JStr [])) (\<lambda>alt.
     bind_exc (jget t ''token_id'' alt) (\<lambda>tid.
     bind_exc (jget t ''outcome'' (JStr [])) (\<lambda>out.
       (let token_id = py_str str_of tid; outcome = py_str str_of out in
        if token_id = [] then parse_token_dicts str_of ts
        else bind_exc (classify_side (JStr outcome)) (\<lambda>side.
             bind_exc (parse_token_dicts str_of ts) (\<lambda>rest.
               Inr (\<lparr>tm_token_id = token_id, tm_side = side, tm_outcome = outcome\<rparr> # rest)))))))"

text \<open>\<^verbatim>\<open>raw and isinstance(raw[0], dict)\<close>, and the list when it holds\<close>

definition token_dicts :: "json \<Rightarrow> exc + json list option" where
  "token_dicts raw =
     (if \<not> truthy raw then Inr None
      else case raw of
        JList (x # xs) \<Rightarrow> Inr (if is_obj x then Some (x # xs) else None)
      | JStr s \<Rightarrow> Inr None
      | JObj kvs \<Rightarrow> Inl KeyError
      | _ \<Rightarrow> Inl TypeError)"

text \<open>A list, or the JSON text of one; a text that does not parse counts as empty.\<close>

definition maybe_text :: "json \<Rightarrow> json" where
  "maybe_text j = (case j of JStr s \<Rightarrow> (case json_loads s of Inr v \<Rightarrow> v | Inl _ \<Rightarrow> JList []) | _ \<Rightarrow> j)"

text \<open>\<^verbatim>\<open>outcomes[i] if i < len(outcomes) else ""\<close>\<close>

definition outcome_at :: "json \<Rightarrow> nat \<Rightarrow> exc + json" where
  "outcome_at outcomes i = (case outcomes of
       JList xs \<Rightarrow> Inr (if i < length xs then xs ! i else JStr [])
     | JStr s \<Rightarrow> Inr (if i < length s then JStr [s ! i] else JStr [])
     | JObj kvs \<Rightarrow> if i < length kvs then Inl KeyError else Inr (JStr [])
     | _ \<Rightarrow> Inl TypeError)"

fun pair_tokens :: "(json \<Rightarrow> string) \<Rightarrow> json \<Rightarrow> nat \<Rightarrow> json list \<Rightarrow> exc + TokenMapping list" where
  "pair_tokens str_of outcomes i [] = Inr []"
| "pair_tokens str_of outcomes i (tid # tids) =
     bind_exc (outcome_at outcomes i) (\<lambda>outcome.
       if \<not> truthy tid then pair_tokens str_of outcomes (Suc i) tids
       else bind_exc (classify_side outcome) (\<lambda>side.
            bind_exc (pair_tokens str_of outcomes (Suc i) tids) (\<lambda>rest.
              Inr (\<lparr>tm_token_id = py_str str_of tid, tm_side = side, tm_outcome = py_str str_of outcome\<rparr> # rest))))"

definition market_tokens :: "(json \<Rightarrow> string) \<Rightarrow> json \<Rightarrow> exc + TokenMapping list" where
  "market_tokens str_of market =
     bind_exc (jget market ''clobTokenIds'' (JList [])) (\<lambda>ids.
     bind_exc (jget market ''outcomes'' (JList [])) (\<lambda>outcomes.
     bind_exc (json_items (maybe_text ids)) (\<lambda>tids.
     bind_exc (pair_tokens str_of (maybe_text outcomes) 0 tids) (\<lambda>ms.
     bind_exc (jget market ''tokens'' (JList [])) (\<lambda>raw.
     bind_exc (token_dicts raw) (\<lambda>nested. case nested of None \<Rightarrow> Inr ms
       | Some ts \<Rightarrow> bind_exc (parse_token_dicts str_of ts) (\<lambda>more. Inr (ms @ more))))))))"

fun all_market_tokens :: "(json \<Rightarrow> string) \<Rightarrow> json list \<Rightarrow> exc + TokenMapping list" where
  "all_market_tokens str_of [] = Inr []"
| "all_market_tokens str_of (m # ms) =
     bind_exc (market_tokens str_of m) (\<lambda>ts. bind_exc (all_market_tokens str_of ms) (\<lambda>rest. Inr (ts @ rest)))"

definition extract_tokens :: "(json \<Rightarrow> string) \<Rightarrow> json \<Rightarrow> exc + TokenMapping list" where
  "extract_tokens str_of event =
     bind_exc (jget event ''tokens'' (JList [])) (\<lambda>raw.
     bind_exc (token_dicts raw) (\<lambda>direct. case direct of
         Some ts \<Rightarrow> parse_token_dicts str_of ts
       | None \<Rightarrow> bind_exc (jget event ''markets'' (JList [])) (\<lambda>markets.
           bind_exc (json_items markets) (all_market_tokens str_of))))"

definition MAPPED_ASSETS :: "string list" where
  "MAPPED_ASSETS = [''BTC'', ''ETH'', ''SOL'', ''DOGE'', ''XRP'', ''BNB'', ''MATIC'', ''LINK'', ''ADA'', ''AVAX'', ''DOT'',
     ''SHIB'', ''LTC'', ''UNI'', ''ATOM'']"

definition extract_asset :: "json \<Rightarrow> exc + string" where
  "extract_asset event =
     bind_exc (jget event ''title'' (JStr [])) (\<lambda>title.
     bind_exc (jget event ''question'' title) (\<lambda>q. case q of
         JStr s \<Rightarrow> Inr (case find (\<lambda>a. contains a (str_upper s)) MAPPED_ASSETS of Some a \<Rightarrow> a | None \<Rightarrow> ''UNKNOWN'')
       | _ \<Rightarrow> Inl AttributeError))"

definition map_event :: "(json \<Rightarrow> string) \<Rightarrow> json \<Rightarrow> exc + MarketMap" where
  "map_event str_of event =
     bind_exc (jget event ''condition_id'' (JStr [])) (\<lambda>alt.
     bind_exc (jget event ''conditionId'' alt) (\<lambda>c.
     bind_exc (extract_asset event) (\<lambda>asset.
       if py_str str_of c = [] then Inr \<lparr>mm_condition_id = [], mm_asset = asset, mm_tokens = [], mm_status = UNMAPPABLE\<rparr>
       else bind_exc (extract_tokens str_of event) (\<lambda>tokens.
         Inr \<lparr>mm_condition_id = py_str str_of c, mm_asset = asset, mm_tokens = tokens,
              mm_status = (if tokens = [] then UNMAPPABLE else MAPPED)\<rparr>))))"

section \<open>Live validation\<close>

datatype LiveResult = LV_VALID | LV_INVALID | LV_ERROR

text \<open>The answer of the API: a client error, another exception (a body that is not JSON), or a value.\<close>

datatype EventsReply = EV_ClientError | EV_Raise | EV_Data json

definition event_live :: "json \<Rightarrow> exc + bool" where
  "event_live e = bind_exc (jget e ''closed'' (JBool True)) (\<lambda>is_closed. bind_exc (jget e ''active'' (JBool False)) (\<lambda>active.
     Inr (\<not> truthy is_closed \<or> truthy active)))"

definition check_event_live :: "json \<Rightarrow> exc + bool" where
  "check_event_live data = (case data of
       JList xs \<Rightarrow> (case xs of [] \<Rightarrow> Inr False | x # _ \<Rightarrow> event_live x)
     | JObj kvs \<Rightarrow> event_live (JObj kvs)
     | _ \<Rightarrow> Inr False)"

text \<open>The slug that is asked for, and the result with whether a health incident comes with it.\<close>

definition lookup_slug :: "string \<Rightarrow> string \<Rightarrow> string" where
  "lookup_slug condition_id slug = (if slug \<noteq> [] then slug else condition_id)"

definition validate_event :: "(string \<Rightarrow> EventsReply) \<Rightarrow> string \<Rightarrow> string \<Rightarrow> LiveResult \<times> bool" where
  "validate_event api condition_id slug = (case api (lookup_slug condition_id slug) of
       EV_ClientError \<Rightarrow> (LV_ERROR, True)
     | EV_Raise \<Rightarrow> (LV_ERROR, True)
     | EV_Data data \<Rightarrow> (case check_event_live data of Inl _ \<Rightarrow> (LV_ERROR, True)
         | Inr live \<Rightarrow> (if live then LV_VALID else LV_INVALID, False)))"

section \<open>Events of the Gamma API\<close>

lemma bind_exc_simps [simp]: "bind_exc (Inl e) f = Inl e" "bind_exc (Inr x) f = f x"
  by (simp_all add: bind_exc_def)

lemma maybe_text_list: "maybe_text (JStr (dumps_list xs)) = JList (map JStr xs)" "maybe_text (JList js) = JList js"
proof -
  have "length (map dumps_str xs) \<le> length (joined (map dumps_str xs))"
    by (rule joined_length) (auto simp: dumps_str_def)
  then have "3 + length xs \<le> Suc (length (dumps_list xs))" by (simp add: dumps_list_def)
  then have "parse_value (Suc (length (dumps_list xs))) (dumps_list xs @ []) = Some (JList (map JStr xs), [])"
    using reads_list [of xs] unfolding reads_def by blast
  moreover have "skip (dumps_list xs @ []) = dumps_list xs @ []" using reads_skip [OF reads_list] .
  ultimately show "maybe_text (JStr (dumps_list xs)) = JList (map JStr xs)"
    by (simp add: maybe_text_def json_loads_def)
qed (simp add: maybe_text_def)

text \<open>A list of texts as the API sends it: as a list, or as the text of one.\<close>

definition sent_as :: "string list \<Rightarrow> json \<Rightarrow> bool" where
  "sent_as xs j \<longleftrightarrow> j = JList (map JStr xs) \<or> j = JStr (dumps_list xs)"

lemma sent_as_text: "sent_as xs j \<Longrightarrow> maybe_text j = JList (map JStr xs)"
  by (auto simp: sent_as_def maybe_text_list)

definition side_of :: "string \<Rightarrow> MarketSide" where
  "side_of s = (if str_lower s \<in> {''up'', ''yes'', ''higher'', ''above''} then MS_UP else MS_DOWN)"

definition token_of :: "string \<Rightarrow> string \<Rightarrow> TokenMapping" where
  "token_of tid outcome = \<lparr>tm_token_id = tid, tm_side = side_of outcome, tm_outcome = outcome\<rparr>"

lemma pair_tokens_texts:
  assumes "i + length xs \<le> length ys" and "[] \<notin> set xs"
  shows "pair_tokens str_of (JList (map JStr ys)) i (map JStr xs) = Inr (map2 token_of xs (drop i ys))"
  using assms
proof (induction xs arbitrary: i)
  case (Cons x xs)
  then have "drop i ys = ys ! i # drop (Suc i) ys" by (intro Cons_nth_drop_Suc [symmetric]) simp
  moreover have "outcome_at (JList (map JStr ys)) i = Inr (JStr (ys ! i))"
    using Cons.prems by (simp add: outcome_at_def)
  moreover have "classify_side (JStr (ys ! i)) = Inr (side_of (ys ! i))"
    by (simp add: classify_side_def side_of_def)
  ultimately show ?case using Cons by (auto simp: token_of_def py_str_def)
qed simp

definition gamma_event :: "string \<Rightarrow> string \<Rightarrow> json \<Rightarrow> json \<Rightarrow> json" where
  "gamma_event cid question ids outcomes =
     JObj [(''conditionId'', JStr cid), (''question'', JStr question),
       (''markets'', JList [JObj [(''clobTokenIds'', ids), (''outcomes'', outcomes)]])]"

text \<open>An event of the Gamma API, whose token ids and outcomes come as lists or as the texts of lists, is mapped token
  by token to its sides. The map is complete exactly when some outcome means up and some does not, but it
  counts as mapped with a single token: an outcome that is not recognised means down.\<close>

theorem map_event_exact:
  assumes "sent_as xs ids" and "sent_as ys outcomes" and "length xs = length ys" and "[] \<notin> set xs" and "cid \<noteq> []"
    and "map_event str_of (gamma_event cid question ids outcomes) = Inr m"
  shows "mm_condition_id m = cid \<and> mm_tokens m = map2 token_of xs ys \<and> (mm_status m = MAPPED \<longleftrightarrow> xs \<noteq> []) \<and>
    (is_complete m \<longleftrightarrow> MS_UP \<in> side_of ` set ys \<and> MS_DOWN \<in> side_of ` set ys)"
proof -
  have tokens: "extract_tokens str_of (gamma_event cid question ids outcomes) = Inr (map2 token_of xs ys)"
    using pair_tokens_texts [of 0 xs ys str_of] assms(3,4)
    by (simp add: extract_tokens_def gamma_event_def dget_or_def token_dicts_def market_tokens_def
        sent_as_text [OF assms(1)] sent_as_text [OF assms(2)])
  have ids: "jget (gamma_event cid question ids outcomes) ''condition_id'' (JStr []) = Inr (JStr [])"
    "jget (gamma_event cid question ids outcomes) ''conditionId'' (JStr []) = Inr (JStr cid)"
    by (simp_all add: gamma_event_def dget_or_def)
  obtain a where "extract_asset (gamma_event cid question ids outcomes) = Inr a"
    by (simp add: extract_asset_def gamma_event_def dget_or_def)
  then have m: "mm_condition_id m = cid" "mm_tokens m = map2 token_of xs ys" "mm_status m = MAPPED \<longleftrightarrow> map2 token_of xs ys \<noteq> []"
    using assms(5,6) by (auto simp: map_event_def ids tokens py_str_def)
  have "find (\<lambda>t. tm_side t = side) (map2 token_of us vs) \<noteq> None \<longleftrightarrow> side \<in> side_of ` set vs" if "length us = length vs" for side us vs
    using that by (induction us vs rule: list_induct2) (auto simp: token_of_def)
  then show ?thesis
    using m assms(3) by (auto simp: is_complete_def get_token_by_side_def)
qed

theorem map_event_exact_witness:
  "(case map_event (\<lambda>_. []) (gamma_event ''c1'' ''BTC up?'' (JStr (dumps_list [''t1'', ''t2''])) (JList [JStr ''Up'', JStr ''Down''])) of
     Inl _ \<Rightarrow> False | Inr m \<Rightarrow> is_complete m \<and> mm_tokens m = [token_of ''t1'' ''Up'', token_of ''t2'' ''Down''])"
proof -
  let ?e = "gamma_event ''c1'' ''BTC up?'' (JStr (dumps_list [''t1'', ''t2''])) (JList [JStr ''Up'', JStr ''Down''])"
  have "(case map_event (\<lambda>_. []) ?e of Inl _ \<Rightarrow> False | Inr _ \<Rightarrow> True)" by code_simp
  then obtain m where m: "map_event (\<lambda>_. []) ?e = Inr m" by (cases "map_event (\<lambda>_. []) ?e") auto
  have sides: "side_of ''Up'' = MS_UP" "side_of ''Down'' = MS_DOWN" by code_simp+
  from map_event_exact [of "[''t1'', ''t2'']" _ "[''Up'', ''Down'']", OF _ _ _ _ _ m] show ?thesis
    by (simp add: m sent_as_def sides)
qed

text \<open>A market that is closed counts as live when it is still flagged active.\<close>

lemma closed_but_active: "check_event_live (JList [JObj [(''closed'', JBool True), (''active'', JBool True)]]) = Inr True"
  by (simp add: check_event_live_def event_live_def dget_or_def)

end
