(* ===== verification/Format.thy ===== *)
theory Format
  imports Json
begin

text \<open>
  The number formats of the texts the bot shows and writes: \<^verbatim>\<open>str(i)\<close> of an integer and the format
  specifications \<^verbatim>\<open>.nf\<close> and \<^verbatim>\<open>,.nf\<close> of a float, which round the exact value half to even, and
  \<^verbatim>\<open>text.rstrip('0').rstrip('.')\<close>. The section on reading shows that \<^verbatim>\<open>float\<close> gets the rounded value back.

  There is one zero: the sign of a negative number that rounds to zero is kept, the one of \<^verbatim>\<open>-0.0\<close> is not.
\<close>

section \<open>Formats\<close>

definition digit_char :: "nat \<Rightarrow> char" where
  "digit_char d = char_of (48 + d)"

fun nat_text :: "nat \<Rightarrow> string" where
  "nat_text n = (if n < 10 then [digit_char n] else nat_text (n div 10) @ [digit_char (n mod 10)])"

declare nat_text.simps [simp del]

definition int_text :: "int \<Rightarrow> string" where
  "int_text i = (if i < 0 then CHR ''-'' # nat_text (nat (- i)) else nat_text (nat i))"

text \<open>The \<open>k\<close> last digits of a number.\<close>

fun last_digits :: "nat \<Rightarrow> nat \<Rightarrow> string" where
  "last_digits 0 m = []"
| "last_digits (Suc k) m = last_digits k (m div 10) @ [digit_char (m mod 10)]"

text \<open>A comma before every third digit from the end.\<close>

fun commas_from_end :: "string \<Rightarrow> string" where
  "commas_from_end (a # b # c # d # r) = a # b # c # CHR '','' # commas_from_end (d # r)"
| "commas_from_end s = s"

definition group_digits :: "string \<Rightarrow> string" where
  "group_digits s = rev (commas_from_end (rev s))"

definition sign_text :: "num \<Rightarrow> string" where
  "sign_text x = (if x < 0 then ''-'' else [])"

definition scaled :: "nat \<Rightarrow> num \<Rightarrow> nat" where
  "scaled n x = nat (rne (\<bar>x\<bar> * 10 ^ n))"

definition fraction_text :: "nat \<Rightarrow> nat \<Rightarrow> string" where
  "fraction_text n m = (if n = 0 then [] else CHR ''.'' # last_digits n m)"

definition fixed :: "nat \<Rightarrow> num \<Rightarrow> string" where
  "fixed n x = sign_text x @ nat_text (scaled n x div 10 ^ n) @ fraction_text n (scaled n x)"

definition fixed_commas :: "nat \<Rightarrow> num \<Rightarrow> string" where
  "fixed_commas n x = sign_text x @ group_digits (nat_text (scaled n x div 10 ^ n)) @ fraction_text n (scaled n x)"

definition rstrip :: "char \<Rightarrow> string \<Rightarrow> string" where
  "rstrip c s = rev (dropWhile (\<lambda>x. x = c) (rev s))"

definition trimmed :: "string \<Rightarrow> string" where
  "trimmed s = rstrip CHR ''.'' (rstrip CHR ''0'' s)"

section \<open>Digits\<close>

lemma digit_char_is_digit [simp]: "d < 10 \<Longrightarrow> is_digit (digit_char d)"
  by (simp add: digit_char_def is_digit_def)

lemma digit_char_val: "d < 10 \<Longrightarrow> int (of_char (digit_char d)) - 48 = int d"
  by (simp add: digit_char_def)

lemma nat_text_digits: "c \<in> set (nat_text n) \<Longrightarrow> is_digit c"
  by (induction n rule: nat_text.induct) (subst (asm) (2) nat_text.simps, auto split: if_splits)

lemma nat_text_nonempty [simp]: "nat_text n \<noteq> []"
  by (subst nat_text.simps) simp

lemma last_digits_digits: "c \<in> set (last_digits k m) \<Longrightarrow> is_digit c"
  by (induction k arbitrary: m) auto

lemma last_digits_length [simp]: "length (last_digits k m) = k"
  by (induction k arbitrary: m) auto

lemma digits_val_Nil [simp]: "digits_val [] = 0"
  by (simp add: digits_val_def)

lemma digits_val_snoc: "digits_val (ds @ [c]) = digits_val ds * 10 + (int (of_char c) - 48)"
  by (simp add: digits_val_def)

lemma digits_val_append: "digits_val (xs @ ys) = digits_val xs * 10 ^ length ys + digits_val ys"
proof (induction ys rule: rev_induct)
  case (snoc c ys)
  then show ?case
    unfolding append_assoc [symmetric] digits_val_snoc by (simp add: algebra_simps)
qed simp

lemma split_number: "int (m div k) * int k + int (m mod k) = int m"
  by (metis div_mult_mod_eq of_nat_add of_nat_mult)

lemma digits_val_nat_text: "digits_val (nat_text n) = int n"
proof (induction n rule: nat_text.induct)
  case (1 n)
  show ?case
  proof (cases "n < 10")
    case True
    then show ?thesis by (subst nat_text.simps) (simp add: digits_val_def digit_char_val)
  next
    case False
    then show ?thesis
      using 1 split_number [of n 10] by (subst nat_text.simps) (simp add: digits_val_snoc digit_char_val)
  qed
qed

lemma digits_val_last_digits: "digits_val (last_digits k m) = int (m mod 10 ^ k)"
proof (induction k arbitrary: m)
  case (Suc k)
  have "m mod 10 ^ Suc k = m div 10 mod 10 ^ k * 10 + m mod 10"
    using mod_mult2_eq [of m 10 "10 ^ k"] by simp
  then show ?case using Suc by (simp add: digits_val_snoc digit_char_val)
qed simp

lemma digits_val_parts:
  "digits_val (nat_text (m div 10 ^ n) @ last_digits n m) = int m"
  unfolding digits_val_append last_digits_length digits_val_nat_text digits_val_last_digits
  using split_number [of m "10 ^ n"] by simp

section \<open>Reading a number back\<close>

definition ends_digits :: "string \<Rightarrow> bool" where
  "ends_digits rest \<longleftrightarrow> (case rest of [] \<Rightarrow> True | c # _ \<Rightarrow> \<not> is_digit c \<and> c \<noteq> CHR ''_'')"

lemma digit_not_underscore: "is_digit c \<Longrightarrow> c \<noteq> CHR ''_''"
  by (auto simp: is_digit_def)

lemma digit_run_digits:
  assumes "\<forall>c \<in> set ds. is_digit c" and "ends_digits rest"
  shows "digit_run (ds @ rest) = (ds, rest)"
  using assms(1)
proof (induction ds)
  case Nil
  then show ?case
    using assms(2) by (cases rest rule: digit_run.cases) (auto simp: ends_digits_def)
next
  case (Cons d ds)
  then have ih: "digit_run (ds @ rest) = (ds, rest)" and d: "is_digit d" by simp_all
  show ?case
  proof (cases "ds @ rest")
    case Nil
    with d show ?thesis by simp
  next
    case (Cons u us)
    then have u: "u \<noteq> CHR ''_''"
      using Cons.prems assms(2) digit_not_underscore by (cases ds) (auto simp: ends_digits_def)
    show ?thesis
    proof (cases us)
      case Nil
      with ih d Cons u show ?thesis by (auto split: if_splits)
    next
      case (Cons v vs)
      with ih d u \<open>ds @ rest = u # us\<close> show ?thesis by simp
    qed
  qed
qed

lemma unsigned_float_digits:
  assumes "\<forall>c \<in> set ip. is_digit c" and "ip \<noteq> []" and "\<forall>c \<in> set fp. is_digit c"
  shows "unsigned_float ip = Some (of_int (digits_val ip))"
    and "unsigned_float (ip @ CHR ''.'' # fp) = Some (of_int (digits_val (ip @ fp)) / 10 ^ length fp)"
proof -
  have "\<not> is_digit CHR ''.''" by (simp add: is_digit_def)
  then have run: "digit_run (ip @ CHR ''.'' # fp) = (ip, CHR ''.'' # fp)" "digit_run ip = (ip, [])" "digit_run fp = (fp, [])"
    using assms digit_run_digits [of ip "CHR ''.'' # fp"] digit_run_digits [of ip "[]"] digit_run_digits [of fp "[]"]
    by (auto simp: ends_digits_def)
  then show "unsigned_float ip = Some (of_int (digits_val ip))"
    using assms(2) by (simp add: unsigned_float_def frac_part_def exp_part_def)
  show "unsigned_float (ip @ CHR ''.'' # fp) = Some (of_int (digits_val (ip @ fp)) / 10 ^ length fp)"
    using run assms(2) by (simp add: unsigned_float_def frac_part_def exp_part_def power_int_minus field_simps)
qed

lemma digit_props:
  assumes "is_digit c"
  shows "\<not> is_space c" "char_lower c = c" "c \<noteq> CHR ''-''" "c \<noteq> CHR ''+''" "c \<noteq> CHR '',''" "c \<noteq> CHR ''.''"
    "c \<noteq> CHR ''n''" "c \<noteq> CHR ''i''"
  using assms by (auto simp: is_digit_def is_space_def char_lower_def)

lemma str_strip_same: "\<forall>c \<in> set s. \<not> is_space c \<Longrightarrow> str_strip s = s"
  using hd_in_set [of s] last_in_set [of s] by (cases "s = []") (simp_all add: str_strip_def dropWhile_eq_self_iff [THEN iffD2] hd_rev)

lemma py_float_decimal:
  assumes "unsigned_float (d # r) = Some v" and "is_digit d" and "\<forall>c \<in> set r. is_digit c \<or> c = CHR ''.''"
    and sg: "sg = sign_text x \<or> 0 \<le> x \<and> sg = ''+''"
  shows "py_float_str (sg @ d # r) = Inr (Fin (fl (if x < 0 then - v else v)))"
proof -
  have "\<not> is_space CHR ''.''" "\<not> is_space CHR ''-''" "\<not> is_space CHR ''+''" by (simp_all add: is_space_def)
  then have "\<forall>c \<in> set (sg @ d # r). \<not> is_space c"
    using assms(2,3) sg digit_props(1) by (auto simp: sign_text_def)
  then have "str_strip (sg @ d # r) = sg @ d # r" by (rule str_strip_same)
  moreover have "take_sign (sg @ d # r) = (x < 0, d # r)"
    using sg digit_props(3,4) [OF assms(2)] by (auto simp: sign_text_def)
  moreover have "str_lower (d # r) \<noteq> ''nan'' \<and> str_lower (d # r) \<noteq> ''inf'' \<and> str_lower (d # r) \<noteq> ''infinity''"
    using digit_props(2,7,8) [OF assms(2)] by (simp add: str_lower_def)
  ultimately show ?thesis using assms(1) by (simp add: py_float_str_def)
qed

lemma scaled_value: "of_int (int (scaled n x)) = (\<bar>of_int (rne (x * 10 ^ n))\<bar> :: num)"
  "x < 0 \<Longrightarrow> rne (x * 10 ^ n) \<le> 0" "0 \<le> x \<Longrightarrow> 0 \<le> rne (x * 10 ^ n)"
proof -
  show neg: "x < 0 \<Longrightarrow> rne (x * 10 ^ n) \<le> 0" using rne_mono [of "x * 10 ^ n" 0] by (simp add: mult_le_0_iff)
  show pos: "0 \<le> x \<Longrightarrow> 0 \<le> rne (x * 10 ^ n)" using rne_mono [of 0 "x * 10 ^ n"] by simp
  show "of_int (int (scaled n x)) = (\<bar>of_int (rne (x * 10 ^ n))\<bar> :: num)"
    using neg pos rne_uminus [of "x * 10 ^ n"] by (cases "x < 0") (auto simp: scaled_def)
qed

lemma signed_scaled:
  "(if x < 0 then - (of_int (int (scaled n x)) / 10 ^ n) else of_int (int (scaled n x)) / 10 ^ n) = (of_int (rne (x * 10 ^ n)) / 10 ^ n :: num)"
  using scaled_value(1) [of n x] scaled_value(2,3) [of x n] by (cases "x < 0") (auto simp: abs_if not_less simp del: of_int_of_nat_eq)

text \<open>A decimal text with the digits of the rounded number reads as the rounded number.\<close>

lemma read_parts:
  assumes "\<forall>c \<in> set fp. is_digit c" and "digits_val (nat_text (scaled n x div 10 ^ n) @ fp) * 10 ^ k = int (scaled n x)"
    and "length fp + k = n" and sg: "sg = sign_text x \<or> 0 \<le> x \<and> sg = ''+''"
  shows "py_float_str (sg @ nat_text (scaled n x div 10 ^ n) @ (if fp = [] then [] else CHR ''.'' # fp)) = Inr (Fin (py_round n x))"
proof -
  let ?ip = "nat_text (scaled n x div 10 ^ n)"
  obtain d r where ip: "?ip = d # r" by (metis neq_Nil_conv nat_text_nonempty)
  let ?v = "of_int (digits_val (?ip @ fp)) / 10 ^ length fp :: num"
  have digits: "\<forall>c \<in> set ?ip. is_digit c" using nat_text_digits by blast
  note u = unsigned_float_digits [OF digits nat_text_nonempty assms(1)]
  have chars: "is_digit d" "\<forall>c \<in> set (r @ (if fp = [] then [] else CHR ''.'' # fp)). is_digit c \<or> c = CHR ''.''"
    using digits assms(1) unfolding ip by auto
  have "unsigned_float (?ip @ (if fp = [] then [] else CHR ''.'' # fp)) = Some ?v"
    using u by (cases "fp = []") simp_all
  then have "py_float_str (sg @ ?ip @ (if fp = [] then [] else CHR ''.'' # fp)) = Inr (Fin (fl (if x < 0 then - ?v else ?v)))"
    using py_float_decimal [of d "r @ (if fp = [] then [] else CHR ''.'' # fp)" ?v sg x, OF _ chars sg] unfolding ip by simp
  moreover have "of_int (int (scaled n x)) / 10 ^ n = ?v"
  proof -
    have "(10 :: num) ^ n = 10 ^ length fp * 10 ^ k" by (simp flip: power_add add: assms(3))
    then show ?thesis unfolding assms(2) [symmetric] by simp
  qed
  ultimately show ?thesis using signed_scaled [of x n] by (simp only: py_round_def)
qed

lemma read_fixed: "py_float_str (fixed n x) = Inr (Fin (py_round n x))"
  and read_plus: "0 \<le> x \<Longrightarrow> py_float_str (CHR ''+'' # fixed n x) = Inr (Fin (py_round n x))"
proof -
  have frac: "fraction_text n m = (if last_digits n m = [] then [] else CHR ''.'' # last_digits n m)" for m
    using last_digits_length [of n m] by (cases "n = 0") (auto simp: fraction_text_def simp del: last_digits_length)
  have body: "py_float_str (sg @ nat_text (scaled n x div 10 ^ n) @ fraction_text n (scaled n x)) = Inr (Fin (py_round n x))"
    if "sg = sign_text x \<or> 0 \<le> x \<and> sg = ''+''" for sg
    unfolding frac using last_digits_digits digits_val_parts that by (intro read_parts [of _ n x 0]) auto
  show "py_float_str (fixed n x) = Inr (Fin (py_round n x))"
    using body [of "sign_text x"] by (simp add: fixed_def)
  show "py_float_str (CHR ''+'' # fixed n x) = Inr (Fin (py_round n x))" if "0 \<le> x"
    using body [of "''+''"] that by (simp add: fixed_def sign_text_def)
qed

lemma group_digits_same: "filter (\<lambda>c. c \<noteq> CHR '','') (group_digits s) = filter (\<lambda>c. c \<noteq> CHR '','') s"
proof -
  have "filter (\<lambda>c. c \<noteq> CHR '','') (commas_from_end t) = filter (\<lambda>c. c \<noteq> CHR '','') t" for t
    by (induction t rule: commas_from_end.induct) auto
  then show ?thesis by (simp add: group_digits_def rev_filter [symmetric])
qed

lemma no_commas: "\<forall>c \<in> set s. is_digit c \<Longrightarrow> filter (\<lambda>c. c \<noteq> CHR '','') s = s"
  using digit_props(5) by (auto intro!: filter_True)

lemma fixed_commas_same: "filter (\<lambda>c. c \<noteq> CHR '','') (fixed_commas n x) = fixed n x"
proof -
  have "filter (\<lambda>c. c \<noteq> CHR '','') (fraction_text n m) = fraction_text n m" for m
    using no_commas [of "last_digits n m"] last_digits_digits by (auto simp: fraction_text_def)
  moreover have "filter (\<lambda>c. c \<noteq> CHR '','') (nat_text m) = nat_text m" for m
    using no_commas [of "nat_text m"] nat_text_digits by blast
  ultimately show ?thesis
    by (simp add: fixed_commas_def fixed_def group_digits_same sign_text_def)
qed

lemma rstrip_snoc: "rstrip c (s @ replicate k c) = rstrip c s" "s \<noteq> [] \<Longrightarrow> last s \<noteq> c \<Longrightarrow> rstrip c s = s"
proof -
  have "dropWhile (\<lambda>x. x = c) (replicate k c @ t) = dropWhile (\<lambda>x. x = c) t" for t by (induction k) auto
  then show "rstrip c (s @ replicate k c) = rstrip c s" by (simp add: rstrip_def)
  show "s \<noteq> [] \<Longrightarrow> last s \<noteq> c \<Longrightarrow> rstrip c s = s"
    by (cases s rule: rev_cases) (simp_all add: rstrip_def)
qed

lemma trailing: "\<exists>fp' k. fp = fp' @ replicate k c \<and> (fp' = [] \<or> last fp' \<noteq> c)"
proof (induction fp rule: rev_induct)
  case (snoc x xs)
  show ?case
  proof (cases "x = c")
    case True
    from snoc obtain fp' k where "xs = fp' @ replicate k c" "fp' = [] \<or> last fp' \<noteq> c" by blast
    with True have "xs @ [x] = fp' @ replicate (Suc k) c \<and> (fp' = [] \<or> last fp' \<noteq> c)"
      by (simp add: replicate_append_same)
    then show ?thesis by blast
  next
    case False
    then show ?thesis by (intro exI [of _ "xs @ [x]"] exI [of _ 0]) simp
  qed
qed simp

lemma digits_val_zeros: "digits_val (ds @ replicate k CHR ''0'') = digits_val ds * 10 ^ k"
proof -
  have "digits_val (replicate k CHR ''0'') = 0" by (induction k) (simp_all add: digits_val_snoc flip: replicate_append_same)
  then show ?thesis by (simp add: digits_val_append)
qed

lemma read_trimmed:
  assumes "0 < n"
  shows "py_float_str (trimmed (fixed n x)) = Inr (Fin (py_round n x))"
proof -
  let ?ip = "nat_text (scaled n x div 10 ^ n)" and ?fp = "last_digits n (scaled n x)"
  obtain fp k where fp: "?fp = fp @ replicate k CHR ''0''" "fp = [] \<or> last fp \<noteq> CHR ''0''"
    using trailing [of ?fp "CHR ''0''"] by (elim exE conjE) (rule that)
  have "\<forall>c \<in> set ?fp. is_digit c" using last_digits_digits by blast
  then have "\<forall>c \<in> set fp. is_digit c" unfolding fp(1) by simp
  moreover have "\<forall>c \<in> set ?ip. is_digit c" using nat_text_digits by blast
  ultimately have digits: "\<forall>c \<in> set ?ip. is_digit c" "\<forall>c \<in> set fp. is_digit c" by blast+
  have written: "fixed n x = (sign_text x @ ?ip @ CHR ''.'' # fp) @ replicate k CHR ''0''"
    using assms fp(1) by (simp add: fixed_def fraction_text_def)
  have "rstrip CHR ''0'' (fixed n x) = sign_text x @ ?ip @ CHR ''.'' # fp"
    unfolding written rstrip_snoc(1) using fp(2) by (intro rstrip_snoc(2)) auto
  moreover have "rstrip CHR ''.'' (sign_text x @ ?ip @ CHR ''.'' # fp) = sign_text x @ ?ip @ (if fp = [] then [] else CHR ''.'' # fp)"
  proof (cases "fp = []")
    case True
    have "last ?ip \<noteq> CHR ''.''" using digits(1) last_in_set [OF nat_text_nonempty] digit_props(6) by blast
    with True show ?thesis
      using rstrip_snoc(1) [of "CHR ''.''" "sign_text x @ ?ip" 1] rstrip_snoc(2) [of "sign_text x @ ?ip" "CHR ''.''"] by simp
  next
    case False
    have "last fp \<noteq> CHR ''.''" using digits(2) last_in_set [OF False] digit_props(6) by blast
    with False show ?thesis by (subst rstrip_snoc(2)) auto
  qed
  ultimately have "trimmed (fixed n x) = sign_text x @ ?ip @ (if fp = [] then [] else CHR ''.'' # fp)"
    by (simp add: trimmed_def)
  moreover have "digits_val (?ip @ fp) * 10 ^ k = int (scaled n x)"
    using digits_val_parts [of "scaled n x" n] unfolding fp(1) append_assoc [symmetric] digits_val_zeros .
  moreover have "length fp + k = n" using last_digits_length [of n "scaled n x"] unfolding fp(1) by simp
  ultimately show ?thesis using read_parts [OF digits(2), of n x k "sign_text x"] by simp
qed

lemma format_examples:
  "group_digits ''1234567'' = ''1,234,567''" "nat_text 1205 = ''1205''" "trimmed ''10.50'' = ''10.5''" "trimmed ''10.00'' = ''10''"
  "int_text (- 120) = ''-120''" "fraction_text 2 105 = ''.05''"
  by code_simp+

end
