(* ===== verification/Tiles.thy ===== *)
theory Tiles
  imports Dashboard MarketMap Format
begin

text \<open>
  The answers of the dashboard endpoints (\<^verbatim>\<open>backend/api/dashboard.py\<close>): how the dictionaries of the
  orchestrator become the records the page reads, and the numbers their texts.

  Texts are lists of bytes (UTF-8). \<open>str_of\<close> is \<^verbatim>\<open>str(x)\<close> of a number, a list or a dictionary; the
  tiles of the orchestrator hold none where the endpoint asks for a text. A constructor of a
  response model that does not accept a value raises \<^verbatim>\<open>ValidationError\<close>, a \<^verbatim>\<open>ValueError\<close>.
\<close>

section \<open>Fields of a dictionary\<close>

abbreviation get :: "(string \<times> json) list \<Rightarrow> string \<Rightarrow> json" where
  "get kvs k \<equiv> dget_or kvs k JNull"

definition get_str :: "(json \<Rightarrow> string) \<Rightarrow> (string \<times> json) list \<Rightarrow> string \<Rightarrow> string" where
  "get_str str_of kvs k = py_str str_of (dget_or kvs k (JStr []))"

text \<open>\<^verbatim>\<open>a or b\<close>\<close>

definition json_or :: "json \<Rightarrow> json \<Rightarrow> json" where
  "json_or a b = (if truthy a then a else b)"

text \<open>A value for a field of type \<^verbatim>\<open>Optional[str]\<close>, and for one of \<^verbatim>\<open>Optional[list[str]]\<close>.\<close>

fun opt_str :: "json \<Rightarrow> exc + string option" where
  "opt_str JNull = Inr None"
| "opt_str (JStr s) = Inr (Some s)"
| "opt_str j = Inl ValueError"

definition opt_str_list :: "json \<Rightarrow> exc + string list option" where
  "opt_str_list j = (case j of JNull \<Rightarrow> Inr None
     | JList xs \<Rightarrow> (if \<forall>x \<in> set xs. (case x of JStr _ \<Rightarrow> True | _ \<Rightarrow> False)
         then Inr (Some (map (\<lambda>x. case x of JStr s \<Rightarrow> s | _ \<Rightarrow> []) xs)) else Inl ValueError)
     | _ \<Rightarrow> Inl ValueError)"

section \<open>Activity and rules\<close>

datatype ActivitySeverity = SV_success | SV_warning | SV_error | SV_info | SV_pending | SV_off

definition SEVERITIES :: "(string \<times> ActivitySeverity) list" where
  "SEVERITIES = [(''success'', SV_success), (''warning'', SV_warning), (''error'', SV_error), (''info'', SV_info),
     (''pending'', SV_pending), (''off'', SV_off)]"

record ActivityContract =
  av_text :: string
  av_severity :: "ActivitySeverity option"
  av_inline_icons :: "string list option"

definition opt_severity :: "json \<Rightarrow> exc + ActivitySeverity option" where
  "opt_severity j = (case j of JNull \<Rightarrow> Inr None
     | JStr s \<Rightarrow> (case map_of SEVERITIES s of None \<Rightarrow> Inl ValueError | Some v \<Rightarrow> Inr (Some v))
     | _ \<Rightarrow> Inl ValueError)"

definition build_activity :: "json \<Rightarrow> exc + ActivityContract option" where
  "build_activity a = (case a of
       JObj kvs \<Rightarrow>
         (case dget kvs ''text'' of None \<Rightarrow> Inr None
          | Some (JStr t) \<Rightarrow>
              bind_exc (opt_severity (get kvs ''severity'')) (\<lambda>sev.
              bind_exc (opt_str_list (get kvs ''inline_icons'')) (\<lambda>icons.
                Inr (Some \<lparr>av_text = t, av_severity = sev, av_inline_icons = icons\<rparr>)))
          | Some _ \<Rightarrow> Inl ValueError)
     | _ \<Rightarrow> Inr None)"

fun rule_state_value :: "RuleState \<Rightarrow> string" where
  "rule_state_value PASS = ''pass''"
| "rule_state_value FAIL = ''fail''"
| "rule_state_value WAITING = ''waiting''"
| "rule_state_value DISABLED = ''disabled''"

definition coerce_rule_state :: "(json \<Rightarrow> string) \<Rightarrow> json \<Rightarrow> RuleState" where
  "coerce_rule_state str_of raw = (if raw = JNull then WAITING
     else case find (\<lambda>s. rule_state_value s = str_lower (py_str str_of raw)) [PASS, FAIL, WAITING, DISABLED] of
       None \<Rightarrow> WAITING | Some s \<Rightarrow> s)"

record RuleSpecContract =
  rz_label :: string
  rz_live_value :: string
  rz_threshold_text :: "string option"
  rz_state :: RuleState

text \<open>One entry of the rule list; an entry that does not validate is left out. A value that is not a
  dictionary has none of the attributes.\<close>

definition build_rule_spec :: "(json \<Rightarrow> string) \<Rightarrow> json \<Rightarrow> RuleSpecContract option" where
  "build_rule_spec str_of r = (case r of
       JObj kvs \<Rightarrow>
         (case opt_str (get kvs ''threshold_text'') of Inl _ \<Rightarrow> None
          | Inr th \<Rightarrow> Some \<lparr>rz_label = get_str str_of kvs ''label'', rz_live_value = get_str str_of kvs ''live_value'',
              rz_threshold_text = th, rz_state = coerce_rule_state str_of (get kvs ''state'')\<rparr>)
     | _ \<Rightarrow> Some \<lparr>rz_label = [], rz_live_value = [], rz_threshold_text = None, rz_state = WAITING\<rparr>)"

text \<open>\<^verbatim>\<open>for r in raw_rules\<close> goes through the keys of a dictionary and the characters of a text.\<close>

definition build_rule_specs :: "(json \<Rightarrow> string) \<Rightarrow> json \<Rightarrow> exc + RuleSpecContract list" where
  "build_rule_specs str_of raw = (if \<not> truthy raw then Inr []
     else case raw of
       JList rs \<Rightarrow> Inr (List.map_filter (build_rule_spec str_of) rs)
     | JObj kvs \<Rightarrow> Inr (List.map_filter (build_rule_spec str_of) (map JStr (remdups (dkeys kvs))))
     | JStr s \<Rightarrow> Inr (List.map_filter (build_rule_spec str_of) (map (\<lambda>c. JStr [c]) s))
     | _ \<Rightarrow> Inl TypeError)"

section \<open>Search tiles\<close>

fun tone_value :: "PnlTone \<Rightarrow> string" where
  "tone_value TN_profit = ''profit''"
| "tone_value TN_loss = ''loss''"
| "tone_value TN_neutral = ''neutral''"
| "tone_value TN_pending = ''pending''"
| "tone_value TN_off = ''off''"

definition coerce_tone :: "json \<Rightarrow> PnlTone" where
  "coerce_tone j = (case find (\<lambda>t. j = JStr (tone_value t)) [TN_profit, TN_loss, TN_neutral, TN_pending, TN_off] of
     None \<Rightarrow> TN_neutral | Some t \<Rightarrow> t)"

record SearchTileContract =
  zs_tile_id :: string
  zs_coin :: string
  zs_event_url :: string
  zs_pnl_big :: string
  zs_pnl_amount :: "string option"
  zs_pnl_tone :: PnlTone
  zs_ptb :: string
  zs_live :: string
  zs_delta :: string
  zs_rules :: "RuleSpecContract list"
  zs_activity :: "ActivityContract option"
  zs_signal_ready :: bool
  zs_type :: "string option"

text \<open>The given flag wins; without one the rules that are not disabled must all pass, and there must be one.\<close>

definition signal_ready :: "(string \<times> json) list \<Rightarrow> RuleSpecContract list \<Rightarrow> bool" where
  "signal_ready kvs rules = (case dget kvs ''signal_ready'' of
       Some v \<Rightarrow> truthy v
     | None \<Rightarrow> (let considered = filter (\<lambda>r. rz_state r \<noteq> DISABLED) rules
         in considered \<noteq> [] \<and> (\<forall>r \<in> set considered. rz_state r = PASS)))"

definition build_search_tile :: "(json \<Rightarrow> string) \<Rightarrow> json \<Rightarrow> exc + SearchTileContract" where
  "build_search_tile str_of raw = (case raw of
       JObj kvs \<Rightarrow>
         bind_exc (build_rule_specs str_of (get kvs ''rules'')) (\<lambda>rules.
         bind_exc (build_activity (get kvs ''activity'')) (\<lambda>activity.
         bind_exc (opt_str (get kvs ''pnl_amount'')) (\<lambda>amount.
         bind_exc (opt_str (get kvs ''type'')) (\<lambda>ty.
           Inr \<lparr>zs_tile_id = py_str str_of (json_or (json_or (get kvs ''tile_id'') (get kvs ''id'')) (JStr [])),
                zs_coin = get_str str_of kvs ''coin'', zs_event_url = get_str str_of kvs ''event_url'',
                zs_pnl_big = get_str str_of kvs ''pnl_big'', zs_pnl_amount = amount,
                zs_pnl_tone = coerce_tone (json_or (get kvs ''pnl_tone'') (JStr ''neutral'')),
                zs_ptb = get_str str_of kvs ''ptb'', zs_live = get_str str_of kvs ''live'', zs_delta = get_str str_of kvs ''delta'',
                zs_rules = rules, zs_activity = activity, zs_signal_ready = signal_ready kvs rules, zs_type = ty\<rparr>))))
     | _ \<Rightarrow> Inl ValueError)"

text \<open>The entry the orchestrator makes of a tile. The texts of a rule are looked up in the detail of
  its result, whose keys are those of \<open>detail_keys\<close>: the two looked up are never among them.\<close>

definition DASH :: string where
  "DASH = [CHR 0xE2, CHR 0x80, CHR 0x94]"

definition RULE_DETAIL_KEYS :: "(string \<times> string list) list" where
  "RULE_DETAIL_KEYS =
     [(''time'', [''seconds_remaining'', ''min_seconds'', ''max_seconds'']),
      (''price'', [''side_mode'', ''evaluated_side'', ''evaluated_price_100'', ''up_price'', ''down_price'', ''min_price'', ''max_price'']),
      (''delta'', [''coin_usd_price'', ''ptb_value'', ''delta_usd'', ''threshold_usd'']),
      (''spread'', [''best_bid'', ''best_ask'', ''spread_pct'', ''max_spread_pct'']),
      (''event_max'', [''event_fill_count'', ''max_positions'']),
      (''bot_max'', [''open_position_count'', ''max_positions''])]"

definition detail_keys :: "RuleResult \<Rightarrow> string list" where
  "detail_keys r =
     (if rr_reason r = ''exception'' then [''error'', ''exception'']
      else if rr_state r = DISABLED \<or> rr_state r = WAITING then [''reason'']
      else (case map_of RULE_DETAIL_KEYS (rr_rule_name r) of None \<Rightarrow> [] | Some ks \<Rightarrow> ks) @ (if rr_reason r = [] then [] else [''reason'']))"

lemma detail_has_no_texts: "''live_value'' \<notin> set (detail_keys r)" "''threshold_text'' \<notin> set (detail_keys r)"
proof -
  have "ks \<in> snd ` set RULE_DETAIL_KEYS \<Longrightarrow> ''live_value'' \<notin> set ks \<and> ''threshold_text'' \<notin> set ks" for ks
    unfolding RULE_DETAIL_KEYS_def by auto
  moreover have "map_of RULE_DETAIL_KEYS n = Some ks \<Longrightarrow> ks \<in> snd ` set RULE_DETAIL_KEYS" for n ks
    by (drule map_of_SomeD) force
  ultimately show "''live_value'' \<notin> set (detail_keys r)" "''threshold_text'' \<notin> set (detail_keys r)"
    by (auto simp: detail_keys_def split: option.splits if_splits)
qed

definition rule_entry :: "string \<times> RuleState \<Rightarrow> json" where
  "rule_entry = (\<lambda>(name, s). JObj [(''label'', JStr name), (''live_value'', JStr DASH), (''threshold_text'', JStr []),
     (''state'', JStr (rule_state_value s))])"

definition event_url :: "string \<Rightarrow> string" where
  "event_url slug = ''https://polymarket.com/event/'' @ slug"

definition amount_text :: "string \<Rightarrow> nat \<Rightarrow> num option \<Rightarrow> string" where
  "amount_text unit n x = (case x of None \<Rightarrow> DASH | Some v \<Rightarrow> unit @ fixed_commas n v)"

definition pass_text :: "SearchTile \<Rightarrow> string" where
  "pass_text t = (if 0 < sx_total t then int_text (sx_pass t) @ ''/'' @ int_text (sx_total t) else ''0/0'')"

definition search_entry :: "SearchTile \<Rightarrow> json" where
  "search_entry t = JObj
     [(''tile_id'', JStr (sx_tile_id t)), (''coin'', JStr (sx_coin t)),
      (''event_url'', JStr (if sx_slug t = [] then [] else event_url (sx_slug t))), (''pnl_big'', JStr (pass_text t)),
      (''pnl_amount'', JStr (if sx_signal_ready t then ''HAZIR'' else ''BEKLE'')), (''pnl_tone'', JStr (tone_value (sx_tone t))),
      (''ptb'', JStr (amount_text [] 2 (sx_ptb t))), (''live'', JStr (amount_text [] 2 (sx_live t))),
      (''delta'', JStr (amount_text ''$'' 0 (sx_delta t))), (''rules'', JList (map rule_entry (sx_rules t))),
      (''signal_ready'', JBool (sx_signal_ready t)), (''type'', JStr (if sx_signal_ready t then ''ok'' else ''wait''))]"

text \<open>What an endpoint keeps of a list: an entry that raises is skipped.\<close>

definition kept :: "('a \<Rightarrow> exc + 'b) \<Rightarrow> 'a list \<Rightarrow> 'b list" where
  "kept f = List.map_filter (\<lambda>x. case f x of Inl _ \<Rightarrow> None | Inr y \<Rightarrow> Some y)"

definition get_search :: "(json \<Rightarrow> string) \<Rightarrow> SnapshotEnv \<Rightarrow> Orchestrator option \<Rightarrow> Orchestrator option \<times> (int + SearchTileContract list)" where
  "get_search str_of env world = (case world of None \<Rightarrow> (None, Inl 503)
     | Some w \<Rightarrow> (let (w', ts) = build_search_snapshot env w
         in (Some w', Inr (kept (build_search_tile str_of) (map search_entry ts)))))"

section \<open>Idle tiles\<close>

fun idle_kind_value :: "IdleKind \<Rightarrow> string" where
  "idle_kind_value IK_no_events = ''no_events''"
| "idle_kind_value IK_waiting_rules = ''waiting_rules''"
| "idle_kind_value IK_bot_stopped = ''bot_stopped''"
| "idle_kind_value IK_cooldown = ''cooldown''"
| "idle_kind_value IK_error = ''error''"

fun idle_msg_text :: "IdleMsg \<Rightarrow> string" where
  "idle_msg_text IM_enter_credentials = [CHR 0xC4, CHR 0xB0, CHR 0xC5, CHR 0x9F] @ ''leme ba'' @ [CHR 0xC5, CHR 0x9F] @ ''lamak i'' @ [CHR 0xC3, CHR 0xA7] @ ''in credential bilgilerinizi girin''"
| "idle_msg_text IM_bot_not_running = ''Bot '' @ [CHR 0xC3, CHR 0xA7] @ ''al'' @ [CHR 0xC4, CHR 0xB1, CHR 0xC5, CHR 0x9F] @ ''m'' @ [CHR 0xC4, CHR 0xB1] @ ''yor '' @ [CHR 0xE2, CHR 0x80, CHR 0x94] @ '' i'' @ [CHR 0xC5, CHR 0x9F] @ ''lem aranm'' @ [CHR 0xC4, CHR 0xB1] @ ''yor''"
| "idle_msg_text IM_settings_incomplete = ''Ayarlar tamamlanmadan coinde i'' @ [CHR 0xC5, CHR 0x9F] @ ''lem a'' @ [CHR 0xC3, CHR 0xA7, CHR 0xC4, CHR 0xB1] @ ''lamaz''"
| "idle_msg_text IM_coin_disabled = ''Ayarlar yap'' @ [CHR 0xC4, CHR 0xB1] @ ''ld'' @ [CHR 0xC4, CHR 0xB1] @ '' ama pasif durumda''"
| "idle_msg_text IM_stale_price = ''Fiyat verisi g'' @ [CHR 0xC3, CHR 0xBC] @ ''ncel de'' @ [CHR 0xC4, CHR 0x9F] @ ''il '' @ [CHR 0xE2, CHR 0x80, CHR 0x94] @ '' stale data''"
| "idle_msg_text IM_waiting_for_event = ''Uygun event bekleniyor '' @ [CHR 0xE2, CHR 0x80, CHR 0x94] @ '' discovery tarama devam''"

record IdleTileContract =
  zi_tile_id :: string
  zi_coin :: "string option"
  zi_idle_kind :: IdleKind
  zi_msg :: string
  zi_activity :: "ActivityContract option"
  zi_rules :: "RuleSpecContract list option"
  zi_event_url :: "string option"

definition coerce_idle_kind :: "string \<Rightarrow> IdleKind" where
  "coerce_idle_kind s = (case find (\<lambda>k. idle_kind_value k = s) [IK_no_events, IK_waiting_rules, IK_bot_stopped, IK_cooldown, IK_error] of
     None \<Rightarrow> IK_no_events | Some k \<Rightarrow> k)"

definition build_idle_tile :: "(json \<Rightarrow> string) \<Rightarrow> json \<Rightarrow> exc + IdleTileContract" where
  "build_idle_tile str_of raw = (case raw of
       JObj kvs \<Rightarrow>
         (let kind = coerce_idle_kind (str_lower (py_str str_of (json_or (get kvs ''idle_kind'') (JStr ''no_events''))))
          in bind_exc (build_activity (get kvs ''activity'')) (\<lambda>activity.
             bind_exc (if get kvs ''rules'' = JNull then Inr None
                       else case build_rule_specs str_of (get kvs ''rules'') of Inl e \<Rightarrow> Inl e | Inr rs \<Rightarrow> Inr (Some rs)) (\<lambda>rules.
             bind_exc (opt_str (get kvs ''coin'')) (\<lambda>coin.
             bind_exc (opt_str (get kvs ''event_url'')) (\<lambda>url.
               Inr \<lparr>zi_tile_id = py_str str_of (json_or (json_or (get kvs ''tile_id'') (get kvs ''id''))
                      (JStr (''idle-'' @ idle_kind_value kind))),
                    zi_coin = coin, zi_idle_kind = kind, zi_msg = get_str str_of kvs ''msg'', zi_activity = activity,
                    zi_rules = rules, zi_event_url = url\<rparr>)))))
     | _ \<Rightarrow> Inl ValueError)"

definition opt_json :: "string option \<Rightarrow> json" where
  "opt_json s = (case s of None \<Rightarrow> JNull | Some t \<Rightarrow> JStr t)"

definition idle_entry :: "IdleTile \<Rightarrow> json" where
  "idle_entry t = JObj
     [(''tile_id'', JStr (ix_tile_id t)), (''coin'', opt_json (ix_coin t)), (''idle_kind'', JStr (idle_kind_value (ix_kind t))),
      (''msg'', JStr (idle_msg_text (ix_msg t))), (''activity'', JNull), (''rules'', JNull),
      (''event_url'', opt_json (map_option event_url (ix_slug t)))]"

definition get_idle :: "(json \<Rightarrow> string) \<Rightarrow> bool option \<Rightarrow> SnapshotEnv \<Rightarrow> Orchestrator option \<Rightarrow>
    Orchestrator option \<times> (int + IdleTileContract list)" where
  "get_idle str_of creds env world = (case world of None \<Rightarrow> (None, Inl 503)
     | Some w \<Rightarrow> (let (w', ts) = build_idle_snapshot creds env w
         in (Some w', Inr (kept (build_idle_tile str_of) (map idle_entry ts)))))"

section \<open>Settings, coins, trading status\<close>

record CoinSettingSummary =
  zc_coin :: string
  zc_coin_enabled :: bool
  zc_side_mode :: string
  zc_order_amount :: num
  zc_is_configured :: bool
  zc_is_trade_eligible :: bool

definition get_settings :: "Orchestrator option \<Rightarrow> int + CoinSettingSummary list" where
  "get_settings world = (case world of None \<Rightarrow> Inl 503
     | Some w \<Rightarrow> Inr (map (\<lambda>s. \<lparr>zc_coin = cs_coin s, zc_coin_enabled = cs_coin_enabled s, zc_side_mode = side_mode_value (cs_side_mode s),
         zc_order_amount = cs_order_amount s, zc_is_configured = is_configured s, zc_is_trade_eligible = is_trade_eligible s\<rparr>)
         (settings_get_all (ew_settings (o_eval w)))))"

definition COIN_METADATA_FALLBACK :: "(string \<times> string \<times> string) list" where
  "COIN_METADATA_FALLBACK =
     [(''BTC'', ''Bitcoin'', ''/icons/btc.svg''), (''ETH'', ''Ethereum'', ''/icons/eth.svg''), (''SOL'', ''Solana'', ''/icons/sol.svg''),
      (''XRP'', ''Ripple'', ''/icons/xrp.svg''), (''DOGE'', ''Dogecoin'', ''/icons/doge.svg''), (''ADA'', ''Cardano'', ''/icons/ada.svg'')]"

text \<open>\<open>provider\<close>: the method \<^verbatim>\<open>get_coin_metadata\<close>, where the orchestrator has one. The class has none.\<close>

definition lookup_coin_metadata :: "(string \<Rightarrow> exc + json) option \<Rightarrow> string \<Rightarrow> json \<times> json" where
  "lookup_coin_metadata provider symbol =
     (let fallback = (case map_of COIN_METADATA_FALLBACK (str_upper symbol) of None \<Rightarrow> (JNull, JNull) | Some (n, u) \<Rightarrow> (JStr n, JStr u))
      in case provider of None \<Rightarrow> fallback
         | Some f \<Rightarrow> (case f symbol of
             Inr (JObj kvs) \<Rightarrow> (json_or (get kvs ''display_name'') (get kvs ''name''), json_or (get kvs ''logo_url'') (get kvs ''icon''))
           | _ \<Rightarrow> fallback))"

record CoinInfoContract =
  zn_symbol :: string
  zn_display_name :: "string option"
  zn_logo_url :: "string option"
  zn_configured :: bool
  zn_enabled :: bool
  zn_trade_eligible :: bool
  zn_side_mode :: string
  zn_order_amount :: num

definition build_coin_info :: "(string \<Rightarrow> exc + json) option \<Rightarrow> CoinSettings \<Rightarrow> exc + CoinInfoContract" where
  "build_coin_info provider s =
     (let (name, logo) = lookup_coin_metadata provider (cs_coin s)
      in bind_exc (opt_str name) (\<lambda>n. bind_exc (opt_str logo) (\<lambda>u.
        Inr \<lparr>zn_symbol = cs_coin s, zn_display_name = n, zn_logo_url = u, zn_configured = is_configured s,
             zn_enabled = cs_coin_enabled s, zn_trade_eligible = is_trade_eligible s, zn_side_mode = side_mode_value (cs_side_mode s),
             zn_order_amount = cs_order_amount s\<rparr>)))"

definition get_coins :: "(string \<Rightarrow> exc + json) option \<Rightarrow> Orchestrator option \<Rightarrow> int + CoinInfoContract list" where
  "get_coins provider world = (case world of None \<Rightarrow> Inl 503
     | Some w \<Rightarrow> Inr (kept (build_coin_info provider) (settings_get_all (ew_settings (o_eval w)))))"

record TradingStatus =
  zt_trading_enabled :: bool
  zt_open_positions :: int
  zt_pending_claims :: int
  zt_session_trade_count :: int
  zt_settlement_pending :: int

definition get_trading_status :: "Orchestrator option \<Rightarrow> int + TradingStatus" where
  "get_trading_status world = (case world of None \<Rightarrow> Inl 503
     | Some w \<Rightarrow> Inr \<lparr>zt_trading_enabled = o_trading_enabled w, zt_open_positions = open_position_count (o_tracker w),
         zt_pending_claims = claims_pending_count (o_claims w), zt_session_trade_count = t_session_trade_count (o_tracker w),
         zt_settlement_pending = pending_retry_count (w_settle (o_exit w))\<rparr>)"

section \<open>The texts of the overview, of claims and of positions\<close>

definition fmt_usd :: "num \<Rightarrow> string" where
  "fmt_usd v = ''$'' @ fixed_commas 2 v"

definition fmt_pct :: "num \<Rightarrow> string" where
  "fmt_pct v = fixed 1 v @ ''%''"

text \<open>The counters the overview looks for in the tracker.\<close>

record SessionCounters =
  sz_net_pnl :: "num option"
  sz_start_balance :: "num option"
  sz_fill_count :: "int option"
  sz_event_seen_count :: "int option"
  sz_win_count :: "int option"
  sz_lost_count :: "int option"

record OverviewExtended =
  ze_bakiye_text :: "string option"
  ze_kullanilabilir_text :: "string option"
  ze_session_pnl :: "num option"
  ze_session_pnl_pct :: "num option"
  ze_acilan :: "int option"
  ze_gorulen :: "int option"
  ze_ag_rate :: "string option"
  ze_win :: "int option"
  ze_lost :: "int option"
  ze_winrate :: "string option"

text \<open>A ratio of two integers, as a percentage.\<close>

definition ratio_pct :: "int \<Rightarrow> int \<Rightarrow> string" where
  "ratio_pct a b = fmt_pct (fmul (fdiv (of_int a) (of_int b)) 100)"

definition build_overview_extended :: "SessionCounters \<Rightarrow> BalanceManager \<Rightarrow> OverviewExtended" where
  "build_overview_extended c b =
     \<lparr>ze_bakiye_text = Some (fmt_usd (b_total b)), ze_kullanilabilir_text = Some (fmt_usd (b_available b)),
      ze_session_pnl = map_option (py_round 2) (sz_net_pnl c),
      ze_session_pnl_pct = (case (sz_net_pnl c, sz_start_balance c) of
          (Some pnl, Some starting) \<Rightarrow> if 0 < starting then Some (py_round 2 (fmul (fdiv pnl starting) 100)) else None
        | _ \<Rightarrow> None),
      ze_acilan = sz_fill_count c, ze_gorulen = sz_event_seen_count c,
      ze_ag_rate = (case (sz_fill_count c, sz_event_seen_count c) of
          (Some a, Some g) \<Rightarrow> if 0 < g then Some (ratio_pct a g) else None
        | _ \<Rightarrow> None),
      ze_win = sz_win_count c, ze_lost = sz_lost_count c,
      ze_winrate = (case (sz_win_count c, sz_lost_count c) of
          (Some w, Some l) \<Rightarrow> if 0 < w + l then Some (ratio_pct w (w + l)) else None
        | _ \<Rightarrow> None)\<rparr>"

text \<open>The tracker has none of these attributes.\<close>

definition session_counters :: "PositionTracker \<Rightarrow> SessionCounters" where
  "session_counters t = \<lparr>sz_net_pnl = None, sz_start_balance = None, sz_fill_count = None, sz_event_seen_count = None,
     sz_win_count = None, sz_lost_count = None\<rparr>"

definition format_claim_payout :: "num \<Rightarrow> string option" where
  "format_claim_payout x = (if x \<le> 0 then None else Some (fmt_usd x))"

definition plus_sign :: "num \<Rightarrow> string" where
  "plus_sign x = (if 0 \<le> x then ''+'' else [])"

definition format_pnl_pct :: "num \<Rightarrow> string" where
  "format_pnl_pct pct = plus_sign pct @ fixed 1 pct @ ''%''"

definition format_pnl_amount :: "num \<Rightarrow> string" where
  "format_pnl_amount amount = plus_sign amount @ fixed 2 amount @ ''$''"

text \<open>What a provider of live data would hand over with a position (the class has none), and the part of
  the summary it fills. Without the data the profit of a closed position is shown.\<close>

record LiveContext =
  lc_current_price :: "num option"
  lc_exits :: "json option"
  lc_activity :: json
  lc_event_url :: json

record PositionLiveContract =
  lv_side :: string
  lv_entry :: string
  lv_live :: string

record PositionExitsContract =
  pe_tp :: string
  pe_sl :: string
  pe_fs :: string
  pe_fs_pnl :: "string option"

record PositionTexts =
  pt_live :: "PositionLiveContract option"
  pt_exits :: "PositionExitsContract option"
  pt_pnl_big :: "string option"
  pt_pnl_amount :: "string option"
  pt_pnl_tone :: "PnlTone option"
  pt_activity :: "ActivityContract option"
  pt_event_url :: "string option"

definition position_pnl :: "PositionRecord \<Rightarrow> num option \<Rightarrow> string option \<times> string option \<times> PnlTone option" where
  "position_pnl p price = (case price of
       Some x \<Rightarrow> (let u = calculate_unrealized_pnl p x None; net = u_net_unrealized_pnl_estimate u
         in (Some (format_pnl_pct (u_net_unrealized_pnl_pct u)), Some (format_pnl_amount net), Some (derive_pnl_tone net)))
     | None \<Rightarrow>
         if is_closed p then
           (if 0 < p_requested_amount_usd p
              then Some (format_pnl_pct (fmul (fdiv (p_net_realized_pnl p) (p_requested_amount_usd p)) 100)) else None,
            Some (format_pnl_amount (p_net_realized_pnl p)), Some (derive_pnl_tone (p_net_realized_pnl p)))
         else (None, None, None))"

definition build_exits :: "(json \<Rightarrow> string) \<Rightarrow> json \<Rightarrow> exc + PositionExitsContract" where
  "build_exits str_of e = (case e of
       JObj kvs \<Rightarrow> bind_exc (opt_str (get kvs ''fs_pnl'')) (\<lambda>f.
         Inr \<lparr>pe_tp = get_str str_of kvs ''tp'', pe_sl = get_str str_of kvs ''sl'', pe_fs = get_str str_of kvs ''fs'', pe_fs_pnl = f\<rparr>)
     | _ \<Rightarrow> Inl AttributeError)"

definition position_texts :: "(json \<Rightarrow> string) \<Rightarrow> PositionRecord \<Rightarrow> LiveContext option \<Rightarrow> exc + PositionTexts" where
  "position_texts str_of p ctx =
     (let price = (case ctx of None \<Rightarrow> None | Some c \<Rightarrow> lc_current_price c);
          (big, amount, tone) = position_pnl p price;
          live = map_option (\<lambda>x. \<lparr>lv_side = (if str_upper (p_side p) = ''UP'' then ''UP'' else ''DOWN''),
            lv_entry = trimmed (fixed 2 (p_fill_price p)), lv_live = trimmed (fixed 2 x)\<rparr>) price
      in bind_exc (case ctx of None \<Rightarrow> Inr None | Some c \<Rightarrow> (case lc_exits c of None \<Rightarrow> Inr None
             | Some e \<Rightarrow> (case build_exits str_of e of Inl x \<Rightarrow> Inl x | Inr y \<Rightarrow> Inr (Some y)))) (\<lambda>exits.
         bind_exc (case ctx of None \<Rightarrow> Inr None | Some c \<Rightarrow> build_activity (lc_activity c)) (\<lambda>activity.
         bind_exc (case ctx of None \<Rightarrow> Inr None | Some c \<Rightarrow> opt_str (lc_event_url c)) (\<lambda>url.
           Inr \<lparr>pt_live = live, pt_exits = exits, pt_pnl_big = big, pt_pnl_amount = amount, pt_pnl_tone = tone,
                pt_activity = activity, pt_event_url = url\<rparr>))))"

section \<open>What the endpoints keep\<close>

definition rule_contract :: "string \<times> RuleState \<Rightarrow> RuleSpecContract" where
  "rule_contract = (\<lambda>(name, s). \<lparr>rz_label = name, rz_live_value = DASH, rz_threshold_text = Some [], rz_state = s\<rparr>)"

definition search_contract :: "SearchTile \<Rightarrow> SearchTileContract" where
  "search_contract t =
     \<lparr>zs_tile_id = sx_tile_id t, zs_coin = sx_coin t, zs_event_url = (if sx_slug t = [] then [] else event_url (sx_slug t)),
      zs_pnl_big = pass_text t, zs_pnl_amount = Some (if sx_signal_ready t then ''HAZIR'' else ''BEKLE''), zs_pnl_tone = sx_tone t,
      zs_ptb = amount_text [] 2 (sx_ptb t), zs_live = amount_text [] 2 (sx_live t), zs_delta = amount_text ''$'' 0 (sx_delta t),
      zs_rules = map rule_contract (sx_rules t), zs_activity = None, zs_signal_ready = sx_signal_ready t,
      zs_type = Some (if sx_signal_ready t then ''ok'' else ''wait'')\<rparr>"

definition idle_contract :: "IdleTile \<Rightarrow> IdleTileContract" where
  "idle_contract t = \<lparr>zi_tile_id = ix_tile_id t, zi_coin = ix_coin t, zi_idle_kind = ix_kind t, zi_msg = idle_msg_text (ix_msg t),
     zi_activity = None, zi_rules = None, zi_event_url = map_option event_url (ix_slug t)\<rparr>"

lemma kept_all: "(\<And>x. x \<in> set xs \<Longrightarrow> f (g x) = Inr (h x)) \<Longrightarrow> kept f (map g xs) = map h xs"
  by (induction xs) (auto simp: kept_def List.map_filter_simps)

lemma coerce_rule_state_value [simp]: "coerce_rule_state str_of (JStr (rule_state_value s)) = s"
  by (cases s) (simp_all add: coerce_rule_state_def py_str_def str_lower_def char_lower_def)

lemma coerce_tone_value [simp]: "coerce_tone (JStr (tone_value t)) = t"
  by (cases t) (simp_all add: coerce_tone_def)

lemma coerce_idle_kind_value [simp]: "coerce_idle_kind (str_lower (idle_kind_value k)) = k"
  by (cases k) (simp_all add: coerce_idle_kind_def str_lower_def char_lower_def)

lemma value_nonempty [simp]: "tone_value t \<noteq> []" "idle_kind_value k \<noteq> []"
  by (cases t; simp) (cases k; simp)

lemma rule_entries: "build_rule_specs str_of (JList (map rule_entry rs)) = Inr (map rule_contract rs)"
proof -
  have "build_rule_spec str_of (rule_entry r) = Some (rule_contract r)" for r
    by (cases r) (simp add: build_rule_spec_def rule_entry_def rule_contract_def get_str_def dget_or_def py_str_def)
  then have "List.map_filter (build_rule_spec str_of) (map rule_entry rs) = map rule_contract rs"
    by (induction rs) (simp_all add: List.map_filter_simps)
  then show ?thesis by (cases rs) (simp_all add: build_rule_specs_def)
qed

lemma build_search_entry: "build_search_tile str_of (search_entry t) = Inr (search_contract t)"
  by (simp add: build_search_tile_def search_entry_def search_contract_def rule_entries dget_or_def build_activity_def bind_exc_def
      json_or_def get_str_def py_str_def signal_ready_def)

lemma opt_str_json [simp]: "opt_str (opt_json s) = Inr s"
  by (cases s) (simp_all add: opt_json_def)

lemma build_idle_entry: "ix_tile_id t \<noteq> [] \<Longrightarrow> build_idle_tile str_of (idle_entry t) = Inr (idle_contract t)"
  by (simp add: build_idle_tile_def idle_entry_def idle_contract_def dget_or_def build_activity_def bind_exc_def
      json_or_def get_str_def py_str_def)

lemma idle_tiles_named: "t \<in> set (snd (idle_tiles env working css e)) \<Longrightarrow> ix_tile_id t \<noteq> []"
proof (induction css arbitrary: e)
  case (Cons cs css)
  then show ?case
    by (auto simp: idle_tile_def Let_def split: prod.splits option.splits if_splits) (metis snd_conv)+
qed simp

section \<open>Reading the texts back\<close>

text \<open>What \<^verbatim>\<open>float\<close> reads in a text without its unit and its commas.\<close>

definition read_usd :: "string \<Rightarrow> exc + flt" where
  "read_usd s = py_float_str (filter (\<lambda>c. c \<noteq> CHR '','') (drop 1 s))"

lemma read_fmt_usd: "read_usd (fmt_usd v) = Inr (Fin (py_round 2 v))"
  by (simp add: read_usd_def fmt_usd_def fixed_commas_same read_fixed)

lemma read_signed: "py_float_str (plus_sign x @ fixed n x) = Inr (Fin (py_round n x))"
  by (simp add: plus_sign_def read_fixed read_plus)

section \<open>Properties\<close>

text \<open>C37. The page receives what the orchestrator shows: none of the tiles is skipped, and every record holds
  the fields of its tile, the decision, the states of the rules and the tone included.\<close>

theorem pages_exact:
  "get_search str_of env (Some w) = (case build_search_snapshot env w of (w', ts) \<Rightarrow> (Some w', Inr (map search_contract ts))) \<and>
   get_idle str_of creds env (Some w) = (case build_idle_snapshot creds env w of (w', ts) \<Rightarrow> (Some w', Inr (map idle_contract ts)))"
proof
  show "get_search str_of env (Some w) = (case build_search_snapshot env w of (w', ts) \<Rightarrow> (Some w', Inr (map search_contract ts)))"
    by (cases "build_search_snapshot env w") (simp add: get_search_def kept_all build_search_entry)
  obtain w' ts where run: "build_idle_snapshot creds env w = (w', ts)" by fastforce
  have "ix_tile_id t \<noteq> []" if "t \<in> set ts" for t
    using run that idle_tiles_named by (auto simp: build_idle_snapshot_def Let_def split: if_splits prod.splits) (metis snd_conv)
  then have "kept (build_idle_tile str_of) (map idle_entry ts) = map idle_contract ts"
    by (intro kept_all build_idle_entry)
  then show "get_idle str_of creds env (Some w) = (case build_idle_snapshot creds env w of (w', ts) \<Rightarrow> (Some w', Inr (map idle_contract ts)))"
    by (simp add: get_idle_def run)
qed

text \<open>The amounts of the overview read back as the balance to the cent, and whatever the bot has done its
  session fields are empty: profit, counters and rates are never shown.\<close>

theorem overview_texts:
  "(let e = build_overview_extended (session_counters (o_tracker w)) (o_balance w)
    in map_option read_usd (ze_bakiye_text e) = Some (Inr (Fin (py_round 2 (b_total (o_balance w))))) \<and>
       map_option read_usd (ze_kullanilabilir_text e) = Some (Inr (Fin (py_round 2 (b_available (o_balance w))))) \<and>
       ze_session_pnl e = None \<and> ze_session_pnl_pct e = None \<and> ze_acilan e = None \<and> ze_gorulen e = None \<and>
       ze_ag_rate e = None \<and> ze_win e = None \<and> ze_lost e = None \<and> ze_winrate e = None)"
  by (simp add: build_overview_extended_def session_counters_def read_fmt_usd)

text \<open>C38. The profit shown with a position: for a closed one the realised profit, for one with a live price the
  net estimate at that price. The texts read back as the numbers, rounded to the cent and to a tenth of a percent, the
  tone is the sign of the exact amount, and the two prices read back to the cent.\<close>

theorem position_texts_exact:
  assumes "position_texts str_of p ctx = Inr t"
    and "price = (case ctx of None \<Rightarrow> None | Some c \<Rightarrow> lc_current_price c)"
    and "net = (case price of None \<Rightarrow> p_net_realized_pnl p | Some x \<Rightarrow> u_net_unrealized_pnl_estimate (calculate_unrealized_pnl p x None))"
  shows "(if price = None \<and> \<not> is_closed p then pt_pnl_amount t = None \<and> pt_pnl_tone t = None
      else pt_pnl_tone t = Some (derive_pnl_tone net) \<and>
        map_option (py_float_str \<circ> butlast) (pt_pnl_amount t) = Some (Inr (Fin (py_round 2 net)))) \<and>
    (case price of None \<Rightarrow> pt_live t = None
     | Some x \<Rightarrow> map_option (py_float_str \<circ> butlast) (pt_pnl_big t) = Some (Inr (Fin (py_round 1 (pnl_pct p x)))) \<and>
         map_option (\<lambda>l. (py_float_str (lv_entry l), py_float_str (lv_live l))) (pt_live t) =
           Some (Inr (Fin (py_round 2 (p_fill_price p))), Inr (Fin (py_round 2 x))))"
proof -
  obtain big amount tone where pnl: "position_pnl p price = (big, amount, tone)" by (cases "position_pnl p price")
  have t: "pt_pnl_big t = big" "pt_pnl_amount t = amount" "pt_pnl_tone t = tone"
    "pt_live t = map_option (\<lambda>x. \<lparr>lv_side = (if str_upper (p_side p) = ''UP'' then ''UP'' else ''DOWN''),
       lv_entry = trimmed (fixed 2 (p_fill_price p)), lv_live = trimmed (fixed 2 x)\<rparr>) price"
    using assms(1) pnl unfolding position_texts_def assms(2) [symmetric] by (auto simp: Let_def bind_exc_def split: sum.splits)
  have amounts: "py_float_str (butlast (format_pnl_amount x)) = Inr (Fin (py_round 2 x))"
    "py_float_str (butlast (format_pnl_pct x)) = Inr (Fin (py_round 1 x))" for x
    unfolding format_pnl_amount_def format_pnl_pct_def append_assoc [symmetric] by (simp_all add: read_signed butlast_append)
  show ?thesis
    using pnl assms(3) unfolding t by (cases price) (auto simp: position_pnl_def amounts read_trimmed pnl_pct_def Let_def split: if_splits)
qed

text \<open>The coin list without a metadata provider: one record for every coin of the settings, in their order,
  with a name and a logo exactly for the six coins of the table.\<close>

theorem coins_page_exact:
  "(case get_coins None (Some w) of Inl _ \<Rightarrow> False
    | Inr cs \<Rightarrow> map zn_symbol cs = map cs_coin (settings_get_all (ew_settings (o_eval w))) \<and>
        map zn_trade_eligible cs = map is_trade_eligible (settings_get_all (ew_settings (o_eval w))) \<and>
        map (\<lambda>c. zn_display_name c \<noteq> None) cs =
          map (\<lambda>s. str_upper (cs_coin s) \<in> {''BTC'', ''ETH'', ''SOL'', ''XRP'', ''DOGE'', ''ADA''}) (settings_get_all (ew_settings (o_eval w))))"
proof -
  let ?names = "\<lambda>s. map_of COIN_METADATA_FALLBACK (str_upper (cs_coin s))"
  define info where "info s = \<lparr>zn_symbol = cs_coin s, zn_display_name = map_option fst (?names s), zn_logo_url = map_option snd (?names s),
      zn_configured = is_configured s, zn_enabled = cs_coin_enabled s, zn_trade_eligible = is_trade_eligible s,
      zn_side_mode = side_mode_value (cs_side_mode s), zn_order_amount = cs_order_amount s\<rparr>" for s
  have "build_coin_info None s = Inr (info s)" for s
    by (cases "?names s") (auto simp: build_coin_info_def lookup_coin_metadata_def bind_exc_def info_def)
  then have kept: "kept (build_coin_info None) ss = map info ss" for ss
    using kept_all [of ss "build_coin_info None" id info] by simp
  have "dom (map_of COIN_METADATA_FALLBACK) = {''BTC'', ''ETH'', ''SOL'', ''XRP'', ''DOGE'', ''ADA''}"
    unfolding dom_map_of_conv_image_fst COIN_METADATA_FALLBACK_def by simp
  then have "?names s \<noteq> None \<longleftrightarrow> str_upper (cs_coin s) \<in> {''BTC'', ''ETH'', ''SOL'', ''XRP'', ''DOGE'', ''ADA''}" for s
    by (metis domIff)
  then show ?thesis unfolding get_coins_def by (simp add: kept comp_def, simp add: info_def, blast)
qed

definition example_live :: LiveContext where
  "example_live = \<lparr>lc_current_price = Some (3 / 4), lc_exits = None, lc_activity = JNull, lc_event_url = JNull\<rparr>"

definition example_shown :: PositionRecord where
  "example_shown = (new_position ''p1'' ''BTC'' ''UP'' ''c1'' ''tok'' 4 5)\<lparr>p_state := PS_OPEN_CONFIRMED\<rparr>"

theorem position_texts_exact_witness:
  "(case position_texts (\<lambda>_. []) example_shown (Some example_live) of Inl _ \<Rightarrow> False
    | Inr t \<Rightarrow> map_option (\<lambda>l. py_float_str (lv_live l)) (pt_live t) = Some (Inr (Fin (py_round 2 (3 / 4)))))"
proof -
  obtain t where t: "position_texts (\<lambda>_. []) example_shown (Some example_live) = Inr t"
    by (simp add: position_texts_def example_live_def bind_exc_def build_activity_def Let_def case_prod_beta)
  have "lc_current_price example_live = Some (3 / 4)" by (simp add: example_live_def)
  with position_texts_exact [OF t refl refl] show ?thesis by (auto simp: t)
qed

end
