(* ===== verification/Snapshot.thy ===== *)
theory Snapshot
  imports MarketData "HOL-Library.Char_ord" "HOL-Library.List_Lexorder"
begin

text \<open>
  The snapshot of \<^verbatim>\<open>backend/snapshot\<close> (the records and their producer) and the health summary of
  \<^verbatim>\<open>backend/orchestrator/health.py\<close>.

  The producer reads the price pipeline, which checks freshness when it is read, so a snapshot comes
  with the new pipeline; the records of the other sources are set from outside, as dictionaries some
  of whose keys may be missing (\<open>None\<close>).
\<close>

section \<open>Records\<close>

datatype SnapshotEventStatus = SE_ACTIVE | SE_STALE | SE_WAITING | SE_INVALID | SE_INACTIVE | SE_EXPIRED

record EventSnapshot =
  es_condition_id :: string
  es_asset :: string
  es_status :: SnapshotEventStatus
  es_up_price :: num
  es_down_price :: num
  es_spread :: num
  es_best_bid :: num
  es_best_ask :: num
  es_price_source :: PriceSource
  es_price_status :: PriceStatus
  es_price_updated_at :: "usec option"
  es_ptb_value :: "num option"
  es_ptb_status :: string
  es_ptb_source :: string
  es_ptb_acquired_at :: "usec option"
  es_event_question :: string
  es_event_end_date :: "usec option"
  es_registry_status :: string

record BalanceSummary =
  bl_total :: num
  bl_available :: num
  bl_fetched_at :: "usec option"
  bl_source :: string

record HealthSummary =
  hs_ws_connected :: bool
  hs_ws_state :: string
  hs_ws_last_connected_at :: "usec option"
  hs_stale_event_count :: nat
  hs_invalid_event_count :: nat
  hs_incident_count :: nat
  hs_incidents :: "string list"

record SystemSnapshot =
  sn_generated_at :: usec
  sn_events :: "EventSnapshot list"
  sn_balance :: BalanceSummary
  sn_health :: HealthSummary
  sn_session_id :: string

definition total_events :: "SystemSnapshot \<Rightarrow> nat" where
  "total_events s = length (sn_events s)"

definition events_with :: "SnapshotEventStatus \<Rightarrow> EventSnapshot list \<Rightarrow> nat" where
  "events_with st es = length (filter (\<lambda>e. es_status e = st) es)"

definition active_events :: "SystemSnapshot \<Rightarrow> nat" where "active_events s = events_with SE_ACTIVE (sn_events s)"
definition stale_events :: "SystemSnapshot \<Rightarrow> nat" where "stale_events s = events_with SE_STALE (sn_events s)"
definition waiting_events :: "SystemSnapshot \<Rightarrow> nat" where "waiting_events s = events_with SE_WAITING (sn_events s)"

definition get_event :: "string \<Rightarrow> SystemSnapshot \<Rightarrow> EventSnapshot option" where
  "get_event cid s = find (\<lambda>e. es_condition_id e = cid) (sn_events s)"

definition get_events_by_asset :: "string \<Rightarrow> SystemSnapshot \<Rightarrow> EventSnapshot list" where
  "get_events_by_asset asset s = filter (\<lambda>e. es_asset e = asset) (sn_events s)"

section \<open>The producer\<close>

record PtbInfo =
  pi_ptb_value :: "num option"
  pi_status :: "string option"
  pi_source_name :: "string option"
  pi_acquired_at :: "usec option"
  pi_asset :: "string option"

record RegInfo =
  ri_asset :: "string option"
  ri_question :: "string option"
  ri_status :: "string option"
  ri_end_date :: "usec option"

definition no_ptb_info :: PtbInfo where
  "no_ptb_info = \<lparr>pi_ptb_value = None, pi_status = None, pi_source_name = None, pi_acquired_at = None, pi_asset = None\<rparr>"

definition no_reg_info :: RegInfo where
  "no_reg_info = \<lparr>ri_asset = None, ri_question = None, ri_status = None, ri_end_date = None\<rparr>"

record SnapshotProducer =
  pr_pipeline :: LivePricePipeline
  pr_ptb_records :: "(string, PtbInfo) dict"
  pr_registry_records :: "(string, RegInfo) dict"
  pr_balance_total :: num
  pr_balance_available :: num
  pr_balance_fetched_at :: "usec option"
  pr_ws_connected :: bool
  pr_ws_state :: string
  pr_ws_last_connected_at :: "usec option"
  pr_health_incidents :: "string list"
  pr_session_id :: string

definition new_producer :: "LivePricePipeline \<Rightarrow> SnapshotProducer" where
  "new_producer p = \<lparr>pr_pipeline = p, pr_ptb_records = [], pr_registry_records = [], pr_balance_total = 0, pr_balance_available = 0,
     pr_balance_fetched_at = None, pr_ws_connected = False, pr_ws_state = ''disconnected'', pr_ws_last_connected_at = None,
     pr_health_incidents = [], pr_session_id = []\<rparr>"

definition set_ptb_records :: "(string, PtbInfo) dict \<Rightarrow> SnapshotProducer \<Rightarrow> SnapshotProducer" where
  "set_ptb_records d s = s\<lparr>pr_ptb_records := d\<rparr>"

definition set_registry_records :: "(string, RegInfo) dict \<Rightarrow> SnapshotProducer \<Rightarrow> SnapshotProducer" where
  "set_registry_records d s = s\<lparr>pr_registry_records := d\<rparr>"

definition set_snapshot_balance :: "num \<Rightarrow> num \<Rightarrow> usec option \<Rightarrow> SnapshotProducer \<Rightarrow> SnapshotProducer" where
  "set_snapshot_balance tot available fetched s =
     s\<lparr>pr_balance_total := tot, pr_balance_available := available, pr_balance_fetched_at := fetched\<rparr>"

definition set_ws_status :: "bool \<Rightarrow> string \<Rightarrow> usec option \<Rightarrow> SnapshotProducer \<Rightarrow> SnapshotProducer" where
  "set_ws_status conn st since s = s\<lparr>pr_ws_connected := conn, pr_ws_state := st, pr_ws_last_connected_at := since\<rparr>"

definition set_health_incidents :: "string list \<Rightarrow> SnapshotProducer \<Rightarrow> SnapshotProducer" where
  "set_health_incidents xs s = s\<lparr>pr_health_incidents := xs\<rparr>"

definition set_session_id :: "string \<Rightarrow> SnapshotProducer \<Rightarrow> SnapshotProducer" where
  "set_session_id i s = s\<lparr>pr_session_id := i\<rparr>"

definition or_default :: "'a option \<Rightarrow> 'a \<Rightarrow> 'a" where
  "or_default v d = (case v of None \<Rightarrow> d | Some x \<Rightarrow> x)"

definition resolve_status :: "LivePriceRecord option \<Rightarrow> RegInfo \<Rightarrow> SnapshotEventStatus" where
  "resolve_status pr reg =
     (let st = str_lower (or_default (ri_status reg) []) in
      if st = ''expired'' \<or> st = ''closed'' then SE_EXPIRED
      else if st = ''inactive'' \<or> st = ''suspended'' then SE_INACTIVE
      else case pr of None \<Rightarrow> SE_WAITING
        | Some r \<Rightarrow> (case l_status r of PS_INVALID \<Rightarrow> SE_INVALID | PS_STALE \<Rightarrow> SE_STALE | PS_WAITING \<Rightarrow> SE_WAITING | PS_FRESH \<Rightarrow> SE_ACTIVE))"

definition given :: "string option \<Rightarrow> bool" where
  "given v \<longleftrightarrow> v \<noteq> None \<and> v \<noteq> Some []"

definition snapshot_asset :: "LivePriceRecord option \<Rightarrow> PtbInfo \<Rightarrow> RegInfo \<Rightarrow> string" where
  "snapshot_asset pr ptb reg = (case pr of Some r \<Rightarrow> l_asset r
     | None \<Rightarrow> if given (ri_asset reg) then or_default (ri_asset reg) [] else if given (pi_asset ptb) then or_default (pi_asset ptb) [] else [])"

definition event_snapshot :: "string \<Rightarrow> LivePriceRecord option \<Rightarrow> PtbInfo \<Rightarrow> RegInfo \<Rightarrow> EventSnapshot" where
  "event_snapshot cid pr ptb reg =
     (let num_of = (\<lambda>f. case pr of None \<Rightarrow> 0 | Some r \<Rightarrow> f r) in
      \<lparr>es_condition_id = cid, es_asset = snapshot_asset pr ptb reg, es_status = resolve_status pr reg,
       es_up_price = num_of l_up_bid, es_down_price = num_of l_down_bid, es_spread = num_of l_spread,
       es_best_bid = num_of best_bid, es_best_ask = num_of best_ask,
       es_price_source = (case pr of None \<Rightarrow> SRC_NONE | Some r \<Rightarrow> l_source r),
       es_price_status = (case pr of None \<Rightarrow> PS_WAITING | Some r \<Rightarrow> l_status r),
       es_price_updated_at = (case pr of None \<Rightarrow> None | Some r \<Rightarrow> l_updated_at r),
       es_ptb_value = pi_ptb_value ptb, es_ptb_status = or_default (pi_status ptb) ''waiting'',
       es_ptb_source = or_default (pi_source_name ptb) [], es_ptb_acquired_at = pi_acquired_at ptb,
       es_event_question = or_default (ri_question reg) [], es_event_end_date = ri_end_date reg,
       es_registry_status = or_default (ri_status reg) []\<rparr>)"

text \<open>The time of each reading of the pipeline: all records first, then each event.\<close>

record ProduceEnv =
  pe_now :: usec
  pe_all_now :: usec
  pe_event_now :: "string \<Rightarrow> usec"

fun build_events :: "(string \<Rightarrow> usec) \<Rightarrow> (string, PtbInfo) dict \<Rightarrow> (string, RegInfo) dict \<Rightarrow> string list \<Rightarrow>
    LivePricePipeline \<Rightarrow> LivePricePipeline \<times> EventSnapshot list" where
  "build_events now ptbs regs [] p = (p, [])"
| "build_events now ptbs regs (cid # cids) p =
     (let (p1, pr) = pipeline_get_record (now cid) cid p;
          e = event_snapshot cid pr (dget_or ptbs cid no_ptb_info) (dget_or regs cid no_reg_info);
          (p2, es) = build_events now ptbs regs cids p1
      in (p2, e # es))"

definition all_event_ids :: "LivePriceRecord list \<Rightarrow> SnapshotProducer \<Rightarrow> string list" where
  "all_event_ids rs s = sort (remdups (map l_condition_id rs @ dkeys (pr_ptb_records s) @ dkeys (pr_registry_records s)))"

definition build_event_snapshots :: "ProduceEnv \<Rightarrow> SnapshotProducer \<Rightarrow> LivePricePipeline \<times> EventSnapshot list" where
  "build_event_snapshots env s =
     (let (p, rs) = pipeline_get_all (pe_all_now env) (pr_pipeline s)
      in build_events (pe_event_now env) (pr_ptb_records s) (pr_registry_records s) (all_event_ids rs s) p)"

definition produce :: "ProduceEnv \<Rightarrow> SnapshotProducer \<Rightarrow> SnapshotProducer \<times> SystemSnapshot" where
  "produce env s =
     (let (p, es) = build_event_snapshots env s in
      (s\<lparr>pr_pipeline := p\<rparr>,
       \<lparr>sn_generated_at = pe_now env, sn_events = es,
        sn_balance = \<lparr>bl_total = pr_balance_total s, bl_available = pr_balance_available s, bl_fetched_at = pr_balance_fetched_at s,
          bl_source = ''clob_sdk''\<rparr>,
        sn_health = \<lparr>hs_ws_connected = pr_ws_connected s, hs_ws_state = pr_ws_state s, hs_ws_last_connected_at = pr_ws_last_connected_at s,
          hs_stale_event_count = events_with SE_STALE es, hs_invalid_event_count = events_with SE_INVALID es,
          hs_incident_count = length (pr_health_incidents s), hs_incidents = pr_health_incidents s\<rparr>,
        sn_session_id = pr_session_id s\<rparr>))"

section \<open>The health of the orchestrator\<close>

text \<open>What the components report; \<open>'i\<close> stands for an incident.\<close>

record 'i DiscoveryReport =
  hd_is_running :: bool
  hd_scan_count :: int
  hd_events_found :: int
  hd_incidents :: "'i list"

record 'i CoinReport =
  hc_fresh_count :: nat
  hc_stale_count :: nat
  hc_total_updates :: int
  hc_incidents :: "'i list"

record 'i WsReport =
  hw_is_connected :: bool
  hw_state :: string
  hw_incidents :: "'i list"

record 'i PtbReport =
  hp_locked_count :: nat
  hp_failed_count :: nat
  hp_pending_count :: nat
  hp_incidents :: "'i list"

record 'i OrchestratorHealth =
  oh_discovery_running :: bool
  oh_discovery_scan_count :: int
  oh_discovery_events_found :: int
  oh_coin_usd_fresh_count :: nat
  oh_coin_usd_stale_count :: nat
  oh_coin_usd_total_updates :: int
  oh_outcome_ws_connected :: bool
  oh_outcome_ws_state :: string
  oh_ptb_locked_count :: nat
  oh_ptb_failed_count :: nat
  oh_ptb_pending_count :: nat
  oh_eval_count :: int
  oh_entry_signal_count :: int
  oh_events_cleaned :: int
  oh_incidents :: "'i list"

definition from_report :: "('r \<Rightarrow> 'a) \<Rightarrow> 'a \<Rightarrow> 'r option \<Rightarrow> 'a" where
  "from_report f d r = (case r of None \<Rightarrow> d | Some x \<Rightarrow> f x)"

definition aggregate :: "'i DiscoveryReport option \<Rightarrow> 'i CoinReport option \<Rightarrow> 'i WsReport option \<Rightarrow> 'i PtbReport option \<Rightarrow>
    (int \<times> int) option \<Rightarrow> int option \<Rightarrow> 'i OrchestratorHealth" where
  "aggregate d c w p ev cleaned =
     \<lparr>oh_discovery_running = from_report hd_is_running False d, oh_discovery_scan_count = from_report hd_scan_count 0 d,
      oh_discovery_events_found = from_report hd_events_found 0 d, oh_coin_usd_fresh_count = from_report hc_fresh_count 0 c,
      oh_coin_usd_stale_count = from_report hc_stale_count 0 c, oh_coin_usd_total_updates = from_report hc_total_updates 0 c,
      oh_outcome_ws_connected = from_report hw_is_connected False w, oh_outcome_ws_state = from_report hw_state ''disconnected'' w,
      oh_ptb_locked_count = from_report hp_locked_count 0 p, oh_ptb_failed_count = from_report hp_failed_count 0 p,
      oh_ptb_pending_count = from_report hp_pending_count 0 p, oh_eval_count = from_report fst 0 ev,
      oh_entry_signal_count = from_report snd 0 ev, oh_events_cleaned = from_report (\<lambda>n. n) 0 cleaned,
      oh_incidents = from_report hd_incidents [] d @ from_report hc_incidents [] c @ from_report hw_incidents [] w @
        from_report hp_incidents [] p\<rparr>"

definition total_incidents :: "'i OrchestratorHealth \<Rightarrow> nat" where
  "total_incidents h = length (oh_incidents h)"

definition is_healthy :: "'i OrchestratorHealth \<Rightarrow> bool" where
  "is_healthy h \<longleftrightarrow> oh_discovery_running h \<and> oh_coin_usd_stale_count h = 0"

section \<open>What a snapshot shows\<close>

text \<open>Reading a record again at another time only ever makes it stale.\<close>

definition status_at :: "usec \<Rightarrow> usec \<Rightarrow> LivePriceRecord \<Rightarrow> LivePriceRecord" where
  "status_at t u r = check_freshness u (check_freshness t r)"

lemma build_events_exact:
  assumes "distinct cids"
  shows "snd (build_events now ptbs regs cids p) =
    map (\<lambda>cid. event_snapshot cid (map_option (check_freshness (now cid)) (dget (pl_records p) cid))
       (dget_or ptbs cid no_ptb_info) (dget_or regs cid no_reg_info)) cids"
  using assms
proof (induction cids arbitrary: p)
  case (Cons cid cids)
  obtain p1 pr where g: "pipeline_get_record (now cid) cid p = (p1, pr)" by fastforce
  have pr: "pr = map_option (check_freshness (now cid)) (dget (pl_records p) cid)"
    and other: "\<And>c. c \<noteq> cid \<Longrightarrow> dget (pl_records p1) c = dget (pl_records p) c"
    using g by (auto simp: pipeline_get_record_def put_price_def Let_def split: option.splits)
  have "c \<in> set cids \<Longrightarrow> dget (pl_records p1) c = dget (pl_records p) c" for c
    using Cons.prems by (intro other) auto
  then have "map (\<lambda>cid. event_snapshot cid (map_option (check_freshness (now cid)) (dget (pl_records p1) cid))
       (dget_or ptbs cid no_ptb_info) (dget_or regs cid no_reg_info)) cids =
     map (\<lambda>cid. event_snapshot cid (map_option (check_freshness (now cid)) (dget (pl_records p) cid))
       (dget_or ptbs cid no_ptb_info) (dget_or regs cid no_reg_info)) cids"
    by simp
  then show ?case using Cons by (simp add: g pr case_prod_beta Let_def)
qed simp

lemma check_all_dget: "dget (pl_records (check_all t p)) cid = map_option (check_freshness t) (dget (pl_records p) cid)"
proof -
  have "dget (map (\<lambda>(c, r). (c, check_freshness t r)) d) cid = map_option (check_freshness t) (dget d cid)" for d :: "(string, LivePriceRecord) dict"
    by (induction d) auto
  then show ?thesis by (simp add: check_all_def)
qed

text \<open>A snapshot lists every event some source knows exactly once, in the order of the condition ids. Each shows
  the prices of the pipeline's record as it is when read, and next to them, never mixed with them, the
  price to beat and the registry's fields. It is active exactly when the registry does not call it
  over or inactive and its price is fresh, and the health summary counts the events that are shown.\<close>

theorem snapshot_exact:
  assumes "produce env s = (s', snap)" and "cid \<in> set (map l_condition_id (snd (pipeline_get_all (pe_all_now env) (pr_pipeline s))) @
      dkeys (pr_ptb_records s) @ dkeys (pr_registry_records s))"
  shows "sorted (map es_condition_id (sn_events snap)) \<and> distinct (map es_condition_id (sn_events snap)) \<and>
    get_event cid snap = Some (event_snapshot cid
      (map_option (status_at (pe_all_now env) (pe_event_now env cid)) (dget (pl_records (pr_pipeline s)) cid))
      (dget_or (pr_ptb_records s) cid no_ptb_info) (dget_or (pr_registry_records s) cid no_reg_info)) \<and>
    hs_stale_event_count (sn_health snap) = stale_events snap"
proof -
  obtain p rs where all: "pipeline_get_all (pe_all_now env) (pr_pipeline s) = (p, rs)" by fastforce
  let ?ids = "all_event_ids rs s"
  let ?ev = "\<lambda>cid. event_snapshot cid (map_option (check_freshness (pe_event_now env cid)) (dget (pl_records p) cid))
       (dget_or (pr_ptb_records s) cid no_ptb_info) (dget_or (pr_registry_records s) cid no_reg_info)"
  have d: "distinct ?ids" "sorted ?ids" "cid \<in> set ?ids"
    using assms(2) by (simp_all add: all_event_ids_def all)
  have evs: "sn_events snap = map ?ev ?ids" "hs_stale_event_count (sn_health snap) = events_with SE_STALE (sn_events snap)"
    using assms(1) build_events_exact [OF d(1), of "pe_event_now env" "pr_ptb_records s" "pr_registry_records s" p]
    by (auto simp: produce_def build_event_snapshots_def all Let_def case_prod_beta)
  have ids: "map es_condition_id (map ?ev ?ids) = ?ids"
    by (simp add: event_snapshot_def Let_def comp_def)
  have "find (\<lambda>e. es_condition_id e = cid) (map ?ev xs) = (if cid \<in> set xs then Some (?ev cid) else None)" for xs
    by (induction xs) (auto simp: event_snapshot_def Let_def)
  then have "get_event cid snap = Some (?ev cid)"
    by (simp add: get_event_def evs d(3))
  moreover have "dget (pl_records p) cid = map_option (check_freshness (pe_all_now env)) (dget (pl_records (pr_pipeline s)) cid)"
    using all by (simp add: pipeline_get_all_def Let_def check_all_dget [symmetric])
  then have "map_option (check_freshness (pe_event_now env cid)) (dget (pl_records p) cid) =
      map_option (status_at (pe_all_now env) (pe_event_now env cid)) (dget (pl_records (pr_pipeline s)) cid)"
    by (cases "dget (pl_records (pr_pipeline s)) cid") (simp_all add: status_at_def)
  ultimately show ?thesis
    using d ids evs by (simp add: stale_events_def)
qed

text \<open>Two consequences used as examples: what is active, and that lost connections do not make the bot unhealthy.\<close>

lemma active_iff:
  "resolve_status pr reg = SE_ACTIVE \<longleftrightarrow>
     str_lower (or_default (ri_status reg) []) \<notin> {''expired'', ''closed'', ''inactive'', ''suspended''} \<and>
     (\<exists>r. pr = Some r \<and> l_status r = PS_FRESH)"
  by (auto simp: resolve_status_def Let_def split: option.splits PriceStatus.splits if_splits)

lemma healthy_without_feeds:
  "is_healthy (aggregate (Some d) c None (Some p) ev cleaned) = is_healthy (aggregate (Some d) c w None ev cleaned)"
  by (simp add: is_healthy_def aggregate_def from_report_def)

definition example_producer :: SnapshotProducer where
  "example_producer = set_registry_records
     [(''c2'', no_reg_info\<lparr>ri_status := Some ''closed''\<rparr>), (''c1'', no_reg_info\<lparr>ri_asset := Some ''BTC''\<rparr>)]
     (new_producer (br_pipeline example_quoted))"

theorem snapshot_exact_witness:
  "sorted (map es_condition_id (sn_events (snd (produce \<lparr>pe_now = 5, pe_all_now = 3, pe_event_now = (\<lambda>_. 4)\<rparr> example_producer)))) \<and>
   map_option es_status (get_event ''c2'' (snd (produce \<lparr>pe_now = 5, pe_all_now = 3, pe_event_now = (\<lambda>_. 4)\<rparr> example_producer))) = Some SE_EXPIRED"
proof -
  let ?env = "\<lparr>pe_now = 5, pe_all_now = 3, pe_event_now = (\<lambda>_ :: string. 4 :: usec)\<rparr>"
  obtain s' snap where p: "produce ?env example_producer = (s', snap)" by fastforce
  have "''c2'' \<in> set (map l_condition_id (snd (pipeline_get_all (pe_all_now ?env) (pr_pipeline example_producer))) @
      dkeys (pr_ptb_records example_producer) @ dkeys (pr_registry_records example_producer))"
    by (simp add: example_producer_def set_registry_records_def)
  from snapshot_exact [OF p this] show ?thesis
    unfolding p
    by (simp add: event_snapshot_def resolve_status_def example_producer_def set_registry_records_def new_producer_def
        dget_or_def or_default_def str_lower_def char_lower_def Let_def no_reg_info_def)
qed

end
