(* ===== verification/Masking.thy ===== *)
theory Masking
  imports Json
begin

text \<open>
  Logging: \<^verbatim>\<open>logging_config/filters.py\<close> (what a log message hides), \<^verbatim>\<open>service.py\<close> (handlers and the events of the
  program) and \<^verbatim>\<open>formatters.py\<close> (what a line is made of).

  The patterns of \<^verbatim>\<open>mask_string\<close> never have to go back: a part that is greedy is followed by a character
  it cannot hold. So \<^verbatim>\<open>sub\<close> is a scan that copies a character where the pattern does not match and else
  writes the replacement and goes on behind the match. Texts are ASCII. The third pattern has no
  replacement and is skipped.
\<close>

section \<open>Patterns\<close>

definition is_hex_digit :: "char \<Rightarrow> bool" where
  "is_hex_digit c \<longleftrightarrow> (let n = of_char c :: nat in (48 \<le> n \<and> n \<le> 57) \<or> (65 \<le> n \<and> n \<le> 70) \<or> (97 \<le> n \<and> n \<le> 102))"

text \<open>\<^verbatim>\<open>(0x[0-9a-fA-F]{6})[0-9a-fA-F]{30,}\<close>: the digits of a key and the text behind it.\<close>

definition prefixed_key :: "string \<Rightarrow> (string \<times> string) option" where
  "prefixed_key s = (case s of
       a # b # r \<Rightarrow> if a = CHR ''0'' \<and> b = CHR ''x'' \<and> 36 \<le> length (takeWhile is_hex_digit r)
         then Some (takeWhile is_hex_digit r, dropWhile is_hex_digit r) else None
     | _ \<Rightarrow> None)"

definition STARS :: string where "STARS = ''****''"

lemma prefixed_key_SomeD:
  assumes "prefixed_key s = Some (h, r)"
  shows "s = CHR ''0'' # CHR ''x'' # h @ r" "36 \<le> length h" "\<forall>c \<in> set h. is_hex_digit c" "length r < length s"
  using assms by (auto simp: prefixed_key_def dest: set_takeWhileD split: list.splits if_splits)
    (metis le_imp_less_Suc length_dropWhile_le less_SucI)

function mask_hex :: "string \<Rightarrow> string" where
  "mask_hex s = (case prefixed_key s of
       Some (h, r) \<Rightarrow> ''0x'' @ take 6 h @ STARS @ mask_hex r
     | None \<Rightarrow> (case s of [] \<Rightarrow> [] | c # cs \<Rightarrow> c # mask_hex cs))"
  by pat_completeness auto
termination by (relation "measure length") (auto dest: prefixed_key_SomeD(4))

declare mask_hex.simps [simp del]

text \<open>A word of the first pattern, whatever its case, and two words with at most one of \<^verbatim>\<open>_\<close> and \<^verbatim>\<open>-\<close> between.\<close>

definition word :: "string \<Rightarrow> string \<Rightarrow> (string \<times> string) option" where
  "word w s = (if str_lower (take (length w) s) = w then Some (take (length w) s, drop (length w) s) else None)"

definition opt_char :: "char list \<Rightarrow> string \<Rightarrow> string \<times> string" where
  "opt_char cs s = (case s of [] \<Rightarrow> ([], []) | c # r \<Rightarrow> if c \<in> set cs then ([c], r) else ([], s))"

definition two_words :: "string \<Rightarrow> string \<Rightarrow> string \<Rightarrow> (string \<times> string) option" where
  "two_words a b s = (case word a s of None \<Rightarrow> None
     | Some (p, r) \<Rightarrow> (let (q, r1) = opt_char [CHR ''_'', CHR ''-''] r in
         case word b r1 of None \<Rightarrow> None | Some (t, r2) \<Rightarrow> Some (p @ q @ t, r2)))"

fun first_of :: "('a \<Rightarrow> 'b option) list \<Rightarrow> 'a \<Rightarrow> 'b option" where
  "first_of [] x = None"
| "first_of (f # fs) x = (case f x of Some y \<Rightarrow> Some y | None \<Rightarrow> first_of fs x)"

definition keyword :: "string \<Rightarrow> (string \<times> string) option" where
  "keyword = first_of [two_words ''api'' ''key'', word ''secret'', word ''passphrase'', two_words ''private'' ''key'',
     two_words ''relayer'' ''key'', word ''token'', word ''password'', word ''credential'']"

abbreviation QUOTES :: "char list" where "QUOTES \<equiv> [CHR 0x22, CHR 0x27]"

definition is_value_char :: "char \<Rightarrow> bool" where
  "is_value_char c \<longleftrightarrow> c \<notin> set QUOTES \<and> \<not> is_space c \<and> c \<noteq> CHR '','' \<and> c \<noteq> CHR ''}'' \<and> c \<noteq> CHR ''{''"

text \<open>A match of the first pattern: what stays before the value, the value, the quote behind it and the rest.\<close>

definition field_match :: "string \<Rightarrow> (string \<times> string \<times> string \<times> string) option" where
  "field_match s = (let (q1, s1) = opt_char QUOTES s in
     case keyword s1 of None \<Rightarrow> None
     | Some (k, s2) \<Rightarrow>
         (let (q2, s3) = opt_char QUOTES s2; sp1 = takeWhile is_space s3; (eq, s4) = opt_char [CHR '':'', CHR ''=''] (dropWhile is_space s3);
              sp2 = takeWhile is_space s4; (q3, s5) = opt_char QUOTES (dropWhile is_space s4); v = takeWhile is_value_char s5;
              (q4, rest) = opt_char QUOTES (dropWhile is_value_char s5)
          in if eq = [] \<or> v = [] then None else Some (q1 @ k @ q2 @ sp1 @ eq @ sp2 @ q3, v, q4, rest)))"

lemma opt_char_split: "opt_char cs s = (q, r) \<Longrightarrow> s = q @ r"
  by (auto simp: opt_char_def split: list.splits if_splits)

lemma word_split: "word w s = Some (k, r) \<Longrightarrow> s = k @ r"
  by (simp add: word_def split: if_splits) (metis append_take_drop_id)

lemma two_words_split: "two_words a b s = Some (k, r) \<Longrightarrow> s = k @ r"
  by (auto simp: two_words_def dest!: word_split opt_char_split split: option.splits prod.splits)

lemma keyword_split: "keyword s = Some (k, r) \<Longrightarrow> s = k @ r"
  unfolding keyword_def by (auto dest: word_split two_words_split split: option.splits)

lemma field_match_split:
  assumes "field_match s = Some (g, v, q, r)"
  shows "s = g @ v @ q @ r" "v \<noteq> []" "length r < length s"
proof -
  obtain q1 s1 where a: "opt_char QUOTES s = (q1, s1)" by fastforce
  with assms obtain k s2 where b: "keyword s1 = Some (k, s2)" by (auto simp: field_match_def split: option.splits)
  obtain q2 s3 where c: "opt_char QUOTES s2 = (q2, s3)" by fastforce
  obtain eq s4 where d: "opt_char [CHR '':'', CHR ''=''] (dropWhile is_space s3) = (eq, s4)" by fastforce
  obtain q3 s5 where e: "opt_char QUOTES (dropWhile is_space s4) = (q3, s5)" by fastforce
  obtain q4 rest where f: "opt_char QUOTES (dropWhile is_value_char s5) = (q4, rest)" by fastforce
  have m: "g = q1 @ k @ q2 @ takeWhile is_space s3 @ eq @ takeWhile is_space s4 @ q3" "v = takeWhile is_value_char s5" "q = q4"
    "r = rest" and v: "v \<noteq> []"
    using assms by (auto simp: field_match_def a b c d e f Let_def split: if_splits)
  have "s3 = takeWhile is_space s3 @ eq @ s4" "s4 = takeWhile is_space s4 @ q3 @ s5" "s5 = v @ q4 @ rest"
    using opt_char_split [OF d] opt_char_split [OF e] opt_char_split [OF f] takeWhile_dropWhile_id m(2) by metis+
  then show s: "s = g @ v @ q @ r"
    using opt_char_split [OF a] keyword_split [OF b] opt_char_split [OF c] m by (metis append.assoc)
  show "v \<noteq> []" by (rule v)
  then show "length r < length s" unfolding s by simp
qed

function mask_fields :: "string \<Rightarrow> string" where
  "mask_fields s = (case field_match s of
       Some (g, v, q, r) \<Rightarrow> g @ STARS @ q @ mask_fields r
     | None \<Rightarrow> (case s of [] \<Rightarrow> [] | c # cs \<Rightarrow> c # mask_fields cs))"
  by pat_completeness auto
termination by (relation "measure length") (auto dest: field_match_split(3))

declare mask_fields.simps [simp del]

definition mask_string :: "string \<Rightarrow> string" where
  "mask_string s = mask_hex (mask_fields s)"

section \<open>Dictionaries, errors, records\<close>

text \<open>A value of a log dictionary; a value that is neither a text nor a dictionary is given by its text.\<close>

datatype logv = LV_str string | LV_dict "(string \<times> logv) list" | LV_other string

definition SENSITIVE_FIELDS :: "string list" where
  "SENSITIVE_FIELDS = [''api_key'', ''api_secret'', ''secret'', ''passphrase'', ''private_key'', ''relayer_key'', ''funder'',
     ''funder_address'', ''relayer_addr'', ''token'', ''password'', ''credential'']"

definition mask_secret :: "logv \<Rightarrow> logv" where
  "mask_secret v = (case v of LV_str s \<Rightarrow> if 4 < length s then LV_str (take 4 s @ STARS) else LV_str STARS | _ \<Rightarrow> LV_str STARS)"

fun mask_item :: "string \<Rightarrow> logv \<Rightarrow> logv" where
  "mask_item key v =
     (if str_lower key \<in> set SENSITIVE_FIELDS then mask_secret v
      else case v of LV_dict kvs \<Rightarrow> LV_dict (map (\<lambda>kv. (fst kv, mask_item (fst kv) (snd kv))) kvs)
         | LV_str s \<Rightarrow> LV_str (mask_string s)
         | LV_other s \<Rightarrow> LV_other s)"

declare mask_item.simps [simp del]

definition mask_dict :: "(string, logv) dict \<Rightarrow> (string, logv) dict" where
  "mask_dict d = map (\<lambda>kv. (fst kv, mask_item (fst kv) (snd kv))) d"

definition sanitize_error :: "string \<Rightarrow> string \<Rightarrow> string" where
  "sanitize_error err_type e = (let msg = mask_string e
     in err_type @ '': '' @ (if 200 < length msg then take 200 msg @ ''...'' else msg))"

datatype LogArgs = NoArgs | DictArgs "(string, logv) dict" | TupleArgs "logv list"

record LogRecord =
  lr_level :: string
  lr_name :: string
  lr_msg :: string
  lr_args :: LogArgs
  lr_entity_type :: "string option"
  lr_entity_id :: "string option"
  lr_payload :: "(string, logv) dict option"
  lr_exc :: "string option"

definition mask_arg :: "logv \<Rightarrow> logv" where
  "mask_arg a = (case a of LV_str s \<Rightarrow> LV_str (mask_string s) | _ \<Rightarrow> a)"

definition masking_filter :: "LogRecord \<Rightarrow> LogRecord" where
  "masking_filter r = r\<lparr>lr_msg := mask_string (lr_msg r),
     lr_args := (case lr_args r of NoArgs \<Rightarrow> NoArgs | DictArgs d \<Rightarrow> DictArgs (mask_dict d) | TupleArgs xs \<Rightarrow> TupleArgs (map mask_arg xs))\<rparr>"

section \<open>Lines\<close>

text \<open>\<open>interp\<close> is \<^verbatim>\<open>msg % args\<close>. A JSON line is given by its dictionary.\<close>

datatype Line = JsonLine "(string, logv) dict" | HumanLine string

definition get_message :: "(string \<Rightarrow> LogArgs \<Rightarrow> string) \<Rightarrow> LogRecord \<Rightarrow> string" where
  "get_message interp r = (if lr_args r = NoArgs then lr_msg r else interp (lr_msg r) (lr_args r))"

definition opt_or :: "'a option \<Rightarrow> 'a \<Rightarrow> 'a" where
  "opt_or x d = (case x of None \<Rightarrow> d | Some y \<Rightarrow> y)"

definition json_format :: "string \<Rightarrow> (string \<Rightarrow> LogArgs \<Rightarrow> string) \<Rightarrow> LogRecord \<Rightarrow> Line" where
  "json_format now interp r = JsonLine
     ([(''timestamp'', LV_str now), (''severity'', LV_str (lr_level r)), (''entity_type'', LV_str (opt_or (lr_entity_type r) ''system'')),
       (''entity_id'', LV_str (opt_or (lr_entity_id r) [])), (''message'', LV_str (get_message interp r)), (''logger'', LV_str (lr_name r))] @
      (case lr_payload r of None \<Rightarrow> [] | Some p \<Rightarrow> if p = [] then [] else [(''payload'', LV_dict p)]) @
      (case lr_exc r of None \<Rightarrow> [] | Some e \<Rightarrow> [(''exception'', LV_str e)]))"

definition human_format :: "string \<Rightarrow> (string \<Rightarrow> LogArgs \<Rightarrow> string) \<Rightarrow> LogRecord \<Rightarrow> Line" where
  "human_format now interp r =
     (let etype = opt_or (lr_entity_type r) []; eid = opt_or (lr_entity_id r) [];
          entity = (if etype = [] then [] else '' ['' @ etype @ (if eid = [] then [] else '':'' @ eid) @ '']'');
          pad = replicate (8 - length (lr_level r)) CHR '' ''
      in HumanLine (now @ '' '' @ lr_level r @ pad @ entity @ '' '' @ get_message interp r @
           (case lr_exc r of None \<Rightarrow> [] | Some e \<Rightarrow> CHR 0x0A # e)))"

record Handler =
  ha_json :: bool
  ha_mask :: bool

record LogSetup =
  lg_level :: int
  lg_handlers :: "Handler list"

text \<open>The levels of the schema; any other name means \<^verbatim>\<open>INFO\<close>.\<close>

definition LEVELS :: "(string \<times> int) list" where
  "LEVELS = [(''DEBUG'', 10), (''INFO'', 20), (''WARNING'', 30), (''ERROR'', 40), (''CRITICAL'', 50)]"

definition setup_logging :: "string \<Rightarrow> string \<Rightarrow> string option \<Rightarrow> bool \<Rightarrow> LogSetup" where
  "setup_logging level fmt file_path mask_credentials =
     \<lparr>lg_level = opt_or (map_of LEVELS (str_upper level)) 20,
      lg_handlers = \<lparr>ha_json = (fmt = ''json''), ha_mask = mask_credentials\<rparr> #
        (case file_path of None \<Rightarrow> [] | Some p \<Rightarrow> if p = [] then [] else [\<lparr>ha_json = True, ha_mask = mask_credentials\<rparr>])\<rparr>"

text \<open>The handlers see one record, which a filter changes in place.\<close>

fun run_handlers :: "string \<Rightarrow> (string \<Rightarrow> LogArgs \<Rightarrow> string) \<Rightarrow> Handler list \<Rightarrow> LogRecord \<Rightarrow> Line list" where
  "run_handlers now interp [] r = []"
| "run_handlers now interp (h # hs) r =
     (let r' = (if ha_mask h then masking_filter r else r)
      in (if ha_json h then json_format now interp r' else human_format now interp r') # run_handlers now interp hs r')"

text \<open>The lines an event makes. Without \<^verbatim>\<open>setup_logging\<close> the standard library writes the bare message of
  a warning or worse.\<close>

definition log_event :: "string \<Rightarrow> LogSetup option \<Rightarrow> string \<Rightarrow> string \<Rightarrow> string \<Rightarrow> string \<Rightarrow> string \<Rightarrow> (string, logv) dict option \<Rightarrow> Line list" where
  "log_event now setup logger level message entity_type entity_id payload =
     (let n = opt_or (map_of LEVELS level) 20 in
      case setup of
        None \<Rightarrow> if n < 30 then [] else [HumanLine message]
      | Some lg \<Rightarrow> if n < lg_level lg then [] else
          run_handlers now (\<lambda>m _. m) (lg_handlers lg) \<lparr>lr_level = level, lr_name = ''polyfast.'' @ logger, lr_msg = message, lr_args = NoArgs,
            lr_entity_type = Some entity_type, lr_entity_id = Some entity_id, lr_payload = payload, lr_exc = None\<rparr>)"

section \<open>What a masked text holds\<close>

fun no_key :: "string \<Rightarrow> bool" where
  "no_key [] = True"
| "no_key (c # cs) = (prefixed_key (c # cs) = None \<and> no_key cs)"

lemma no_key_iff: "no_key s \<longleftrightarrow> (\<forall>p r. s = p @ r \<longrightarrow> prefixed_key r = None)"
proof (induction s)
  case Nil
  then show ?case by (simp add: prefixed_key_def)
next
  case (Cons c cs)
  show ?case unfolding no_key.simps Cons by (auto simp: Cons_eq_append_conv)
qed

lemma mask_hex_Nil [simp]: "mask_hex [] = []"
  by (subst mask_hex.simps) (simp add: prefixed_key_def)

lemma takeWhile_mask_hex: "takeWhile is_hex_digit (mask_hex s) = takeWhile is_hex_digit s"
proof (induction s rule: mask_hex.induct)
  case (1 s)
  show ?case
  proof (cases "prefixed_key s")
    case None
    then show ?thesis using 1(1) by (subst mask_hex.simps) (auto split: list.split)
  next
    case (Some hr)
    obtain h r where hr: "hr = (h, r)" by (cases hr)
    have x: "is_hex_digit CHR ''0''" "\<not> is_hex_digit CHR ''x''" by (simp_all add: is_hex_digit_def)
    then show ?thesis using Some prefixed_key_SomeD(1) [of s h r] unfolding hr by (subst mask_hex.simps) simp
  qed
qed

lemma mask_hex_hd: "mask_hex s = [] \<longleftrightarrow> s = []" "s \<noteq> [] \<Longrightarrow> hd (mask_hex s) = hd s"
  by (subst mask_hex.simps; auto dest: prefixed_key_SomeD(1) split: option.splits list.splits)+

lemma no_key_digits: "\<forall>c \<in> set h. is_hex_digit c \<Longrightarrow> no_key (c # r) \<Longrightarrow> c \<noteq> CHR ''x'' \<Longrightarrow> no_key (h @ c # r)"
proof (induction h)
  case (Cons d h)
  have "\<not> is_hex_digit CHR ''x''" by (simp add: is_hex_digit_def)
  then have "prefixed_key (d # h @ c # r) = None"
    using Cons.prems by (cases h) (auto simp: prefixed_key_def)
  then show ?case using Cons by simp
qed simp

lemma no_key_mask_hex: "no_key (mask_hex s)"
proof (induction s rule: mask_hex.induct)
  case (1 s)
  show ?case
  proof (cases "prefixed_key s")
    case (Some hr)
    obtain h r where hr: "hr = (h, r)" by (cases hr)
    note k = prefixed_key_SomeD [OF Some [unfolded hr]]
    have out: "mask_hex s = ''0x'' @ take 6 h @ STARS @ mask_hex r" using Some hr by (subst mask_hex.simps) simp
    have digits: "\<forall>c \<in> set (take 6 h). is_hex_digit c" using k(3) by (auto dest: in_set_takeD)
    have star: "\<not> is_hex_digit CHR ''*''" by (simp add: is_hex_digit_def)
    have "no_key (mask_hex r)" using 1(2) [OF Some hr [symmetric]] .
    then have stars: "no_key (STARS @ mask_hex r)" by (simp add: STARS_def prefixed_key_def split: list.split)
    then have tail: "no_key (take 6 h @ STARS @ mask_hex r)"
      using no_key_digits [OF digits, of "CHR ''*''" "''***'' @ mask_hex r"] by (simp add: STARS_def)
    have "takeWhile is_hex_digit (take 6 h @ STARS @ mask_hex r) = take 6 h"
      using digits star by (simp add: STARS_def takeWhile_append2)
    then have "prefixed_key (mask_hex s) = None" unfolding out by (simp add: prefixed_key_def)
    moreover have "prefixed_key (CHR ''x'' # t) = None" for t by (simp add: prefixed_key_def split: list.split)
    ultimately show ?thesis using tail unfolding out by simp
  next
    case None
    show ?thesis
    proof (cases s)
      case Nil
      then show ?thesis by (subst mask_hex.simps) (simp add: prefixed_key_def)
    next
      case (Cons c cs)
      have out: "mask_hex s = c # mask_hex cs" using None Cons by (subst mask_hex.simps) simp
      have "prefixed_key (c # mask_hex cs) = None"
      proof (cases cs)
        case Nil
        then show ?thesis by (simp add: prefixed_key_def)
      next
        case (Cons d ds)
        show ?thesis
        proof (cases "d = CHR ''x''")
          case True
          have "prefixed_key cs = None" using True Cons by (simp add: prefixed_key_def split: list.split)
          then have "mask_hex cs = d # mask_hex ds" using Cons by (subst mask_hex.simps) simp
          then show ?thesis
            using None \<open>s = c # cs\<close> Cons True takeWhile_mask_hex [of ds] by (auto simp: prefixed_key_def split: if_splits)
        next
          case False
          then obtain t where "mask_hex cs = d # t" using mask_hex_hd [of cs] Cons by (cases "mask_hex cs") auto
          with False show ?thesis by (simp add: prefixed_key_def)
        qed
      qed
      moreover have "no_key (mask_hex cs)" using 1(1) [OF None Cons] .
      ultimately show ?thesis unfolding out by simp
    qed
  qed
qed

lemma mask_hex_same: "no_key s \<Longrightarrow> mask_hex s = s"
  by (induction s) (subst mask_hex.simps, simp add: prefixed_key_def, subst mask_hex.simps, simp)

section \<open>Named values\<close>

text \<open>The spellings of the named values, each with the sign behind it.\<close>

definition NAMES :: "string list" where
  "NAMES = [''api_key='', ''secret='', ''passphrase='', ''private_key='', ''relayer_key='', ''token='', ''password='', ''credential='']"

definition ends_value :: "string \<Rightarrow> bool" where
  "ends_value r \<longleftrightarrow> r = [] \<or> \<not> is_value_char (hd r)"

lemma keyword_name: "n \<in> set NAMES \<Longrightarrow> keyword (n @ w) = Some (butlast n, CHR ''='' # w) \<and> opt_char QUOTES (n @ w) = ([], n @ w) \<and> butlast n @ ''='' = n"
  unfolding NAMES_def list.set insert_iff empty_iff
  by (elim disjE) (simp_all add: keyword_def word_def two_words_def opt_char_def str_lower_def char_lower_def)

lemma named_value_match:
  assumes "n \<in> set NAMES" and "v \<noteq> []" and "\<forall>c \<in> set v. is_value_char c" and "ends_value r"
  shows "field_match (n @ v @ r) = Some (n, v, opt_char QUOTES r)"
proof -
  obtain d ds where v: "v = d # ds" using assms(2) by (cases v) auto
  then have d: "is_value_char d" using assms(3) by simp
  then have head: "\<not> is_space d" "d \<notin> set QUOTES" by (simp_all add: is_value_char_def)
  have run: "takeWhile is_value_char (v @ r) = v" "dropWhile is_value_char (v @ r) = r"
    using assms(3,4) by (cases r; simp add: ends_value_def takeWhile_append2 dropWhile_append2)+
  have space: "\<not> is_space CHR ''=''" by (simp add: is_space_def)
  then have eq: "opt_char QUOTES (CHR ''='' # v @ r) = ([], CHR ''='' # v @ r)"
    "takeWhile is_space (CHR ''='' # v @ r) = []" "dropWhile is_space (CHR ''='' # v @ r) = CHR ''='' # v @ r"
    "opt_char [CHR '':'', CHR ''=''] (CHR ''='' # v @ r) = (''='', v @ r)"
    by (simp_all add: opt_char_def)
  have val: "takeWhile is_space (v @ r) = []" "dropWhile is_space (v @ r) = v @ r" "opt_char QUOTES (v @ r) = ([], v @ r)"
    using head by (simp_all add: v opt_char_def)
  show ?thesis
    using keyword_name [OF assms(1), of "v @ r"] assms(2)
    by (simp add: field_match_def space eq val run Let_def split: prod.split)
qed

lemma mask_fields_same: "(\<And>p r. s = p @ r \<Longrightarrow> field_match r = None) \<Longrightarrow> mask_fields s = s"
proof (induction s)
  case Nil
  from Nil [of "[]" "[]"] show ?case by (subst mask_fields.simps) simp
next
  case (Cons c cs)
  have "field_match (c # cs) = None" using Cons.prems [of "[]"] by simp
  moreover have "mask_fields cs = cs" using Cons.prems [of "c # _"] by (intro Cons.IH) simp
  ultimately show ?case by (subst mask_fields.simps) simp
qed

lemma hex_no_keyword:
  assumes "\<forall>c \<in> set s. is_hex_digit c"
  shows "field_match s = None"
proof -
  have no: "\<not> is_hex_digit CHR ''s''" "\<not> is_hex_digit CHR ''p''" "\<not> is_hex_digit CHR ''r''" "\<not> is_hex_digit CHR ''t''" 
    by (simp_all add: is_hex_digit_def)
  have low: "is_hex_digit (char_lower c)" if "is_hex_digit c" for c
    using that by (auto simp: is_hex_digit_def char_lower_def Let_def)
  have word: "word w s = None" if "\<exists>c \<in> set w. \<not> is_hex_digit c" for w
  proof -
    have "\<forall>c \<in> set (str_lower (take (length w) s)). is_hex_digit c" using assms low by (auto simp: str_lower_def dest: in_set_takeD)
    with that show ?thesis by (auto simp: word_def)
  qed
  have "keyword s = None" using no by (simp add: keyword_def two_words_def word)
  moreover have "opt_char QUOTES s = ([], s)"
    using assms by (cases s) (auto simp: opt_char_def is_hex_digit_def)
  ultimately show ?thesis by (simp add: field_match_def)
qed

section \<open>Properties\<close>

text \<open>C25. With the masking filter on every handler no JSON line has a message with a \<^verbatim>\<open>0x\<close> and 36 or more
  hexadecimal digits behind it, whatever the event says. The filter does not reach the payload, which is
  written as it was given.\<close>

theorem log_messages_hide_keys:
  assumes "JsonLine kvs \<in> set (log_event now (Some (setup_logging lvl fmt path True)) logger level message entity_type entity_id payload)"
  shows "(\<exists>m. dget kvs ''message'' = Some (LV_str m) \<and> no_key m) \<and>
    dget kvs ''payload'' = (case payload of None \<Rightarrow> None | Some p \<Rightarrow> if p = [] then None else Some (LV_dict p))"
proof -
  have lines: "JsonLine kvs \<in> set (run_handlers now interp hs r) \<Longrightarrow> \<forall>h \<in> set hs. ha_mask h \<Longrightarrow> lr_args r = NoArgs \<Longrightarrow>
      lr_payload r = payload \<Longrightarrow> (\<exists>m. dget kvs ''message'' = Some (LV_str m) \<and> no_key m) \<and>
        dget kvs ''payload'' = (case payload of None \<Rightarrow> None | Some p \<Rightarrow> if p = [] then None else Some (LV_dict p))" for interp hs r
  proof (induction hs arbitrary: r)
    case (Cons h hs)
    let ?r = "masking_filter r"
    have r: "lr_args ?r = NoArgs" "lr_payload ?r = payload" "lr_msg ?r = mask_string (lr_msg r)"
      using Cons.prems by (simp_all add: masking_filter_def)
    consider "JsonLine kvs = json_format now interp ?r" | "JsonLine kvs \<in> set (run_handlers now interp hs ?r)"
      using Cons.prems(1,2) by (auto simp: Let_def human_format_def split: if_splits)
    then show ?case
    proof cases
      case 1
      then show ?thesis
        using r no_key_mask_hex by (auto simp: json_format_def get_message_def mask_string_def split: option.splits)
    next
      case 2
      with Cons.IH [of ?r] Cons.prems(2) r show ?thesis by simp
    qed
  qed simp
  have "\<forall>h \<in> set (lg_handlers (setup_logging lvl fmt path True)). ha_mask h"
    by (cases path) (auto simp: setup_logging_def)
  then show ?thesis
    using assms by (intro lines) (auto simp: log_event_def Let_def split: if_splits)
qed

text \<open>The value behind one of the names does not reach a line: texts that differ only there are masked alike.\<close>

theorem named_value_hidden:
  assumes "n \<in> set NAMES" and "v \<noteq> []" and "\<forall>c \<in> set v. is_value_char c"
    and "w \<noteq> []" and "\<forall>c \<in> set w. is_value_char c" and "ends_value r"
  shows "mask_string (n @ v @ r) = mask_string (n @ w @ r)"
  unfolding mask_string_def
  by (subst (1 2) mask_fields.simps)
    (simp add: named_value_match [OF assms(1,2,3,6)] named_value_match [OF assms(1,4,5,6)] case_prod_beta)

text \<open>A bare hexadecimal key, as the credential form accepts it, is not hidden: a text of hexadecimal digits is written
  as it is, however long.\<close>

theorem bare_key_is_logged:
  assumes "\<forall>c \<in> set k. is_hex_digit c"
  shows "mask_string k = k"
proof -
  have "mask_fields k = k" using assms by (intro mask_fields_same hex_no_keyword) auto
  moreover have "prefixed_key r = None" if "k = p @ r" for p r
  proof -
    have "\<not> is_hex_digit CHR ''x''" by (simp add: is_hex_digit_def)
    with assms that show ?thesis by (auto simp: prefixed_key_def split: list.split)
  qed
  then have "mask_hex k = k" by (intro mask_hex_same) (simp add: no_key_iff)
  ultimately show ?thesis by (simp add: mask_string_def)
qed

text \<open>A dictionary keeps its keys, and under a sensitive one at most four characters of the value are left.\<close>

theorem sensitive_fields_hidden:
  assumes "dget d k = Some v" and "str_lower k \<in> set SENSITIVE_FIELDS"
  shows "dkeys (mask_dict d) = dkeys d \<and>
    (\<exists>s. dget (mask_dict d) k = Some (LV_str (s @ STARS)) \<and> length s \<le> 4 \<and> (s = [] \<or> (\<exists>t. v = LV_str t \<and> s = take 4 t)))"
proof -
  have "dget (mask_dict d) k = Some (mask_item k v)"
    using assms(1) by (induction d) (auto simp: mask_dict_def split: if_splits)
  moreover have "mask_item k v = mask_secret v" using assms(2) by (subst mask_item.simps) simp
  ultimately show ?thesis by (cases v) (auto simp: mask_dict_def mask_secret_def intro: exI [of _ "[]"])
qed

definition example_payload :: "(string, logv) dict" where
  "example_payload = [(''private_key'', LV_str ''0xabcdef'')]"

theorem log_messages_hide_keys_witness:
  "(case log_event ''t'' (Some (setup_logging ''INFO'' ''json'' None True)) ''app'' ''ERROR'' (''key 0x'' @ replicate 40 CHR ''a'') ''app'' ''x'' (Some example_payload) of
     [JsonLine kvs] \<Rightarrow> (case dget kvs ''message'' of Some (LV_str m) \<Rightarrow> no_key m | _ \<Rightarrow> False) \<and> dget kvs ''payload'' = Some (LV_dict example_payload)
   | _ \<Rightarrow> False)"
proof -
  let ?ls = "log_event ''t'' (Some (setup_logging ''INFO'' ''json'' None True)) ''app'' ''ERROR'' (''key 0x'' @ replicate 40 CHR ''a'') ''app'' ''x'' (Some example_payload)"
  obtain kvs where l: "?ls = [JsonLine kvs]"
    by (simp add: log_event_def setup_logging_def json_format_def LEVELS_def opt_or_def str_upper_def char_upper_def Let_def)
  then have "JsonLine kvs \<in> set ?ls" by simp
  from log_messages_hide_keys [OF this] show ?thesis
    unfolding l by (auto simp: example_payload_def)
qed

theorem named_value_hidden_witness: "mask_string ''token=abc, x'' = mask_string ''token=defg, x''"
  using named_value_hidden [of "''token=''" "''abc''" "''defg''" "'', x''"]
  by (simp add: NAMES_def is_value_char_def is_space_def ends_value_def)

theorem bare_key_is_logged_witness: "mask_string (replicate 64 CHR ''a'') = replicate 64 CHR ''a''"
  by (rule bare_key_is_logged) (simp add: is_hex_digit_def)

theorem sensitive_fields_hidden_witness:
  "\<exists>s. dget (mask_dict example_payload) ''private_key'' = Some (LV_str (s @ STARS)) \<and> length s \<le> 4"
  using sensitive_fields_hidden [of example_payload "''private_key''" "LV_str ''0xabcdef''"]
  by (auto simp: example_payload_def SENSITIVE_FIELDS_def str_lower_def char_lower_def)

end
