(* ===== verification/Loops.thy ===== *)
theory Loops
  imports Discovery
begin

text \<open>
  The outer loops of two background tasks: the slot loop of \<^verbatim>\<open>orchestrator/discovery_loop.py\<close>, and the
  connections of \<^verbatim>\<open>market_data/coin_price_client.py\<close> (the batch poll, the persistent connection
  and the loop that reconnects), with what that client reports to the health page.

  A loop takes the list of what happens to it, one entry per turn, and is \<open>None\<close> while it has not ended.
\<close>

section \<open>The slot loop of the discovery\<close>

text \<open>\<^verbatim>\<open>max(0.0, slot_end - now)\<close>\<close>

definition slot_remaining :: "num \<Rightarrow> num" where
  "slot_remaining now = max 0 (fsub (of_int (slot_start_of now + SLOT_SECONDS)) now)"

text \<open>One turn: the clock at its head, the passes of the scan, the clock behind them. The turn ends with the
  wait it asks for, whether events were found or not.\<close>

record SlotTurn =
  tn_head :: num
  tn_rounds :: "scan_round list"
  tn_end :: num

definition slot_turn :: "SlotTurn \<Rightarrow> DiscoveryLoop \<Rightarrow> (DiscoveryLoop \<times> DiscoveredEvent list \<times> num) option" where
  "slot_turn t d = (let slot = slot_start_of (tn_head t) in
     case scan_with_retry slot 0 (tn_rounds t) (d\<lparr>dl_current_slot := slot\<rparr>) of
       None \<Rightarrow> None
     | Some (d', events) \<Rightarrow> Some (d', events, slot_remaining (tn_end t)))"

text \<open>Turns in a row: the slots they scan, as long as every scan returns.\<close>

fun slot_turns :: "SlotTurn list \<Rightarrow> DiscoveryLoop \<Rightarrow> (DiscoveryLoop \<times> int list) option" where
  "slot_turns [] d = Some (d, [])"
| "slot_turns (t # ts) d = (case slot_turn t d of None \<Rightarrow> None
     | Some (d', _) \<Rightarrow> (case slot_turns ts d' of None \<Rightarrow> None
         | Some (d'', slots) \<Rightarrow> Some (d'', dl_current_slot d' # slots)))"

text \<open>A clock that reads floats and does not run backwards, and a sleep that lasts at least as long as asked.\<close>

fun turns_timed :: "num \<Rightarrow> SlotTurn list \<Rightarrow> bool" where
  "turns_timed now [] = True"
| "turns_timed now (t # ts) = (now \<le> tn_head t \<and> tn_head t \<le> tn_end t \<and> binary64 (tn_end t) \<and>
     turns_timed (tn_end t + slot_remaining (tn_end t)) ts)"

lemma scan_keeps_slot: "scan_with_retry slot n rs d = Some (d', evs) \<Longrightarrow> dl_current_slot d' = dl_current_slot d"
  by (induction rs arbitrary: n d) (auto simp: Let_def split: if_splits)

text \<open>The subtraction is exact: the end of the slot is at most as far from the clock as the clock from 0.\<close>

lemma distance_exact:
  assumes "binary64 x" and "x \<le> of_int k" and "of_int k - x \<le> x" and "of_int k - x \<le> 300"
  shows "fl (of_int k - x) = of_int k - x"
proof -
  obtain m e where x: "x = of_int m * 2 powi e" and m: "\<bar>m\<bar> \<le> 2 ^ 53" and e: "-1074 \<le> e"
    using assms(1) by (auto simp: binary64_def)
  show ?thesis
  proof (cases "0 \<le> e")
    case True
    then have "of_int k - x = of_int (k - m * 2 ^ nat e)" by (simp add: x power_int_def)
    moreover from this have "\<bar>k - m * 2 ^ nat e\<bar> \<le> 2 ^ 53"
      using assms(2,4) by (simp del: of_int_diff)
    ultimately show ?thesis by (metis fl_of_int)
  next
    case False
    define n where "n = nat (- e)"
    then have e: "e = - int n" using False by simp
    define q where "q = k * 2 ^ n - m"
    have p: "of_int k - x = of_int q * 2 powi e" by (simp add: x q_def e power_int_minus field_simps)
    have "of_int q * 2 powi e \<le> of_int m * (2 :: rat) powi e" "0 \<le> of_int q * (2 :: rat) powi e"
      using assms(2,3) unfolding p [symmetric] x [symmetric] by simp_all
    then have "q \<le> m" "0 \<le> q" using powi_pos [of e] by (auto simp: zero_le_mult_iff)
    then have "binary64 (of_int k - x)"
      unfolding p binary64_def using m \<open>-1074 \<le> e\<close> by (intro exI [of _ q] exI [of _ e]) simp
    then show ?thesis by (simp add: binary64_iff)
  qed
qed

lemma slot_remaining_exact:
  assumes "binary64 now" and "300 \<le> now"
  shows "now + slot_remaining now = of_int (slot_start_of now + SLOT_SECONDS)"
proof -
  have b: "of_int (slot_start_of now) \<le> now" "now < of_int (slot_start_of now + SLOT_SECONDS)"
    using slot_start_bounds [of now] assms(2) by simp_all
  then have "fl (of_int (slot_start_of now + SLOT_SECONDS) - now) = of_int (slot_start_of now + SLOT_SECONDS) - now"
    using assms by (intro distance_exact) (simp_all add: SLOT_SECONDS_def)
  with b show ?thesis by (simp add: slot_remaining_def fsub_def)
qed

lemma slot_start_of_end: "of_int k * 300 \<le> t \<Longrightarrow> 0 \<le> k \<Longrightarrow> k * 300 \<le> slot_start_of t"
proof -
  assume "of_int k * 300 \<le> t" "0 \<le> k"
  then have "k * 300 \<le> \<lfloor>t\<rfloor>" by (simp add: le_floor_iff)
  moreover have "0 \<le> t" using \<open>of_int k * 300 \<le> t\<close> \<open>0 \<le> k\<close> by (meson mult_nonneg_nonneg of_int_0_le_iff order_trans zero_le_numeral)
  ultimately show "k * 300 \<le> slot_start_of t" by (simp add: slot_start_of_def SLOT_SECONDS_def py_int_def)
qed

lemma next_slot:
  assumes "binary64 t" and "300 \<le> t" and "t + slot_remaining t \<le> next"
  shows "slot_start_of t + SLOT_SECONDS \<le> slot_start_of next"
proof -
  have "0 \<le> slot_start_of t" using slot_start_mono [of 0 t] assms(2) by (simp add: slot_start_of_def py_int_def)
  moreover have "slot_start_of t + SLOT_SECONDS = (slot_start_of t div 300 + 1) * 300"
    by (simp add: slot_start_of_def SLOT_SECONDS_def)
  moreover have "of_int (slot_start_of t + SLOT_SECONDS) \<le> next"
    using assms(3) slot_remaining_exact [OF assms(1,2)] by simp
  ultimately show ?thesis
    using slot_start_of_end [of "slot_start_of t div 300 + 1" "next"] by (simp add: pos_imp_zdiv_nonneg_iff)
qed

text \<open>The slot loop never scans a slot twice: the slots of successive turns grow, each by at least one slot.\<close>

theorem slots_grow:
  assumes "slot_turns ts d = Some (d', slots)" and "turns_timed now ts" and "300 \<le> now"
  shows "sorted_wrt (\<lambda>a b. a + SLOT_SECONDS \<le> b) slots \<and> (\<forall>s \<in> set slots. slot_start_of now \<le> s) \<and> length slots = length ts"
  using assms
proof (induction ts arbitrary: d now slots)
  case (Cons t ts)
  obtain d1 evs w where turn: "slot_turn t d = Some (d1, evs, w)"
    using Cons.prems(1) by (cases "slot_turn t d") auto
  obtain ss where rest: "slot_turns ts d1 = Some (d', ss)" and slots: "slots = dl_current_slot d1 # ss"
    using Cons.prems(1) turn by (auto split: option.splits prod.splits)
  have slot: "dl_current_slot d1 = slot_start_of (tn_head t)"
    using turn scan_keeps_slot by (auto simp: slot_turn_def Let_def split: option.splits)
  let ?next = "tn_end t + slot_remaining (tn_end t)"
  have order: "now \<le> tn_head t" "tn_head t \<le> tn_end t" "300 \<le> tn_end t" "binary64 (tn_end t)"
    using Cons.prems(2,3) by simp_all
  have mono: "slot_start_of now \<le> slot_start_of (tn_head t)" "slot_start_of (tn_head t) \<le> slot_start_of (tn_end t)"
    using order Cons.prems(3) by (simp_all add: slot_start_mono)
  have later: "slot_start_of (tn_end t) + SLOT_SECONDS \<le> slot_start_of ?next"
    using order by (intro next_slot) simp_all
  have "300 \<le> ?next" using order(3) by (simp add: slot_remaining_def)
  with Cons.IH [OF rest, of ?next] Cons.prems(2)
  have "sorted_wrt (\<lambda>a b. a + SLOT_SECONDS \<le> b) ss" "\<forall>s \<in> set ss. slot_start_of ?next \<le> s" "length ss = length ts" by simp_all
  then show ?case using slots slot mono later by (force simp: SLOT_SECONDS_def)
qed simp

lemma empty_scan_crosses:
  "scan_with_retry slot n rs d = Some (d', []) \<Longrightarrow> \<forall>r \<in> set rs. \<not> sn_stopped r \<Longrightarrow>
    \<exists>r \<in> set rs. slot_start_of (sn_head r) \<noteq> slot \<or> slot_start_of (sn_after r) \<noteq> slot"
  by (induction rs arbitrary: n d) (auto simp: Let_def split: if_splits)

text \<open>C24. An empty slot costs the next one: a scan without events ends only when its slot is over, and the wait
  behind it then lasts to the end of the slot that has just begun. The next scan is at least two slots on.\<close>

theorem empty_slot_skips_the_next:
  assumes "slot_turn t d = Some (d', [], wait)" and "\<forall>r \<in> set (tn_rounds t). \<not> sn_stopped r"
    and "\<forall>r \<in> set (tn_rounds t). tn_head t \<le> sn_head r \<and> sn_head r \<le> tn_end t \<and> tn_head t \<le> sn_after r \<and> sn_after r \<le> tn_end t"
    and "300 \<le> tn_head t" and "binary64 (tn_end t)" and "tn_end t + wait \<le> next"
  shows "slot_start_of (tn_head t) + 2 * SLOT_SECONDS \<le> slot_start_of next"
proof -
  let ?slot = "slot_start_of (tn_head t)"
  have scan: "scan_with_retry ?slot 0 (tn_rounds t) (d\<lparr>dl_current_slot := ?slot\<rparr>) = Some (d', [])" and wait: "wait = slot_remaining (tn_end t)"
    using assms(1) by (auto simp: slot_turn_def Let_def split: option.splits)
  obtain x where x: "slot_start_of x \<noteq> ?slot" "tn_head t \<le> x" "x \<le> tn_end t"
    using empty_scan_crosses [OF scan assms(2)] assms(3) by blast
  then have "?slot \<le> slot_start_of x" "slot_start_of x \<le> slot_start_of (tn_end t)"
    using assms(4) by (simp_all add: slot_start_mono)
  moreover have "?slot + SLOT_SECONDS \<le> slot_start_of x"
    if "?slot \<le> slot_start_of x"
    using that x(1) unfolding slot_start_of_def SLOT_SECONDS_def by simp
  ultimately have "?slot + SLOT_SECONDS \<le> slot_start_of (tn_end t)" by simp
  moreover have "slot_start_of (tn_end t) + SLOT_SECONDS \<le> slot_start_of next"
    using assms(4-6) x(2,3) unfolding wait by (intro next_slot) simp_all
  ultimately show ?thesis by simp
qed

section \<open>One batch of coin prices\<close>

text \<open>What a message says: an error, nothing, or a valid price of a coin.\<close>

definition message_price :: "json option \<Rightarrow> exc + (string \<times> num) option" where
  "message_price raw = (case raw of
       None \<Rightarrow> Inl ValueError
     | Some data \<Rightarrow>
        (case jget data ''payload'' (JObj []) of
           Inl e \<Rightarrow> Inl e
         | Inr (JObj kvs) \<Rightarrow>
             (case dget_or kvs ''symbol'' (JStr []) of
                JList xs \<Rightarrow> Inl TypeError
              | JObj xs \<Rightarrow> Inl TypeError
              | JStr s \<Rightarrow> (case dget SYMBOL_TO_COIN s of
                  None \<Rightarrow> Inr None
                | Some coin \<Rightarrow> (case extract_price kvs of
                    None \<Rightarrow> Inr None
                  | Some p \<Rightarrow> if is_valid_coin_price p then Inr (Some (coin, the_num p)) else Inr None))
              | _ \<Rightarrow> Inr None)
         | Inr _ \<Rightarrow> Inr None))"

lemma feed_message_price:
  "feed_message now raw c = (case message_price raw of Inl e \<Rightarrow> (c, Inl e) | Inr None \<Rightarrow> (c, Inr ())
     | Inr (Some (coin, x)) \<Rightarrow> (update_coin_record now coin x c, Inr ()))"
  by (auto simp: feed_message_def message_price_def split: option.splits sum.splits json.splits)

lemma message_price_valid: "message_price raw = Inr (Some (coin, x)) \<Longrightarrow> PRICE_MIN \<le> x \<and> x \<le> PRICE_MAX"
  by (auto simp: message_price_def is_valid_coin_price_def flt_in_cc_iff split: option.splits sum.splits json.splits if_splits)

text \<open>A turn of the receive loop: the clock its condition reads, and what \<^verbatim>\<open>recv\<close> gives: nothing for a second,
  a closed connection, any other error, a blank text, or a text as \<^verbatim>\<open>json.loads\<close> reads it.\<close>

datatype Received = RV_Timeout | RV_Closed | RV_Error | RV_Blank | RV_Text "json option"

record PollTurn =
  po_clock :: num
  po_now :: usec
  po_received :: Received

text \<open>\<open>deadline\<close> and the number of coins bound the loop; the flag says whether it ended with an error.\<close>

fun poll_loop :: "num \<Rightarrow> nat \<Rightarrow> PollTurn list \<Rightarrow> (string, num) dict \<Rightarrow> CoinPriceClient \<Rightarrow> (CoinPriceClient \<times> (string, num) dict \<times> bool) option" where
  "poll_loop deadline n [] res c = None"
| "poll_loop deadline n (t # ts) res c =
     (if n \<le> length res \<or> deadline \<le> po_clock t then Some (c, res, False)
      else case po_received t of
        RV_Timeout \<Rightarrow> poll_loop deadline n ts res c
      | RV_Blank \<Rightarrow> poll_loop deadline n ts res c
      | RV_Closed \<Rightarrow> Some (c, res, False)
      | RV_Error \<Rightarrow> Some (c, res, True)
      | RV_Text raw \<Rightarrow> (case message_price raw of
            Inl e \<Rightarrow> Some (c, res, True)
          | Inr None \<Rightarrow> poll_loop deadline n ts res c
          | Inr (Some (coin, x)) \<Rightarrow> poll_loop deadline n ts (dset coin x res) (update_coin_record (po_now t) coin x c)))"

text \<open>\<open>opened\<close>: whether the connection and the subscriptions went through. An error adds one incident.\<close>

definition poll_once :: "bool \<Rightarrow> num \<Rightarrow> PollTurn list \<Rightarrow> CoinPriceClient \<Rightarrow> (CoinPriceClient \<times> (string, num) dict \<times> bool) option" where
  "poll_once opened started ts c =
     (if kc_coins c = [] then Some (c, [], False)
      else if \<not> opened then Some (c, [], True)
      else poll_loop (fadd started 3) (length (kc_coins c)) ts [] c)"

section \<open>The persistent connection\<close>

record FeedTurn =
  fe_clock :: num
  fe_sent :: bool
  fe_now :: usec
  fe_received :: Received

text \<open>The turns of a connection: it subscribes again when the interval is over, then waits for a message. It
  ends with \<^verbatim>\<open>True\<close> when the client was stopped and with \<^verbatim>\<open>False\<close> when something raised.\<close>

fun persistent_loop :: "num \<Rightarrow> num \<Rightarrow> FeedTurn list \<Rightarrow> nat \<Rightarrow> CoinPriceClient \<Rightarrow> (CoinPriceClient \<times> nat \<times> bool) option" where
  "persistent_loop interval last_resub [] n c = None"
| "persistent_loop interval last_resub (t # ts) n c =
     (if \<not> kc_running c then Some (c, n, True)
      else let due = (interval \<le> fsub (fe_clock t) last_resub)
      in if due \<and> \<not> fe_sent t then Some (c, n, False)
         else let last' = (if due then fe_clock t else last_resub); n' = (if due then Suc n else n)
         in case fe_received t of
              RV_Timeout \<Rightarrow> persistent_loop interval last' ts n' c
            | RV_Blank \<Rightarrow> persistent_loop interval last' ts n' c
            | RV_Closed \<Rightarrow> Some (c, n', False)
            | RV_Error \<Rightarrow> Some (c, n', False)
            | RV_Text raw \<Rightarrow> (case feed_message (fe_now t) raw c of
                (c', Inl e) \<Rightarrow> Some (c', n', False)
              | (c', Inr _) \<Rightarrow> persistent_loop interval last' ts n' c'))"

text \<open>One connection of \<^verbatim>\<open>run_forever\<close>: \<open>None\<close> is a refused one. The wait behind a failure grows to ten seconds.\<close>

definition run_connection :: "num \<Rightarrow> FeedTurn list option \<Rightarrow> int \<Rightarrow> CoinPriceClient \<Rightarrow> (CoinPriceClient \<times> int \<times> int) option" where
  "run_connection interval conn fail_count c =
     (let failed = (\<lambda>c. (c\<lparr>kc_reconnect_count := kc_reconnect_count c + 1\<rparr>, fail_count + 1,
            if kc_running c then reconnect_wait (fail_count + 1) else 0))
      in if kc_coins c = [] then Some (c, 0, 1)
         else case conn of
           None \<Rightarrow> Some (failed c)
         | Some ts \<Rightarrow> (case persistent_loop interval 0 ts 0 c of
             None \<Rightarrow> None
           | Some (c', _, ended) \<Rightarrow> Some (if ended then (c', 0, 0) else failed c')))"

section \<open>Health\<close>

text \<open>The incidents on top of those the loops have left: the coins without a usable price.\<close>

definition coin_incidents :: "usec \<Rightarrow> CoinPriceClient \<Rightarrow> CoinPriceClient \<times> (string \<times> CoinPriceStatus) list" where
  "coin_incidents now c = (let rs = map (\<lambda>(k, r). (k, coin_check_freshness now r)) (kc_records c)
     in (c\<lparr>kc_records := rs\<rparr>, map (\<lambda>(k, r). (k, k_status r)) (filter (\<lambda>(k, r). k_status r = CP_STALE \<or> k_status r = CP_WAITING) rs)))"

section \<open>Properties\<close>

definition poll_ok :: "(string, num) dict \<Rightarrow> CoinPriceClient \<Rightarrow> bool" where
  "poll_ok res c \<longleftrightarrow> (\<forall>coin x. dget res coin = Some x \<longrightarrow> PRICE_MIN \<le> x \<and> x \<le> PRICE_MAX \<and>
     (\<exists>r. dget (kc_records c) coin = Some r \<and> k_usd_price r = x \<and> k_status r = CP_FRESH))"

lemma poll_loop_ok:
  assumes "poll_loop deadline n ts res c = Some (c', res', failed)" and "poll_ok res c" and "coins_ok c"
  shows "poll_ok res' c' \<and> coins_ok c'"
  using assms
proof (induction ts arbitrary: res c)
  case (Cons t ts)
  show ?case
  proof (cases "n \<le> length res \<or> deadline \<le> po_clock t")
    case False
    note run = Cons.prems(1) [simplified, unfolded if_not_P [OF False [unfolded not_le]]]
    show ?thesis
    proof (cases "po_received t")
      case (RV_Text raw)
      show ?thesis
      proof (cases "message_price raw")
        case (Inr p)
        show ?thesis
        proof (cases p)
          case (Some kx)
          obtain coin x where kx: "kx = (coin, x)" by (cases kx)
          let ?c = "update_coin_record (po_now t) coin x c"
          have x: "PRICE_MIN \<le> x" "x \<le> PRICE_MAX" using message_price_valid Inr Some kx by auto
          have "poll_ok (dset coin x res) ?c"
            using Cons.prems(2) x by (auto simp: poll_ok_def update_coin_record_def Let_def)
          moreover have "coins_ok ?c" using Cons.prems(3) x by (rule update_coin_record_ok)
          ultimately show ?thesis
            using Cons.IH [of "dset coin x res" ?c] Cons.prems(1) False RV_Text Inr Some kx by simp
        qed (use Cons False RV_Text Inr in auto)
      qed (use Cons False RV_Text in auto)
    qed (use Cons False in auto)
  qed (use Cons in auto)
qed simp

lemma poll_loop_ends:
  "\<exists>t \<in> set ts. deadline \<le> po_clock t \<Longrightarrow> poll_loop deadline n ts res c \<noteq> None"
proof (induction ts arbitrary: res c)
  case (Cons t ts)
  show ?case
  proof (cases "n \<le> length res \<or> deadline \<le> po_clock t")
    case False
    then have "poll_loop deadline n ts res' c' \<noteq> None" for res' c' using Cons by auto
    with False show ?thesis by (auto split: Received.split option.split sum.split)
  qed auto
qed simp

text \<open>A batch poll: as soon as the clock passes three seconds it has returned, and what it returns are the valid
  prices it has received, each of them now the fresh price in the record of its coin. An error on the way
  loses none of the prices that came before.\<close>

theorem poll_exact:
  assumes "coins_ok c" and "\<exists>t \<in> set ts. fadd started 3 \<le> po_clock t"
  shows "\<exists>c' res failed. poll_once opened started ts c = Some (c', res, failed) \<and> coins_ok c' \<and>
    (\<forall>coin x. dget res coin = Some x \<longrightarrow> PRICE_MIN \<le> x \<and> x \<le> PRICE_MAX \<and>
       (\<exists>r. dget (kc_records c') coin = Some r \<and> k_usd_price r = x \<and> k_status r = CP_FRESH))"
proof (cases "kc_coins c = [] \<or> \<not> opened")
  case True
  with assms(1) show ?thesis by (auto simp: poll_once_def)
next
  case False
  obtain c' res failed where run: "poll_loop (fadd started 3) (length (kc_coins c)) ts [] c = Some (c', res, failed)"
    using poll_loop_ends [OF assms(2), of "length (kc_coins c)" "[]" c] by auto
  have "poll_ok [] c" by (simp add: poll_ok_def)
  from poll_loop_ok [OF run this assms(1)] show ?thesis
    using run False by (auto simp: poll_once_def poll_ok_def)
qed

text \<open>A connection that is refused or breaks is counted and followed by a wait of at most ten seconds; the sound
  prices survive it, and a connection that is stopped in order resets the wait.\<close>

theorem reconnect_exact:
  assumes "run_connection interval conn fail_count c = Some (c', fails, wait)" and "coins_ok c" and "0 \<le> fail_count"
  shows "coins_ok c' \<and> 0 \<le> wait \<and> wait \<le> 10 \<and>
    (if fails = 0 then kc_reconnect_count c' = kc_reconnect_count c
     else fails = fail_count + 1 \<and> kc_reconnect_count c' = kc_reconnect_count c + 1 \<and>
       wait = (if kc_running c' then min (2 * fails) 10 else 0))"
proof -
  have loop: "coins_ok d' \<and> kc_reconnect_count d' = kc_reconnect_count d"
    if "persistent_loop interval lst ts n d = Some (d', m, b)" "coins_ok d" for lst ts n d d' m b
    using that
  proof (induction ts arbitrary: lst n d)
    case (Cons t ts)
    have fed: "coins_ok e \<and> kc_reconnect_count e = kc_reconnect_count d" if "feed_message now raw d = (e, r)" for now raw e r
    proof -
      have "coins_ok e" using feed_message_ok [OF Cons.prems(2), of now raw] that by simp
      with that show ?thesis
        by (auto simp: feed_message_price update_coin_record_def Let_def split: sum.splits option.splits)
    qed
    from Cons.prems show ?case
      by (auto simp: Let_def split: if_splits Received.splits prod.splits sum.splits dest: Cons.IH fed)
        (use Cons.IH fed in fastforce)+
  qed simp
  show ?thesis
    using assms(1,2,3) by (auto simp: run_connection_def reconnect_wait_def Let_def coins_ok_def split: if_splits option.splits prod.splits
        dest!: loop)
qed

lemma price_min_pos: "0 < PRICE_MIN"
proof -
  have "binary64 (1 / 131072)"
    unfolding binary64_def by (rule exI [of _ 1], rule exI [of _ "-17"]) (simp add: power_int_def power_divide)
  then have "1 / 131072 \<le> PRICE_MIN" unfolding PRICE_MIN_def lit_def by (intro fl_ge) simp_all
  then show ?thesis by simp
qed

text \<open>The health page lists exactly the coins whose price a reader would get as 0.\<close>

theorem coin_incidents_exact:
  assumes "coins_ok c" and "wf_dict (kc_records c)" and "dget (kc_records c) coin = Some r"
  shows "coin \<in> fst ` set (snd (coin_incidents now c)) \<longleftrightarrow> snd (get_usd_price now coin c) = 0 \<and> k_status r \<noteq> CP_INVALID"
proof -
  have mem: "(k, r') \<in> set (kc_records c) \<longleftrightarrow> dget (kc_records c) k = Some r'" for k r'
    using wf_dget_iff [OF assms(2)] by metis
  let ?due = "\<lambda>r. k_status (coin_check_freshness now r) = CP_STALE \<or> k_status (coin_check_freshness now r) = CP_WAITING"
  have "fst ` set (snd (coin_incidents now c)) = {k. \<exists>r. (k, r) \<in> set (kc_records c) \<and> ?due r}"
    by (force simp: coin_incidents_def Let_def image_iff)
  then have "coin \<in> fst ` set (snd (coin_incidents now c)) \<longleftrightarrow> ?due r"
    using assms(3) unfolding mem by simp
  moreover have "0 < PRICE_MIN" by (rule price_min_pos)
  moreover have "coin_ok r" using assms(1,3) by (simp add: coins_ok_def)
  ultimately show ?thesis
    using assms(3) by (cases "k_status r") (auto simp: get_usd_price_def coin_get_price_def Let_def coin_check_freshness_def coin_ok_def split: if_splits)
qed

definition example_turn :: "num \<Rightarrow> num \<Rightarrow> SlotTurn" where
  "example_turn t u = \<lparr>tn_head = t, tn_rounds = [\<lparr>sn_head = t, sn_result = failed_scan, sn_after = u, sn_stopped = False\<rparr>], tn_end = u\<rparr>"

definition example_slot_loop :: DiscoveryLoop where
  "example_slot_loop = \<lparr>dl_retry_schedule = DISCOVERY_RETRY_SCHEDULE, dl_retry_steady = DISCOVERY_RETRY_STEADY, dl_current_slot = 0,
     dl_events_found = 0, dl_scan_count = 0, dl_retry_count = 0\<rparr>"

lemma example_slots [simp]: "slot_start_of 1700000110 = 1700000100" "slot_start_of 1700000400 = 1700000400"
  "slot_start_of 1700000710 = 1700000700" "slot_start_of 1700001000 = 1700001000"
  "slot_remaining 1700000400 = 300"
  by (simp_all add: slot_start_of_def SLOT_SECONDS_def py_int_def slot_remaining_def fsub_def fl_numeral)

lemma example_clock: "binary64 1700000400" "binary64 1700001000"
  by (simp_all add: binary64_iff fl_numeral)

theorem empty_slot_skips_the_next_witness:
  "\<exists>d' wait. slot_turn (example_turn 1700000110 1700000400) example_slot_loop = Some (d', [], wait) \<and>
     1700000100 + 2 * SLOT_SECONDS \<le> slot_start_of (1700000400 + wait)"
proof -
  let ?t = "example_turn 1700000110 1700000400"
  obtain d' wait where t: "slot_turn ?t example_slot_loop = Some (d', [], wait)"
    by (simp add: slot_turn_def example_turn_def failed_scan_def Let_def)
  have "slot_start_of (tn_head ?t) + 2 * SLOT_SECONDS \<le> slot_start_of (1700000400 + wait)"
    by (rule empty_slot_skips_the_next [OF t]) (simp_all add: example_turn_def example_clock)
  then show ?thesis using t by (simp add: example_turn_def)
qed

theorem slots_grow_witness:
  "\<exists>d' a b. slot_turns [example_turn 1700000110 1700000400, example_turn 1700000710 1700001000] example_slot_loop = Some (d', [a, b]) \<and> a + SLOT_SECONDS \<le> b"
proof -
  let ?ts = "[example_turn 1700000110 1700000400, example_turn 1700000710 1700001000]"
  obtain d' a b where run: "slot_turns ?ts example_slot_loop = Some (d', [a, b])"
    by (simp add: slot_turn_def example_turn_def failed_scan_def Let_def)
  have "turns_timed 1700000110 ?ts" by (simp add: example_turn_def example_clock)
  from slots_grow [OF run this] run show ?thesis by simp
qed

definition example_polled :: CoinPriceClient where
  "example_polled = example_client\<lparr>kc_coins := [''BTC'', ''ETH''], kc_records := [(''BTC'', new_coin_price ''BTC'' 15)]\<rparr>"

lemma example_polled_ok: "coins_ok example_polled" "wf_dict (kc_records example_polled)"
  by (simp_all add: example_polled_def coins_ok_def new_coin_ok wf_dict_def)

definition example_poll :: "PollTurn list" where
  "example_poll = [\<lparr>po_clock = 1, po_now = 1000000, po_received = RV_Text (Some example_tick)\<rparr>,
     \<lparr>po_clock = 4, po_now = 4000000, po_received = RV_Timeout\<rparr>]"

theorem poll_exact_witness:
  "\<exists>c' res failed. poll_once True 1 example_poll example_polled = Some (c', res, failed) \<and> coins_ok c'"
proof -
  have "\<exists>t \<in> set example_poll. fadd 1 3 \<le> po_clock t" by (simp add: example_poll_def fadd_def fl_numeral)
  from poll_exact [OF example_polled_ok(1) this, of True] show ?thesis by blast
qed

theorem reconnect_exact_witness:
  "\<exists>c' fails wait. run_connection 1 None 3 example_polled = Some (c', fails, wait) \<and> fails = 4 \<and> kc_reconnect_count c' = 1"
proof -
  obtain c' fails wait where run: "run_connection 1 None 3 example_polled = Some (c', fails, wait)" and f: "fails \<noteq> 0"
    by (simp add: run_connection_def example_polled_def Let_def)
  have "kc_reconnect_count example_polled = 0" by (simp add: example_polled_def example_client_def)
  with reconnect_exact [OF run example_polled_ok(1)] run f show ?thesis by simp
qed

theorem coin_incidents_exact_witness: "''BTC'' \<in> fst ` set (snd (coin_incidents 0 example_polled))"
proof -
  have g: "dget (kc_records example_polled) ''BTC'' = Some (new_coin_price ''BTC'' 15)" by (simp add: example_polled_def)
  have "snd (get_usd_price 0 ''BTC'' example_polled) = 0" "k_status (new_coin_price ''BTC'' 15) \<noteq> CP_INVALID"
    using g by (simp_all add: get_usd_price_def coin_get_price_def coin_check_freshness_def new_coin_price_def Let_def)
  with coin_incidents_exact [OF example_polled_ok g, of 0] show ?thesis by blast
qed

end
